(* ===== verification/Net_Prelude.thy ===== *)
theory Net_Prelude
  imports Main "HOL-Library.Word" "HOL-Library.Monad_Syntax"
begin

text \<open>
  Shared vocabulary of the development: the widths of the machine integers the library
  uses, the operations of \<open>std::string\<close> and of the decimal and hexadecimal stream
  inserters and extractors that the components call, and the generic lemmas about them.

  Conventions. A \<open>std::string\<close> is a \<open>string\<close> (one \<open>char\<close> per byte); a position
  that may be \<open>std::string::npos\<close> is a \<open>nat option\<close>. A function whose C++ body can
  run into a failing \<open>ACE_ASSERT\<close>, read outside a container or dereference a null pointer
  has a result of type \<open>'a run\<close>: \<open>Inl\<close> is the fault, \<open>Inr\<close> the value returned. An error
  the code reports to its caller is the value the code returns.
\<close>

unbundle bit_operations_syntax

named_theorems net_simps \<open>defining equations that component proofs unfold\<close>

type_synonym byte = "8 word"
type_synonym u16 = "16 word"
type_synonym u32 = "32 word"
type_synonym u64 = "64 word"

section \<open>Machine integers\<close>

lemma unat_less_32: "unat (w :: u32) < 2 ^ 32"
  by (rule order.strict_trans2 [OF unsigned_less]) simp

lemma unat_add_no_wrap:
  fixes a b :: "'a::len word"
  shows "unat a + unat b < 2 ^ LENGTH('a) \<Longrightarrow> unat (a + b) = unat a + unat b"
  by (simp add: unat_word_ariths)

lemma unat_of_nat_u32: "n < 2 ^ 32 \<Longrightarrow> unat (word_of_nat n :: u32) = n"
  by (simp add: unat_of_nat)

lemma word_countdown:
  "unat k = Suc n \<Longrightarrow> k \<noteq> 0 \<and> unat (k - 1) = n \<and> (k - 1 = 0 \<longleftrightarrow> n = 0)"
  by (metis diff_Suc_1 unat_0 unat_eq_0 unat_minus_one nat.distinct(1))

section \<open>Faults\<close>

datatype fault = Assertion_failed | Out_of_bounds | Null_dereference

type_synonym 'a run = "fault + 'a"

definition run_bind :: "'a run \<Rightarrow> ('a \<Rightarrow> 'b run) \<Rightarrow> 'b run" where
  "run_bind m f = (case m of Inl e \<Rightarrow> Inl e | Inr x \<Rightarrow> f x)"

definition ace_assert :: "bool \<Rightarrow> unit run" where
  "ace_assert b = (if b then Inr () else Inl Assertion_failed)"

lemma run_bind_simps [simp]:
  "run_bind (Inr x) f = f x"
  "run_bind (Inl e) f = Inl e"
  by (simp_all add: run_bind_def)

lemma run_bind_Inr_iff [simp]:
  "run_bind m f = Inr y \<longleftrightarrow> (\<exists>x. m = Inr x \<and> f x = Inr y)"
  by (cases m) auto

lemma ace_assert_simps [simp]:
  "ace_assert True = Inr ()"
  "ace_assert False = Inl Assertion_failed"
  "ace_assert b = Inr u \<longleftrightarrow> b"
  by (simp_all add: ace_assert_def)

lemma run_bind_assoc: "run_bind (run_bind m f) g = run_bind m (\<lambda>x. run_bind (f x) g)"
  by (cases m) auto

fun run_fold :: "('a \<Rightarrow> 's \<Rightarrow> 's run) \<Rightarrow> 'a list \<Rightarrow> 's \<Rightarrow> 's run" where
  "run_fold f [] s = Inr s"
| "run_fold f (x # xs) s = run_bind (f x s) (run_fold f xs)"

lemma run_bind_cong: "m = m' \<Longrightarrow> (\<And>x. m' = Inr x \<Longrightarrow> f x = g x) \<Longrightarrow> run_bind m f = run_bind m' g"
  by (cases m') auto

lemma run_fold_cong [fundef_cong]:
  "xs = ys \<Longrightarrow> s = t \<Longrightarrow> (\<And>x s. x \<in> set ys \<Longrightarrow> f x s = g x s) \<Longrightarrow> run_fold f xs s = run_fold g ys t"
  by (induction xs arbitrary: ys s t) (auto intro!: run_bind_cong)

section \<open>Bytes and characters\<close>

abbreviation byte_of_char :: "char \<Rightarrow> byte" where
  "byte_of_char c \<equiv> word_of_nat (of_char c)"

definition char_code :: "char \<Rightarrow> nat" where
  "char_code c = of_char c"

definition char_at :: "nat \<Rightarrow> char" where
  "char_at n = char_of n"

lemma char_code_less [simp]: "char_code c < 256"
  by (simp add: char_code_def)

lemma char_at_code [simp]: "char_at (char_code c) = c"
  by (simp add: char_code_def char_at_def)

lemma char_code_at [simp]: "n < 256 \<Longrightarrow> char_code (char_at n) = n"
  by (simp add: char_code_def char_at_def)

lemma char_code_inject [simp]: "char_code c = char_code d \<longleftrightarrow> c = d"
  by (metis char_at_code)

section \<open>Character classes of the classic locale\<close>

definition is_digit :: "char \<Rightarrow> bool" where
  "is_digit c \<longleftrightarrow> 48 \<le> char_code c \<and> char_code c \<le> 57"

definition is_upper :: "char \<Rightarrow> bool" where
  "is_upper c \<longleftrightarrow> 65 \<le> char_code c \<and> char_code c \<le> 90"

definition is_lower :: "char \<Rightarrow> bool" where
  "is_lower c \<longleftrightarrow> 97 \<le> char_code c \<and> char_code c \<le> 122"

definition is_alpha :: "char \<Rightarrow> bool" where
  "is_alpha c \<longleftrightarrow> is_upper c \<or> is_lower c"

definition is_alnum :: "char \<Rightarrow> bool" where
  "is_alnum c \<longleftrightarrow> is_alpha c \<or> is_digit c"

definition is_xdigit :: "char \<Rightarrow> bool" where
  "is_xdigit c \<longleftrightarrow> is_digit c \<or> (65 \<le> char_code c \<and> char_code c \<le> 70)
     \<or> (97 \<le> char_code c \<and> char_code c \<le> 102)"

definition to_upper :: "char \<Rightarrow> char" where
  "to_upper c = (if is_lower c then char_at (char_code c - 32) else c)"

definition to_lower :: "char \<Rightarrow> char" where
  "to_lower c = (if is_upper c then char_at (char_code c + 32) else c)"

lemmas char_class_defs =
  is_digit_def is_upper_def is_lower_def is_alpha_def is_alnum_def is_xdigit_def

section \<open>Positions in strings\<close>

text \<open>A separator that does not occur in the prefixes determines the split.\<close>

lemma append_sep_eq:
  "c \<notin> set a \<Longrightarrow> c \<notin> set b \<Longrightarrow> a @ c # s = b @ c # t \<longleftrightarrow> a = b \<and> s = t"
proof (induction a arbitrary: b)
  case Nil
  then show ?case by (cases b) auto
next
  case (Cons x a)
  then show ?case by (cases b) auto
qed

text \<open>\<open>std::string::find\<close>: the first position at or after \<open>pos\<close> where \<open>pat\<close> starts.\<close>

fun find_from :: "string \<Rightarrow> string \<Rightarrow> nat \<Rightarrow> nat option" where
  "find_from pat [] pos = (if pat = [] \<and> pos = 0 then Some 0 else None)"
| "find_from pat (c # s) pos =
     (if pos = 0 \<and> take (length pat) (c # s) = pat then Some 0
      else map_option Suc (find_from pat s (pos - 1)))"

text \<open>\<open>std::string::find_last_of\<close> for a single character.\<close>

fun find_last_char :: "char \<Rightarrow> string \<Rightarrow> nat option" where
  "find_last_char d [] = None"
| "find_last_char d (c # s) =
     (case find_last_char d s of Some i \<Rightarrow> Some (Suc i)
      | None \<Rightarrow> if c = d then Some 0 else None)"

text \<open>\<open>std::string::replace (pos, n, r)\<close> at a position inside the string.\<close>

definition str_replace :: "string \<Rightarrow> nat \<Rightarrow> nat \<Rightarrow> string \<Rightarrow> string" where
  "str_replace s pos n r = take pos s @ r @ drop (pos + n) s"

lemma find_last_char_None: "find_last_char d s = None \<longleftrightarrow> d \<notin> set s"
  by (induction s) (auto split: option.splits)

lemma find_last_char_append:
  "d \<notin> set t \<Longrightarrow> find_last_char d (s @ d # t) = Some (length s)"
proof (induction s)
  case Nil
  then have "find_last_char d t = None" by (simp add: find_last_char_None)
  then show ?case by simp
qed simp

lemma find_last_char_SomeD:
  "find_last_char d s = Some i \<Longrightarrow>
     i < length s \<and> s ! i = d \<and> d \<notin> set (drop (Suc i) s)"
  by (induction s arbitrary: i)
     (auto split: option.splits if_splits simp: find_last_char_None)

lemma find_from_SomeD:
  "find_from pat s pos = Some i \<Longrightarrow>
     pos \<le> i \<and> i + length pat \<le> length s \<and> take (length pat) (drop i s) = pat"
proof (induction pat s pos arbitrary: i rule: find_from.induct)
  case (1 pat pos)
  then show ?case by (auto split: if_splits)
next
  case (2 pat c s pos)
  show ?case
  proof (cases "pos = 0 \<and> take (length pat) (c # s) = pat")
    case True
    then have "length pat \<le> length (c # s)"
      by (metis length_take min.cobounded1)
    with True 2 show ?thesis by auto
  next
    case False
    with 2 obtain j where "find_from pat s (pos - 1) = Some j" "i = Suc j"
      by auto
    with 2 False show ?thesis by force
  qed
qed

lemma find_from_here:
  "pos \<le> length s \<Longrightarrow>
     find_from pat s pos = Some pos \<longleftrightarrow> take (length pat) (drop pos s) = pat"
proof (induction pat s pos rule: find_from.induct)
  case (1 pat pos)
  then show ?case by auto
next
  case (2 pat c s pos)
  then show ?case by (cases pos) auto
qed

section \<open>Decimal and hexadecimal numerals\<close>

definition digit_char :: "nat \<Rightarrow> char" where
  "digit_char d = char_at (48 + d)"

definition digit_value :: "char \<Rightarrow> nat" where
  "digit_value c = char_code c - 48"

text \<open>\<open>ostringstream << n\<close> for an unsigned integer.\<close>

fun show_dec :: "nat \<Rightarrow> string" where
  "show_dec n = (if n < 10 then [digit_char n] else show_dec (n div 10) @ [digit_char (n mod 10)])"

declare show_dec.simps [simp del]

definition dec_value :: "string \<Rightarrow> nat" where
  "dec_value s = foldl (\<lambda>a c. a * 10 + digit_value c) 0 s"

text \<open>
  \<open>istringstream >> n\<close> for an unsigned integer of \<open>w\<close> bits: the longest prefix of digits;
  nothing extracted leaves 0, a value out of range leaves the largest value of the type.
\<close>

definition extract_unsigned :: "nat \<Rightarrow> string \<Rightarrow> nat" where
  "extract_unsigned w s = min (dec_value (takeWhile is_digit s)) (2 ^ w - 1)"

lemma char_at_eqI: "char_code c = n \<Longrightarrow> char_at n = c"
  by auto

text \<open>Evaluation of numerals on closed terms.\<close>

lemma digit_char_values [simp]:
  "digit_char 0 = CHR ''0''" "digit_char 1 = CHR ''1''" "digit_char (Suc 0) = CHR ''1''"
  "digit_char 2 = CHR ''2''" "digit_char 3 = CHR ''3''" "digit_char 4 = CHR ''4''"
  "digit_char 5 = CHR ''5''" "digit_char 6 = CHR ''6''" "digit_char 7 = CHR ''7''"
  "digit_char 8 = CHR ''8''" "digit_char 9 = CHR ''9''"
  unfolding digit_char_def by (rule char_at_eqI, simp add: char_code_def)+

lemma digit_char_is_digit [simp]: "d < 10 \<Longrightarrow> is_digit (digit_char d)"
  by (simp add: is_digit_def digit_char_def)

lemma digit_value_char [simp]: "d < 10 \<Longrightarrow> digit_value (digit_char d) = d"
  by (simp add: digit_value_def digit_char_def)

lemma dec_value_snoc [simp]: "dec_value (s @ [c]) = dec_value s * 10 + digit_value c"
  by (simp add: dec_value_def)

lemma dec_value_single [simp]: "dec_value [c] = digit_value c"
  by (simp add: dec_value_def)

lemma dec_value_show [simp]: "dec_value (show_dec n) = n"
proof (induction n rule: show_dec.induct)
  case (1 n)
  then show ?case by (cases "n < 10") (simp_all add: show_dec.simps [of n])
qed

lemma show_dec_digits: "c \<in> set (show_dec n) \<Longrightarrow> is_digit c"
proof (induction n rule: show_dec.induct)
  case (1 n)
  then show ?case by (cases "n < 10") (auto simp: show_dec.simps [of n])
qed

lemma show_dec_not_Nil [simp]: "show_dec n \<noteq> []"
  by (cases "n < 10") (simp_all add: show_dec.simps [of n])

lemma show_dec_inject [simp]: "show_dec m = show_dec n \<longleftrightarrow> m = n"
  by (metis dec_value_show)

lemma length_show_dec: "n < 10 ^ Suc k \<Longrightarrow> length (show_dec n) \<le> Suc k"
proof (induction k arbitrary: n)
  case 0
  then show ?case by (simp add: show_dec.simps)
next
  case (Suc k)
  show ?case
  proof (cases "n < 10")
    case True
    then show ?thesis by (simp add: show_dec.simps)
  next
    case False
    have "n div 10 < 10 ^ Suc k" using Suc.prems by (simp add: less_mult_imp_div_less)
    with Suc.IH False show ?thesis by (simp add: show_dec.simps [of n])
  qed
qed

lemma length_show_dec_mono: "m \<le> n \<Longrightarrow> length (show_dec m) \<le> length (show_dec n)"
proof (induction n arbitrary: m rule: less_induct)
  case (less n)
  show ?case
  proof (cases "m < 10")
    case True
    then show ?thesis
      by (simp add: show_dec.simps [of m] Suc_le_eq)
  next
    case False
    moreover have "m div 10 \<le> n div 10"
      using less.prems by (rule div_le_mono)
    moreover have "\<not> n < 10"
      using False less.prems by simp
    ultimately show ?thesis
      using less.IH [of "n div 10" "m div 10"] by (simp add: show_dec.simps [of m] show_dec.simps [of n])
  qed
qed

lemma takeWhile_show_dec [simp]: "takeWhile is_digit (show_dec n) = show_dec n"
  by (simp add: show_dec_digits)

lemma extract_show_dec:
  "n < 2 ^ w \<Longrightarrow> \<not> (\<exists>c t. r = c # t \<and> is_digit c) \<Longrightarrow>
     extract_unsigned w (show_dec n @ r) = n"
proof -
  assume n: "n < 2 ^ w" and r: "\<not> (\<exists>c t. r = c # t \<and> is_digit c)"
  have "takeWhile is_digit (show_dec n @ r) = show_dec n"
    using r by (cases r) (auto simp: takeWhile_append show_dec_digits)
  with n show ?thesis by (simp add: extract_unsigned_def)
qed

text \<open>Two lower-case hexadecimal digits, as \<open>std::hex << std::setw (2) << std::setfill ('0')\<close>.\<close>

definition hex_digit :: "nat \<Rightarrow> char" where
  "hex_digit d = (if d < 10 then char_at (48 + d) else char_at (87 + d))"

definition hex2 :: "nat \<Rightarrow> string" where
  "hex2 n = [hex_digit (n div 16), hex_digit (n mod 16)]"

definition xdigit_value :: "char \<Rightarrow> nat" where
  "xdigit_value c = (if is_digit c then char_code c - 48 else char_code (to_upper c) - 65 + 10)"

lemma hex_digit_is_xdigit [simp]: "d < 16 \<Longrightarrow> is_xdigit (hex_digit d)"
  by (auto simp: hex_digit_def char_class_defs)

lemma xdigit_value_hex [simp]: "d < 16 \<Longrightarrow> xdigit_value (hex_digit d) = d"
  by (auto simp: hex_digit_def xdigit_value_def char_class_defs to_upper_def)

lemma to_upper_hex_is_xdigit [simp]: "d < 16 \<Longrightarrow> is_xdigit (to_upper (hex_digit d))"
  by (auto simp: hex_digit_def char_class_defs to_upper_def)

lemma xdigit_value_upper_hex [simp]: "d < 16 \<Longrightarrow> xdigit_value (to_upper (hex_digit d)) = d"
  by (auto simp: hex_digit_def xdigit_value_def char_class_defs to_upper_def)

section \<open>Enumerations and their names\<close>

text \<open>
  Most protocol components convert an enumeration to its textual name by a \<open>switch\<close> and
  back by a chain of comparisons or a table. The contract such a pair keeps on the
  enumerators that are valid on the wire, and what every client may conclude from it.
\<close>

locale name_codec =
  fixes to_name :: "'e \<Rightarrow> string"
    and of_name :: "string \<Rightarrow> 'e"
    and valid :: "'e \<Rightarrow> bool"
  assumes of_to_name: "valid e \<Longrightarrow> of_name (to_name e) = e"
    and of_name_sound: "valid (of_name s) \<Longrightarrow> to_name (of_name s) = s"
begin

lemma to_name_inject: "valid d \<Longrightarrow> valid e \<Longrightarrow> to_name d = to_name e \<longleftrightarrow> d = e"
  by (metis of_to_name)

lemma recognised_iff: "valid (of_name s) \<longleftrightarrow> (\<exists>e. valid e \<and> to_name e = s)"
  by (metis of_to_name of_name_sound)

lemma unknown_invalid: "(\<forall>e. valid e \<longrightarrow> to_name e \<noteq> s) \<Longrightarrow> \<not> valid (of_name s)"
  by (metis of_name_sound)

end

end
