(* ===== verification/Bittorrent_Pieces.thy ===== *)
theory Bittorrent_Pieces
  imports Net_Prelude
begin

text \<open>
  Piece and chunk accounting of the BitTorrent peer protocol
  (\<open>src/protocol/p2p/bittorrent\<close>): the structures of \<open>bittorrent_common.h\<close> and the
  operations of \<open>BitTorrent_Tools\<close> that decide which data of a torrent has arrived, which
  blocks are still to be requested from a peer, and how overlapping blocks are merged.

  The payload of a chunk is an \<open>ACE_Message_Block\<close> chain. It is represented by the list of
  the byte ranges between \<open>rd_ptr\<close> and \<open>wr_ptr\<close> of its continuations; the empty list is the
  null pointer, \<open>cont\<close> is the tail, \<open>length\<close> the length of the head, and \<open>rd_ptr (n)\<close> drops
  \<open>n\<close> bytes from the front of a block.
\<close>

section \<open>Data\<close>

record chunk =
  chunk_data :: "byte list list"
  chunk_offset :: u32

record piece =
  piece_chunks :: "chunk list"
  piece_filename :: string
  piece_hash :: "byte list"
  piece_length :: u32
  piece_onDisk :: bool

record request =
  req_begin :: u32
  req_length :: u32

definition BLOCK_LENGTH_MAX :: u32 where
  "BLOCK_LENGTH_MAX = 16384"

definition total_length :: "byte list list \<Rightarrow> nat" where
  "total_length bs = sum_list (map length bs)"

definition bittorrent_piece_chunks_less :: "chunk \<Rightarrow> chunk \<Rightarrow> bool" where
  "bittorrent_piece_chunks_less l r =
     (if chunk_offset l \<noteq> chunk_offset r then chunk_offset l < chunk_offset r
      else total_length (chunk_data l) > total_length (chunk_data r))"

section \<open>Operations of \<open>BitTorrent_Tools\<close>\<close>

definition chunkLength :: "chunk \<Rightarrow> u32" where
  "chunkLength c = (if chunk_data c \<noteq> [] then word_of_nat (total_length (chunk_data c)) else 0)"

definition chunksLength :: "chunk list \<Rightarrow> u32" where
  "chunksLength cs = foldl (\<lambda>r c. r + chunkLength c) 0 cs"

fun isPieceComplete_loop :: "chunk list \<Rightarrow> u32 \<Rightarrow> u32 run" where
  "isPieceComplete_loop [] total_len = Inr total_len"
| "isPieceComplete_loop (c # cs) total_len =
     run_bind (ace_assert (chunk_data c \<noteq> [])) (\<lambda>_.
       isPieceComplete_loop cs (total_len + word_of_nat (total_length (chunk_data c))))"

definition isPieceComplete :: "u32 \<Rightarrow> chunk list \<Rightarrow> bool run" where
  "isPieceComplete len cs =
     run_bind (isPieceComplete_loop cs 0) (\<lambda>total_len. Inr (len = total_len))"

definition havePiece :: "u32 \<Rightarrow> byte list \<Rightarrow> bool run" where
  "havePiece index bitfield =
     (let array_index = unat (index div 8); array_offset = unat (index mod 8) in
      run_bind (ace_assert (length bitfield \<ge> array_index)) (\<lambda>_.
        if array_index < length bitfield
        then Inr (bitfield ! array_index AND drop_bit array_offset 0x80 \<noteq> 0)
        else Inl Out_of_bounds))"

fun hasMissingPiece_loop :: "piece list \<Rightarrow> u32 \<Rightarrow> byte list \<Rightarrow> bool run" where
  "hasMissingPiece_loop [] i bitfield = Inr False"
| "hasMissingPiece_loop (p # ps) i bitfield =
     (if piece_onDisk p then hasMissingPiece_loop ps (i + 1) bitfield
      else run_bind (isPieceComplete (piece_length p) (piece_chunks p)) (\<lambda>complete.
        if complete then hasMissingPiece_loop ps (i + 1) bitfield
        else run_bind (havePiece i bitfield) (\<lambda>have_it.
          if have_it then Inr True else hasMissingPiece_loop ps (i + 1) bitfield)))"

definition hasMissingPiece :: "piece list \<Rightarrow> byte list \<Rightarrow> bool run" where
  "hasMissingPiece ps bitfield = hasMissingPiece_loop ps 0 bitfield"

fun isMissingPiece :: "piece list \<Rightarrow> bool run" where
  "isMissingPiece [] = Inr False"
| "isMissingPiece (p # ps) =
     (if piece_onDisk p then isMissingPiece ps
      else run_bind (isPieceComplete (piece_length p) (piece_chunks p)) (\<lambda>complete.
        if complete then isMissingPiece ps else Inr True))"

fun getPieceIndexes_loop :: "piece list \<Rightarrow> bool \<Rightarrow> u32 \<Rightarrow> u32 list run" where
  "getPieceIndexes_loop [] getMissing index = Inr []"
| "getPieceIndexes_loop (p # ps) getMissing index =
     run_bind (if piece_onDisk p then Inr True
               else isPieceComplete (piece_length p) (piece_chunks p)) (\<lambda>is_complete.
     run_bind (getPieceIndexes_loop ps getMissing (index + 1)) (\<lambda>rest.
       Inr (if getMissing \<and> \<not> is_complete \<or> \<not> getMissing \<and> is_complete
            then index # rest else rest)))"

definition getPieceIndexes :: "piece list \<Rightarrow> bool \<Rightarrow> u32 list run" where
  "getPieceIndexes ps getMissing = getPieceIndexes_loop ps getMissing 0"

definition receivedBytes :: "piece list \<Rightarrow> u32" where
  "receivedBytes ps =
     foldl (\<lambda>r p. if piece_onDisk p then r + piece_length p
                  else foldl (\<lambda>r c. r + chunkLength c) r (piece_chunks p)) 0 ps"

text \<open>
  \<open>getMissingChunks\<close>: the \<open>while (missing_data)\<close> loop that cuts a gap into blocks of at most
  \<open>BITTORRENT_PEER_REQUEST_BLOCK_LENGTH_MAX\<close> bytes, and the walk over the chunks. The
  \<open>index\<close> member of the requests is left unassigned by the code and is not modelled.
\<close>

function request_blocks :: "u32 \<Rightarrow> u32 \<Rightarrow> request list \<times> u32" where
  "request_blocks offset missing =
     (if missing = 0 then ([], offset)
      else let len = min missing BLOCK_LENGTH_MAX;
               (rs, offset') = request_blocks (offset + len) (missing - len)
           in (\<lparr>req_begin = offset, req_length = len\<rparr> # rs, offset'))"
  by pat_completeness auto
termination
proof (relation "measure (\<lambda>(_, missing). unat missing)", goal_cases)
  case (2 offset missing len)
  have le: "len \<le> missing" using 2 by simp
  moreover have "0 < len"
    using 2 by (simp add: BLOCK_LENGTH_MAX_def word_gt_0 min_def)
  ultimately show ?case
    by (simp add: unat_sub word_le_nat_alt word_less_nat_alt)
qed simp

declare request_blocks.simps [simp del]

fun getMissingChunks_loop :: "chunk list \<Rightarrow> u32 \<Rightarrow> (request list \<times> u32) run" where
  "getMissingChunks_loop [] offset = Inr ([], offset)"
| "getMissingChunks_loop (c # cs) offset =
     (if chunk_offset c \<noteq> offset
      then run_bind (ace_assert (chunk_offset c > offset)) (\<lambda>_.
        let (rs, offset') = request_blocks offset (chunk_offset c - offset) in
        run_bind (getMissingChunks_loop cs offset') (\<lambda>(rs', offset'').
          Inr (rs @ rs', offset'')))
      else getMissingChunks_loop cs (chunk_offset c + chunkLength c))"

definition getMissingChunks :: "u32 \<Rightarrow> chunk list \<Rightarrow> request list run" where
  "getMissingChunks pieceLength cs =
     run_bind (getMissingChunks_loop cs 0) (\<lambda>(rs, offset).
       Inr (rs @ fst (request_blocks offset (pieceLength - offset))))"

text \<open>
  \<open>sanitizeChunks\<close>: \<open>std::sort\<close> by \<open>bittorrent_piece_chunks_less\<close> (insertion sort; chunks
  that compare equal keep their order, which \<open>std::sort\<close> leaves open), then one pass over
  neighbouring chunks. \<open>crop_last\<close> is the \<open>do ... while (overlap_i)\<close> loop.
\<close>

fun insert_chunk :: "chunk \<Rightarrow> chunk list \<Rightarrow> chunk list" where
  "insert_chunk c [] = [c]"
| "insert_chunk c (d # ds) =
     (if bittorrent_piece_chunks_less d c then d # insert_chunk c ds else c # d # ds)"

definition sort_chunks :: "chunk list \<Rightarrow> chunk list" where
  "sort_chunks cs = foldr insert_chunk cs []"

function crop_last :: "byte list list \<Rightarrow> u32 \<Rightarrow> (byte list list \<times> u32) run" where
  "crop_last bs overlap =
     (if bs = [] then Inl Null_dereference
      else if word_of_nat (length (last bs)) > overlap then Inr (bs, overlap)
      else let overlap' = overlap - word_of_nat (length (last bs)) in
        run_bind (ace_assert (butlast bs \<noteq> [])) (\<lambda>_.
          if overlap' \<noteq> 0 then crop_last (butlast bs) overlap'
          else Inr (butlast bs, overlap')))"
  by pat_completeness auto
termination by (relation "measure (\<lambda>(bs, _). length bs)") auto

declare crop_last.simps [simp del]

definition crop_chunk :: "chunk \<Rightarrow> u32 \<Rightarrow> chunk run" where
  "crop_chunk c overlap =
     (if overlap = 0 then Inr c
      else run_bind (crop_last (chunk_data c) overlap) (\<lambda>(bs, rest).
        Inr (c\<lparr>chunk_data :=
          (if rest \<noteq> 0 then butlast bs @ [drop (unat rest) (last bs)] else bs)\<rparr>)))"

definition chunk_overlap :: "chunk \<Rightarrow> chunk \<Rightarrow> u32" where
  "chunk_overlap c d =
     (let total_len = word_of_nat (total_length (chunk_data c)) in
      if chunk_offset c + total_len > chunk_offset d
      then chunk_offset c + total_len - chunk_offset d else 0)"

fun merge_chunks :: "chunk \<Rightarrow> chunk list \<Rightarrow> chunk list run" where
  "merge_chunks c [] = Inr [c]"
| "merge_chunks c (d # ds) =
     (if chunk_offset c = chunk_offset d
      then run_bind (ace_assert (chunk_data d \<noteq> [])) (\<lambda>_. merge_chunks c ds)
      else if chunk_data c = [] then Inl Null_dereference
      else run_bind (crop_chunk c (chunk_overlap c d)) (\<lambda>c'.
        run_bind (merge_chunks d ds) (\<lambda>rest. Inr (c' # rest))))"

definition sanitizeChunks :: "chunk list \<Rightarrow> chunk list run" where
  "sanitizeChunks cs =
     (case sort_chunks cs of [] \<Rightarrow> Inr [] | c # ds \<Rightarrow> merge_chunks c ds)"

section \<open>Requests for missing data\<close>

text \<open>
  \<open>tiles a b rs\<close>: the requests cut the byte range from \<open>a\<close> up to \<open>b\<close> into consecutive
  non-empty blocks of at most the maximal block length.
\<close>

fun tiles :: "nat \<Rightarrow> nat \<Rightarrow> request list \<Rightarrow> bool" where
  "tiles a b [] \<longleftrightarrow> a = b"
| "tiles a b (r # rs) \<longleftrightarrow>
     unat (req_begin r) = a \<and> 0 < unat (req_length r) \<and> req_length r \<le> BLOCK_LENGTH_MAX \<and>
     tiles (a + unat (req_length r)) b rs"

definition request_range :: "request \<Rightarrow> nat set" where
  "request_range r = {unat (req_begin r) ..< unat (req_begin r) + unat (req_length r)}"

definition chunk_end :: "chunk \<Rightarrow> nat" where
  "chunk_end c = unat (chunk_offset c) + total_length (chunk_data c)"

definition chunk_range :: "chunk \<Rightarrow> nat set" where
  "chunk_range c = {unat (chunk_offset c) ..< chunk_end c}"

text \<open>What \<open>sanitizeChunks\<close> leaves: strictly sorted, disjoint chunks inside the piece.\<close>

definition chunks_wf :: "u32 \<Rightarrow> chunk list \<Rightarrow> bool" where
  "chunks_wf plen cs \<longleftrightarrow>
     sorted_wrt (\<lambda>c d. chunk_offset c < chunk_offset d \<and> chunk_end c \<le> unat (chunk_offset d)) cs \<and>
     list_all (\<lambda>c. chunk_end c \<le> unat plen) cs"

text \<open>End of the gapless run of chunks that starts at \<open>offset\<close>.\<close>

fun prefix_end :: "u32 \<Rightarrow> chunk list \<Rightarrow> u32" where
  "prefix_end offset [] = offset"
| "prefix_end offset (c # cs) =
     (if chunk_offset c = offset then prefix_end (chunk_offset c + chunkLength c) cs else offset)"

lemma tiles_append: "tiles a b rs \<Longrightarrow> tiles b c ss \<Longrightarrow> tiles a c (rs @ ss)"
  by (induction rs arbitrary: a) auto

lemma tiles_le: "tiles a b rs \<Longrightarrow> a \<le> b"
  by (induction rs arbitrary: a) fastforce+

lemma tiles_union: "tiles a b rs \<Longrightarrow> (\<Union>r \<in> set rs. request_range r) = {a ..< b}"
proof (induction rs arbitrary: a)
  case (Cons r rs)
  then have "(\<Union>r \<in> set rs. request_range r) = {a + unat (req_length r) ..< b}"
    and "request_range r = {a ..< a + unat (req_length r)}"
    and "a + unat (req_length r) \<le> b"
    by (auto simp: request_range_def dest: tiles_le)
  then show ?case by (simp add: ivl_disj_un)
qed simp

lemma request_blocks_tiles:
  "unat offset + unat missing < 2 ^ 32 \<Longrightarrow>
     tiles (unat offset) (unat offset + unat missing) (fst (request_blocks offset missing)) \<and>
     snd (request_blocks offset missing) = offset + missing"
proof (induction offset missing rule: request_blocks.induct)
  case (1 offset missing)
  show ?case
  proof (cases "missing = 0")
    case True
    then show ?thesis by (simp add: request_blocks.simps)
  next
    case False
    define len where "len = min missing BLOCK_LENGTH_MAX"
    have len: "len \<le> missing" "0 < len" "len \<le> BLOCK_LENGTH_MAX"
      using False by (auto simp: len_def BLOCK_LENGTH_MAX_def word_gt_0 min_def)
    then have sub: "unat (missing - len) = unat missing - unat len" "unat len \<le> unat missing"
      by (simp_all add: unat_sub word_le_nat_alt)
    with 1 have off: "unat (offset + len) = unat offset + unat len"
      by (intro unat_add_no_wrap) simp
    obtain rs o' where rec: "request_blocks (offset + len) (missing - len) = (rs, o')"
      by force
    have "tiles (unat (offset + len)) (unat (offset + len) + unat (missing - len)) rs \<and>
        o' = offset + len + (missing - len)"
      using "1.IH" [OF False len_def] "1.prems" off sub rec by simp
    then show ?thesis
      using False len off sub rec
      by (simp add: request_blocks.simps [of offset missing] Let_def flip: len_def)
         (simp add: word_less_nat_alt)
  qed
qed

lemma getMissingChunks_loop_after_gap:
  "sorted_wrt (\<lambda>c d. chunk_offset c < chunk_offset d) cs \<Longrightarrow>
   \<forall>c \<in> set cs. offset < chunk_offset c \<Longrightarrow>
     \<exists>rs. getMissingChunks_loop cs offset =
            Inr (rs, if cs = [] then offset else chunk_offset (last cs)) \<and>
          tiles (unat offset) (unat (if cs = [] then offset else chunk_offset (last cs))) rs"
proof (induction cs arbitrary: offset)
  case (Cons c cs)
  let ?b = "request_blocks offset (chunk_offset c - offset)"
  have lt: "offset < chunk_offset c" using Cons.prems by simp
  then have "unat (chunk_offset c - offset) = unat (chunk_offset c) - unat offset"
    by (simp add: unat_sub less_imp_le)
  then have blocks: "tiles (unat offset) (unat (chunk_offset c)) (fst ?b)" "snd ?b = chunk_offset c"
    using request_blocks_tiles [of offset "chunk_offset c - offset"] lt
      unat_less_32 [of "chunk_offset c"]
    by (simp_all add: word_less_nat_alt)
  let ?e = "if cs = [] then chunk_offset c else chunk_offset (last cs)"
  obtain rs where "getMissingChunks_loop cs (chunk_offset c) = Inr (rs, ?e)"
      and "tiles (unat (chunk_offset c)) (unat ?e) rs"
    using Cons.IH [of "chunk_offset c"] Cons.prems by auto
  then show ?case
    using lt blocks by (auto simp: case_prod_beta intro: tiles_append)
qed simp

lemma chunks_wf_ConsD:
  assumes "chunks_wf plen (c # cs)"
  shows "chunks_wf plen cs"
    and "\<forall>d \<in> set cs. chunk_offset c < chunk_offset d \<and> chunk_end c \<le> unat (chunk_offset d)"
    and "chunk_end c \<le> unat plen"
    and "unat (chunk_offset c + chunkLength c) = chunk_end c"
proof -
  show "chunks_wf plen cs"
    and "\<forall>d \<in> set cs. chunk_offset c < chunk_offset d \<and> chunk_end c \<le> unat (chunk_offset d)"
    and le: "chunk_end c \<le> unat plen"
    using assms by (simp_all add: chunks_wf_def)
  have "total_length (chunk_data c) < 2 ^ 32" "chunk_end c < 2 ^ 32"
    using le unat_less_32 [of plen] by (simp_all add: chunk_end_def)
  then show "unat (chunk_offset c + chunkLength c) = chunk_end c"
    by (simp add: chunkLength_def chunk_end_def unat_add_no_wrap unat_of_nat total_length_def)
qed

lemma getMissingChunks_loop_tiles:
  assumes "chunks_wf plen cs" and "\<forall>c \<in> set cs. offset \<le> chunk_offset c" and "offset \<le> plen"
  shows "\<exists>rs offset'. getMissingChunks_loop cs offset = Inr (rs, offset') \<and>
           tiles (unat (prefix_end offset cs)) (unat offset') rs \<and> offset' \<le> plen"
  using assms
proof (induction cs arbitrary: offset)
  case (Cons c cs)
  note wf = chunks_wf_ConsD [OF Cons.prems(1)]
  show ?case
  proof (cases "chunk_offset c = offset")
    case True
    let ?e = "chunk_offset c + chunkLength c"
    have "\<forall>d \<in> set cs. ?e \<le> chunk_offset d" "?e \<le> plen"
      using wf by (auto simp: word_le_nat_alt)
    with Cons.IH [OF wf(1)] True show ?thesis by simp
  next
    case False
    with Cons.prems have lt: "\<forall>d \<in> set (c # cs). offset < chunk_offset d"
      using wf(2) by (force simp: order.strict_iff_order intro: order.strict_trans)
    have srt: "sorted_wrt (\<lambda>c d. chunk_offset c < chunk_offset d) (c # cs)"
      using Cons.prems(1) unfolding chunks_wf_def
      by (rule sorted_wrt_mono_rel [rotated, OF conjunct1]) simp
    have "chunk_offset (last (c # cs)) \<le> plen"
    proof -
      have "last (c # cs) \<in> set (c # cs)" by (rule last_in_set) simp
      with Cons.prems(1) have "chunk_end (last (c # cs)) \<le> unat plen"
        unfolding chunks_wf_def list_all_iff by blast
      then show ?thesis by (simp add: chunk_end_def word_le_nat_alt)
    qed
    moreover obtain rs where
        "getMissingChunks_loop (c # cs) offset = Inr (rs, chunk_offset (last (c # cs)))"
        "tiles (unat offset) (unat (chunk_offset (last (c # cs)))) rs"
      using getMissingChunks_loop_after_gap [OF srt lt] by auto
    moreover have "prefix_end offset (c # cs) = offset" using False by simp
    ultimately show ?thesis by auto
  qed
qed simp

lemma prefix_end_covered:
  assumes "chunks_wf plen cs" and "unat offset \<le> p" and "p < unat (prefix_end offset cs)"
  shows "\<exists>c \<in> set cs. p \<in> chunk_range c"
  using assms
proof (induction cs arbitrary: offset)
  case (Cons c cs)
  note wf = chunks_wf_ConsD [OF Cons.prems(1)]
  from Cons.prems have eq: "chunk_offset c = offset" by (auto split: if_splits)
  show ?case
  proof (cases "p < chunk_end c")
    case True
    with Cons.prems eq show ?thesis by (auto simp: chunk_range_def)
  next
    case False
    with Cons.IH [OF wf(1), of "chunk_offset c + chunkLength c"] Cons.prems eq wf(4)
    show ?thesis by auto
  qed
qed simp

section \<open>Merging chunks\<close>

lemma total_length_simps [simp]:
  "total_length [] = 0"
  "total_length (b # bs) = length b + total_length bs"
  "total_length (bs @ cs) = total_length bs + total_length cs"
  by (simp_all add: total_length_def)

lemma total_length_concat: "total_length bs = length (concat bs)"
  by (induction bs) simp_all

lemma total_length_butlast_last:
  "bs \<noteq> [] \<Longrightarrow> total_length bs = total_length (butlast bs) + length (last bs)"
  by (induction bs rule: rev_induct) simp_all

text \<open>
  Cropping terminates with the overlap inside the last continuation, and never runs out of
  continuations as long as the overlap is shorter than the chunk.
\<close>

lemma crop_last_spec:
  assumes "bs \<noteq> []" and "unat overlap < total_length bs" and "total_length bs < 2 ^ 32"
  shows "\<exists>bs' r. crop_last bs overlap = Inr (bs', r) \<and> bs' \<noteq> [] \<and> unat r \<le> unat overlap \<and>
           total_length bs' + unat overlap = total_length bs + unat r \<and>
           (r = 0 \<or> unat r < length (last bs'))"
  using assms
proof (induction bs overlap rule: crop_last.induct)
  case (1 bs overlap)
  let ?n = "length (last bs)"
  note total_eq = total_length_butlast_last [OF "1.prems"(1)]
  then have n: "unat (word_of_nat ?n :: u32) = ?n"
    using "1.prems"(3) by (intro unat_of_nat_u32) simp
  show ?case
  proof (cases "word_of_nat ?n > overlap")
    case True
    with "1.prems"(1) n show ?thesis
      by (simp add: crop_last.simps [of bs overlap] word_less_nat_alt)
  next
    case False
    let ?o = "overlap - word_of_nat ?n"
    have o: "unat ?o = unat overlap - ?n" "?n \<le> unat overlap"
      using False n by (simp_all add: unat_sub not_less word_le_nat_alt)
    have bl: "butlast bs \<noteq> []" "unat ?o < total_length (butlast bs)"
      using total_eq "1.prems"(2) o by auto
    show ?thesis
    proof (cases "?o = 0")
      case True
      then have "crop_last bs overlap = Inr (butlast bs, 0)"
        using False bl "1.prems"(1) by (subst crop_last.simps) (simp add: Let_def)
      moreover have "total_length (butlast bs) + unat overlap = total_length bs"
        using True o total_eq by (simp add: unat_eq_0)
      ultimately show ?thesis using bl by simp
    next
      case o': False
      have "total_length (butlast bs) < 2 ^ 32" using "1.prems"(3) total_eq by simp
      with "1.IH" [OF "1.prems"(1) False refl o' bl] bl
      obtain bs' r where r: "crop_last (butlast bs) ?o = Inr (bs', r)" "bs' \<noteq> []"
          "unat r \<le> unat ?o" "total_length bs' + unat ?o = total_length (butlast bs) + unat r"
          "r = 0 \<or> unat r < length (last bs')"
        by auto
      moreover have "crop_last bs overlap = Inr (bs', r)"
        using "1.prems"(1) False o' bl r(1)
        by (simp add: crop_last.simps [of bs overlap] Let_def)
      moreover have "unat r \<le> unat overlap"
          "total_length bs' + unat overlap = total_length bs + unat r"
        using r o total_eq by linarith+
      ultimately show ?thesis by blast
    qed
  qed
qed

lemma crop_chunk_spec:
  assumes "chunk_data c \<noteq> []" and "unat overlap < total_length (chunk_data c)"
    and "total_length (chunk_data c) < 2 ^ 32"
  shows "\<exists>c'. crop_chunk c overlap = Inr c' \<and> chunk_data c' \<noteq> [] \<and>
           chunk_offset c' = chunk_offset c \<and>
           total_length (chunk_data c') + unat overlap = total_length (chunk_data c)"
proof (cases "overlap = 0")
  case False
  obtain bs r where r: "crop_last (chunk_data c) overlap = Inr (bs, r)" "bs \<noteq> []"
      "unat r \<le> unat overlap"
      "total_length bs + unat overlap = total_length (chunk_data c) + unat r"
      "r = 0 \<or> unat r < length (last bs)"
    using crop_last_spec [OF assms] by blast
  with False show ?thesis
    by (auto simp: crop_chunk_def total_length_butlast_last [OF r(2)])
qed (use assms in \<open>simp add: crop_chunk_def\<close>)

lemma chunk_overlap_spec:
  assumes "chunk_end c < 2 ^ 32"
  shows "unat (chunk_overlap c d) = chunk_end c - unat (chunk_offset d)"
proof -
  have total_len: "unat (word_of_nat (total_length (chunk_data c)) :: u32) = total_length (chunk_data c)"
    using assms by (intro unat_of_nat_u32) (simp add: chunk_end_def)
  then have "unat (chunk_offset c + word_of_nat (total_length (chunk_data c))) = chunk_end c"
    using assms by (simp add: chunk_end_def unat_add_no_wrap)
  then show ?thesis
    by (auto simp: chunk_overlap_def Let_def unat_sub word_less_nat_alt less_imp_le)
qed

lemma set_insert_chunk [simp]: "set (insert_chunk c ds) = insert c (set ds)"
  by (induction ds) auto

lemma set_sort_chunks [simp]: "set (sort_chunks cs) = set cs"
  by (induction cs) (simp_all add: sort_chunks_def)

lemma chunks_less_trans:
  "\<not> bittorrent_piece_chunks_less b a \<Longrightarrow> \<not> bittorrent_piece_chunks_less c b \<Longrightarrow>
     \<not> bittorrent_piece_chunks_less c a"
  by (auto simp: bittorrent_piece_chunks_less_def split: if_splits)

lemma chunks_less_asym:
  "bittorrent_piece_chunks_less a b \<Longrightarrow> \<not> bittorrent_piece_chunks_less b a"
  by (auto simp: bittorrent_piece_chunks_less_def split: if_splits)

abbreviation chunks_sorted :: "chunk list \<Rightarrow> bool" where
  "chunks_sorted \<equiv> sorted_wrt (\<lambda>a b. \<not> bittorrent_piece_chunks_less b a)"

lemma sorted_insert_chunk: "chunks_sorted ds \<Longrightarrow> chunks_sorted (insert_chunk c ds)"
  by (induction ds) (auto dest: chunks_less_asym chunks_less_trans)

lemma sorted_sort_chunks: "chunks_sorted (sort_chunks cs)"
  by (induction cs) (simp_all add: sort_chunks_def sorted_insert_chunk)

lemma chunks_not_less_offset:
  "\<not> bittorrent_piece_chunks_less b a \<Longrightarrow> chunk_offset a \<le> chunk_offset b"
  by (auto simp: bittorrent_piece_chunks_less_def split: if_splits)

lemma merge_chunks_wf:
  assumes "chunks_sorted (c # ds)"
    and "\<forall>x \<in> set (c # ds). chunk_data x \<noteq> [] \<and> chunk_end x \<le> unat plen"
  shows "\<exists>cs'. merge_chunks c ds = Inr cs' \<and> chunks_wf plen cs' \<and>
           chunk_offset ` set cs' = chunk_offset ` set (c # ds)"
  using assms
proof (induction c ds rule: merge_chunks.induct)
  case (1 c)
  then show ?case by (simp add: chunks_wf_def)
next
  case (2 c d ds)
  show ?case
  proof (cases "chunk_offset c = chunk_offset d")
    case True
    with 2 show ?thesis by (simp add: insert_absorb)
  next
    case False
    have end_c: "chunk_end c < 2 ^ 32"
      using 2(4) unat_less_32 [of plen] by (auto intro: le_less_trans)
    have le: "\<forall>x \<in> set (d # ds). chunk_offset d \<le> chunk_offset x" "chunk_offset c < chunk_offset d"
      using 2(3) False by (auto dest: chunks_not_less_offset simp: order.strict_iff_order)
    have ov: "unat (chunk_overlap c d) = chunk_end c - unat (chunk_offset d)"
      using end_c by (rule chunk_overlap_spec)
    have "unat (chunk_overlap c d) < total_length (chunk_data c) \<or> chunk_overlap c d = 0"
      using le(2) unfolding word_less_nat_alt
      by (simp add: ov chunk_end_def flip: unat_eq_0) linarith
    moreover have "total_length (chunk_data c) < 2 ^ 32" "chunk_data c \<noteq> []"
      using end_c 2(4) by (simp_all add: chunk_end_def)
    ultimately obtain c' where c': "crop_chunk c (chunk_overlap c d) = Inr c'"
        "chunk_offset c' = chunk_offset c"
        "total_length (chunk_data c') + unat (chunk_overlap c d) = total_length (chunk_data c)"
      using crop_chunk_spec [of c "chunk_overlap c d"] by (auto simp: crop_chunk_def)
    obtain cs' where cs': "merge_chunks d ds = Inr cs'" "chunks_wf plen cs'"
        "chunk_offset ` set cs' = chunk_offset ` set (d # ds)"
      using "2.IH"(2) [OF False] 2(3,4) by auto
    have "chunk_end c' \<le> unat (chunk_offset d)" "chunk_end c' \<le> unat plen"
      using c'(2,3) ov 2(4) by (auto simp: chunk_end_def)
    moreover have "\<forall>x \<in> set cs'. chunk_offset d \<le> chunk_offset x"
    proof
      fix x assume "x \<in> set cs'"
      then have "chunk_offset x \<in> chunk_offset ` set (d # ds)" using cs'(3) by blast
      with le(1) show "chunk_offset d \<le> chunk_offset x" by auto
    qed
    ultimately have "chunks_wf plen (c' # cs')"
      using cs'(2) c'(2) le(2)
      by (auto simp: chunks_wf_def word_le_nat_alt word_less_nat_alt
            intro: less_le_trans order_trans)
    with False c' cs' 2(4) show ?thesis by simp
  qed
qed

lemma sanitizeChunks_cases:
  assumes "\<And>c ds. sort_chunks cs = c # ds \<Longrightarrow> chunks_sorted (c # ds) \<Longrightarrow> set (c # ds) = set cs \<Longrightarrow>
      \<exists>cs'. merge_chunks c ds = Inr cs' \<and> P cs'"
    and "cs = [] \<Longrightarrow> P []"
  shows "\<exists>cs'. sanitizeChunks cs = Inr cs' \<and> P cs'"
proof (cases "sort_chunks cs")
  case Nil
  then have "cs = []" using set_sort_chunks [of cs] by simp
  with assms(2) Nil show ?thesis by (simp add: sanitizeChunks_def)
next
  case (Cons c ds)
  with assms(1) [OF Cons] sorted_sort_chunks [of cs] set_sort_chunks [of cs] show ?thesis
    by (simp add: sanitizeChunks_def)
qed

text \<open>Without partial overlaps the pass only drops chunks that another one at the same offset covers.\<close>

definition covered_by :: "chunk \<Rightarrow> chunk \<Rightarrow> bool" where
  "covered_by c d \<longleftrightarrow> chunk_offset d = chunk_offset c \<and> chunk_range c \<subseteq> chunk_range d"

lemma covered_by_refl [simp]: "covered_by c c"
  by (simp add: covered_by_def)

lemma covered_by_trans: "covered_by c d \<Longrightarrow> covered_by d e \<Longrightarrow> covered_by c e"
  by (auto simp: covered_by_def)

lemma merge_chunks_only_duplicates:
  assumes "chunks_sorted (c # ds)"
    and "\<forall>x \<in> set (c # ds). chunk_data x \<noteq> [] \<and> chunk_end x < 2 ^ 32"
    and "\<forall>x \<in> set (c # ds). \<forall>y \<in> set (c # ds).
           chunk_offset x < chunk_offset y \<longrightarrow> chunk_end x \<le> unat (chunk_offset y)"
  shows "\<exists>cs'. merge_chunks c ds = Inr cs' \<and> set cs' \<subseteq> set (c # ds) \<and>
           (\<forall>x \<in> set (c # ds). \<exists>y \<in> set cs'. covered_by x y) \<and>
           (\<Union>x \<in> set cs'. chunk_range x) = (\<Union>x \<in> set (c # ds). chunk_range x)"
  using assms
proof (induction c ds rule: merge_chunks.induct)
  case (2 c d ds)
  show ?case
  proof (cases "chunk_offset c = chunk_offset d")
    case True
    then have dc: "covered_by d c"
      using "2.prems"(1)
      by (auto simp: covered_by_def chunk_range_def chunk_end_def bittorrent_piece_chunks_less_def)
    obtain cs' where cs': "merge_chunks c ds = Inr cs'" "set cs' \<subseteq> set (c # ds)"
        "\<forall>x \<in> set (c # ds). \<exists>y \<in> set cs'. covered_by x y"
        "(\<Union>x \<in> set cs'. chunk_range x) = (\<Union>x \<in> set (c # ds). chunk_range x)"
      using "2.IH"(1) [OF True] "2.prems" by auto
    have "\<forall>x \<in> set (c # d # ds). \<exists>y \<in> set cs'. covered_by x y"
      using cs'(3) covered_by_trans [OF dc] by (simp, blast)
    moreover have "chunk_range d \<subseteq> chunk_range c"
      using dc by (simp add: covered_by_def)
    ultimately show ?thesis using cs'(1,2,4) True "2.prems"(2) by auto
  next
    case False
    then have "chunk_offset c < chunk_offset d"
      using "2.prems"(1) by (auto dest!: chunks_not_less_offset simp: order.strict_iff_order)
    then have "unat (chunk_overlap c d) = 0"
      using "2.prems"(2,3) by (simp add: chunk_overlap_spec)
    then have c: "crop_chunk c (chunk_overlap c d) = Inr c"
      by (simp add: crop_chunk_def unat_eq_0)
    obtain cs' where "merge_chunks d ds = Inr cs'" "set cs' \<subseteq> set (d # ds)"
        "\<forall>x \<in> set (d # ds). \<exists>y \<in> set cs'. covered_by x y"
        "(\<Union>x \<in> set cs'. chunk_range x) = (\<Union>x \<in> set (d # ds). chunk_range x)"
      using "2.IH"(2) [OF False] "2.prems" by auto
    then show ?thesis using False c "2.prems"(2) by auto
  qed
qed simp

section \<open>Accounting of pieces\<close>

definition piece_complete :: "piece \<Rightarrow> bool" where
  "piece_complete p \<longleftrightarrow> piece_onDisk p \<or> piece_length p = chunksLength (piece_chunks p)"

definition piece_ok :: "piece \<Rightarrow> bool" where
  "piece_ok p \<longleftrightarrow> list_all (\<lambda>c. chunk_data c \<noteq> []) (piece_chunks p)"

lemma foldl_chunkLength: "foldl (\<lambda>r c. r + chunkLength c) a cs = a + chunksLength cs"
proof (induction cs arbitrary: a)
  case (Cons c cs)
  show ?case by (simp add: Cons [of "a + _"] Cons [of "chunkLength c"] chunksLength_def add.assoc)
qed (simp add: chunksLength_def)

lemma chunksLength_Cons [simp]: "chunksLength (c # cs) = chunkLength c + chunksLength cs"
  using foldl_chunkLength [of "chunkLength c" cs] by (simp add: chunksLength_def)

lemma isPieceComplete_loop_eq:
  "list_all (\<lambda>c. chunk_data c \<noteq> []) cs \<Longrightarrow>
     isPieceComplete_loop cs a = Inr (a + chunksLength cs)"
proof (induction cs arbitrary: a)
  case (Cons c cs)
  then show ?case by (simp add: chunkLength_def add.assoc)
qed (simp add: chunksLength_def)

lemma isPieceComplete_eq:
  "list_all (\<lambda>c. chunk_data c \<noteq> []) cs \<Longrightarrow> isPieceComplete len cs = Inr (len = chunksLength cs)"
  by (simp add: isPieceComplete_def isPieceComplete_loop_eq)

lemma isMissingPiece_eq:
  "list_all piece_ok ps \<Longrightarrow> isMissingPiece ps = Inr (\<exists>p \<in> set ps. \<not> piece_complete p)"
  by (induction ps) (auto simp: piece_ok_def piece_complete_def isPieceComplete_eq)

lemma getPieceIndexes_loop_eq:
  "list_all piece_ok ps \<Longrightarrow>
     getPieceIndexes_loop ps b (word_of_nat k) =
       Inr (map word_of_nat (filter (\<lambda>i. b \<noteq> piece_complete (ps ! (i - k))) [k ..< k + length ps]))"
proof (induction ps arbitrary: k)
  case (Cons p ps)
  have upt: "[k ..< k + length (p # ps)] = k # [Suc k ..< Suc k + length ps]"
    by (subst upt_conv_Cons) simp_all
  have "filter (\<lambda>i. b \<noteq> piece_complete ((p # ps) ! (i - k))) [Suc k ..< Suc k + length ps] =
      filter (\<lambda>i. b \<noteq> piece_complete (ps ! (i - Suc k))) [Suc k ..< Suc k + length ps]"
    by (rule filter_cong) (auto simp: Suc_diff_le nth_Cons')
  moreover have "(if piece_onDisk p then Inr True
      else isPieceComplete (piece_length p) (piece_chunks p)) = Inr (piece_complete p)"
    using Cons.prems by (simp add: piece_ok_def piece_complete_def isPieceComplete_eq)
  moreover have "(word_of_nat k :: u32) + 1 = word_of_nat (Suc k)" by simp
  ultimately show ?case
    using Cons.IH [of "Suc k"] Cons.prems unfolding upt getPieceIndexes_loop.simps
    by (cases b; cases "piece_complete p") (simp_all del: upt_Suc of_nat_Suc)
qed simp

lemma drop_bit_high_bit: "k < 8 \<Longrightarrow> drop_bit k (0x80 :: byte) = 2 ^ (7 - k)"
proof -
  assume k: "k < 8"
  have "(0x80 :: byte) = push_bit k (2 ^ (7 - k))"
    using k by (simp add: push_bit_eq_mult flip: power_add)
  moreover have "drop_bit k (push_bit k (2 ^ (7 - k) :: byte)) = 2 ^ (7 - k)"
    using k by (intro bit_word_eqI) (auto simp: bit_simps)
  ultimately show ?thesis by simp
qed

lemma havePiece_eq:
  assumes "unat i < 8 * length bitfield"
  shows "havePiece i bitfield = Inr (bit (bitfield ! (unat i div 8)) (7 - unat i mod 8))"
proof -
  have "drop_bit (unat i mod 8) (0x80 :: byte) = 2 ^ (7 - unat i mod 8)"
    by (rule drop_bit_high_bit) simp
  moreover have "unat i div 8 < length bitfield" using assms by auto
  ultimately show ?thesis
    by (simp add: havePiece_def Let_def unat_div unat_mod and_exp_eq_0_iff_not_bit)
qed

lemma receivedBytes_eq:
  "receivedBytes ps =
     sum_list (map (\<lambda>p. if piece_onDisk p then piece_length p else chunksLength (piece_chunks p)) ps)"
proof -
  have "foldl (\<lambda>r p. if piece_onDisk p then r + piece_length p
                  else foldl (\<lambda>r c. r + chunkLength c) r (piece_chunks p)) a ps =
      a + sum_list (map (\<lambda>p. if piece_onDisk p then piece_length p
                             else chunksLength (piece_chunks p)) ps)" for a
    by (induction ps arbitrary: a) (simp_all add: foldl_chunkLength add.assoc)
  from this [of 0] show ?thesis by (simp add: receivedBytes_def)
qed

lemma getMissingChunks_spec:
  assumes "chunks_wf plen cs"
  shows "\<exists>rs. getMissingChunks plen cs = Inr rs \<and>
           tiles (unat (prefix_end 0 cs)) (unat plen) rs"
proof -
  obtain rs off where loop: "getMissingChunks_loop cs 0 = Inr (rs, off)"
      "tiles (unat (prefix_end 0 cs)) (unat off) rs" "off \<le> plen"
    using getMissingChunks_loop_tiles [OF assms, of 0] by auto
  then have "unat (plen - off) = unat plen - unat off" "unat off \<le> unat plen"
    by (simp_all add: unat_sub word_le_nat_alt)
  then have "tiles (unat off) (unat plen) (fst (request_blocks off (plen - off)))"
    using request_blocks_tiles [of off "plen - off"] unat_less_32 [of plen] by simp
  with loop show ?thesis by (auto simp: getMissingChunks_def intro: tiles_append)
qed

lemma getMissingChunks_union:
  assumes "chunks_wf plen cs" and "getMissingChunks plen cs = Inr rs"
  shows "(\<Union>r \<in> set rs. request_range r) = {unat (prefix_end 0 cs) ..< unat plen}"
proof (rule tiles_union)
  show "tiles (unat (prefix_end 0 cs)) (unat plen) rs"
    using getMissingChunks_spec [OF assms(1)] assms(2) by auto
qed

section \<open>Properties\<close>

text \<open>C22: For the sorted, disjoint chunks of a piece, \<open>getMissingChunks\<close> does not fail, and the
  requests it returns cut the range from the end of the gapless prefix of received data up to
  the end of the piece into consecutive, non-empty blocks of at most 16384 bytes.\<close>

theorem getMissingChunks_tiles:
  assumes "chunks_wf plen cs"
  shows "\<exists>rs. getMissingChunks plen cs = Inr rs \<and>
           tiles (unat (prefix_end 0 cs)) (unat plen) rs"
  using assms by (rule getMissingChunks_spec)

theorem getMissingChunks_tiles_witness:
  "\<exists>rs. getMissingChunks 8 [\<lparr>chunk_data = [[1, 2]], chunk_offset = 0\<rparr>,
      \<lparr>chunk_data = [[7]], chunk_offset = 5\<rparr>] = Inr rs \<and>
    tiles (unat (prefix_end 0 [\<lparr>chunk_data = [[1, 2]], chunk_offset = 0\<rparr>,
      \<lparr>chunk_data = [[7]], chunk_offset = 5\<rparr>])) (unat (8 :: u32)) rs"
  by (rule getMissingChunks_tiles) (simp add: chunks_wf_def chunk_end_def)

text \<open>No byte is forgotten: every position of the piece that no chunk covers lies in one of
  the requests \<open>getMissingChunks\<close> returns.\<close>

lemma getMissingChunks_complete:
  assumes "chunks_wf plen cs" and "getMissingChunks plen cs = Inr rs"
    and "p < unat plen" and "\<forall>c \<in> set cs. p \<notin> chunk_range c"
  shows "\<exists>r \<in> set rs. p \<in> request_range r"
proof -
  have "unat (prefix_end 0 cs) \<le> p"
    using prefix_end_covered [OF assms(1), of 0 p] assms(4) by (auto simp: not_less [symmetric])
  with assms(3) have "p \<in> {unat (prefix_end 0 cs) ..< unat plen}" by simp
  then show ?thesis unfolding getMissingChunks_union [OF assms(1,2), symmetric] by blast
qed

text \<open>Once there is a gap in front of the first chunk, the walk never consumes a chunk again:
  the whole piece is requested, including every byte that has already arrived.\<close>

lemma getMissingChunks_rerequests:
  assumes "chunks_wf plen (c # cs)" and "chunk_offset c \<noteq> 0"
    and "getMissingChunks plen (c # cs) = Inr rs" and "p < unat plen"
  shows "\<exists>r \<in> set rs. p \<in> request_range r"
proof -
  have "p \<in> {unat (prefix_end 0 (c # cs)) ..< unat plen}" using assms(2,4) by simp
  then show ?thesis unfolding getMissingChunks_union [OF assms(1,3), symmetric] by blast
qed

text \<open>\<open>sanitizeChunks\<close> on chunks with data inside a piece fails no assertion and leaves
  strictly sorted, pairwise disjoint chunks, one for every offset that was present. This is the
  precondition of \<open>getMissingChunks\<close>.\<close>

lemma sanitizeChunks_wf:
  assumes "list_all (\<lambda>c. chunk_data c \<noteq> [] \<and> chunk_end c \<le> unat plen) cs"
  shows "\<exists>cs'. sanitizeChunks cs = Inr cs' \<and> chunks_wf plen cs' \<and>
           chunk_offset ` set cs' = chunk_offset ` set cs"
proof (rule sanitizeChunks_cases)
  fix c ds
  assume "chunks_sorted (c # ds)" and set_eq: "set (c # ds) = set cs"
  moreover have "\<forall>x \<in> set (c # ds). chunk_data x \<noteq> [] \<and> chunk_end x \<le> unat plen"
    unfolding set_eq using assms by (simp add: list_all_iff)
  ultimately show "\<exists>cs'. merge_chunks c ds = Inr cs' \<and> chunks_wf plen cs' \<and>
      chunk_offset ` set cs' = chunk_offset ` set cs"
    using merge_chunks_wf [of c ds plen] by simp
qed (simp add: chunks_wf_def)

text \<open>
  \<open>chunks_of content cs\<close>: every chunk holds the bytes of the piece \<open>content\<close> at its offset.
\<close>

definition chunks_of :: "byte list \<Rightarrow> chunk list \<Rightarrow> bool" where
  "chunks_of content cs \<longleftrightarrow>
     list_all (\<lambda>c. concat (chunk_data c) =
       take (total_length (chunk_data c)) (drop (unat (chunk_offset c)) content)) cs"

text \<open>C23: If no chunk reaches past the offset of a later one, \<open>sanitizeChunks\<close> leaves some of the chunks,
  unchanged, in the order of their offsets and no two of them overlapping or at one offset; each chunk it
  drops is covered by one it keeps at the same offset. What is left holds the content of the piece and
  covers the same positions.\<close>

theorem sanitizeChunks_preserves_content:
  assumes "list_all (\<lambda>c. chunk_data c \<noteq> [] \<and> chunk_end c < 2 ^ 32) cs"
    and "\<forall>c \<in> set cs. \<forall>d \<in> set cs.
           chunk_offset c < chunk_offset d \<longrightarrow> chunk_end c \<le> unat (chunk_offset d)"
    and "chunks_of content cs"
  shows "\<exists>cs'. sanitizeChunks cs = Inr cs' \<and> set cs' \<subseteq> set cs \<and>
           sorted_wrt (\<lambda>c d. chunk_offset c < chunk_offset d \<and> chunk_end c \<le> unat (chunk_offset d)) cs' \<and>
           (\<forall>c \<in> set cs. \<exists>d \<in> set cs'. covered_by c d) \<and> chunks_of content cs' \<and>
           (\<Union>c \<in> set cs'. chunk_range c) = (\<Union>c \<in> set cs. chunk_range c)"
proof (rule sanitizeChunks_cases)
  fix c ds
  assume srt: "chunks_sorted (c # ds)" and set_eq: "set (c # ds) = set cs"
  have data: "\<forall>x \<in> set (c # ds). chunk_data x \<noteq> [] \<and> chunk_end x < 2 ^ 32"
    unfolding set_eq using assms(1) by (simp add: list_all_iff)
  from merge_chunks_only_duplicates [OF srt this] assms(2)
  obtain cs' where cs': "merge_chunks c ds = Inr cs'" "set cs' \<subseteq> set cs"
      "\<forall>c \<in> set cs. \<exists>d \<in> set cs'. covered_by c d"
      "(\<Union>x \<in> set cs'. chunk_range x) = (\<Union>x \<in> set cs. chunk_range x)"
    unfolding set_eq by blast
  have "\<forall>x \<in> set (c # ds). chunk_data x \<noteq> [] \<and> chunk_end x \<le> unat (0xFFFFFFFF :: u32)"
    using data by auto
  from merge_chunks_wf [OF srt this] cs'(1)
  have "sorted_wrt (\<lambda>c d. chunk_offset c < chunk_offset d \<and> chunk_end c \<le> unat (chunk_offset d)) cs'"
    by (auto simp: chunks_wf_def)
  moreover have "chunks_of content cs'"
    using assms(3) cs'(2) by (auto simp: chunks_of_def list_all_iff)
  ultimately show "\<exists>cs'. merge_chunks c ds = Inr cs' \<and> set cs' \<subseteq> set cs \<and>
      sorted_wrt (\<lambda>c d. chunk_offset c < chunk_offset d \<and> chunk_end c \<le> unat (chunk_offset d)) cs' \<and>
      (\<forall>c \<in> set cs. \<exists>d \<in> set cs'. covered_by c d) \<and> chunks_of content cs' \<and>
      (\<Union>c \<in> set cs'. chunk_range c) = (\<Union>c \<in> set cs. chunk_range c)"
    using cs' by blast
qed (simp add: chunks_of_def)

theorem sanitizeChunks_preserves_content_witness:
  "sanitizeChunks [\<lparr>chunk_data = [[3]], chunk_offset = 2\<rparr>, \<lparr>chunk_data = [[1]], chunk_offset = 0\<rparr>,
        \<lparr>chunk_data = [[1, 2]], chunk_offset = 0\<rparr>]
     = Inr [\<lparr>chunk_data = [[1, 2]], chunk_offset = 0\<rparr>, \<lparr>chunk_data = [[3]], chunk_offset = 2\<rparr>]
   \<and> chunks_of [1, 2, 3] [\<lparr>chunk_data = [[1, 2]], chunk_offset = 0\<rparr>, \<lparr>chunk_data = [[3]], chunk_offset = 2\<rparr>]"
proof -
  have run: "sanitizeChunks [\<lparr>chunk_data = [[3]], chunk_offset = 2\<rparr>, \<lparr>chunk_data = [[1]], chunk_offset = 0\<rparr>,
        \<lparr>chunk_data = [[1, 2]], chunk_offset = 0\<rparr>]
     = Inr [\<lparr>chunk_data = [[1, 2]], chunk_offset = 0\<rparr>, \<lparr>chunk_data = [[3]], chunk_offset = 2\<rparr>]"
    by (simp add: sanitizeChunks_def sort_chunks_def bittorrent_piece_chunks_less_def crop_chunk_def
        chunk_overlap_def)
  have "list_all (\<lambda>c. chunk_data c \<noteq> [] \<and> chunk_end c < 2 ^ 32)
      [\<lparr>chunk_data = [[3]], chunk_offset = 2\<rparr>, \<lparr>chunk_data = [[1]], chunk_offset = 0\<rparr>,
        \<lparr>chunk_data = [[1, 2 :: byte]], chunk_offset = 0\<rparr>]"
    by (simp add: chunk_end_def)
  from sanitizeChunks_preserves_content [OF this, of "[1, 2, 3]"] run show ?thesis
    by (simp add: chunk_end_def chunks_of_def)
qed

text \<open>Partial overlaps are cropped at the wrong end: the overlap is the tail of the earlier
  chunk, but advancing \<open>rd_ptr\<close> of its last continuation drops bytes from the front of that
  continuation, so chunks that agreed with the content of the piece no longer do.\<close>

lemma sanitizeChunks_corrupts_overlap:
  "chunks_of [1, 2, 3, 4, 5, 6] [\<lparr>chunk_data = [[1, 2, 3, 4]], chunk_offset = 0\<rparr>,
      \<lparr>chunk_data = [[3, 4, 5, 6]], chunk_offset = 2\<rparr>] \<and>
   sanitizeChunks [\<lparr>chunk_data = [[1, 2, 3, 4]], chunk_offset = 0\<rparr>,
      \<lparr>chunk_data = [[3, 4, 5, 6]], chunk_offset = 2\<rparr>] =
     Inr [\<lparr>chunk_data = [[3, 4]], chunk_offset = 0\<rparr>,
      \<lparr>chunk_data = [[3, 4, 5, 6]], chunk_offset = 2\<rparr>] \<and>
   \<not> chunks_of [1, 2, 3, 4, 5, 6] [\<lparr>chunk_data = [[3, 4]], chunk_offset = 0\<rparr>,
      \<lparr>chunk_data = [[3, 4, 5, 6]], chunk_offset = 2\<rparr>]"
  by (simp add: chunks_of_def sanitizeChunks_def sort_chunks_def bittorrent_piece_chunks_less_def
      crop_chunk_def chunk_overlap_def crop_last.simps)

text \<open>\<open>getPieceIndexes\<close> lists, in increasing order, exactly the indexes of the pieces that are
  missing or exactly those that are complete, as asked.\<close>

lemma getPieceIndexes_eq:
  assumes "list_all piece_ok ps"
  shows "getPieceIndexes ps getMissing =
     Inr (map word_of_nat
       (filter (\<lambda>i. piece_complete (ps ! i) \<noteq> getMissing) [0 ..< length ps]))"
  using getPieceIndexes_loop_eq [OF assms, of getMissing 0]
  by (auto simp: getPieceIndexes_def intro!: arg_cong [where f = "map _"] filter_cong)

text \<open>Inside the bitfield of a peer, \<open>havePiece\<close> reads the bit of the piece, most significant
  bit first; at the first index past the end of the bitfield the sanity check
  (\<open>size () >= index\<close> instead of \<open>>\<close>) lets the access through and it reads out of bounds.\<close>

lemma havePiece_correct:
  "(unat i < 8 * length bitfield \<longrightarrow>
      havePiece i bitfield = Inr (bit (bitfield ! (unat i div 8)) (7 - unat i mod 8))) \<and>
   (unat i div 8 = length bitfield \<longrightarrow> havePiece i bitfield = Inl Out_of_bounds)"
  using havePiece_eq [of i bitfield]
  by (simp add: havePiece_def Let_def unat_div unat_mod)

text \<open>When no piece is missing, the bytes counted by \<open>receivedBytes\<close> are the length of the
  torrent (modulo the 32 bits of the counter).\<close>

lemma receivedBytes_complete:
  assumes "list_all piece_ok ps" and "isMissingPiece ps = Inr False"
  shows "receivedBytes ps = sum_list (map piece_length ps)"
proof -
  have "\<forall>p \<in> set ps. piece_complete p" using isMissingPiece_eq [OF assms(1)] assms(2) by simp
  then show ?thesis
    unfolding receivedBytes_eq
    by (intro arg_cong [where f = sum_list] map_cong) (auto simp: piece_complete_def)
qed

end
