(* ===== verification/Bittorrent_Wire.thy ===== *)
theory Bittorrent_Wire
  imports Bittorrent_Pieces
begin

text \<open>
  The BitTorrent peer wire protocol: the records of \<open>bittorrent_common.h\<close>, the bytes
  \<open>BitTorrent_Module_Streamer_T::handleDataMessage\<close> produces for them, the scanner rules and
  grammar actions that read them back (\<open>bittorrent_scanner.cpp\<close>, \<open>bittorrent_parser.cpp\<close>,
  generated from \<open>scripts/scanner.l\<close> and \<open>scripts/parser.yy\<close>), and the operations of
  \<open>BitTorrent_Module_PeerParser_T\<close> that cut the bytes of a message off the received buffers.

  The byte order of the machine and the macro \<open>ACE_SWAP_LONG\<close> of ACE are parameters
  (\<open>platform\<close>); \<open>swaps_bytes\<close> is what the code relies on. The anonymous union of
  \<open>BitTorrent_PeerRecord\<close> is the datatype of its active member. The scanner is modelled in
  non-blocking mode on one buffer: the rule that asks for more data returns
  \<open>END_OF_FRAGMENT\<close>.
\<close>

section \<open>Data\<close>

datatype BitTorrent_MessageType =
    MESSAGETYPE_CHOKE | MESSAGETYPE_UNCHOKE | MESSAGETYPE_INTERESTED | MESSAGETYPE_NOT_INTERESTED
  | MESSAGETYPE_HAVE | MESSAGETYPE_BITFIELD | MESSAGETYPE_REQUEST | MESSAGETYPE_PIECE
  | MESSAGETYPE_CANCEL | MESSAGETYPE_OTHER byte

text \<open>
  \<open>MESSAGETYPE_OTHER\<close> holds every other value of the enumeration,
  \<open>BITTORRENT_MESSAGETYPE_MAX\<close> (9) and \<open>BITTORRENT_MESSAGETYPE_INVALID\<close> (10) included.
\<close>

definition message_type_names :: "(byte \<times> BitTorrent_MessageType) list" where
  "message_type_names =
     [(0, MESSAGETYPE_CHOKE), (1, MESSAGETYPE_UNCHOKE), (2, MESSAGETYPE_INTERESTED),
      (3, MESSAGETYPE_NOT_INTERESTED), (4, MESSAGETYPE_HAVE), (5, MESSAGETYPE_BITFIELD),
      (6, MESSAGETYPE_REQUEST), (7, MESSAGETYPE_PIECE), (8, MESSAGETYPE_CANCEL)]"

definition message_type_of :: "byte \<Rightarrow> BitTorrent_MessageType" where
  "message_type_of b =
     (case map_of message_type_names b of Some t \<Rightarrow> t | None \<Rightarrow> MESSAGETYPE_OTHER b)"

fun message_code :: "BitTorrent_MessageType \<Rightarrow> byte" where
  "message_code MESSAGETYPE_CHOKE = 0"
| "message_code MESSAGETYPE_UNCHOKE = 1"
| "message_code MESSAGETYPE_INTERESTED = 2"
| "message_code MESSAGETYPE_NOT_INTERESTED = 3"
| "message_code MESSAGETYPE_HAVE = 4"
| "message_code MESSAGETYPE_BITFIELD = 5"
| "message_code MESSAGETYPE_REQUEST = 6"
| "message_code MESSAGETYPE_PIECE = 7"
| "message_code MESSAGETYPE_CANCEL = 8"
| "message_code (MESSAGETYPE_OTHER b) = b"

record handshake =
  hs_pstr :: "byte list"
  hs_reserved :: "byte list"
  hs_info_hash :: "byte list"
  hs_peer_id :: "byte list"

datatype payload =
    No_payload
  | Cancel (p_index: u32) (p_begin: u32) (p_length: u32)
  | Have (p_index: u32)
  | Piece (p_index: u32) (p_begin: u32)
  | Port u16
  | Request (p_index: u32) (p_begin: u32) (p_length: u32)

record peer_record =
  rec_length :: u32
  rec_type :: BitTorrent_MessageType
  rec_bitfield :: "byte list"
  rec_payload :: payload

definition new_record :: peer_record where
  "new_record = \<lparr>rec_length = 0, rec_type = MESSAGETYPE_OTHER 10, rec_bitfield = [],
                 rec_payload = No_payload\<rparr>"

text \<open>
  Reading a member of the union. The three structures share their initial members
  \<open>index\<close> and \<open>begin\<close>, which may be read through any of them.
\<close>

fun read_have :: "payload \<Rightarrow> u32 run" where
  "read_have (Have i) = Inr i"
| "read_have _ = Inl Out_of_bounds"

fun read_index :: "payload \<Rightarrow> u32 run" where
  "read_index (Cancel i b l) = Inr i"
| "read_index (Piece i b) = Inr i"
| "read_index (Request i b l) = Inr i"
| "read_index _ = Inl Out_of_bounds"

fun read_begin :: "payload \<Rightarrow> u32 run" where
  "read_begin (Cancel i b l) = Inr b"
| "read_begin (Piece i b) = Inr b"
| "read_begin (Request i b l) = Inr b"
| "read_begin _ = Inl Out_of_bounds"

fun read_length :: "payload \<Rightarrow> u32 run" where
  "read_length (Cancel i b l) = Inr l"
| "read_length (Request i b l) = Inr l"
| "read_length _ = Inl Out_of_bounds"

section \<open>Byte order\<close>

record platform =
  little_endian :: bool
  ACE_SWAP_LONG :: "u32 \<Rightarrow> u32"

definition native_bytes :: "bool \<Rightarrow> u32 \<Rightarrow> byte list" where
  "native_bytes le v =
     (let bs = map (\<lambda>k. ucast (drop_bit k v)) [0, 8, 16, 24] in if le then bs else rev bs)"

definition native_value :: "bool \<Rightarrow> byte list \<Rightarrow> u32" where
  "native_value le bs =
     (let cs = (if le then bs else rev bs) in
      ucast (cs ! 0) OR push_bit 8 (ucast (cs ! 1)) OR push_bit 16 (ucast (cs ! 2))
      OR push_bit 24 (ucast (cs ! 3)))"

definition swaps_bytes :: "platform \<Rightarrow> bool" where
  "swaps_bytes p \<longleftrightarrow>
     (\<forall>v. native_bytes True (ACE_SWAP_LONG p v) = rev (native_bytes True v))"

definition to_network :: "platform \<Rightarrow> u32 \<Rightarrow> byte list" where
  "to_network p v = native_bytes (little_endian p) (if little_endian p then ACE_SWAP_LONG p v else v)"

definition from_network :: "platform \<Rightarrow> byte list \<Rightarrow> u32" where
  "from_network p bs =
     (let v = native_value (little_endian p) bs in
      if little_endian p then ACE_SWAP_LONG p v else v)"

lemma length_native_bytes [simp]: "length (native_bytes le v) = 4"
  by (simp add: native_bytes_def Let_def)

lemma native_value_bytes [simp]: "native_value le (native_bytes le v) = v"
proof (rule bit_word_eqI)
  fix n assume "n < LENGTH(32)"
  then consider "n < 8" | "8 \<le> n" "n < 16" | "16 \<le> n" "n < 24" | "24 \<le> n" "n < 32"
    by fastforce
  then show "bit (native_value le (native_bytes le v)) n = bit v n"
    by cases (auto simp: native_value_def native_bytes_def Let_def bit_simps)
qed

lemma not_bit_byte: "8 \<le> n \<Longrightarrow> \<not> bit (w :: byte) n"
  using bit_imp_le_length [of w n] by auto

lemma native_bytes_value [simp]: "length bs = 4 \<Longrightarrow> native_bytes True (native_value True bs) = bs"
proof -
  assume "length bs = 4"
  then obtain a b c d where bs: "bs = [a, b, c, d]"
    by (auto simp: length_Suc_conv numeral_eq_Suc)
  show ?thesis
    by (auto simp: bs native_value_def native_bytes_def Let_def bit_simps not_bit_byte
        intro!: bit_word_eqI)
qed

lemma rev_native_bytes [simp]: "rev (native_bytes le v) = native_bytes (\<not> le) v"
  by (simp add: native_bytes_def Let_def)

lemma native_value_rev: "native_value True (rev bs) = native_value False bs"
  by (simp add: native_value_def)

lemma to_network_eq: "swaps_bytes p \<Longrightarrow> to_network p v = native_bytes False v"
  by (simp add: to_network_def swaps_bytes_def)

lemma from_network_eq:
  assumes "swaps_bytes p" "length bs = 4"
  shows "from_network p bs = native_value False bs"
proof (cases "little_endian p")
  case True
  have "native_bytes True (ACE_SWAP_LONG p (native_value True bs)) = rev bs"
    using assms by (simp only: swaps_bytes_def native_bytes_value)
  then have "ACE_SWAP_LONG p (native_value True bs) = native_value True (rev bs)"
    by (metis native_value_bytes)
  with True show ?thesis
    by (simp add: from_network_def native_value_rev)
qed (simp add: from_network_def)

lemma from_to_network [simp]:
  "swaps_bytes p \<Longrightarrow> swaps_bytes q \<Longrightarrow> from_network q (to_network p v) = v"
  by (simp add: to_network_eq from_network_eq)

lemma length_to_network [simp]: "length (to_network p v) = 4"
  by (simp add: to_network_def)

section \<open>Writing messages\<close>

text \<open>
  A message block: the bytes between \<open>rd_ptr\<close> and \<open>wr_ptr\<close>, the room behind them, the
  continuations, and the two pointers of the data container.
\<close>

record message =
  msg_bytes :: "byte list"
  msg_space :: nat
  msg_cont :: "byte list list"
  msg_handshake :: "handshake option"
  msg_peer :: "peer_record option"

fun copy_parts :: "byte list run list \<Rightarrow> message \<Rightarrow> message option run" where
  "copy_parts [] m = Inr (Some m)"
| "copy_parts (part # parts) m =
     run_bind part (\<lambda>bs.
       if length bs \<le> msg_space m
       then copy_parts parts (m\<lparr>msg_bytes := msg_bytes m @ bs, msg_space := msg_space m - length bs\<rparr>)
       else Inr None)"

definition c_str_bytes :: "byte list \<Rightarrow> nat \<Rightarrow> byte list run" where
  "c_str_bytes s n = (if n \<le> length s + 1 then Inr (take n (s @ [0])) else Inl Out_of_bounds)"

definition stream_handshake :: "handshake \<Rightarrow> message \<Rightarrow> message option run" where
  "stream_handshake h m =
     run_bind (ace_assert (49 + length (hs_pstr h) \<le> msg_space m)) (\<lambda>_.
       let pstrlen = word_of_nat (length (hs_pstr h)) :: byte in
       copy_parts [Inr [pstrlen], c_str_bytes (hs_pstr h) (unat pstrlen), Inr (hs_reserved h),
                   c_str_bytes (hs_info_hash h) 20, c_str_bytes (hs_peer_id h) 20] m)"

definition network_part :: "platform \<Rightarrow> u32 run \<Rightarrow> byte list run" where
  "network_part p v = run_bind v (\<lambda>v. Inr (to_network p v))"

definition stream_peer_record :: "platform \<Rightarrow> peer_record \<Rightarrow> message \<Rightarrow> message option run" where
  "stream_peer_record p r m =
     (let u = rec_payload r; type_part = Inr [message_code (rec_type r)] in
      case rec_type r of
        MESSAGETYPE_CHOKE \<Rightarrow> copy_parts [Inr (to_network p 1), type_part] m
      | MESSAGETYPE_UNCHOKE \<Rightarrow> copy_parts [Inr (to_network p 1), type_part] m
      | MESSAGETYPE_INTERESTED \<Rightarrow> copy_parts [Inr (to_network p 1), type_part] m
      | MESSAGETYPE_NOT_INTERESTED \<Rightarrow> copy_parts [Inr (to_network p 1), type_part] m
      | MESSAGETYPE_HAVE \<Rightarrow>
          copy_parts [Inr (to_network p (1 + 4)), type_part, network_part p (read_have u)] m
      | MESSAGETYPE_BITFIELD \<Rightarrow>
          copy_parts [Inr (to_network p (1 + 4 + word_of_nat (length (rec_bitfield r)))), type_part,
                      (if rec_bitfield r = [] then Inl Out_of_bounds else Inr (rec_bitfield r))] m
      | MESSAGETYPE_REQUEST \<Rightarrow>
          copy_parts [Inr (to_network p (1 + 4 + 4 + 4)), type_part, network_part p (read_index u),
                      network_part p (read_begin u), network_part p (read_length u)] m
      | MESSAGETYPE_PIECE \<Rightarrow>
          run_bind (ace_assert (msg_cont m \<noteq> [])) (\<lambda>_.
            copy_parts [Inr (to_network p (1 + 4 + 4 + word_of_nat (total_length (msg_cont m)))),
                        type_part, network_part p (read_index u), network_part p (read_begin u)] m)
      | MESSAGETYPE_CANCEL \<Rightarrow>
          copy_parts [Inr (to_network p (1 + 4 + 4 + 4)), type_part, network_part p (read_index u),
                      network_part p (read_begin u), network_part p (read_length u)] m
      | MESSAGETYPE_OTHER _ \<Rightarrow> Inr None)"

text \<open>
  \<open>None\<close>: an error, after which the message is released and not passed on.
\<close>

definition peer_handleDataMessage :: "platform \<Rightarrow> message \<Rightarrow> message option run" where
  "peer_handleDataMessage p m =
     run_bind (ace_assert (msg_bytes m = [])) (\<lambda>_.
     run_bind (ace_assert ((msg_handshake m \<noteq> None \<or> msg_peer m \<noteq> None)
                           \<and> \<not> (msg_handshake m \<noteq> None \<and> msg_peer m \<noteq> None))) (\<lambda>_.
       case msg_handshake m of
         Some h \<Rightarrow> stream_handshake h m
       | None \<Rightarrow> stream_peer_record p (the (msg_peer m)) m))"

definition wire :: "message \<Rightarrow> byte list" where
  "wire m = msg_bytes m @ concat (msg_cont m)"

section \<open>Reading messages\<close>

datatype scan_state =
    INITIAL | state_reserved | state_hash | state_peer_id | state_length | state_type
  | state_bitfield_payload | state_cancel_payload | state_have_payload | state_piece
  | state_piece_payload | state_port_payload | state_request_payload

datatype token_kind =
    BITFIELD | CANCEL | CHOKE | HAVE | INTERESTED | KEEP_ALIVE | NOT_INTERESTED | PIECE | REQUEST
  | UNCHOKE

datatype token =
    HANDSHAKE handshake | RECORD token_kind peer_record | END_OF_FRAGMENT | END

definition PEER_HANDSHAKE_PSTR :: "byte list" where
  "PEER_HANDSHAKE_PSTR = map byte_of_char ''BitTorrent protocol''"

definition new_handshake :: handshake where
  "new_handshake = \<lparr>hs_pstr = PEER_HANDSHAKE_PSTR, hs_reserved = replicate 8 0, hs_info_hash = [],
                    hs_peer_id = []\<rparr>"

definition octets :: "nat \<Rightarrow> nat \<Rightarrow> byte list \<Rightarrow> byte list" where
  "octets k n bs = take n (drop k bs)"

text \<open>
  \<open>yylex\<close> on the rest of the buffer: the rules of the current start condition, where the
  longest match wins and \<open><*>{OCTET}\<close> is the rule that remains when the buffer is too short. The
  further arguments are the local variable \<open>bytes_to_skip\<close> and the members of \<open>yylval\<close>.
\<close>

function (sequential) yylex ::
    "platform \<Rightarrow> scan_state \<Rightarrow> u32 \<Rightarrow> handshake option \<Rightarrow> peer_record option \<Rightarrow> byte list
     \<Rightarrow> (token \<times> scan_state \<times> byte list) run" where
  "yylex p st skip h r [] = Inr (END, st, [])"
| "yylex p INITIAL skip h r inp =
     (if take 20 inp = 0x13 # PEER_HANDSHAKE_PSTR
      then yylex p state_reserved skip (Some (new_handshake\<lparr>hs_pstr := octets 1 19 inp\<rparr>)) r (drop 20 inp)
      else if 4 \<le> length inp then yylex p state_length skip h r inp
      else Inr (END_OF_FRAGMENT, INITIAL, inp))"
| "yylex p state_reserved skip h r inp =
     (if 8 \<le> length inp
      then run_bind (ace_assert (h \<noteq> None)) (\<lambda>_.
        yylex p state_hash skip (Some ((the h)\<lparr>hs_reserved := take 8 inp\<rparr>)) r (drop 8 inp))
      else Inr (END_OF_FRAGMENT, state_reserved, inp))"
| "yylex p state_hash skip h r inp =
     (if 20 \<le> length inp
      then run_bind (ace_assert (h \<noteq> None)) (\<lambda>_.
        yylex p state_peer_id skip (Some ((the h)\<lparr>hs_info_hash := take 20 inp\<rparr>)) r (drop 20 inp))
      else Inr (END_OF_FRAGMENT, state_hash, inp))"
| "yylex p state_peer_id skip h r inp =
     (if 20 \<le> length inp
      then run_bind (ace_assert (h \<noteq> None)) (\<lambda>_.
        Inr (HANDSHAKE ((the h)\<lparr>hs_peer_id := take 20 inp\<rparr>), state_length, drop 20 inp))
      else Inr (END_OF_FRAGMENT, state_peer_id, inp))"
| "yylex p state_length skip h r inp =
     (if 4 \<le> length inp
      then let r = new_record\<lparr>rec_length := from_network p (take 4 inp)\<rparr> in
        if rec_length r = 0 then Inr (RECORD KEEP_ALIVE r, state_length, drop 4 inp)
        else yylex p state_type skip h (Some r) (drop 4 inp)
      else Inr (END_OF_FRAGMENT, state_length, inp))"
| "yylex p state_type skip h r (b # inp) =
     run_bind (ace_assert (r \<noteq> None)) (\<lambda>_.
       let r = (the r)\<lparr>rec_type := message_type_of b\<rparr> in
       case rec_type r of
         MESSAGETYPE_CHOKE \<Rightarrow> Inr (RECORD CHOKE r, state_length, inp)
       | MESSAGETYPE_UNCHOKE \<Rightarrow> Inr (RECORD UNCHOKE r, state_length, inp)
       | MESSAGETYPE_INTERESTED \<Rightarrow> Inr (RECORD INTERESTED r, state_length, inp)
       | MESSAGETYPE_NOT_INTERESTED \<Rightarrow> Inr (RECORD NOT_INTERESTED r, state_length, inp)
       | MESSAGETYPE_HAVE \<Rightarrow> yylex p state_have_payload skip h (Some r) inp
       | MESSAGETYPE_BITFIELD \<Rightarrow>
           yylex p state_bitfield_payload (rec_length r - 1) h (Some r) inp
       | MESSAGETYPE_REQUEST \<Rightarrow> yylex p state_request_payload skip h (Some r) inp
       | MESSAGETYPE_PIECE \<Rightarrow> yylex p state_piece_payload skip h (Some r) inp
       | MESSAGETYPE_CANCEL \<Rightarrow> yylex p state_cancel_payload skip h (Some r) inp
       | MESSAGETYPE_OTHER _ \<Rightarrow> Inr (END, state_length, inp))"
| "yylex p state_have_payload skip h r inp =
     (if 4 \<le> length inp
      then run_bind (ace_assert (r \<noteq> None)) (\<lambda>_.
        Inr (RECORD HAVE ((the r)\<lparr>rec_payload := Have (from_network p (take 4 inp))\<rparr>),
             state_length, drop 4 inp))
      else Inr (END_OF_FRAGMENT, state_have_payload, inp))"
| "yylex p state_bitfield_payload skip h r (b # inp) =
     run_bind (ace_assert (r \<noteq> None)) (\<lambda>_.
       let r = (the r)\<lparr>rec_bitfield := rec_bitfield (the r) @ [b]\<rparr> in
       run_bind (ace_assert (skip \<noteq> 0)) (\<lambda>_.
         if skip - 1 = 0 then Inr (RECORD BITFIELD r, state_length, inp)
         else yylex p state_bitfield_payload (skip - 1) h (Some r) inp))"
| "yylex p state_request_payload skip h r inp =
     (if 12 \<le> length inp
      then run_bind (ace_assert (r \<noteq> None)) (\<lambda>_.
        Inr (RECORD REQUEST ((the r)\<lparr>rec_payload :=
               Request (from_network p (octets 0 4 inp)) (from_network p (octets 4 4 inp))
                 (from_network p (octets 8 4 inp))\<rparr>), state_length, drop 12 inp))
      else Inr (END_OF_FRAGMENT, state_request_payload, inp))"
| "yylex p state_cancel_payload skip h r inp =
     (if 12 \<le> length inp
      then run_bind (ace_assert (r \<noteq> None)) (\<lambda>_.
        Inr (RECORD CANCEL ((the r)\<lparr>rec_payload :=
               Cancel (from_network p (octets 0 4 inp)) (from_network p (octets 4 4 inp))
                 (from_network p (octets 8 4 inp))\<rparr>), state_length, drop 12 inp))
      else Inr (END_OF_FRAGMENT, state_cancel_payload, inp))"
| "yylex p state_piece_payload skip h r inp =
     (if 8 \<le> length inp
      then run_bind (ace_assert (r \<noteq> None)) (\<lambda>_.
        yylex p state_piece (rec_length (the r) - 9) h
          (Some ((the r)\<lparr>rec_payload :=
             Piece (from_network p (octets 0 4 inp)) (from_network p (octets 4 4 inp))\<rparr>))
          (drop 8 inp))
      else Inr (END_OF_FRAGMENT, state_piece_payload, inp))"
| "yylex p state_piece skip h r (b # inp) =
     run_bind (ace_assert (skip \<noteq> 0)) (\<lambda>_.
       if skip - 1 = 0
       then run_bind (ace_assert (r \<noteq> None)) (\<lambda>_. Inr (RECORD PIECE (the r), state_length, inp))
       else yylex p state_piece (skip - 1) h r inp)"
| "yylex p state_port_payload skip h r inp = Inr (END_OF_FRAGMENT, state_port_payload, inp)"
  by pat_completeness auto
termination
  by (relation "measure (\<lambda>(p, st, skip, h, r, inp). 2 * length inp + (if st = INITIAL then 1 else 0))") auto

lemma less_diff_SucI: "n < m - k \<Longrightarrow> n < Suc m"
  by simp

lemma yylex_shrinks:
  "yylex p st skip h r inp = Inr (tok, st', rest) \<Longrightarrow> tok \<noteq> END \<Longrightarrow> tok \<noteq> END_OF_FRAGMENT
   \<Longrightarrow> length rest < length inp"
proof (induction p st skip h r inp arbitrary: tok st' rest rule: yylex.induct)
qed (auto simp: Let_def split: if_splits BitTorrent_MessageType.splits intro: less_SucI less_diff_SucI)

text \<open>
  The grammar: an optional handshake, then messages, whose actions hand the record to
  \<open>record\<close>. In the generated tables the token \<open>END\<close> is shifted by \<open>message: "end"\<close>, whose action
  is \<open>YYABORT\<close>; \<open>END_OF_FRAGMENT\<close> and a handshake behind the first token are syntax errors.
\<close>

datatype event = Handshake_event handshake | Record_event peer_record

datatype outcome = PARSE_ABORT | PARSE_ERROR

definition add_event :: "event \<Rightarrow> event list \<times> outcome \<Rightarrow> (event list \<times> outcome) run" where
  "add_event e r = Inr (e # fst r, snd r)"

function yyparse ::
    "platform \<Rightarrow> bool \<Rightarrow> scan_state \<Rightarrow> byte list \<Rightarrow> (event list \<times> outcome) run" where
  "yyparse p first st inp =
     (case yylex p st 0 None None inp of
        Inl e \<Rightarrow> Inl e
      | Inr (HANDSHAKE h, st', rest) \<Rightarrow>
          if first then run_bind (yyparse p False st' rest) (add_event (Handshake_event h))
          else Inr ([], PARSE_ERROR)
      | Inr (RECORD _ r, st', rest) \<Rightarrow>
          run_bind (yyparse p False st' rest) (add_event (Record_event r))
      | Inr (END_OF_FRAGMENT, _, _) \<Rightarrow> Inr ([], PARSE_ERROR)
      | Inr (END, _, _) \<Rightarrow> Inr ([], PARSE_ABORT))"
  by pat_completeness auto
termination
  by (relation "measure (\<lambda>(p, first, st, inp). length inp)") (auto dest: yylex_shrinks)

declare yyparse.simps [simp del]

section \<open>What the scanner makes of a streamed message\<close>

lemma yylex_state_reserved:
  "8 \<le> length inp \<Longrightarrow> yylex p state_reserved skip (Some h) r inp =
     yylex p state_hash skip (Some (h\<lparr>hs_reserved := take 8 inp\<rparr>)) r (drop 8 inp)"
  by (cases inp) auto

lemma yylex_state_hash:
  "20 \<le> length inp \<Longrightarrow> yylex p state_hash skip (Some h) r inp =
     yylex p state_peer_id skip (Some (h\<lparr>hs_info_hash := take 20 inp\<rparr>)) r (drop 20 inp)"
  by (cases inp) auto

lemma yylex_state_peer_id:
  "20 \<le> length inp \<Longrightarrow> yylex p state_peer_id skip (Some h) r inp =
     Inr (HANDSHAKE (h\<lparr>hs_peer_id := take 20 inp\<rparr>), state_length, drop 20 inp)"
  by (cases inp) auto

lemma yylex_state_length:
  "4 \<le> length inp \<Longrightarrow> from_network p (take 4 inp) = l \<Longrightarrow> l \<noteq> 0 \<Longrightarrow>
   yylex p state_length skip h r inp =
     yylex p state_type skip h (Some (new_record\<lparr>rec_length := l\<rparr>)) (drop 4 inp)"
  by (cases inp) (auto simp: Let_def)

lemma yylex_state_have_payload:
  "4 \<le> length inp \<Longrightarrow> yylex p state_have_payload skip h (Some r) inp =
     Inr (RECORD HAVE (r\<lparr>rec_payload := Have (from_network p (take 4 inp))\<rparr>), state_length, drop 4 inp)"
  by (cases inp) auto

lemma yylex_state_request_payload:
  "12 \<le> length inp \<Longrightarrow> yylex p state_request_payload skip h (Some r) inp =
     Inr (RECORD REQUEST (r\<lparr>rec_payload := Request (from_network p (octets 0 4 inp))
            (from_network p (octets 4 4 inp)) (from_network p (octets 8 4 inp))\<rparr>),
          state_length, drop 12 inp)"
  by (cases inp) auto

lemma yylex_state_cancel_payload:
  "12 \<le> length inp \<Longrightarrow> yylex p state_cancel_payload skip h (Some r) inp =
     Inr (RECORD CANCEL (r\<lparr>rec_payload := Cancel (from_network p (octets 0 4 inp))
            (from_network p (octets 4 4 inp)) (from_network p (octets 8 4 inp))\<rparr>),
          state_length, drop 12 inp)"
  by (cases inp) auto

lemma yylex_state_piece_payload:
  "8 \<le> length inp \<Longrightarrow> yylex p state_piece_payload skip h (Some r) inp =
     yylex p state_piece (rec_length r - 9) h
       (Some (r\<lparr>rec_payload := Piece (from_network p (octets 0 4 inp))
          (from_network p (octets 4 4 inp))\<rparr>)) (drop 8 inp)"
  by (cases inp) auto

lemmas yylex_states =
  yylex_state_reserved yylex_state_hash yylex_state_peer_id yylex_state_length
  yylex_state_have_payload yylex_state_request_payload yylex_state_cancel_payload
  yylex_state_piece_payload

lemma yylex_state_piece:
  "data \<noteq> [] \<Longrightarrow> length data = unat skip \<Longrightarrow>
   yylex p state_piece skip h (Some r) (data @ rest) = Inr (RECORD PIECE r, state_length, rest)"
proof (induction data arbitrary: skip)
  case (Cons b data)
  note step = word_countdown [OF Cons.prems(2) [symmetric, unfolded list.size add_Suc_right add_0_right]]
  show ?case
    using Cons.IH [of "skip - 1"] step by (cases "data = []") auto
qed simp

lemma yylex_state_bitfield_payload:
  "bs \<noteq> [] \<Longrightarrow> length bs = unat skip \<Longrightarrow>
   yylex p state_bitfield_payload skip h (Some r) (bs @ rest) =
     Inr (RECORD BITFIELD (r\<lparr>rec_bitfield := rec_bitfield r @ bs\<rparr>), state_length, rest)"
proof (induction bs arbitrary: skip r)
  case (Cons b bs)
  note step = word_countdown [OF Cons.prems(2) [symmetric, unfolded list.size add_Suc_right add_0_right]]
  show ?case
    using Cons.IH [of "skip - 1" "r\<lparr>rec_bitfield := rec_bitfield r @ [b]\<rparr>"] step
    by (cases "bs = []") (auto simp: Let_def)
qed simp

section \<open>Round trip\<close>

fun kind_of :: "BitTorrent_MessageType \<Rightarrow> token_kind" where
  "kind_of MESSAGETYPE_CHOKE = CHOKE"
| "kind_of MESSAGETYPE_UNCHOKE = UNCHOKE"
| "kind_of MESSAGETYPE_INTERESTED = INTERESTED"
| "kind_of MESSAGETYPE_NOT_INTERESTED = NOT_INTERESTED"
| "kind_of MESSAGETYPE_HAVE = HAVE"
| "kind_of MESSAGETYPE_BITFIELD = BITFIELD"
| "kind_of MESSAGETYPE_REQUEST = REQUEST"
| "kind_of MESSAGETYPE_PIECE = PIECE"
| "kind_of MESSAGETYPE_CANCEL = CANCEL"
| "kind_of (MESSAGETYPE_OTHER b) = KEEP_ALIVE"

text \<open>
  A message that the peer protocol knows, with the member of the union that belongs to its type,
  and block data for a piece only; the bit field is treated separately.
\<close>

fun payload_matches :: "BitTorrent_MessageType \<Rightarrow> payload \<Rightarrow> bool" where
  "payload_matches MESSAGETYPE_HAVE (Have i) = True"
| "payload_matches MESSAGETYPE_REQUEST (Request i b l) = True"
| "payload_matches MESSAGETYPE_PIECE (Piece i b) = True"
| "payload_matches MESSAGETYPE_CANCEL (Cancel i b l) = True"
| "payload_matches MESSAGETYPE_CHOKE No_payload = True"
| "payload_matches MESSAGETYPE_UNCHOKE No_payload = True"
| "payload_matches MESSAGETYPE_INTERESTED No_payload = True"
| "payload_matches MESSAGETYPE_NOT_INTERESTED No_payload = True"
| "payload_matches _ _ = False"

definition message_wf :: "message \<Rightarrow> bool" where
  "message_wf m \<longleftrightarrow> msg_bytes m = [] \<and> msg_handshake m = None \<and>
     (case msg_peer m of None \<Rightarrow> False
      | Some r \<Rightarrow> payload_matches (rec_type r) (rec_payload r) \<and> rec_bitfield r = [] \<and>
          (if rec_type r = MESSAGETYPE_PIECE
           then 0 < total_length (msg_cont m) \<and> total_length (msg_cont m) < 2 ^ 32 - 9
           else msg_cont m = []))"

fun wire_length :: "BitTorrent_MessageType \<Rightarrow> nat \<Rightarrow> u32" where
  "wire_length MESSAGETYPE_HAVE n = 5"
| "wire_length MESSAGETYPE_REQUEST n = 13"
| "wire_length MESSAGETYPE_PIECE n = 9 + word_of_nat n"
| "wire_length MESSAGETYPE_CANCEL n = 13"
| "wire_length _ n = 1"

definition received :: "message \<Rightarrow> peer_record" where
  "received m = (let r = the (msg_peer m) in
     r\<lparr>rec_length := wire_length (rec_type r) (total_length (msg_cont m))\<rparr>)"

lemma message_type_of_simps [simp]:
  "message_type_of 0 = MESSAGETYPE_CHOKE" "message_type_of 1 = MESSAGETYPE_UNCHOKE"
  "message_type_of 2 = MESSAGETYPE_INTERESTED" "message_type_of 3 = MESSAGETYPE_NOT_INTERESTED"
  "message_type_of 4 = MESSAGETYPE_HAVE" "message_type_of 5 = MESSAGETYPE_BITFIELD"
  "message_type_of 6 = MESSAGETYPE_REQUEST" "message_type_of 7 = MESSAGETYPE_PIECE"
  "message_type_of 8 = MESSAGETYPE_CANCEL"
  by (simp_all add: message_type_of_def message_type_names_def)

lemma wire_record:
  assumes "message_wf m" "peer_handleDataMessage p m = Inr (Some m')" "msg_peer m = Some r"
  shows "wire m' = to_network p (wire_length (rec_type r) (total_length (msg_cont m)))
           @ message_code (rec_type r) # (case rec_payload r of
               Have i \<Rightarrow> to_network p i
             | Piece i b \<Rightarrow> to_network p i @ to_network p b
             | Cancel i b l \<Rightarrow> to_network p i @ to_network p b @ to_network p l
             | Request i b l \<Rightarrow> to_network p i @ to_network p b @ to_network p l
             | _ \<Rightarrow> []) @ concat (msg_cont m)"
  using assms
  by (cases "(rec_type r, rec_payload r)" rule: payload_matches.cases)
    (auto simp: message_wf_def peer_handleDataMessage_def stream_peer_record_def network_part_def wire_def Let_def
      split: if_splits)

lemma octets_append [simp]:
  "length xs = k \<Longrightarrow> octets k n (xs @ ys) = take n ys"
  "length xs = n \<Longrightarrow> octets 0 n (xs @ ys) = xs"
  "length xs + length ys = k \<Longrightarrow> octets k n (xs @ ys @ zs) = take n zs"
  by (simp_all add: octets_def)

lemma piece_length_fits:
  assumes "n < 2 ^ 32 - 9"
  shows "unat (word_of_nat n :: u32) = n" "9 + word_of_nat n \<noteq> (0 :: u32)"
proof -
  show n: "unat (word_of_nat n :: u32) = n"
    using assms by (intro unat_of_nat_u32) simp
  have "unat (9 + word_of_nat n :: u32) = 9 + n"
    using assms n by (subst unat_add_no_wrap) simp_all
  then show "9 + word_of_nat n \<noteq> (0 :: u32)"
    by auto
qed

lemma yylex_wire:
  assumes "swaps_bytes p" "swaps_bytes q" "message_wf m" "peer_handleDataMessage p m = Inr (Some m')"
  shows "yylex q state_length 0 None None (wire m' @ rest) =
           Inr (RECORD (kind_of (rec_type (the (msg_peer m)))) (received m), state_length, rest)"
proof -
  from assms(3) obtain l t u where peer: "msg_peer m = Some \<lparr>rec_length = l, rec_type = t, rec_bitfield = [], rec_payload = u\<rparr>"
    and pm: "payload_matches t u" and cont: "if t = MESSAGETYPE_PIECE
           then 0 < total_length (msg_cont m) \<and> total_length (msg_cont m) < 2 ^ 32 - 9
           else msg_cont m = []"
    by (cases "the (msg_peer m)") (auto simp: message_wf_def split: option.splits)
  note w = wire_record [OF assms(3,4) peer]
  have piece: "concat (msg_cont m) \<noteq> [] \<and> length (concat (msg_cont m)) = unat (word_of_nat (total_length (msg_cont m)) :: u32)
      \<and> 9 + word_of_nat (total_length (msg_cont m)) \<noteq> (0 :: u32)" if "t = MESSAGETYPE_PIECE"
    using cont that piece_length_fits [of "total_length (msg_cont m)"]
    by (auto simp: total_length_concat simp del: length_concat)
  show ?thesis
    using pm cont piece w assms(1,2)
    by (cases "(t, u)" rule: payload_matches.cases)
      (auto simp: peer received_def Let_def new_record_def yylex_states yylex_state_piece)
qed

definition handshake_message_wf :: "message \<Rightarrow> bool" where
  "handshake_message_wf m \<longleftrightarrow> msg_bytes m = [] \<and> msg_peer m = None \<and> msg_cont m = [] \<and>
     (case msg_handshake m of None \<Rightarrow> False
      | Some h \<Rightarrow> hs_pstr h = PEER_HANDSHAKE_PSTR \<and> length (hs_reserved h) = 8
          \<and> length (hs_info_hash h) = 20 \<and> length (hs_peer_id h) = 20)"

lemma length_PSTR [simp]: "length PEER_HANDSHAKE_PSTR = 19"
  by (simp add: PEER_HANDSHAKE_PSTR_def)

lemma wire_handshake:
  assumes "handshake_message_wf m" "peer_handleDataMessage p m = Inr (Some m')" "msg_handshake m = Some h"
  shows "wire m' = 0x13 # PEER_HANDSHAKE_PSTR @ hs_reserved h @ hs_info_hash h @ hs_peer_id h"
  using assms
  by (auto simp: handshake_message_wf_def peer_handleDataMessage_def stream_handshake_def c_str_bytes_def wire_def
      Let_def split: if_splits)

lemma yylex_handshake:
  assumes "handshake_message_wf m" "peer_handleDataMessage p m = Inr (Some m')"
  shows "yylex q INITIAL 0 None None (wire m' @ rest) =
           Inr (HANDSHAKE (the (msg_handshake m)), state_length, rest)"
proof -
  from assms(1) obtain h where h: "msg_handshake m = Some h" "hs_pstr h = PEER_HANDSHAKE_PSTR"
    "length (hs_reserved h) = 8" "length (hs_info_hash h) = 20" "length (hs_peer_id h) = 20"
    by (auto simp: handshake_message_wf_def split: option.splits)
  then have "h = \<lparr>hs_pstr = PEER_HANDSHAKE_PSTR, hs_reserved = hs_reserved h, hs_info_hash = hs_info_hash h,
      hs_peer_id = hs_peer_id h\<rparr>"
    by simp
  then show ?thesis
    unfolding wire_handshake [OF assms h(1)] using h
    by (simp add: yylex_states octets_def new_handshake_def)
qed

lemma yyparse_END: "yyparse q first st [] = Inr ([], PARSE_ABORT)"
  by (simp add: yyparse.simps)

lemma yyparse_messages:
  assumes "swaps_bytes p" "swaps_bytes q"
    and "list_all2 (\<lambda>m m'. message_wf m \<and> peer_handleDataMessage p m = Inr (Some m')) ms ms'"
  shows "yyparse q first state_length (concat (map wire ms')) = Inr (map (Record_event \<circ> received) ms, PARSE_ABORT)"
  using assms(3)
proof (induction arbitrary: first rule: list_all2_induct)
  case Nil
  show ?case by (simp add: yyparse_END)
next
  case (Cons m ms m' ms')
  then show ?case
    using yylex_wire [OF assms(1,2), of m m' "concat (map wire ms')"]
    by (subst yyparse.simps) (simp add: add_event_def)
qed

text \<open>C4: What one peer streams, another reads back. A handshake followed by any sequence of choke,
  unchoke, interested, not interested, have, request, piece and cancel messages, serialised by
  the streamer of one machine and concatenated, is scanned and parsed on another machine, of the
  same or of the other byte order, into exactly that handshake and those records, in order, each
  with its length filled in.
\<close>

theorem peer_session_round_trip:
  assumes "swaps_bytes p" "swaps_bytes q"
    and "handshake_message_wf hm" "peer_handleDataMessage p hm = Inr (Some hm')"
    and "list_all2 (\<lambda>m m'. message_wf m \<and> peer_handleDataMessage p m = Inr (Some m')) ms ms'"
  shows "yyparse q True INITIAL (wire hm' @ concat (map wire ms')) =
           Inr (Handshake_event (the (msg_handshake hm)) # map (Record_event \<circ> received) ms, PARSE_ABORT)"
  by (subst yyparse.simps)
    (simp add: yylex_handshake [OF assms(3,4)] yyparse_messages [OF assms(1,2,5)] add_event_def)

definition swap_bytes :: "u32 \<Rightarrow> u32" where
  "swap_bytes v = native_value False (native_bytes True v)"

lemma swaps_bytes_swap: "swaps_bytes \<lparr>little_endian = le, ACE_SWAP_LONG = swap_bytes\<rparr>"
  unfolding swaps_bytes_def swap_bytes_def
  by (metis length_native_bytes length_rev native_bytes_value native_value_rev platform.select_convs(2))

definition example_handshake :: message where
  "example_handshake = \<lparr>msg_bytes = [], msg_space = 100, msg_cont = [],
     msg_handshake = Some \<lparr>hs_pstr = PEER_HANDSHAKE_PSTR, hs_reserved = replicate 8 0,
       hs_info_hash = replicate 20 7, hs_peer_id = replicate 20 9\<rparr>, msg_peer = None\<rparr>"

definition example_piece :: message where
  "example_piece = \<lparr>msg_bytes = [], msg_space = 100, msg_cont = [[1, 2], [3]], msg_handshake = None,
     msg_peer = Some \<lparr>rec_length = 0, rec_type = MESSAGETYPE_PIECE, rec_bitfield = [],
       rec_payload = Piece 4 16384\<rparr>\<rparr>"

theorem peer_session_round_trip_witness:
  "\<exists>hm' m'. peer_handleDataMessage \<lparr>little_endian = True, ACE_SWAP_LONG = swap_bytes\<rparr> example_handshake = Inr (Some hm')
     \<and> peer_handleDataMessage \<lparr>little_endian = True, ACE_SWAP_LONG = swap_bytes\<rparr> example_piece = Inr (Some m')
     \<and> yyparse \<lparr>little_endian = False, ACE_SWAP_LONG = swap_bytes\<rparr> True INITIAL (wire hm' @ wire m')
       = Inr ([Handshake_event (the (msg_handshake example_handshake)),
               Record_event \<lparr>rec_length = 12, rec_type = MESSAGETYPE_PIECE, rec_bitfield = [],
                             rec_payload = Piece 4 16384\<rparr>], PARSE_ABORT)"
proof -
  let ?p = "\<lparr>little_endian = True, ACE_SWAP_LONG = swap_bytes\<rparr>"
  obtain hm' where hm': "peer_handleDataMessage ?p example_handshake = Inr (Some hm')"
    by (simp add: peer_handleDataMessage_def example_handshake_def stream_handshake_def c_str_bytes_def Let_def)
  obtain m' where m': "peer_handleDataMessage ?p example_piece = Inr (Some m')"
    by (simp add: peer_handleDataMessage_def example_piece_def stream_peer_record_def network_part_def Let_def)
  have wf: "handshake_message_wf example_handshake" "message_wf example_piece"
    by (simp_all add: handshake_message_wf_def message_wf_def example_handshake_def example_piece_def total_length_def)
  have "received example_piece = \<lparr>rec_length = 12, rec_type = MESSAGETYPE_PIECE, rec_bitfield = [],
          rec_payload = Piece 4 16384\<rparr>"
    by (simp add: received_def example_piece_def total_length_def Let_def)
  then show ?thesis
    using peer_session_round_trip [OF swaps_bytes_swap swaps_bytes_swap wf(1) hm', of "[example_piece]" "[m']"] wf(2) m' hm'
    by auto
qed

text \<open>A streamed bit field announces four bytes more than it has. The streamer counts
  \<open>1 + 4 + size\<close> bytes although no four byte field follows the type, so the receiving scanner
  takes the first four bytes of the next message for the end of the bit field and continues
  behind them.
\<close>

lemma bitfield_swallows_next_message:
  assumes "swaps_bytes p" "swaps_bytes q"
    and "msg_bytes m = []" "msg_cont m = []" "msg_handshake m = None"
    and "msg_peer m = Some r" "rec_type r = MESSAGETYPE_BITFIELD" "length (rec_bitfield r) < 2 ^ 32 - 5"
    and "peer_handleDataMessage p m = Inr (Some m')" "length following = 4"
  shows "yylex q state_length 0 None None (wire m' @ following @ rest) =
           Inr (RECORD BITFIELD (new_record\<lparr>rec_length := 5 + word_of_nat (length (rec_bitfield r)),
                  rec_type := MESSAGETYPE_BITFIELD, rec_bitfield := rec_bitfield r @ following\<rparr>),
                state_length, rest)"
proof -
  let ?n = "length (rec_bitfield r)"
  have wire: "wire m' = to_network p (5 + word_of_nat ?n) @ 5 # rec_bitfield r"
    using assms(3-9)
    by (auto simp: peer_handleDataMessage_def stream_peer_record_def wire_def Let_def split: if_splits)
  have n: "unat (word_of_nat ?n :: u32) = ?n"
    using assms(8) by (intro unat_of_nat_u32) simp
  have "unat (5 + word_of_nat ?n :: u32) = 5 + ?n" "unat (4 + word_of_nat ?n :: u32) = 4 + ?n"
    using assms(8) n by (subst unat_add_no_wrap; simp)+
  then have "(5 + word_of_nat ?n :: u32) \<noteq> 0" and len: "length (rec_bitfield r @ following) = unat (4 + word_of_nat ?n :: u32)"
    using assms(10) by auto
  moreover have ne: "rec_bitfield r @ following \<noteq> []"
    using assms(10) by auto
  ultimately show ?thesis
    using assms(1,2,10) yylex_state_bitfield_payload [OF ne len, of q None _ rest]
    by (auto simp: wire yylex_states Let_def new_record_def)
qed

section \<open>Cutting messages off the received buffers\<close>

text \<open>
  \<open>BitTorrent_Module_PeerParser_T::record\<close> and \<open>handshake\<close> on the chain of buffers that starts at
  \<open>headFragment_\<close>. Continuations of a chain keep their boundaries; a buffer that holds the end
  of a message and the beginning of the next is duplicated and both copies are narrowed.
\<close>

definition message_bytes :: "peer_record \<Rightarrow> u32 option" where
  "message_bytes r =
     (if rec_length r = 0 then Some 4
      else case rec_type r of
        MESSAGETYPE_CHOKE \<Rightarrow> Some (4 + 1)
      | MESSAGETYPE_UNCHOKE \<Rightarrow> Some (4 + 1)
      | MESSAGETYPE_INTERESTED \<Rightarrow> Some (4 + 1)
      | MESSAGETYPE_NOT_INTERESTED \<Rightarrow> Some (4 + 1)
      | MESSAGETYPE_HAVE \<Rightarrow> Some (4 + 1 + 4)
      | MESSAGETYPE_BITFIELD \<Rightarrow> Some (4 + 1 + (rec_length r - 1))
      | MESSAGETYPE_REQUEST \<Rightarrow> Some (4 + 1 + 4 + 4 + 4)
      | MESSAGETYPE_PIECE \<Rightarrow> Some (4 + 1 + 4 + 4 + (rec_length r - 9))
      | MESSAGETYPE_CANCEL \<Rightarrow> Some (4 + 1 + 4 + 4 + 4)
      | MESSAGETYPE_OTHER _ \<Rightarrow> None)"

fun drop_header :: "nat \<Rightarrow> byte list list \<Rightarrow> (byte list list \<times> byte list list) run" where
  "drop_header header_bytes [] = Inl Assertion_failed"
| "drop_header header_bytes (b # bs) =
     (if header_bytes \<le> length b then Inr ([], drop header_bytes b # bs)
      else run_bind (drop_header (header_bytes - length b) bs) (\<lambda>(pre, rest). Inr ([] # pre, rest)))"

fun split_chain :: "u32 \<Rightarrow> u32 \<Rightarrow> byte list list \<Rightarrow> (byte list list \<times> byte list list) run" where
  "split_chain bytes skipped [] = Inl Assertion_failed"
| "split_chain bytes skipped (b # bs) =
     (let skipped = skipped + word_of_nat (length b) in
      if skipped < bytes
      then run_bind (split_chain bytes skipped bs) (\<lambda>(m, rest). Inr (b # m, rest))
      else if skipped = bytes then Inr ([b], bs)
      else let remainder = unat (skipped - bytes) in
        Inr ([take (length b - remainder) b], drop (length b - remainder) b # bs))"

text \<open>
  The result is the chain passed to the next module, \<open>None\<close> if the data was released instead, and
  the new chain at \<open>headFragment_\<close>, where the empty list is the null pointer.
\<close>

definition module_record ::
    "peer_record \<Rightarrow> byte list list \<Rightarrow> (byte list list option \<times> byte list list) run" where
  "module_record r chain =
     run_bind (ace_assert (chain \<noteq> [])) (\<lambda>_.
       case message_bytes r of
         None \<Rightarrow> Inr (None, [])
       | Some bytes \<Rightarrow>
           run_bind (ace_assert (bytes \<noteq> 0)) (\<lambda>_.
             if total_length chain < unat bytes then Inr (None, [])
             else if rec_type r = MESSAGETYPE_PIECE
             then run_bind (drop_header (4 + 1 + 4 + 4) chain) (\<lambda>(pre, chain).
                  run_bind (split_chain (bytes - (4 + 1 + 4 + 4)) 0 chain) (\<lambda>(m, rest).
                  run_bind (ace_assert (total_length (pre @ m) = unat (rec_length r - 9))) (\<lambda>_.
                    Inr (Some (pre @ m), rest))))
             else run_bind (split_chain bytes 0 chain) (\<lambda>(m, rest).
                  run_bind (ace_assert (total_length m = unat bytes)) (\<lambda>_.
                    Inr (Some m, rest)))))"

definition module_handshake :: "nat \<Rightarrow> byte list list \<Rightarrow> byte list list run" where
  "module_handshake handshake_bytes chain =
     run_bind (drop_header handshake_bytes chain) (\<lambda>(pre, rest). Inr (pre @ rest))"

lemma drop_header_spec:
  "n \<le> total_length chain \<Longrightarrow> chain \<noteq> [] \<Longrightarrow>
   \<exists>pre rest. drop_header n chain = Inr (pre, rest) \<and> concat pre = [] \<and> rest \<noteq> []
     \<and> concat rest = drop n (concat chain)"
proof (induction n chain rule: drop_header.induct)
  case (2 n b bs)
  show ?case
  proof (cases "n \<le> length b")
    case False
    with "2.prems" have "n - length b \<le> total_length bs" "bs \<noteq> []"
      by auto
    from "2.IH" [OF False this] False show ?thesis
      by fastforce
  qed auto
qed simp

lemma split_chain_spec:
  "chain \<noteq> [] \<Longrightarrow> skipped < bytes \<or> skipped = 0 \<Longrightarrow> unat bytes \<le> unat skipped + total_length chain
   \<Longrightarrow> unat skipped + total_length chain < 2 ^ 32 \<Longrightarrow>
   \<exists>m rest. split_chain bytes skipped chain = Inr (m, rest)
     \<and> concat m = take (unat bytes - unat skipped) (concat chain)
     \<and> concat rest = drop (unat bytes - unat skipped) (concat chain)"
proof (induction bytes skipped chain rule: split_chain.induct)
  case (2 bytes skipped b bs)
  let ?s = "skipped + word_of_nat (length b)"
  have s: "unat ?s = unat skipped + length b"
    using "2.prems"(4) by (subst unat_add_no_wrap) (simp_all add: unat_of_nat_u32)
  consider "?s < bytes" | "?s = bytes" | "bytes < ?s"
    by force
  then show ?case
  proof cases
    case 1
    then have "bs \<noteq> []"
      using "2.prems"(3) s by (auto simp: word_less_nat_alt)
    then obtain m rest where "split_chain bytes ?s bs = Inr (m, rest)"
      "concat m = take (unat bytes - unat ?s) (concat bs)" "concat rest = drop (unat bytes - unat ?s) (concat bs)"
      using "2.IH" [OF refl 1] "2.prems" 1 s by (auto simp: add.assoc)
    with 1 s show ?thesis
      by (auto simp: word_less_nat_alt)
  next
    case 2
    with s have "unat bytes - unat skipped = length b"
      by auto
    with 2 show ?thesis
      by auto
  next
    case 3
    then have "unat (?s - bytes) = unat ?s - unat bytes"
      by (simp add: unat_sub_if_size word_less_nat_alt)
    then have "length b - unat (?s - bytes) = unat bytes - unat skipped"
      using 3 s "2.prems"(2) by (auto simp: word_less_nat_alt)
    moreover have "unat bytes - unat skipped \<le> length b"
      using 3 s by (auto simp: word_less_nat_alt)
    ultimately show ?thesis
      using 3 by (auto simp: Let_def)
  qed
qed simp

lemma message_bytes_bounds:
  assumes "message_bytes r = Some bytes" "unat (rec_length r) + 4 < 2 ^ 32"
  shows "bytes \<noteq> 0"
    and "rec_type r = MESSAGETYPE_PIECE \<Longrightarrow> 9 \<le> rec_length r \<Longrightarrow>
           unat bytes = 13 + unat (rec_length r - 9) \<and> bytes - 13 = rec_length r - 9"
proof -
  have len: "unat (4 + rec_length r) = 4 + unat (rec_length r)"
    using assms(2) by (subst unat_add_no_wrap) simp_all
  then have "4 + rec_length r \<noteq> 0"
    by auto
  then show "bytes \<noteq> 0"
    using assms(1)
    by (auto simp: message_bytes_def split: if_splits BitTorrent_MessageType.splits)
  assume piece: "rec_type r = MESSAGETYPE_PIECE" "9 \<le> rec_length r"
  then have "rec_length r \<noteq> 0"
    by auto
  with piece have bytes: "bytes = 4 + rec_length r"
    using assms(1) by (auto simp: message_bytes_def)
  moreover have "unat (rec_length r - 9) = unat (rec_length r) - 9"
    using piece(2) by (simp add: unat_sub word_le_nat_alt)
  ultimately show "unat bytes = 13 + unat (rec_length r - 9) \<and> bytes - 13 = rec_length r - 9"
    using len piece(2) by (auto simp: word_le_nat_alt)
qed

text \<open>C37: The parser module cuts exactly one message off the received data, however the network
  fragmented it. If the buffers hold the whole message, the chain passed on carries the bytes of
  the message (for a piece only its block data), the chain kept starts with the first byte behind
  it, and no assertion fails.
\<close>

theorem module_record_splits:
  assumes "chain \<noteq> []" "message_bytes r = Some bytes"
    and "unat bytes \<le> total_length chain" "total_length chain < 2 ^ 32"
    and "unat (rec_length r) + 4 < 2 ^ 32" "rec_type r = MESSAGETYPE_PIECE \<longrightarrow> 9 \<le> rec_length r"
  shows "\<exists>m rest. module_record r chain = Inr (Some m, rest)
     \<and> concat m = drop (if rec_type r = MESSAGETYPE_PIECE then 13 else 0) (take (unat bytes) (concat chain))
     \<and> concat rest = drop (unat bytes) (concat chain)"
proof (cases "rec_type r = MESSAGETYPE_PIECE")
  case True
  note bytes = message_bytes_bounds(1) [OF assms(2,5)] message_bytes_bounds(2) [OF assms(2,5) True]
  have u: "unat bytes = 13 + unat (rec_length r - 9)" and d: "bytes - 13 = rec_length r - 9"
    using bytes(2) assms(6) True by auto
  obtain pre chain' where hd: "drop_header 13 chain = Inr (pre, chain')" "concat pre = []" "chain' \<noteq> []"
      "concat chain' = drop 13 (concat chain)"
    using drop_header_spec [of 13 chain] assms(1,3) u by auto
  then have "total_length chain' = total_length chain - 13"
    by (simp add: total_length_concat)
  then have "unat (rec_length r - 9) \<le> total_length chain'" "total_length chain' < 2 ^ 32"
    using assms(3,4) u by linarith+
  then obtain m rest where sp: "split_chain (rec_length r - 9) 0 chain' = Inr (m, rest)"
      "concat m = take (unat (rec_length r - 9)) (concat chain')"
      "concat rest = drop (unat (rec_length r - 9)) (concat chain')"
    using split_chain_spec [of chain' 0 "rec_length r - 9"] hd(3) by auto
  have "total_length (pre @ m) = unat (rec_length r - 9)"
    using sp(2) hd(2,4) u assms(3) by (simp add: total_length_concat del: length_concat)
  then show ?thesis
    using assms(1-3) bytes(1) hd sp True u d
    by (auto simp: module_record_def not_less drop_take add.commute)
next
  case False
  obtain m rest where sp: "split_chain bytes 0 chain = Inr (m, rest)"
      "concat m = take (unat bytes) (concat chain)" "concat rest = drop (unat bytes) (concat chain)"
    using split_chain_spec [of chain 0 bytes] assms(1,3,4) by auto
  have "total_length m = unat bytes"
    using sp(2) assms(3) by (simp add: total_length_concat del: length_concat)
  then show ?thesis
    using assms(1-3) message_bytes_bounds(1) [OF assms(2,5)] sp False
    by (auto simp: module_record_def not_less)
qed

theorem module_record_splits_witness:
  "\<exists>m rest. module_record (new_record\<lparr>rec_length := 12, rec_type := MESSAGETYPE_PIECE\<rparr>)
       [[0, 0, 0, 12, 7, 0, 0], [0, 4, 0, 0, 64, 0], [1, 2], [3, 0, 0], [0, 0]] = Inr (Some m, rest)
     \<and> concat m = [1, 2, 3] \<and> concat rest = [0, 0, 0, 0]"
  using module_record_splits
    [of "[[0, 0, 0, 12, 7, 0, 0], [0, 4, 0, 0, 64, 0], [1, 2], [3, 0, 0], [0, 0]]"
        "new_record\<lparr>rec_length := 12, rec_type := MESSAGETYPE_PIECE\<rparr>" 16]
  by (simp add: message_bytes_def total_length_def)

lemma yylex_state_piece_consumes:
  "yylex p state_piece skip h (Some r) inp = Inr (RECORD k r', st', rest) \<Longrightarrow>
   r' = r \<and> length inp = unat skip + length rest"
proof (induction inp arbitrary: skip)
  case (Cons b inp)
  then have "skip \<noteq> 0"
    by auto
  then obtain n where n: "unat skip = Suc n"
    by (metis unat_eq_0 not0_implies_Suc)
  show ?case
    using Cons.prems Cons.IH [of "skip - 1"] word_countdown [OF n] n by (auto split: if_splits)
qed simp

lemma yylex_state_bitfield_consumes:
  "yylex p state_bitfield_payload skip h (Some r) inp = Inr (RECORD k r', st', rest) \<Longrightarrow>
   rec_type r' = rec_type r \<and> rec_length r' = rec_length r \<and> length inp = unat skip + length rest"
proof (induction inp arbitrary: skip r)
  case (Cons b inp)
  then have "skip \<noteq> 0"
    by (auto simp: Let_def)
  then obtain n where n: "unat skip = Suc n"
    by (metis unat_eq_0 not0_implies_Suc)
  show ?case
    using Cons.prems Cons.IH [of "skip - 1" "r\<lparr>rec_bitfield := rec_bitfield r @ [b]\<rparr>"] word_countdown [OF n] n
    by (auto simp: Let_def split: if_splits)
qed simp

lemma yylex_fixed_payload_consumes:
  "yylex p state_have_payload skip h (Some r) inp = Inr (RECORD k r', st', rest) \<Longrightarrow>
   rec_type r' = rec_type r \<and> rec_length r' = rec_length r \<and> length inp = 4 + length rest"
  "yylex p state_request_payload skip h (Some r) inp = Inr (RECORD k r', st', rest) \<Longrightarrow>
   rec_type r' = rec_type r \<and> rec_length r' = rec_length r \<and> length inp = 12 + length rest"
  "yylex p state_cancel_payload skip h (Some r) inp = Inr (RECORD k r', st', rest) \<Longrightarrow>
   rec_type r' = rec_type r \<and> rec_length r' = rec_length r \<and> length inp = 12 + length rest"
  by (cases inp; auto split: if_splits)+

lemma yylex_piece_payload_consumes:
  assumes "yylex p state_piece_payload skip h (Some r) inp = Inr (RECORD k r', st', rest)"
  shows "rec_type r' = rec_type r \<and> rec_length r' = rec_length r \<and>
         length inp = 8 + unat (rec_length r - 9) + length rest"
proof -
  from assms have "8 \<le> length inp"
    by (cases inp) (auto split: if_splits)
  with assms show ?thesis
    by (auto simp: yylex_states dest!: yylex_state_piece_consumes)
qed

lemma yylex_state_type_consumes:
  assumes lex: "yylex p state_type 0 None (Some (new_record\<lparr>rec_length := l\<rparr>)) (b # body) = Inr (RECORD k r, st, rest)"
    and l: "l \<noteq> 0" and len: "5 + length body < 2 ^ 32"
  shows "\<exists>bytes. message_bytes r = Some bytes \<and> 5 + length body = unat bytes + length rest"
proof -
  have bf: "unat (4 + l) = 5 + unat (l - 1)" if "5 + unat (l - 1) < 2 ^ 32"
    using that unat_add_no_wrap [of 5 "l - 1"] by simp
  have pc: "unat (4 + l) = 13 + unat (l - 9)" if "13 + unat (l - 9) < 2 ^ 32"
    using that unat_add_no_wrap [of 13 "l - 9"] by simp
  show ?thesis
  proof (cases "message_type_of b")
    case MESSAGETYPE_HAVE
    then show ?thesis
      using lex l by (auto simp: message_bytes_def Let_def dest!: yylex_fixed_payload_consumes(1))
  next
    case MESSAGETYPE_BITFIELD
    then show ?thesis
      using lex len l bf by (auto simp: message_bytes_def Let_def dest!: yylex_state_bitfield_consumes)
  next
    case MESSAGETYPE_REQUEST
    then show ?thesis
      using lex l by (auto simp: message_bytes_def Let_def dest!: yylex_fixed_payload_consumes(2))
  next
    case MESSAGETYPE_PIECE
    then show ?thesis
      using lex len l pc by (auto simp: message_bytes_def Let_def dest!: yylex_piece_payload_consumes)
  next
    case MESSAGETYPE_CANCEL
    then show ?thesis
      using lex l by (auto simp: message_bytes_def Let_def dest!: yylex_fixed_payload_consumes(3))
  qed (use lex l in \<open>auto simp: message_bytes_def Let_def\<close>)
qed

text \<open>The parser module cuts off exactly the bytes the scanner has read. Whenever the scanner,
  on any received bytes, delivers a record, the number of bytes the module computes for that
  record is the number of bytes the scanner consumed for it.
\<close>

lemma module_bytes_are_scanned_bytes:
  assumes "yylex p state_length 0 None None inp = Inr (RECORD k r, st, rest)" "length inp < 2 ^ 32"
  shows "\<exists>bytes. message_bytes r = Some bytes \<and> length inp = unat bytes + length rest"
proof -
  let ?l = "from_network p (take 4 inp)"
  from assms(1) have four: "4 \<le> length inp"
    by (cases inp) (auto split: if_splits)
  show ?thesis
  proof (cases "?l = 0")
    case True
    with assms(1) four show ?thesis
      by (cases inp) (auto simp: message_bytes_def Let_def)
  next
    case False
    from assms(1) have lex: "yylex p state_type 0 None (Some (new_record\<lparr>rec_length := ?l\<rparr>)) (drop 4 inp)
        = Inr (RECORD k r, st, rest)"
      by (simp add: yylex_state_length [OF four refl False])
    then obtain b body where body: "drop 4 inp = b # body"
      by (cases "drop 4 inp") auto
    have "length inp = 5 + length body"
      using arg_cong [OF body, of length] four by simp
    with yylex_state_type_consumes [OF lex [unfolded body] False] assms(2) show ?thesis
      by simp
  qed
qed

end
