(* ===== verification/Bencoding.thy ===== *)
theory Bencoding
  imports Net_Prelude
begin

text \<open>
  The bencoding parser that reads torrent files and tracker responses: the scanner rules
  (\<open>bittorrent_bencoding_scanner.cpp\<close>, generated from \<open>scripts/bencoding_scanner.ll\<close>), the grammar
  and its actions (\<open>bittorrent_bencoding_parser.cpp\<close>, from \<open>scripts/bencoding_parser.yy\<close>), and the
  driver \<open>BitTorrent_Bencoding_ParserDriver\<close>, which builds the tree of elements.

  The driver keeps pointers into the tree it builds and appends to containers through them, so
  elements live in a heap: \<open>heap\<close> is the list of the allocated elements and an address is an
  index into it. The scanner is modelled on one buffer in non-blocking mode, where the rule
  \<open><*>{OCTET}\<close> terminates.
\<close>

section \<open>The driver\<close>

type_synonym addr = nat

datatype element =
    Integer_element int
  | String_element string
  | List_element "addr list"
  | Dictionary_element "(string \<times> addr) list"

record driver =
  heap :: "element list"
  bencoding :: "addr option"
  isFirst :: bool
  current :: "addr list"
  key :: "string option"

definition new_driver :: driver where
  "new_driver = \<lparr>heap = [], bencoding = None, isFirst = True, current = [], key = None\<rparr>"

definition deref :: "driver \<Rightarrow> addr \<Rightarrow> element run" where
  "deref d a = (if a < length (heap d) then Inr (heap d ! a) else Inl Null_dereference)"

fun is_container :: "element \<Rightarrow> bool" where
  "is_container (List_element _) = True"
| "is_container (Dictionary_element _) = True"
| "is_container _ = False"

text \<open>
  \<open>push\<close>: the first element becomes the root; every other one is appended to the container on
  top of the stack, and a container becomes the new top.
\<close>

definition push_first :: "addr \<Rightarrow> driver \<Rightarrow> driver run" where
  "push_first a d =
     (if isFirst d
      then run_bind (ace_assert (bencoding d = None)) (\<lambda>_.
        Inr (d\<lparr>isFirst := False, bencoding := Some a\<rparr>))
      else Inr d)"

definition push_child :: "addr \<Rightarrow> driver \<Rightarrow> driver run" where
  "push_child a d =
     (case current d of
        [] \<Rightarrow> Inr d
      | t # _ \<Rightarrow>
          run_bind (deref d t) (\<lambda>e. case e of
            List_element as \<Rightarrow> Inr (d\<lparr>heap := (heap d)[t := List_element (as @ [a])]\<rparr>)
          | Dictionary_element kvs \<Rightarrow>
              run_bind (ace_assert (key d \<noteq> None)) (\<lambda>_.
                Inr (d\<lparr>heap := (heap d)[t := Dictionary_element (kvs @ [(the (key d), a)])],
                       key := None\<rparr>))
          | _ \<Rightarrow> Inl Assertion_failed))"

definition push_container :: "addr \<Rightarrow> driver \<Rightarrow> driver run" where
  "push_container a d =
     run_bind (deref d a) (\<lambda>e. Inr (if is_container e then d\<lparr>current := a # current d\<rparr> else d))"

definition push :: "element \<Rightarrow> driver \<Rightarrow> driver run" where
  "push e d =
     (let a = length (heap d); d = d\<lparr>heap := heap d @ [e]\<rparr> in
      run_bind (push_first a d) (\<lambda>d. run_bind (push_child a d) (push_container a)))"

definition pushInteger :: "int \<Rightarrow> driver \<Rightarrow> driver run" where
  "pushInteger i = push (Integer_element i)"

definition pushString :: "string \<Rightarrow> driver \<Rightarrow> driver run" where
  "pushString s = push (String_element s)"

definition pushList :: "driver \<Rightarrow> driver run" where
  "pushList = push (List_element [])"

definition pushDictionary :: "driver \<Rightarrow> driver run" where
  "pushDictionary = push (Dictionary_element [])"

definition pushKey :: "string \<Rightarrow> driver \<Rightarrow> driver run" where
  "pushKey k d = run_bind (ace_assert (key d = None)) (\<lambda>_. Inr (d\<lparr>key := Some k\<rparr>))"

definition pop :: "driver \<Rightarrow> driver run" where
  "pop d = (case current d of [] \<Rightarrow> Inl Out_of_bounds | _ # as \<Rightarrow> Inr (d\<lparr>current := as\<rparr>))"

definition record_root :: "driver \<Rightarrow> driver run" where
  "record_root d = run_bind (ace_assert (bencoding d \<noteq> None)) (\<lambda>_. Inr d)"

section \<open>The scanner\<close>

datatype start_condition =
    INITIAL | state_string | state_string_2 | state_integer | state_list | state_dictionary_key
  | state_dictionary_key_2 | state_dictionary_value | state_dictionary_value_2

type_synonym scanner = "start_condition \<times> start_condition list"

datatype bencoding_token =
    INTEGER int | STRING string | LIST | DICTIONARY | END_OF_LIST | END_OF_DICTIONARY | END

definition yy_push_state :: "start_condition \<Rightarrow> scanner \<Rightarrow> scanner" where
  "yy_push_state st sc = (st, fst sc # snd sc)"

definition yy_pop_state :: "scanner \<Rightarrow> scanner run" where
  "yy_pop_state sc = (case snd sc of [] \<Rightarrow> Inl Out_of_bounds | st # sts \<Rightarrow> Inr (st, sts))"

definition BEGIN :: "start_condition \<Rightarrow> scanner \<Rightarrow> scanner" where
  "BEGIN st sc = (st, snd sc)"

definition is_DIGIT :: "char \<Rightarrow> bool" where
  "is_DIGIT c \<longleftrightarrow> c = CHR ''-'' \<or> is_digit c"

text \<open>
  \<open>operator>>\<close> of the stream that holds the digits, for \<open>ACE_INT64\<close> and for \<open>unsigned int\<close>: an
  optional sign and the digits behind it; no digits give zero, and a value out of range gives
  the limit. A negative number read into an unsigned variable is negated modulo \<open>2\<^sup>3\<^sup>2\<close>.
\<close>

definition extract_int64 :: "string \<Rightarrow> int" where
  "extract_int64 s =
     (if s \<noteq> [] \<and> hd s = CHR ''-''
      then - min (int (dec_value (takeWhile is_digit (tl s)))) (2 ^ 63)
      else min (int (dec_value (takeWhile is_digit s))) (2 ^ 63 - 1))"

definition extract_uint32 :: "string \<Rightarrow> u32" where
  "extract_uint32 s =
     (if s \<noteq> [] \<and> hd s = CHR ''-''
      then (let n = dec_value (takeWhile is_digit (tl s)) in
            if n < 2 ^ 32 then - word_of_nat n else - 1)
      else (let n = dec_value (takeWhile is_digit s) in
            if n < 2 ^ 32 then word_of_nat n else - 1))"

text \<open>
  \<open>yylex\<close> on the rest of the buffer; the further arguments are the local variable
  \<open>string_length\<close> and the members \<open>ival\<close> and \<open>sval\<close> of \<open>yylval\<close>.
\<close>

function (sequential) bencoding_lex ::
    "scanner \<Rightarrow> u32 \<Rightarrow> int \<Rightarrow> string \<Rightarrow> string \<Rightarrow> (bencoding_token \<times> scanner \<times> string) run" where
  "bencoding_lex sc string_length ival sval [] = Inr (END, sc, [])"
| "bencoding_lex (INITIAL, sts) string_length ival sval (c # inp) =
     (if c = CHR ''i'' then bencoding_lex (yy_push_state state_integer (INITIAL, sts)) string_length 0 sval inp
      else if is_DIGIT c
      then bencoding_lex (yy_push_state state_string (INITIAL, sts)) string_length ival sval (c # inp)
      else if c = CHR ''l'' then Inr (LIST, yy_push_state state_list (INITIAL, sts), inp)
      else if c = CHR ''d'' then Inr (DICTIONARY, yy_push_state state_dictionary_key (INITIAL, sts), inp)
      else Inr (END, (INITIAL, sts), inp))"
| "bencoding_lex (state_integer, sts) string_length ival sval (c # inp) =
     (if c = CHR ''e''
      then run_bind (yy_pop_state (state_integer, sts)) (\<lambda>sc. Inr (INTEGER ival, sc, inp))
      else if is_DIGIT c
      then bencoding_lex (state_integer, sts) string_length (extract_int64 (c # takeWhile is_DIGIT inp)) sval
             (dropWhile is_DIGIT inp)
      else Inr (END, (state_integer, sts), inp))"
| "bencoding_lex (state_string, sts) string_length ival sval (c # inp) =
     (if is_DIGIT c
      then bencoding_lex (state_string, sts) (extract_uint32 (c # takeWhile is_DIGIT inp)) ival sval
             (dropWhile is_DIGIT inp)
      else if c = CHR '':''
      then (if string_length = 0
            then run_bind (yy_pop_state (state_string, sts)) (\<lambda>sc. Inr (STRING '''', sc, inp))
            else bencoding_lex (BEGIN state_string_2 (state_string, sts)) string_length ival '''' inp)
      else Inr (END, (state_string, sts), inp))"
| "bencoding_lex (state_string_2, sts) string_length ival sval (c # inp) =
     run_bind (ace_assert (string_length \<noteq> 0)) (\<lambda>_.
       if string_length - 1 = 0
       then run_bind (yy_pop_state (state_string_2, sts)) (\<lambda>sc. Inr (STRING (sval @ [c]), sc, inp))
       else bencoding_lex (state_string_2, sts) (string_length - 1) ival (sval @ [c]) inp)"
| "bencoding_lex (state_list, sts) string_length ival sval (c # inp) =
     (if c = CHR ''e''
      then run_bind (yy_pop_state (state_list, sts)) (\<lambda>sc. Inr (END_OF_LIST, sc, inp))
      else if c = CHR ''i''
      then bencoding_lex (yy_push_state state_integer (state_list, sts)) string_length 0 sval inp
      else if is_DIGIT c
      then bencoding_lex (yy_push_state state_string (state_list, sts)) string_length ival sval (c # inp)
      else if c = CHR ''l'' then Inr (LIST, yy_push_state state_list (state_list, sts), inp)
      else if c = CHR ''d'' then Inr (DICTIONARY, yy_push_state state_dictionary_key (state_list, sts), inp)
      else Inr (END, (state_list, sts), inp))"
| "bencoding_lex (state_dictionary_key, sts) string_length ival sval (c # inp) =
     (if c = CHR ''e''
      then run_bind (yy_pop_state (state_dictionary_key, sts)) (\<lambda>sc. Inr (END_OF_DICTIONARY, sc, inp))
      else if is_DIGIT c
      then bencoding_lex (state_dictionary_key, sts) (extract_uint32 (c # takeWhile is_DIGIT inp)) ival sval
             (dropWhile is_DIGIT inp)
      else if c = CHR '':''
      then (if string_length = 0
            then Inr (STRING '''', yy_push_state state_dictionary_value (state_dictionary_key, sts), inp)
            else bencoding_lex (BEGIN state_dictionary_key_2 (state_dictionary_key, sts)) string_length ival '''' inp)
      else Inr (END, (state_dictionary_key, sts), inp))"
| "bencoding_lex (state_dictionary_key_2, sts) string_length ival sval (c # inp) =
     run_bind (ace_assert (string_length \<noteq> 0)) (\<lambda>_.
       if string_length - 1 = 0
       then Inr (STRING (sval @ [c]),
                 yy_push_state state_dictionary_value (state_dictionary_key_2, sts), inp)
       else bencoding_lex (state_dictionary_key_2, sts) (string_length - 1) ival (sval @ [c]) inp)"
| "bencoding_lex (state_dictionary_value, sts) string_length ival sval (c # inp) =
     (let sc = yy_push_state state_dictionary_value_2 (state_dictionary_value, sts) in
      if c = CHR ''i'' then bencoding_lex (yy_push_state state_integer sc) string_length 0 sval inp
      else if is_DIGIT c then bencoding_lex (yy_push_state state_string sc) string_length ival sval (c # inp)
      else if c = CHR ''l'' then Inr (LIST, yy_push_state state_list sc, inp)
      else if c = CHR ''d'' then Inr (DICTIONARY, yy_push_state state_dictionary_key sc, inp)
      else Inr (END, (state_dictionary_value, sts), inp))"
| "bencoding_lex (state_dictionary_value_2, sts) string_length ival sval (c # inp) =
     (case yy_pop_state (state_dictionary_value_2, sts) of
        Inl e \<Rightarrow> Inl e
      | Inr sc \<Rightarrow> (case yy_pop_state sc of
          Inl e \<Rightarrow> Inl e
        | Inr sc \<Rightarrow> bencoding_lex (BEGIN state_dictionary_key sc) string_length ival sval (c # inp)))"
  by pat_completeness auto
termination
  by (relation "inv_image (less_than <*lex*> less_than)
      (\<lambda>(sc, string_length, ival, sval, inp). (length inp,
        if fst sc \<in> {INITIAL, state_list, state_dictionary_value, state_dictionary_value_2} then 1 else 0 :: nat))")
    (auto simp: yy_push_state_def BEGIN_def le_imp_less_Suc length_dropWhile_le)

lemma length_dropWhile_Suc [simp]: "length (dropWhile P xs) < Suc (length xs)"
  by (simp add: le_imp_less_Suc length_dropWhile_le)

lemma bencoding_lex_shrinks:
  "bencoding_lex sc n i s inp = Inr (tok, sc', rest) \<Longrightarrow> tok \<noteq> END \<Longrightarrow> length rest < length inp"
proof (induction sc n i s inp arbitrary: tok sc' rest rule: bencoding_lex.induct)
qed (auto simp: Let_def yy_push_state_def split: if_splits sum.splits intro: less_trans less_SucI)

section \<open>The grammar\<close>

text \<open>
  The symbols the parser is inside of, innermost first. \<open>Bencoding_start\<close> is the start symbol before
  its first bencoding_token; \<open>Dictionary_value\<close> follows a key.
\<close>

datatype frame = Bencoding_start | List_items | Dictionary_items | Dictionary_value

datatype bencoding_outcome = ACCEPTED | SYNTAX_ERROR

definition accept :: "driver \<Rightarrow> (bencoding_outcome \<times> driver) run" where
  "accept d = run_bind (record_root d) (\<lambda>d. Inr (ACCEPTED, d))"

fun after_value :: "frame list \<Rightarrow> frame list" where
  "after_value (Bencoding_start # fs) = fs"
| "after_value (Dictionary_value # fs) = Dictionary_items # fs"
| "after_value fs = fs"

definition yyaction :: "frame list \<Rightarrow> bencoding_token \<Rightarrow> driver \<Rightarrow> (frame list \<times> driver) run option" where
  "yyaction fs tok d =
     (case (hd fs, tok) of
        (Dictionary_items, STRING k) \<Rightarrow>
          Some (run_bind (pushKey k d) (\<lambda>d. Inr (Dictionary_value # tl fs, d)))
      | (Dictionary_items, END_OF_DICTIONARY) \<Rightarrow> Some (run_bind (pop d) (\<lambda>d. Inr (tl fs, d)))
      | (Dictionary_items, _) \<Rightarrow> None
      | (List_items, END_OF_LIST) \<Rightarrow> Some (run_bind (pop d) (\<lambda>d. Inr (tl fs, d)))
      | (_, INTEGER i) \<Rightarrow> Some (run_bind (pushInteger i d) (\<lambda>d. Inr (after_value fs, d)))
      | (_, STRING s) \<Rightarrow> Some (run_bind (pushString s d) (\<lambda>d. Inr (after_value fs, d)))
      | (_, LIST) \<Rightarrow> Some (run_bind (pushList d) (\<lambda>d. Inr (List_items # after_value fs, d)))
      | (_, DICTIONARY) \<Rightarrow> Some (run_bind (pushDictionary d) (\<lambda>d. Inr (Dictionary_items # after_value fs, d)))
      | _ \<Rightarrow> None)"

function bencoding_yyparse :: "frame list \<Rightarrow> scanner \<Rightarrow> driver \<Rightarrow> string \<Rightarrow> (bencoding_outcome \<times> driver) run" where
  "bencoding_yyparse fs sc d inp =
     (if fs = [] then accept d
      else case bencoding_lex sc 0 0 [] inp of
        Inl e \<Rightarrow> Inl e
      | Inr (tok, sc', rest) \<Rightarrow>
          if tok = END then Inr (SYNTAX_ERROR, d)
          else (case yyaction fs tok d of
             None \<Rightarrow> Inr (SYNTAX_ERROR, d)
           | Some r \<Rightarrow> run_bind r (\<lambda>(fs', d'). bencoding_yyparse fs' sc' d' rest)))"
  by pat_completeness auto
termination
  by (relation "measure (\<lambda>(fs, sc, d, inp). length inp)") (auto dest: bencoding_lex_shrinks)

declare bencoding_yyparse.simps [simp del]

definition parse_bencoding :: "string \<Rightarrow> (bencoding_outcome \<times> driver) run" where
  "parse_bencoding inp = bencoding_yyparse [Bencoding_start] (INITIAL, []) new_driver inp"

section \<open>Values and their encoding\<close>

text \<open>
  The specification: values as BEP 3 defines them, their encoding, and the sequence of calls that
  describes a value to the driver.
\<close>

datatype bvalue =
    BInt int
  | BString string
  | BList "bvalue list"
  | BDict "(string \<times> bvalue) list"

definition show_int :: "int \<Rightarrow> string" where
  "show_int i = (if i < 0 then CHR ''-'' # show_dec (nat (- i)) else show_dec (nat i))"

definition bencode_string :: "string \<Rightarrow> string" where
  "bencode_string s = show_dec (length s) @ CHR '':'' # s"

lemma size_entry [termination_simp]:
  "kv \<in> set kvs \<Longrightarrow> size (snd kv) < Suc (size_list (size_prod (\<lambda>_. 0) size) kvs)"
  by (induction kvs) auto

fun bencode :: "bvalue \<Rightarrow> string" where
  "bencode (BInt i) = CHR ''i'' # show_int i @ ''e''"
| "bencode (BString s) = bencode_string s"
| "bencode (BList vs) = CHR ''l'' # concat (map bencode vs) @ ''e''"
| "bencode (BDict kvs) =
     CHR ''d'' # concat (map (\<lambda>kv. bencode_string (fst kv) @ bencode (snd kv)) kvs) @ ''e''"

fun bvalue_wf :: "bvalue \<Rightarrow> bool" where
  "bvalue_wf (BInt i) = (- (2 ^ 63) \<le> i \<and> i < 2 ^ 63)"
| "bvalue_wf (BString s) = (length s < 2 ^ 32)"
| "bvalue_wf (BList vs) = (\<forall>v \<in> set vs. bvalue_wf v)"
| "bvalue_wf (BDict kvs) = (\<forall>kv \<in> set kvs. length (fst kv) < 2 ^ 32 \<and> bvalue_wf (snd kv))"

fun drive :: "bvalue \<Rightarrow> driver \<Rightarrow> driver run" where
  "drive (BInt i) d = pushInteger i d"
| "drive (BString s) d = pushString s d"
| "drive (BList vs) d = run_bind (pushList d) (\<lambda>d. run_bind (run_fold drive vs d) pop)"
| "drive (BDict kvs) d = run_bind (pushDictionary d) (\<lambda>d.
     run_bind (run_fold (\<lambda>kv d. run_bind (pushKey (fst kv) d) (\<lambda>d. drive (snd kv) d)) kvs d) pop)"

section \<open>Scanning encoded values\<close>

definition context_of :: "frame \<Rightarrow> start_condition \<Rightarrow> bool" where
  "context_of f st \<longleftrightarrow> (f, st) \<in> {(Bencoding_start, INITIAL), (List_items, state_list),
     (Dictionary_value, state_dictionary_value)}"

fun resume :: "scanner \<Rightarrow> scanner" where
  "resume (state_dictionary_value, sts) = (state_dictionary_value_2, state_dictionary_value # sts)"
| "resume sc = sc"

lemma is_DIGIT_simps [simp]:
  "is_digit c \<Longrightarrow> is_DIGIT c" "is_DIGIT CHR ''-''" "\<not> is_DIGIT CHR '':''" "\<not> is_DIGIT CHR ''e''"
  "\<not> is_DIGIT CHR ''i''" "\<not> is_DIGIT CHR ''l''" "\<not> is_DIGIT CHR ''d''"
  by (simp_all add: is_DIGIT_def is_digit_def char_code_def)

lemma is_digit_letters [simp]:
  "\<not> is_digit CHR ''-''" "\<not> is_digit CHR ''e''" "\<not> is_digit CHR ''i''"
  by (simp_all add: is_digit_def char_code_def)

lemma show_dec_Cons:
  obtains c cs where "show_dec n = c # cs" "is_digit c" "\<forall>x \<in> set cs. is_digit x"
  using show_dec_digits [of _ n] by (cases "show_dec n") auto

lemma hd_show_dec_not_minus [simp]: "hd (show_dec n) \<noteq> CHR ''-''"
  by (rule show_dec_Cons [of n]) auto

lemma extract_uint32_show: "n < 2 ^ 32 \<Longrightarrow> extract_uint32 (show_dec n) = word_of_nat n"
  by (simp add: extract_uint32_def)

lemma extract_int64_show:
  assumes "- (2 ^ 63) \<le> i" "i < 2 ^ 63"
  shows "extract_int64 (show_int i) = i"
proof (cases "i < 0")
  case True
  with assms show ?thesis
    by (simp add: show_int_def extract_int64_def)
next
  case False
  with assms show ?thesis
    by (simp add: show_int_def extract_int64_def)
qed

lemma takeWhile_DIGIT_append:
  "\<forall>x \<in> set cs. is_digit x \<Longrightarrow> \<not> is_DIGIT c \<Longrightarrow> takeWhile is_DIGIT (cs @ c # rest) = cs"
  "\<forall>x \<in> set cs. is_digit x \<Longrightarrow> \<not> is_DIGIT c \<Longrightarrow> dropWhile is_DIGIT (cs @ c # rest) = c # rest"
  by (induction cs) auto

lemma lex_digits:
  "\<not> is_DIGIT c \<Longrightarrow> n < 2 ^ 32 \<Longrightarrow> bencoding_lex (state_string, sts) k i s (show_dec n @ c # rest) =
     bencoding_lex (state_string, sts) (word_of_nat n) i s (c # rest)"
  "\<not> is_DIGIT c \<Longrightarrow> n < 2 ^ 32 \<Longrightarrow> bencoding_lex (state_dictionary_key, sts) k i s (show_dec n @ c # rest) =
     bencoding_lex (state_dictionary_key, sts) (word_of_nat n) i s (c # rest)"
  using extract_uint32_show [of n]
  by (rule_tac [!] show_dec_Cons [of n]) (auto simp: takeWhile_DIGIT_append)

lemma lex_integer_digits:
  assumes "- (2 ^ 63) \<le> j" "j < 2 ^ 63"
  shows "bencoding_lex (state_integer, sts) k i s (show_int j @ CHR ''e'' # rest) =
     bencoding_lex (state_integer, sts) k j s (CHR ''e'' # rest)"
proof -
  obtain c cs where "show_dec (nat \<bar>j\<bar>) = c # cs" "is_digit c" "\<forall>x \<in> set cs. is_digit x"
    by (rule show_dec_Cons)
  then obtain c cs where "show_int j = c # cs" "is_DIGIT c" "\<forall>x \<in> set cs. is_digit x"
    by (cases "j < 0") (auto simp: show_int_def)
  then show ?thesis
    using extract_int64_show [OF assms] by (auto simp: takeWhile_DIGIT_append)
qed

lemma lex_string_2:
  "cs \<noteq> [] \<Longrightarrow> length cs = unat k \<Longrightarrow>
   bencoding_lex (state_string_2, st # sts) k i s (cs @ rest) = Inr (STRING (s @ cs), (st, sts), rest)"
proof (induction cs arbitrary: k s)
  case (Cons c cs)
  note step = word_countdown [OF Cons.prems(2) [symmetric, unfolded list.size add_Suc_right add_0_right]]
  show ?case
    using Cons.IH [of "k - 1" "s @ [c]"] step by (cases "cs = []") (auto simp: yy_pop_state_def)
qed simp

lemma lex_key_2:
  "cs \<noteq> [] \<Longrightarrow> length cs = unat k \<Longrightarrow>
   bencoding_lex (state_dictionary_key_2, sts) k i s (cs @ rest) =
     Inr (STRING (s @ cs), (state_dictionary_value, state_dictionary_key_2 # sts), rest)"
proof (induction cs arbitrary: k s)
  case (Cons c cs)
  note step = word_countdown [OF Cons.prems(2) [symmetric, unfolded list.size add_Suc_right add_0_right]]
  show ?case
    using Cons.IH [of "k - 1" "s @ [c]"] step by (cases "cs = []") (auto simp: yy_push_state_def)
qed simp

lemma lex_state_string:
  assumes "length s < 2 ^ 32"
  shows "bencoding_lex (state_string, st # sts) k i t (bencode_string s @ rest) = Inr (STRING s, (st, sts), rest)"
proof (cases "s = []")
  case True
  then show ?thesis
    by (simp add: bencode_string_def lex_digits yy_pop_state_def)
next
  case False
  then have "word_of_nat (length s) \<noteq> (0 :: u32)" "length s = unat (word_of_nat (length s) :: u32)"
    using assms unat_of_nat_u32 [of "length s"] by auto
  with False assms show ?thesis
    by (simp add: bencode_string_def lex_digits BEGIN_def lex_string_2)
qed

lemma lex_key:
  assumes "length s < 2 ^ 32"
  shows "\<exists>k. bencoding_lex (state_dictionary_key, sts) 0 i t (bencode_string s @ rest) =
     Inr (STRING s, (state_dictionary_value, k # sts), rest)"
proof (cases "s = []")
  case True
  then show ?thesis
    by (simp add: bencode_string_def lex_digits yy_push_state_def)
next
  case False
  then have "word_of_nat (length s) \<noteq> (0 :: u32)" "length s = unat (word_of_nat (length s) :: u32)"
    using assms unat_of_nat_u32 [of "length s"] by auto
  with False assms show ?thesis
    by (simp add: bencode_string_def lex_digits BEGIN_def lex_key_2)
qed

lemma bencode_string_Cons:
  obtains c cs where "bencode_string s = c # cs" "is_digit c"
  by (rule show_dec_Cons [of "length s"]) (auto simp: bencode_string_def)

lemma digit_not_letter:
  "is_digit c \<Longrightarrow> c \<noteq> CHR ''i'' \<and> c \<noteq> CHR ''e'' \<and> c \<noteq> CHR ''l'' \<and> c \<noteq> CHR ''d''"
  by (auto simp: is_digit_def char_code_def)

lemma lex_value_integer:
  assumes "context_of f st" "- (2 ^ 63) \<le> i" "i < 2 ^ 63"
  shows "bencoding_lex (st, sts) 0 0 [] (bencode (BInt i) @ rest) = Inr (INTEGER i, resume (st, sts), rest)"
  using assms by (auto simp: context_of_def yy_push_state_def yy_pop_state_def lex_integer_digits Let_def)

lemma lex_value_string:
  assumes "context_of f st" "length s < 2 ^ 32"
  shows "bencoding_lex (st, sts) 0 0 [] (bencode (BString s) @ rest) = Inr (STRING s, resume (st, sts), rest)"
proof -
  obtain c cs where c: "bencode_string s = c # cs" "is_digit c"
    by (rule bencode_string_Cons)
  have "bencoding_lex (st, sts) 0 0 [] (bencode_string s @ rest) =
      bencoding_lex (state_string, fst (resume (st, sts)) # snd (resume (st, sts))) 0 0 [] (bencode_string s @ rest)"
    unfolding c(1) using assms(1) digit_not_letter [OF c(2)] c(2)
    by (auto simp: context_of_def yy_push_state_def Let_def simp del: bencoding_lex.simps(4))
  then show ?thesis
    by (simp add: lex_state_string [OF assms(2)])
qed

lemma lex_value_container:
  assumes "context_of f st"
  shows "bencoding_lex (st, sts) 0 0 [] (CHR ''l'' # rest) =
           Inr (LIST, (state_list, fst (resume (st, sts)) # snd (resume (st, sts))), rest)"
    and "bencoding_lex (st, sts) 0 0 [] (CHR ''d'' # rest) =
           Inr (DICTIONARY, (state_dictionary_key, fst (resume (st, sts)) # snd (resume (st, sts))), rest)"
  using assms by (auto simp: context_of_def yy_push_state_def Let_def)

lemma lex_list_end: "bencoding_lex (state_list, st # sts) 0 0 [] (CHR ''e'' # rest) = Inr (END_OF_LIST, (st, sts), rest)"
  by (simp add: yy_pop_state_def)

lemma lex_dictionary_end:
  "bencoding_lex (state_dictionary_key, st # sts) 0 0 [] (CHR ''e'' # rest) = Inr (END_OF_DICTIONARY, (st, sts), rest)"
  by (simp add: yy_pop_state_def)

lemma lex_after_value:
  "inp \<noteq> [] \<Longrightarrow> bencoding_lex (state_dictionary_value_2, state_dictionary_value # k # sts) n i s inp =
     bencoding_lex (state_dictionary_key, sts) n i s inp"
  by (cases inp) (simp_all add: yy_pop_state_def BEGIN_def)

section \<open>Parsing encoded values\<close>

lemma yyparse_token:
  "fs \<noteq> [] \<Longrightarrow> bencoding_lex sc 0 0 [] inp = Inr (tok, sc', rest) \<Longrightarrow> tok \<noteq> END \<Longrightarrow>
   yyaction fs tok d = Some r \<Longrightarrow>
   bencoding_yyparse fs sc d inp = run_bind r (\<lambda>(fs', d'). bencoding_yyparse fs' sc' d' rest)"
  by (subst bencoding_yyparse.simps) simp

lemma yyaction_value:
  assumes "context_of f st"
  shows "yyaction (f # fs) (INTEGER i) d = Some (run_bind (pushInteger i d) (\<lambda>d. Inr (after_value (f # fs), d)))"
    and "yyaction (f # fs) (STRING s) d = Some (run_bind (pushString s d) (\<lambda>d. Inr (after_value (f # fs), d)))"
    and "yyaction (f # fs) LIST d = Some (run_bind (pushList d) (\<lambda>d. Inr (List_items # after_value (f # fs), d)))"
    and "yyaction (f # fs) DICTIONARY d =
           Some (run_bind (pushDictionary d) (\<lambda>d. Inr (Dictionary_items # after_value (f # fs), d)))"
  using assms by (auto simp: context_of_def yyaction_def)

lemma yyaction_others:
  "yyaction (List_items # fs) END_OF_LIST d = Some (run_bind (pop d) (\<lambda>d. Inr (fs, d)))"
  "yyaction (Dictionary_items # fs) END_OF_DICTIONARY d = Some (run_bind (pop d) (\<lambda>d. Inr (fs, d)))"
  "yyaction (Dictionary_items # fs) (STRING k) d = Some (run_bind (pushKey k d) (\<lambda>d. Inr (Dictionary_value # fs, d)))"
  by (simp_all add: yyaction_def)

lemma yyparse_after_value:
  "inp \<noteq> [] \<Longrightarrow>
   bencoding_yyparse fs (state_dictionary_value_2, state_dictionary_value # k # sts) d inp =
     bencoding_yyparse fs (state_dictionary_key, sts) d inp"
  by (subst (1 2) bencoding_yyparse.simps) (simp add: lex_after_value)

lemma yyparse_items:
  assumes "\<And>v f st fs sts d rest. v \<in> set vs \<Longrightarrow> context_of f st \<Longrightarrow>
    bencoding_yyparse (f # fs) (st, sts) d (bencode v @ rest) =
      run_bind (drive v d) (\<lambda>d. bencoding_yyparse (after_value (f # fs)) (resume (st, sts)) d rest)"
  shows "bencoding_yyparse (List_items # fs) (state_list, st # sts) d (concat (map bencode vs) @ CHR ''e'' # rest) =
    run_bind (run_fold drive vs d) (\<lambda>d. run_bind (pop d) (\<lambda>d. bencoding_yyparse fs (st, sts) d rest))"
  using assms
proof (induction vs arbitrary: d)
  case Nil
  show ?case
    by (simp add: yyparse_token [OF _ lex_list_end _ yyaction_others(1)] run_bind_assoc)
next
  case (Cons v vs)
  have "context_of List_items state_list"
    by (simp add: context_of_def)
  from Cons.prems [OF _ this] Cons.IH [OF Cons.prems] show ?case
    by (simp add: run_bind_assoc)
qed

lemma yyparse_entries:
  assumes "\<And>kv f st fs sts d rest. kv \<in> set kvs \<Longrightarrow> context_of f st \<Longrightarrow>
    bencoding_yyparse (f # fs) (st, sts) d (bencode (snd kv) @ rest) =
      run_bind (drive (snd kv) d) (\<lambda>d. bencoding_yyparse (after_value (f # fs)) (resume (st, sts)) d rest)"
    and "\<And>kv. kv \<in> set kvs \<Longrightarrow> length (fst kv) < 2 ^ 32"
  shows "bencoding_yyparse (Dictionary_items # fs) (state_dictionary_key, st # sts) d
      (concat (map (\<lambda>kv. bencode_string (fst kv) @ bencode (snd kv)) kvs) @ CHR ''e'' # rest) =
    run_bind (run_fold (\<lambda>kv d. run_bind (pushKey (fst kv) d) (\<lambda>d. drive (snd kv) d)) kvs d)
      (\<lambda>d. run_bind (pop d) (\<lambda>d. bencoding_yyparse fs (st, sts) d rest))"
  using assms
proof (induction kvs arbitrary: d)
  case Nil
  show ?case
    by (simp add: yyparse_token [OF _ lex_dictionary_end _ yyaction_others(2)] run_bind_assoc)
next
  case (Cons kv kvs)
  let ?inp = "concat (map (\<lambda>kv. bencode_string (fst kv) @ bencode (snd kv)) kvs) @ CHR ''e'' # rest"
  have dv: "context_of Dictionary_value state_dictionary_value"
    by (simp add: context_of_def)
  obtain k where k: "bencoding_lex (state_dictionary_key, st # sts) 0 0 [] (bencode_string (fst kv) @ bencode (snd kv) @ ?inp)
      = Inr (STRING (fst kv), (state_dictionary_value, k # st # sts), bencode (snd kv) @ ?inp)"
    using lex_key Cons.prems(2) by (meson list.set_intros(1))
  have "bencoding_yyparse (Dictionary_items # fs) (state_dictionary_value_2, state_dictionary_value # k # st # sts) d ?inp =
      run_bind (run_fold (\<lambda>kv d. run_bind (pushKey (fst kv) d) (\<lambda>d. drive (snd kv) d)) kvs d)
        (\<lambda>d. run_bind (pop d) (\<lambda>d. bencoding_yyparse fs (st, sts) d rest))" for d
    using Cons.IH [of d] Cons.prems by (subst yyparse_after_value) simp_all
  then show ?case
    using Cons.prems(1) [OF _ dv, of kv fs]
    by (simp add: yyparse_token [OF _ k _ yyaction_others(3)] run_bind_assoc)
qed

lemma yyparse_value:
  "bvalue_wf v \<Longrightarrow> context_of f st \<Longrightarrow>
   bencoding_yyparse (f # fs) (st, sts) d (bencode v @ rest) =
     run_bind (drive v d) (\<lambda>d. bencoding_yyparse (after_value (f # fs)) (resume (st, sts)) d rest)"
proof (induction v arbitrary: f st fs sts d rest rule: bencode.induct)
  case (1 i)
  then show ?case
    using yyparse_token [OF _ lex_value_integer [of f st i sts rest] _ yyaction_value(1)] by (simp add: run_bind_assoc)
next
  case (2 s)
  then show ?case
    using yyparse_token [OF _ lex_value_string [of f st s sts rest] _ yyaction_value(2)] by (simp add: run_bind_assoc)
next
  case (3 vs)
  then show ?case
    using yyparse_token [OF _ lex_value_container(1) [OF 3(3)] _ yyaction_value(3) [OF 3(3)]] yyparse_items [of vs]
    by (simp add: run_bind_assoc)
next
  case (4 kvs)
  then show ?case
    using yyparse_token [OF _ lex_value_container(2) [OF 4(3)] _ yyaction_value(4) [OF 4(3)]] yyparse_entries [of kvs]
    by (simp add: run_bind_assoc)
qed

section \<open>What the driver builds\<close>

text \<open>
  An element represents a value: it lies in the heap between \<open>lo\<close> and \<open>hi\<close> and so do all elements
  below it.
\<close>

declare list.rel_cong [fundef_cong]

fun repr :: "element list \<Rightarrow> nat \<Rightarrow> nat \<Rightarrow> bvalue \<Rightarrow> addr \<Rightarrow> bool" where
  "repr h lo hi (BInt i) a \<longleftrightarrow> lo \<le> a \<and> a < hi \<and> h ! a = Integer_element i"
| "repr h lo hi (BString s) a \<longleftrightarrow> lo \<le> a \<and> a < hi \<and> h ! a = String_element s"
| "repr h lo hi (BList vs) a \<longleftrightarrow> lo \<le> a \<and> a < hi \<and>
     (case h ! a of List_element as \<Rightarrow> list_all2 (\<lambda>v b. repr h lo hi v b) vs as | _ \<Rightarrow> False)"
| "repr h lo hi (BDict kvs) a \<longleftrightarrow> lo \<le> a \<and> a < hi \<and>
     (case h ! a of
        Dictionary_element kas \<Rightarrow>
          list_all2 (\<lambda>kv ka. fst kv = fst ka \<and> repr h lo hi (snd kv) (snd ka)) kvs kas
      | _ \<Rightarrow> False)"

definition represents :: "element list \<Rightarrow> bvalue \<Rightarrow> addr \<Rightarrow> bool" where
  "represents h v a \<longleftrightarrow> repr h 0 (length h) v a"

lemma repr_agree:
  "repr h lo hi v a \<Longrightarrow> (\<And>x. lo \<le> x \<Longrightarrow> x < hi \<Longrightarrow> h' ! x = h ! x) \<Longrightarrow> lo' \<le> lo \<Longrightarrow> hi \<le> hi' \<Longrightarrow>
   repr h' lo' hi' v a"
proof (induction v arbitrary: a rule: bencode.induct)
  case (3 vs)
  then show ?case
    by (auto split: element.splits elim!: list.rel_mono_strong)
next
  case (4 kvs)
  then show ?case
    by (auto split: element.splits elim!: list.rel_mono_strong)
qed auto

fun add_child :: "element \<Rightarrow> string option \<Rightarrow> addr \<Rightarrow> element" where
  "add_child (List_element as) k a = List_element (as @ [a])"
| "add_child (Dictionary_element kas) k a = Dictionary_element (kas @ [(the k, a)])"
| "add_child e k a = e"

definition linked :: "driver \<Rightarrow> element list" where
  "linked d = (case current d of [] \<Rightarrow> heap d
     | t # _ \<Rightarrow> (heap d)[t := add_child (heap d ! t) (key d) (length (heap d))])"

definition ready :: "driver \<Rightarrow> bool" where
  "ready d \<longleftrightarrow> (isFirst d \<longrightarrow> bencoding d = None) \<and>
     (case current d of [] \<Rightarrow> key d = None
      | t # _ \<Rightarrow> t < length (heap d) \<and>
          (case heap d ! t of List_element _ \<Rightarrow> key d = None | Dictionary_element _ \<Rightarrow> key d \<noteq> None | _ \<Rightarrow> False))"

definition root_after :: "driver \<Rightarrow> addr option" where
  "root_after d = (if isFirst d then Some (length (heap d)) else bencoding d)"

lemma length_linked [simp]: "length (linked d) = length (heap d)"
  by (simp add: linked_def split: list.split)

lemma push_first_eq:
  "isFirst d \<longrightarrow> bencoding d = None \<Longrightarrow>
   push_first a d = Inr (d\<lparr>isFirst := False, bencoding := (if isFirst d then Some a else bencoding d)\<rparr>)"
  by (cases d) (auto simp: push_first_def)

lemma push_child_eq:
  "ready d \<Longrightarrow> push_child a d = Inr (d\<lparr>heap := (case current d of [] \<Rightarrow> heap d
       | t # _ \<Rightarrow> (heap d)[t := add_child (heap d ! t) (key d) a]), key := None\<rparr>)"
  by (cases d) (auto simp: push_child_def ready_def deref_def split: list.splits element.splits)

lemma ready_extend:
  "ready d \<Longrightarrow> ready (d\<lparr>heap := heap d @ es, isFirst := False, bencoding := r\<rparr>)"
  by (auto simp: ready_def nth_append split: list.splits element.splits)

lemma linked_extend:
  assumes "ready d"
  shows "(case current d of [] \<Rightarrow> heap d @ [e]
     | t # _ \<Rightarrow> (heap d @ [e])[t := add_child ((heap d @ [e]) ! t) (key d) (length (heap d))]) = linked d @ [e]"
  using assms by (cases "current d") (auto simp: ready_def linked_def nth_append list_update_append)

lemma push_eq:
  assumes "ready d"
  shows "push e d = Inr \<lparr>heap = linked d @ [e], bencoding = root_after d, isFirst = False,
     current = (if is_container e then [length (heap d)] else []) @ current d, key = None\<rparr>"
proof -
  let ?a = "length (heap d)"
  let ?d1 = "d\<lparr>heap := heap d @ [e], isFirst := False, bencoding := root_after d\<rparr>"
  have "push_first ?a (d\<lparr>heap := heap d @ [e]\<rparr>) = Inr ?d1"
    using assms by (subst push_first_eq) (auto simp: ready_def root_after_def)
  moreover have "push_child ?a ?d1 = Inr (?d1\<lparr>heap := linked d @ [e], key := None\<rparr>)"
    using linked_extend [OF assms, of e] push_child_eq [OF ready_extend [OF assms], of ?a]
    by (simp cong: list.case_cong)
  moreover have "push_container ?a (?d1\<lparr>heap := linked d @ [e], key := None\<rparr>) =
      Inr (?d1\<lparr>heap := linked d @ [e], key := None,
        current := (if is_container e then [?a] else []) @ current d\<rparr>)"
    by (simp add: push_container_def deref_def nth_append)
  ultimately show ?thesis
    by (simp add: push_def Let_def)
qed

definition built :: "driver \<Rightarrow> bvalue \<Rightarrow> driver \<Rightarrow> bool" where
  "built d v d' \<longleftrightarrow> length (heap d) < length (heap d') \<and> take (length (heap d)) (heap d') = linked d
     \<and> repr (heap d') (length (heap d)) (length (heap d')) v (length (heap d))
     \<and> current d' = current d \<and> key d' = None \<and> \<not> isFirst d' \<and> bencoding d' = root_after d"

lemma take_update_agree:
  "take n h' = h[t := e] \<Longrightarrow> length h = n \<Longrightarrow> t < m \<Longrightarrow> m \<le> x \<Longrightarrow> x < n \<Longrightarrow> h' ! x = h ! x"
  by (metis nth_list_update_neq nth_take order.strict_trans1 order_less_irrefl)

lemma run_fold_builds:
  assumes step: "\<And>x d es t S. x \<in> set xs \<Longrightarrow> current d = t # S \<Longrightarrow> t < length (heap d) \<Longrightarrow>
      heap d ! t = C es \<Longrightarrow> key d = None \<Longrightarrow> \<not> isFirst d \<Longrightarrow>
      \<exists>d'. step x d = Inr d' \<and> length (heap d) \<le> length (heap d')
        \<and> take (length (heap d)) (heap d') = (heap d)[t := C (es @ [entry x (length (heap d))])]
        \<and> P (heap d') (length (heap d)) (length (heap d')) x (entry x (length (heap d)))
        \<and> current d' = t # S \<and> key d' = None \<and> \<not> isFirst d' \<and> bencoding d' = bencoding d"
    and agree: "\<And>h h' lo lo' hi hi' x e. P h lo hi x e \<Longrightarrow>
      (\<And>y. lo \<le> y \<Longrightarrow> y < hi \<Longrightarrow> h' ! y = h ! y) \<Longrightarrow> lo' \<le> lo \<Longrightarrow> hi \<le> hi' \<Longrightarrow> P h' lo' hi' x e"
    and d: "current d = t # S" "t < length (heap d)" "heap d ! t = C es" "key d = None" "\<not> isFirst d"
    and sub: "set ys \<subseteq> set xs"
  shows "\<exists>d' bs. run_fold step ys d = Inr d' \<and> length (heap d) \<le> length (heap d')
    \<and> take (length (heap d)) (heap d') = (heap d)[t := C (es @ bs)]
    \<and> list_all2 (P (heap d') (length (heap d)) (length (heap d'))) ys bs
    \<and> current d' = t # S \<and> key d' = None \<and> \<not> isFirst d' \<and> bencoding d' = bencoding d"
  using d sub
proof (induction ys arbitrary: d es)
  case Nil
  then show ?case
    by (intro exI [of _ d] exI [of _ "[]"]) (auto, metis list_update_id)
next
  case (Cons x ys)
  let ?n = "length (heap d)"
  obtain d1 where d1: "step x d = Inr d1" "?n \<le> length (heap d1)"
      "take ?n (heap d1) = (heap d)[t := C (es @ [entry x ?n])]"
      "P (heap d1) ?n (length (heap d1)) x (entry x ?n)"
      "current d1 = t # S" "key d1 = None" "\<not> isFirst d1" "bencoding d1 = bencoding d"
    using step [of x d t S es] Cons.prems by auto
  have t1: "t < length (heap d1)" "heap d1 ! t = C (es @ [entry x ?n])"
    using d1(2,3) Cons.prems(2) by (auto dest: arg_cong [of _ _ "\<lambda>h. h ! t"])
  obtain d2 bs where d2: "run_fold step ys d1 = Inr d2" "length (heap d1) \<le> length (heap d2)"
      "take (length (heap d1)) (heap d2) = (heap d1)[t := C ((es @ [entry x ?n]) @ bs)]"
      "list_all2 (P (heap d2) (length (heap d1)) (length (heap d2))) ys bs"
      "current d2 = t # S" "key d2 = None" "\<not> isFirst d2" "bencoding d2 = bencoding d1"
    using Cons.IH [OF d1(5) t1 d1(6,7)] Cons.prems(6) by auto
  have "take ?n (heap d2) = take ?n (take (length (heap d1)) (heap d2))"
    using d1(2) by (simp add: min_absorb1)
  also have "\<dots> = (heap d)[t := C (es @ entry x ?n # bs)]"
    using d1(3) by (simp add: d2(3) take_update_swap)
  finally have "take ?n (heap d2) = (heap d)[t := C (es @ entry x ?n # bs)]" .
  moreover have "P (heap d2) ?n (length (heap d2)) x (entry x ?n)"
    using agree [OF d1(4)] take_update_agree [OF d2(3) refl Cons.prems(2)] d2(2) by blast
  moreover have "list_all2 (P (heap d2) ?n (length (heap d2))) ys bs"
    using d2(4) by (rule list.rel_mono_strong) (use agree d1(2) in blast)
  ultimately show ?case
    using d1 d2 by (intro exI [of _ d2] exI [of _ "entry x ?n # bs"]) auto
qed

lemma built_step:
  assumes "built d v d'" "current d = t # S" "\<not> isFirst d"
  shows "length (heap d) \<le> length (heap d') \<and> take (length (heap d)) (heap d') = linked d
    \<and> repr (heap d') (length (heap d)) (length (heap d')) v (length (heap d))
    \<and> current d' = t # S \<and> key d' = None \<and> \<not> isFirst d' \<and> bencoding d' = bencoding d"
  using assms by (auto simp: built_def root_after_def)

lemma drive_items:
  assumes IH: "\<And>v d. v \<in> set vs \<Longrightarrow> ready d \<Longrightarrow> \<exists>d'. drive v d = Inr d' \<and> built d v d'"
    and d: "current d = t # S" "t < length (heap d)" "heap d ! t = List_element es" "key d = None" "\<not> isFirst d"
  shows "\<exists>d' bs. run_fold drive vs d = Inr d' \<and> length (heap d) \<le> length (heap d')
    \<and> take (length (heap d)) (heap d') = (heap d)[t := List_element (es @ bs)]
    \<and> list_all2 (repr (heap d') (length (heap d)) (length (heap d'))) vs bs
    \<and> current d' = t # S \<and> key d' = None \<and> \<not> isFirst d' \<and> bencoding d' = bencoding d"
proof (rule run_fold_builds [where P = repr and entry = "\<lambda>_ a. a" and C = List_element and xs = vs, OF _ _ d subset_refl])
  fix v es t S and d :: driver
  assume v: "v \<in> set vs" and d: "current d = t # S" "t < length (heap d)" "heap d ! t = List_element es"
    "key d = None" "\<not> isFirst d"
  then have "ready d" "linked d = (heap d)[t := List_element (es @ [length (heap d)])]"
    by (simp_all add: ready_def linked_def)
  with IH [OF v] built_step [OF _ d(1,5)]
  show "\<exists>d'. drive v d = Inr d' \<and> length (heap d) \<le> length (heap d')
      \<and> take (length (heap d)) (heap d') = (heap d)[t := List_element (es @ [length (heap d)])]
      \<and> repr (heap d') (length (heap d)) (length (heap d')) v (length (heap d))
      \<and> current d' = t # S \<and> key d' = None \<and> \<not> isFirst d' \<and> bencoding d' = bencoding d"
    by metis
qed (auto elim: repr_agree)

lemma drive_entries:
  assumes IH: "\<And>kv d. kv \<in> set kvs \<Longrightarrow> ready d \<Longrightarrow> \<exists>d'. drive (snd kv) d = Inr d' \<and> built d (snd kv) d'"
    and d: "current d = t # S" "t < length (heap d)" "heap d ! t = Dictionary_element es" "key d = None" "\<not> isFirst d"
  shows "\<exists>d' bs. run_fold (\<lambda>kv d. run_bind (pushKey (fst kv) d) (\<lambda>d. drive (snd kv) d)) kvs d = Inr d'
    \<and> length (heap d) \<le> length (heap d')
    \<and> take (length (heap d)) (heap d') = (heap d)[t := Dictionary_element (es @ bs)]
    \<and> list_all2 (\<lambda>kv ka. fst kv = fst ka \<and> repr (heap d') (length (heap d)) (length (heap d')) (snd kv) (snd ka)) kvs bs
    \<and> current d' = t # S \<and> key d' = None \<and> \<not> isFirst d' \<and> bencoding d' = bencoding d"
proof (rule run_fold_builds [where entry = "\<lambda>kv a. (fst kv, a)"
      and P = "\<lambda>h lo hi kv ka. fst kv = fst ka \<and> repr h lo hi (snd kv) (snd ka)" and C = Dictionary_element
      and xs = kvs, OF _ _ d subset_refl])
  fix kv :: "string \<times> bvalue" and es t S and d :: driver
  assume kv: "kv \<in> set kvs" and d: "current d = t # S" "t < length (heap d)"
    "heap d ! t = Dictionary_element es" "key d = None" "\<not> isFirst d"
  let ?d = "d\<lparr>key := Some (fst kv)\<rparr>"
  have "ready ?d" "linked ?d = (heap d)[t := Dictionary_element (es @ [(fst kv, length (heap d))])]"
    using d by (simp_all add: ready_def linked_def)
  with IH [OF kv] built_step [of ?d _ _ t S] d
  show "\<exists>d'. run_bind (pushKey (fst kv) d) (\<lambda>d. drive (snd kv) d) = Inr d' \<and> length (heap d) \<le> length (heap d')
      \<and> take (length (heap d)) (heap d') = (heap d)[t := Dictionary_element (es @ [(fst kv, length (heap d))])]
      \<and> (fst kv = fst (fst kv, length (heap d)) \<and>
         repr (heap d') (length (heap d)) (length (heap d')) (snd kv) (snd (fst kv, length (heap d))))
      \<and> current d' = t # S \<and> key d' = None \<and> \<not> isFirst d' \<and> bencoding d' = bencoding d"
    by (fastforce simp: pushKey_def)
qed (auto elim: repr_agree)

lemma built_container:
  assumes "ready d" and len: "Suc (length (heap d)) \<le> length (heap d')"
    and take: "take (Suc (length (heap d))) (heap d') = (linked d @ [e])[length (heap d) := e']"
    and d': "key d' = None" "\<not> isFirst d'" "bencoding d' = root_after d"
    and repr: "heap d' ! length (heap d) = e' \<Longrightarrow>
      repr (heap d') (length (heap d)) (length (heap d')) v (length (heap d))"
  shows "built d v (d'\<lparr>current := current d\<rparr>)"
proof -
  let ?n = "length (heap d)"
  have t: "take (Suc ?n) (heap d') = linked d @ [e']"
    using take by (simp add: list_update_append)
  have "take ?n (heap d') = take ?n (take (Suc ?n) (heap d'))"
    by (simp add: min_absorb1)
  also have "\<dots> = linked d"
    by (simp add: t)
  finally have tk: "take ?n (heap d') = linked d" .
  have "heap d' ! ?n = take (Suc ?n) (heap d') ! ?n"
    using len by simp
  also have "\<dots> = e'"
    by (simp add: t nth_append)
  finally show ?thesis
    using tk d' len repr by (simp add: built_def)
qed

lemma drive_builds: "ready d \<Longrightarrow> \<exists>d'. drive v d = Inr d' \<and> built d v d'"
proof (induction v arbitrary: d rule: bencode.induct)
  case (1 i)
  then show ?case
    by (simp add: pushInteger_def push_eq built_def nth_append)
next
  case (2 s)
  then show ?case
    by (simp add: pushString_def push_eq built_def nth_append)
next
  case (3 vs)
  let ?d = "\<lparr>heap = linked d @ [List_element []], bencoding = root_after d, isFirst = False,
      current = length (heap d) # current d, key = None\<rparr>"
  obtain d' bs where d': "run_fold drive vs ?d = Inr d'" "Suc (length (heap d)) \<le> length (heap d')"
      "take (Suc (length (heap d))) (heap d') = (linked d @ [List_element []])[length (heap d) := List_element bs]"
      "list_all2 (repr (heap d') (Suc (length (heap d))) (length (heap d'))) vs bs"
      "current d' = length (heap d) # current d" "key d' = None" "\<not> isFirst d'" "bencoding d' = root_after d"
    using drive_items [of vs ?d "length (heap d)" "current d" "[]"] 3 by (auto simp: nth_append)
  have "list_all2 (repr (heap d') (length (heap d)) (length (heap d'))) vs bs"
    using d'(4) by (rule list.rel_mono_strong) (auto elim: repr_agree)
  then have "built d (BList vs) (d'\<lparr>current := current d\<rparr>)"
    using d'(2) by (intro built_container [OF 3(2) d'(2,3,6,7,8)]) simp
  with d'(1,5) 3(2) show ?case
    by (simp add: pushList_def push_eq pop_def)
next
  case (4 kvs)
  let ?d = "\<lparr>heap = linked d @ [Dictionary_element []], bencoding = root_after d, isFirst = False,
      current = length (heap d) # current d, key = None\<rparr>"
  obtain d' bs where d': "run_fold (\<lambda>kv d. run_bind (pushKey (fst kv) d) (\<lambda>d. drive (snd kv) d)) kvs ?d = Inr d'"
      "Suc (length (heap d)) \<le> length (heap d')"
      "take (Suc (length (heap d))) (heap d') = (linked d @ [Dictionary_element []])[length (heap d) := Dictionary_element bs]"
      "list_all2 (\<lambda>kv ka. fst kv = fst ka \<and>
         repr (heap d') (Suc (length (heap d))) (length (heap d')) (snd kv) (snd ka)) kvs bs"
      "current d' = length (heap d) # current d" "key d' = None" "\<not> isFirst d'" "bencoding d' = root_after d"
    using drive_entries [of kvs ?d "length (heap d)" "current d" "[]"] 4 by (auto simp: nth_append)
  have "list_all2 (\<lambda>kv ka. fst kv = fst ka \<and>
      repr (heap d') (length (heap d)) (length (heap d')) (snd kv) (snd ka)) kvs bs"
    using d'(4) by (rule list.rel_mono_strong) (auto elim: repr_agree)
  then have "built d (BDict kvs) (d'\<lparr>current := current d\<rparr>)"
    using d'(2) by (intro built_container [OF 4(2) d'(2,3,6,7,8)]) simp
  with d'(1,5) 4(2) show ?case
    by (simp add: pushDictionary_def push_eq pop_def)
qed

text \<open>C2: The parser reads every bencoded value back. For each value whose integers fit 64 bits and
  whose strings are shorter than \<open>2\<^sup>3\<^sup>2\<close> bytes, and whatever follows it in the buffer, scanner,
  grammar and driver accept the encoding and leave at \<open>bencoding_\<close> the root of a tree that
  represents exactly that value, with the stack of open containers empty and no key pending.
\<close>

theorem parse_bencoding_round_trip:
  assumes "bvalue_wf v"
  shows "\<exists>d a. parse_bencoding (bencode v @ rest) = Inr (ACCEPTED, d) \<and> bencoding d = Some a
     \<and> represents (heap d) v a \<and> current d = [] \<and> key d = None"
proof -
  have "ready new_driver"
    by (simp add: ready_def new_driver_def)
  then obtain d where d: "drive v new_driver = Inr d" "built new_driver v d"
    using drive_builds by blast
  have "context_of Bencoding_start INITIAL"
    by (simp add: context_of_def)
  from yyparse_value [OF assms this, of "[]" "[]" new_driver rest] d
  have "parse_bencoding (bencode v @ rest) = accept d"
    by (simp add: parse_bencoding_def bencoding_yyparse.simps [of "[]"])
  with d(2) show ?thesis
    by (auto simp: accept_def record_root_def built_def represents_def new_driver_def root_after_def)
qed

theorem parse_bencoding_round_trip_witness:
  "\<exists>d a. parse_bencoding (bencode (BDict [(''length'', BInt (-5)), (''path'', BList [BString ''a'', BDict []])]) @ ''x'')
       = Inr (ACCEPTED, d) \<and> bencoding d = Some a
     \<and> represents (heap d) (BDict [(''length'', BInt (-5)), (''path'', BList [BString ''a'', BDict []])]) a
     \<and> current d = [] \<and> key d = None"
  by (rule parse_bencoding_round_trip) simp

section \<open>Safety\<close>

text \<open>
  The invariant of the stack of start conditions, and what each rule leaves behind.
\<close>

definition may_follow :: "start_condition \<Rightarrow> start_condition \<Rightarrow> bool" where
  "may_follow st below = (case st of
      INITIAL \<Rightarrow> False
    | state_dictionary_value \<Rightarrow> below \<in> {state_dictionary_key, state_dictionary_key_2}
    | state_dictionary_value_2 \<Rightarrow> below = state_dictionary_value
    | _ \<Rightarrow> below \<in> {INITIAL, state_list, state_dictionary_value_2})"

fun scan_wf_stack :: "start_condition \<Rightarrow> start_condition list \<Rightarrow> bool" where
  "scan_wf_stack st [] = (st = INITIAL)"
| "scan_wf_stack st (x # sts) = (may_follow st x \<and> scan_wf_stack x sts)"

definition scan_wf :: "scanner \<Rightarrow> bool" where
  "scan_wf sc = scan_wf_stack (fst sc) (snd sc)"

definition in_string :: "scanner \<Rightarrow> bool" where
  "in_string sc \<longleftrightarrow> fst sc \<in> {state_string_2, state_dictionary_key_2}"

lemma scan_wf_simps:
  "scan_wf (INITIAL, []) = True"
  "scan_wf (x, st # sts) = (may_follow x st \<and> scan_wf (st, sts))"
  by (simp_all add: scan_wf_def)

lemma scan_wf_swap:
  "scan_wf (state_string, sts) = scan_wf (state_integer, sts)"
  "scan_wf (state_string_2, sts) = scan_wf (state_integer, sts)"
  "scan_wf (state_list, sts) = scan_wf (state_integer, sts)"
  "scan_wf (state_dictionary_key, sts) = scan_wf (state_integer, sts)"
  "scan_wf (state_dictionary_key_2, sts) = scan_wf (state_integer, sts)"
  by (cases sts; simp add: scan_wf_def may_follow_def)+

lemma scan_wf_pop:
  assumes "scan_wf (state_integer, sts)"
  obtains st sts' where "sts = st # sts'" "scan_wf (st, sts')" "st \<in> {INITIAL, state_list, state_dictionary_value_2}"
  using assms by (cases sts) (auto simp: scan_wf_def may_follow_def)

lemma scan_wf_pop_value:
  assumes "scan_wf (state_dictionary_value_2, sts)"
  obtains st sts' where "sts = state_dictionary_value # st # sts'" "scan_wf (state_integer, sts')"
proof -
  from assms obtain sts1 where "sts = state_dictionary_value # sts1" "scan_wf (state_dictionary_value, sts1)"
    by (cases sts) (auto simp: scan_wf_def may_follow_def)
  moreover from this(2) obtain st sts' where "sts1 = st # sts'" "scan_wf (state_integer, sts')"
    by (cases sts1) (auto simp: scan_wf_def may_follow_def scan_wf_swap [unfolded scan_wf_def fst_conv snd_conv])
  ultimately show thesis
    using that by blast
qed

lemma lex_safe:
  "scan_wf sc \<Longrightarrow> (in_string sc \<Longrightarrow> n \<noteq> 0) \<Longrightarrow>
   \<exists>tok sc' rest. bencoding_lex sc n i s inp = Inr (tok, sc', rest)
     \<and> (tok \<noteq> END \<longrightarrow> scan_wf sc' \<and> \<not> in_string sc')"
proof (induction sc n i s inp rule: bencoding_lex.induct)
  case (1 sc n i s)
  then show ?case by simp
next
  case (2 sts n i s c inp)
  then show ?case
    by (auto simp: yy_push_state_def in_string_def scan_wf_simps may_follow_def)
next
  case (3 sts n i s c inp)
  then show ?case
    by (auto simp: yy_pop_state_def in_string_def scan_wf_simps may_follow_def elim: scan_wf_pop)
next
  case (4 sts n i s c inp)
  then show ?case
    by (auto simp: yy_pop_state_def BEGIN_def in_string_def scan_wf_simps may_follow_def scan_wf_swap elim: scan_wf_pop)
next
  case (5 sts n i s c inp)
  then show ?case
    by (auto simp: yy_pop_state_def in_string_def scan_wf_simps may_follow_def scan_wf_swap elim: scan_wf_pop)
next
  case (6 sts n i s c inp)
  then show ?case
    by (auto simp: yy_pop_state_def yy_push_state_def in_string_def scan_wf_simps may_follow_def scan_wf_swap elim: scan_wf_pop)
next
  case (7 sts n i s c inp)
  then show ?case
    by (auto simp: yy_pop_state_def yy_push_state_def BEGIN_def in_string_def scan_wf_simps may_follow_def scan_wf_swap elim: scan_wf_pop)
next
  case (8 sts n i s c inp)
  then show ?case
    by (auto simp: yy_push_state_def in_string_def scan_wf_simps may_follow_def)
next
  case (9 sts n i s c inp)
  then show ?case
    by (auto simp: yy_push_state_def in_string_def scan_wf_simps may_follow_def Let_def)
next
  case (10 sts n i s c inp)
  obtain st sts' where sts: "sts = state_dictionary_value # st # sts'" "scan_wf (state_integer, sts')"
    using 10(2) by (rule scan_wf_pop_value)
  have pops: "yy_pop_state (state_dictionary_value_2, sts) = Inr (state_dictionary_value, st # sts')"
    "yy_pop_state (state_dictionary_value, st # sts') = Inr (st, sts')"
    by (simp_all add: yy_pop_state_def sts(1))
  have "scan_wf (BEGIN state_dictionary_key (st, sts'))" "\<not> in_string (BEGIN state_dictionary_key (st, sts'))"
    using sts(2) by (simp_all add: BEGIN_def in_string_def scan_wf_swap)
  with 10(1) [OF pops] show ?case
    by (simp add: pops)
qed

section \<open>The driver's invariant\<close>

text \<open>
  The open containers on the driver's stack are the lists and dictionaries the parser is inside
  of, and a key is pending exactly between a key and its value.
\<close>

fun frame_matches :: "frame \<Rightarrow> element \<Rightarrow> bool" where
  "frame_matches List_items (List_element _) = True"
| "frame_matches Dictionary_items (Dictionary_element _) = True"
| "frame_matches Dictionary_value (Dictionary_element _) = True"
| "frame_matches _ _ = False"

definition containers_match :: "driver \<Rightarrow> frame list \<Rightarrow> bool" where
  "containers_match d fs \<longleftrightarrow>
     list_all2 (\<lambda>f a. a < length (heap d) \<and> frame_matches f (heap d ! a)) fs (current d)"

definition parser_inv :: "frame list \<Rightarrow> driver \<Rightarrow> bool" where
  "parser_inv fs d \<longleftrightarrow>
     (if fs = [Bencoding_start] then d = new_driver
      else containers_match d fs \<and> set (tl fs) \<subseteq> {List_items, Dictionary_items}
        \<and> (key d \<noteq> None \<longleftrightarrow> fs \<noteq> [] \<and> hd fs = Dictionary_value) \<and> \<not> isFirst d \<and> bencoding d \<noteq> None)"

lemma frame_matches_simps [simp]:
  "frame_matches List_items e \<longleftrightarrow> (\<exists>as. e = List_element as)"
  "frame_matches Dictionary_items e \<longleftrightarrow> (\<exists>kas. e = Dictionary_element kas)"
  "frame_matches Dictionary_value e \<longleftrightarrow> (\<exists>kas. e = Dictionary_element kas)"
  "\<not> frame_matches Bencoding_start e"
  by (cases e; simp)+

lemma frame_matches_add_child [simp]: "frame_matches f (add_child e k a) = frame_matches f e"
  by (cases f; cases e) simp_all

lemma nth_linked: "a < length (heap d) \<Longrightarrow> frame_matches f (linked d ! a) = frame_matches f (heap d ! a)"
  by (cases "current d"; cases "hd (current d) = a") (simp_all add: linked_def)

lemma parser_inv_ready:
  "parser_inv fs d \<Longrightarrow> fs \<noteq> [] \<Longrightarrow> hd fs \<noteq> Dictionary_items \<Longrightarrow> ready d"
  by (cases fs; cases "hd fs")
    (auto simp: parser_inv_def ready_def containers_match_def new_driver_def list_all2_Cons1 split: if_splits)

lemma containers_match_push:
  assumes "containers_match d fs"
  shows "list_all2 (\<lambda>f a. a < Suc (length (heap d)) \<and> frame_matches f ((linked d @ [e]) ! a)) fs (current d)"
  using assms unfolding containers_match_def
  by (rule list.rel_mono_strong) (auto simp: nth_append nth_linked)

lemma after_value_inv:
  assumes "parser_inv fs d" "fs \<noteq> []" "hd fs \<noteq> Dictionary_items"
  shows "list_all2 (\<lambda>f a. a < Suc (length (heap d)) \<and> frame_matches f ((linked d @ [e]) ! a))
           (after_value fs) (current d)"
    and "set (after_value fs) \<subseteq> {List_items, Dictionary_items}"
proof -
  show "set (after_value fs) \<subseteq> {List_items, Dictionary_items}"
    using assms by (cases fs; cases "hd fs") (auto simp: parser_inv_def containers_match_def list_all2_Cons1 split: if_splits)
  show "list_all2 (\<lambda>f a. a < Suc (length (heap d)) \<and> frame_matches f ((linked d @ [e]) ! a))
      (after_value fs) (current d)"
  proof (cases "fs = [Bencoding_start]")
    case True
    with assms(1) show ?thesis
      by (simp add: parser_inv_def new_driver_def)
  next
    case False
    with assms(1) have "containers_match d fs"
      by (simp add: parser_inv_def)
    from containers_match_push [OF this, of e] assms(2,3) show ?thesis
      by (cases fs; cases "hd fs") (auto simp: list_all2_Cons1)
  qed
qed

lemma parser_inv_push:
  assumes "parser_inv fs d" "fs \<noteq> []" "hd fs \<noteq> Dictionary_items"
  shows "\<not> is_container e \<Longrightarrow> \<exists>d'. push e d = Inr d' \<and> parser_inv (after_value fs) d'"
    and "frame_matches f e \<Longrightarrow> f \<in> {List_items, Dictionary_items} \<Longrightarrow>
           \<exists>d'. push e d = Inr d' \<and> parser_inv (f # after_value fs) d'"
proof -
  note wf = after_value_inv(1) [OF assms, of e] after_value_inv(2) [OF assms] push_eq [OF parser_inv_ready [OF assms], of e]
  have av: "after_value fs \<noteq> [Bencoding_start]" "hd (after_value fs) \<noteq> Dictionary_value \<or> after_value fs = []"
    "set (tl (after_value fs)) \<subseteq> {List_items, Dictionary_items}"
    using wf(2) by (cases "after_value fs"; force)+
  have root: "root_after d \<noteq> None"
    using assms(1) by (auto simp: parser_inv_def root_after_def new_driver_def split: if_splits)
  show "\<exists>d'. push e d = Inr d' \<and> parser_inv (after_value fs) d'" if "\<not> is_container e"
    using wf av root that by (auto simp: parser_inv_def containers_match_def)
  show "\<exists>d'. push e d = Inr d' \<and> parser_inv (f # after_value fs) d'"
    if "frame_matches f e" "f \<in> {List_items, Dictionary_items}"
    using wf root that by (auto simp: parser_inv_def containers_match_def nth_append)
qed

lemma parser_inv_pop:
  assumes "parser_inv (f # fs) d" "f \<in> {List_items, Dictionary_items}"
  shows "\<exists>d'. pop d = Inr d' \<and> parser_inv fs d'"
proof -
  have "set fs \<subseteq> {List_items, Dictionary_items}"
    using assms by (auto simp: parser_inv_def split: if_splits)
  then have "fs \<noteq> [Bencoding_start]" "hd fs \<noteq> Dictionary_value \<or> fs = []" "set (tl fs) \<subseteq> {List_items, Dictionary_items}"
    by (cases fs; force)+
  then show ?thesis
    using assms by (auto simp: parser_inv_def containers_match_def pop_def list_all2_Cons1)
qed

lemma parser_inv_key:
  "parser_inv (Dictionary_items # fs) d \<Longrightarrow> \<exists>d'. pushKey k d = Inr d' \<and> parser_inv (Dictionary_value # fs) d'"
  by (auto simp: parser_inv_def containers_match_def pushKey_def list_all2_Cons1)

lemma yyaction_safe:
  assumes "parser_inv fs d" "fs \<noteq> []" "yyaction fs tok d = Some r"
  shows "\<exists>fs' d'. r = Inr (fs', d') \<and> parser_inv fs' d'"
proof (cases "hd fs = Dictionary_items")
  case True
  then obtain gs where "fs = Dictionary_items # gs"
    using assms(2) by (cases fs) auto
  then show ?thesis
    using assms(1,3) parser_inv_pop [of Dictionary_items gs d] parser_inv_key [of gs d]
    by (auto simp: yyaction_def split: bencoding_token.splits)
next
  case False
  note push = parser_inv_push [OF assms(1,2) False]
  show ?thesis
  proof (cases tok)
    case (INTEGER i)
    then show ?thesis
      using push(1) [of "Integer_element i"] assms(3) False
      by (cases "hd fs") (auto simp: yyaction_def pushInteger_def)
  next
    case (STRING s)
    then show ?thesis
      using push(1) [of "String_element s"] assms(3) False
      by (cases "hd fs") (auto simp: yyaction_def pushString_def)
  next
    case LIST
    then show ?thesis
      using push(2) [of List_items "List_element []"] assms(3) False
      by (cases "hd fs") (auto simp: yyaction_def pushList_def)
  next
    case DICTIONARY
    then show ?thesis
      using push(2) [of Dictionary_items "Dictionary_element []"] assms(3) False
      by (cases "hd fs") (auto simp: yyaction_def pushDictionary_def)
  next
    case END_OF_LIST
    then have "fs = List_items # tl fs"
      using assms(2,3) False by (cases fs; cases "hd fs") (auto simp: yyaction_def)
    then show ?thesis
      using parser_inv_pop [of List_items "tl fs" d] assms(1,3) END_OF_LIST
      by (metis yyaction_others(1) insertI1 option.inject run_bind_simps(1))
  qed (use assms(3) False in \<open>cases "hd fs"; auto simp: yyaction_def\<close>)+
qed

lemma yyparse_safe:
  "parser_inv fs d \<Longrightarrow> scan_wf sc \<Longrightarrow> \<not> in_string sc \<Longrightarrow>
   \<exists>res d'. bencoding_yyparse fs sc d inp = Inr (res, d') \<and> (res = ACCEPTED \<longrightarrow> parser_inv [] d')"
proof (induction fs sc d inp rule: bencoding_yyparse.induct)
  case (1 fs sc d inp)
  show ?case
  proof (cases "fs = []")
    case True
    with "1.prems"(1) show ?thesis
      by (simp add: bencoding_yyparse.simps [of "[]"] accept_def record_root_def parser_inv_def)
  next
    case False
    obtain tok sc' rest where lex: "bencoding_lex sc 0 0 [] inp = Inr (tok, sc', rest)"
        and sc': "tok \<noteq> END \<longrightarrow> scan_wf sc' \<and> \<not> in_string sc'"
      using lex_safe [OF "1.prems"(2)] "1.prems"(3) by blast
    show ?thesis
    proof (cases "tok = END \<or> yyaction fs tok d = None")
      case True
      with False lex show ?thesis
        by (auto simp: bencoding_yyparse.simps [of fs])
    next
      case tok: False
      then obtain fs' d' where act: "yyaction fs tok d = Some (Inr (fs', d'))" and "parser_inv fs' d'"
        using yyaction_safe [OF "1.prems"(1) False] by blast
      with "1.IH" [OF False lex refl refl _ act] tok sc' show ?thesis
        by (subst bencoding_yyparse.simps) (simp add: False lex act)
    qed
  qed
qed

text \<open>C21: No input makes the bencoding parser fail. On every sequence of bytes, scanner, grammar and
  driver either accept or report a syntax error: no assertion fails, no pointer is followed
  outside the tree, neither stack underflows. An accepted input leaves a root and no container
  open.
\<close>

theorem parse_bencoding_never_faults:
  "\<exists>res d. parse_bencoding inp = Inr (res, d)
     \<and> (case res of
           ACCEPTED \<Rightarrow> bencoding d \<noteq> None \<and> current d = [] \<and> key d = None
         | SYNTAX_ERROR \<Rightarrow> True)"
proof -
  have "parser_inv [Bencoding_start] new_driver" "scan_wf (INITIAL, [])" "\<not> in_string (INITIAL, [])"
    by (simp_all add: parser_inv_def scan_wf_simps in_string_def)
  from yyparse_safe [OF this, of inp] obtain res d where
      "parse_bencoding inp = Inr (res, d)" "res = ACCEPTED \<longrightarrow> parser_inv [] d"
    by (auto simp: parse_bencoding_def)
  then show ?thesis
    by (cases res) (auto simp: parser_inv_def containers_match_def)
qed

end
