(* ===== verification/Std_Regex.thy ===== *)
theory Std_Regex
  imports Net_Prelude
begin

text \<open>
  The part of \<open>std::regex\<close> (ECMAScript grammar) that the library uses: greedy, backtracking
  matching with capture groups. \<open>matches\<close> lists the ways an expression can consume a prefix
  of its input, in the order the backtracking matcher tries them; \<open>regex_match\<close> takes the
  first one that consumes everything, as \<open>std::regex_match\<close> does. The relation \<open>derives\<close>
  is the order-free reading, and the two are proved to agree.
\<close>

section \<open>Expressions\<close>

datatype re =
    Eps
  | Cls "char \<Rightarrow> bool"
  | Seq re re
  | Alt re re
  | Star re
  | Grp nat re

type_synonym caps = "nat \<rightharpoonup> string"

abbreviation Opt :: "re \<Rightarrow> re" where "Opt r \<equiv> Alt r Eps"
abbreviation Plus :: "re \<Rightarrow> re" where "Plus r \<equiv> Seq r (Star r)"
abbreviation Chr :: "char \<Rightarrow> re" where "Chr c \<equiv> Cls (\<lambda>x. x = c)"
abbreviation Not_chr :: "char \<Rightarrow> re" where "Not_chr c \<equiv> Cls (\<lambda>x. x \<noteq> c)"

text \<open>The dot matches everything but a line terminator.\<close>

definition line_terminator :: "char \<Rightarrow> bool" where
  "line_terminator c \<longleftrightarrow> c = CHR 0x0A \<or> c = CHR 0x0D"

abbreviation Dot :: re where "Dot \<equiv> Cls (\<lambda>x. \<not> line_terminator x)"

fun Lit :: "string \<Rightarrow> re" where
  "Lit [] = Eps"
| "Lit (c # s) = Seq (Chr c) (Lit s)"

fun Rep :: "nat \<Rightarrow> re \<Rightarrow> re" where
  "Rep 0 r = Eps"
| "Rep (Suc n) r = Seq r (Rep n r)"

text \<open>Between \<open>n\<close> and \<open>n + k\<close> repetitions, as many as possible first.\<close>

fun Rep_upto :: "nat \<Rightarrow> re \<Rightarrow> re" where
  "Rep_upto 0 r = Eps"
| "Rep_upto (Suc k) r = Opt (Seq r (Rep_upto k r))"

text \<open>At least one and at most \<open>k + 1\<close> repetitions.\<close>

abbreviation Rng :: "nat \<Rightarrow> re \<Rightarrow> re" where "Rng k r \<equiv> Seq r (Rep_upto k r)"

section \<open>Matching\<close>

function matches :: "re \<Rightarrow> string \<times> caps \<Rightarrow> (string \<times> caps) list" where
  "matches Eps st = [st]"
| "matches (Cls p) st =
     (case fst st of [] \<Rightarrow> [] | x # xs \<Rightarrow> if p x then [(xs, snd st)] else [])"
| "matches (Seq r1 r2) st = concat (map (matches r2) (matches r1 st))"
| "matches (Alt r1 r2) st = matches r1 st @ matches r2 st"
| "matches (Star r) st =
     concat (map (\<lambda>st'. if length (fst st') < length (fst st) then matches (Star r) st' else [])
       (matches r st)) @ [st]"
| "matches (Grp n r) st =
     map (\<lambda>st'. (fst st', (snd st')(n \<mapsto> take (length (fst st) - length (fst st')) (fst st))))
       (matches r st)"
  by pat_completeness auto
termination by (relation "measures [\<lambda>(r, _). size r, \<lambda>(_, s, _). length s]") auto

declare matches.simps(5) [simp del]

definition regex_match :: "re \<Rightarrow> string \<Rightarrow> caps option" where
  "regex_match r s =
     (case filter (\<lambda>st. fst st = []) (matches r (s, Map.empty)) of
        [] \<Rightarrow> None | st # _ \<Rightarrow> Some (snd st))"

inductive derives :: "re \<Rightarrow> string \<times> caps \<Rightarrow> string \<times> caps \<Rightarrow> bool" where
  eps: "derives Eps st st"
| cls: "p x \<Longrightarrow> derives (Cls p) (x # s, c) (s, c)"
| seq: "derives r1 st st1 \<Longrightarrow> derives r2 st1 st2 \<Longrightarrow> derives (Seq r1 r2) st st2"
| alt_left: "derives r1 st st' \<Longrightarrow> derives (Alt r1 r2) st st'"
| alt_right: "derives r2 st st' \<Longrightarrow> derives (Alt r1 r2) st st'"
| star_none: "derives (Star r) st st"
| star_more: "derives r st st1 \<Longrightarrow> length (fst st1) < length (fst st) \<Longrightarrow>
    derives (Star r) st1 st2 \<Longrightarrow> derives (Star r) st st2"
| grp: "derives r st st' \<Longrightarrow>
    derives (Grp n r) st
      (fst st', (snd st')(n \<mapsto> take (length (fst st) - length (fst st')) (fst st)))"

inductive_simps derives_Eps [simp]: "derives Eps st st'"
inductive_simps derives_Cls: "derives (Cls p) st st'"
inductive_simps derives_Seq: "derives (Seq r1 r2) st st'"
inductive_simps derives_Alt: "derives (Alt r1 r2) st st'"
inductive_simps derives_Grp: "derives (Grp n r) st st'"
inductive_cases derives_StarE: "derives (Star r) st st'"

section \<open>The matcher explores exactly the derivations\<close>

lemma derives_matches: "derives r st st' \<Longrightarrow> st' \<in> set (matches r st)"
proof (induction rule: derives.induct)
  case (star_none r st)
  then show ?case by (simp add: matches.simps(5) [of r st])
next
  case (star_more r st st1 st2)
  then show ?case by (subst matches.simps(5)) auto
qed auto

lemma matches_derives: "st' \<in> set (matches r st) \<Longrightarrow> derives r st st'"
proof (induction r st arbitrary: st' rule: matches.induct)
  case (2 p st)
  then show ?case by (cases st) (auto simp: derives_Cls split: list.splits if_splits)
next
  case (3 r1 r2 st)
  from "3.prems" obtain st1 where "st1 \<in> set (matches r1 st)" "st' \<in> set (matches r2 st1)"
    by auto
  with "3.IH" show ?case by (blast intro: derives.seq)
next
  case (5 r st)
  from "5.prems" consider "st' = st"
    | st1 where "st1 \<in> set (matches r st)" "length (fst st1) < length (fst st)"
        "st' \<in> set (matches (Star r) st1)"
    unfolding matches.simps(5) [of r st] by (auto split: if_splits)
  then show ?case
  proof cases
    case 1
    then show ?thesis by (simp add: derives.star_none)
  next
    case 2
    then show ?thesis using "5.IH" by (blast intro: derives.star_more)
  qed
next
  case (6 n r st)
  then show ?case by (auto intro: derives.grp)
qed (auto intro: derives.intros)

lemma matches_iff: "st' \<in> set (matches r st) \<longleftrightarrow> derives r st st'"
  using derives_matches matches_derives by blast

lemma derives_suffix: "derives r st st' \<Longrightarrow> \<exists>w. fst st = w @ fst st'"
  by (induction rule: derives.induct) auto

lemma regex_match_SomeD:
  "regex_match r s = Some c \<Longrightarrow> derives r (s, Map.empty) ([], c)"
proof -
  assume "regex_match r s = Some c"
  then obtain st sts where f: "filter (\<lambda>st. fst st = []) (matches r (s, Map.empty)) = st # sts"
      and c: "snd st = c"
    by (auto simp: regex_match_def split: list.splits)
  have "st \<in> set (matches r (s, Map.empty))" "fst st = []"
    using arg_cong [OF f, of set] by auto
  then have "derives r (s, Map.empty) st" "st = ([], c)"
    using c by (auto simp: matches_iff prod_eq_iff)
  then show ?thesis by simp
qed

lemma regex_match_None_iff:
  "regex_match r s = None \<longleftrightarrow> \<not> (\<exists>c. derives r (s, Map.empty) ([], c))"
proof -
  have "regex_match r s = None \<longleftrightarrow> filter (\<lambda>st. fst st = []) (matches r (s, Map.empty)) = []"
    by (auto simp: regex_match_def split: list.splits)
  also have "\<dots> \<longleftrightarrow> \<not> (\<exists>c. ([], c) \<in> set (matches r (s, Map.empty)))"
    by (auto simp: filter_empty_conv)
  finally show ?thesis by (simp add: matches_iff)
qed

lemma regex_match_unique:
  assumes "derives r (s, Map.empty) ([], c)"
    and "\<And>c'. derives r (s, Map.empty) ([], c') \<Longrightarrow> c' = c"
  shows "regex_match r s = Some c"
  using assms regex_match_None_iff [of r s] regex_match_SomeD [of r s]
  by (cases "regex_match r s") auto

section \<open>Derivations of the common forms\<close>

lemma derives_Lit: "derives (Lit w) st st' \<longleftrightarrow> fst st = w @ fst st' \<and> snd st' = snd st"
proof (induction w arbitrary: st)
  case (Cons x w)
  show ?case
    by (cases st; cases "fst st") (auto simp: derives_Seq derives_Cls Cons)
qed (auto simp: prod_eq_iff)

lemma derives_Star_Cls:
  "derives (Star (Cls p)) st st' \<longleftrightarrow>
     (\<exists>w. fst st = w @ fst st' \<and> list_all p w) \<and> snd st' = snd st"
proof
  assume "derives (Star (Cls p)) st st'"
  then show "(\<exists>w. fst st = w @ fst st' \<and> list_all p w) \<and> snd st' = snd st"
  proof (induction "Star (Cls p)" st st' rule: derives.induct)
    case (star_more st st1 st2)
    then obtain x w where "fst st = x # fst st1" "p x" "fst st1 = w @ fst st2" "list_all p w"
        "snd st1 = snd st" "snd st2 = snd st1"
      by (auto simp: derives_Cls)
    then show ?case by (auto intro!: exI [of _ "x # w"])
  qed auto
next
  assume "(\<exists>w. fst st = w @ fst st' \<and> list_all p w) \<and> snd st' = snd st"
  then obtain w where "fst st = w @ fst st'" "list_all p w" "snd st' = snd st" by blast
  then show "derives (Star (Cls p)) st st'"
  proof (induction w arbitrary: st)
    case Nil
    then have "st' = st" by (simp add: prod_eq_iff)
    then show ?case by (simp add: derives.star_none)
  next
    case (Cons x w)
    then have "derives (Cls p) st (w @ fst st', snd st)"
      by (cases st) (auto intro: derives.cls)
    moreover have "derives (Star (Cls p)) (w @ fst st', snd st) st'"
      using Cons by simp
    ultimately show ?case
      using derives.star_more [of "Cls p" st "(w @ fst st', snd st)" st'] Cons.prems(1) by simp
  qed
qed

lemma derives_Plus_Cls:
  "derives (Plus (Cls p)) st st' \<longleftrightarrow>
     (\<exists>w. w \<noteq> [] \<and> fst st = w @ fst st' \<and> list_all p w) \<and> snd st' = snd st"
proof
  assume "derives (Plus (Cls p)) st st'"
  then obtain st1 where "derives (Cls p) st st1" "derives (Star (Cls p)) st1 st'"
    by (auto simp: derives_Seq)
  then obtain x s c w where "st = (x # s, c)" "st1 = (s, c)" "p x"
      "s = w @ fst st'" "list_all p w" "snd st' = c"
    by (auto simp: derives_Cls derives_Star_Cls)
  then show "(\<exists>w. w \<noteq> [] \<and> fst st = w @ fst st' \<and> list_all p w) \<and> snd st' = snd st"
    by (auto intro: exI [of _ "x # w"])
next
  assume "(\<exists>w. w \<noteq> [] \<and> fst st = w @ fst st' \<and> list_all p w) \<and> snd st' = snd st"
  then obtain x w where w: "fst st = x # w @ fst st'" "p x" "list_all p w" "snd st' = snd st"
    by (metis append_Cons list.exhaust list.pred_inject(2))
  then have "derives (Cls p) st (w @ fst st', snd st)"
    by (cases st) (auto intro: derives.cls)
  moreover have "derives (Star (Cls p)) (w @ fst st', snd st) st'"
    using w by (auto simp: derives_Star_Cls)
  ultimately show "derives (Plus (Cls p)) st st'" by (rule derives.seq)
qed

lemmas derives_simps =
  derives_Eps derives_Cls derives_Seq derives_Alt derives_Grp derives_Lit
  derives_Star_Cls derives_Plus_Cls

lemma derives_Rep_upto_Cls:
  "derives (Rep_upto k (Cls p)) st st' \<longleftrightarrow>
     (\<exists>w. length w \<le> k \<and> list_all p w \<and> fst st = w @ fst st') \<and> snd st' = snd st"
proof (induction k arbitrary: st)
  case 0
  then show ?case by (auto simp: prod_eq_iff)
next
  case (Suc k)
  have "derives (Rep_upto (Suc k) (Cls p)) st st' \<longleftrightarrow>
      (\<exists>x s c. st = (x # s, c) \<and> p x \<and> derives (Rep_upto k (Cls p)) (s, c) st') \<or> st' = st"
    by (auto simp: derives_Alt derives_Seq derives_Cls)
  also have "\<dots> \<longleftrightarrow>
      (\<exists>x w. p x \<and> length w \<le> k \<and> list_all p w \<and> fst st = x # w @ fst st') \<and> snd st' = snd st
      \<or> fst st = [] @ fst st' \<and> snd st' = snd st"
    by (cases st) (auto simp: Suc prod_eq_iff)
  also have "\<dots> \<longleftrightarrow>
      (\<exists>w. length w \<le> Suc k \<and> list_all p w \<and> fst st = w @ fst st') \<and> snd st' = snd st"
  proof -
    have "(\<exists>w. length w \<le> Suc k \<and> list_all p w \<and> fst st = w @ fst st') \<longleftrightarrow>
        (\<exists>x w. p x \<and> length w \<le> k \<and> list_all p w \<and> fst st = x # w @ fst st') \<or> fst st = [] @ fst st'"
      (is "?l \<longleftrightarrow> ?r")
    proof
      assume ?l
      then obtain w where w: "length w \<le> Suc k" "list_all p w" "fst st = w @ fst st'" by blast
      then show ?r by (cases w) auto
    next
      assume ?r
      then show ?l
      proof
        assume "\<exists>x w. p x \<and> length w \<le> k \<and> list_all p w \<and> fst st = x # w @ fst st'"
        then obtain x w where "p x" "length w \<le> k" "list_all p w" "fst st = x # w @ fst st'"
          by blast
        then show ?l by (intro exI [of _ "x # w"]) simp
      qed (auto intro: exI [of _ "[]"])
    qed
    then show ?thesis by blast
  qed
  finally show ?case .
qed

lemma derives_Grp_word:
  "derives (Grp n r) (s, c) (t, c') \<longleftrightarrow>
     (\<exists>w c0. s = w @ t \<and> derives r (s, c) (t, c0) \<and> c' = c0(n \<mapsto> w))" (is "?l \<longleftrightarrow> ?r")
proof
  assume ?l
  then obtain c0 where "derives r (s, c) (t, c0)" "c' = c0(n \<mapsto> take (length s - length t) s)"
    by (auto simp: derives_Grp)
  moreover from this obtain w where "s = w @ t" using derives_suffix by fastforce
  ultimately show ?r by auto
next
  assume ?r
  then obtain w c0 where "s = w @ t" "derives r (s, c) (t, c0)" "c' = c0(n \<mapsto> w)" by blast
  then show ?l using derives.grp [of r "(s, c)" "(t, c0)" n] by simp
qed

lemma derives_Grp_Plus_Cls:
  "derives (Grp n (Plus (Cls p))) (s, c) (t, c') \<longleftrightarrow>
     (\<exists>w. w \<noteq> [] \<and> s = w @ t \<and> list_all p w \<and> c' = c(n \<mapsto> w))"
  unfolding derives_Grp_word derives_Plus_Cls by auto

lemma derives_Grp_Star_Cls:
  "derives (Grp n (Star (Cls p))) (s, c) (t, c') \<longleftrightarrow>
     (\<exists>w. s = w @ t \<and> list_all p w \<and> c' = c(n \<mapsto> w))"
  unfolding derives_Grp_word derives_Star_Cls by auto

lemma derives_Grp_Cls:
  "derives (Grp n (Cls p)) (s, c) (t, c') \<longleftrightarrow> (\<exists>x. s = x # t \<and> p x \<and> c' = c(n \<mapsto> [x]))"
  unfolding derives_Grp_word derives_Cls by auto

lemma derives_Grp_Rep_upto_Cls:
  "derives (Grp n (Rep_upto k (Cls p))) (s, c) (t, c') \<longleftrightarrow>
     (\<exists>w. length w \<le> k \<and> s = w @ t \<and> list_all p w \<and> c' = c(n \<mapsto> w))"
  unfolding derives_Grp_word derives_Rep_upto_Cls by auto

lemma derives_Grp_Rng_Cls:
  "derives (Grp n (Rng k (Cls p))) (s, c) (t, c') \<longleftrightarrow>
     (\<exists>w. w \<noteq> [] \<and> length w \<le> Suc k \<and> s = w @ t \<and> list_all p w \<and> c' = c(n \<mapsto> w))"
  (is "?l \<longleftrightarrow> ?r")
proof -
  have "derives (Rng k (Cls p)) (s, c) (t, c0) \<longleftrightarrow>
      (\<exists>x w. p x \<and> length w \<le> k \<and> list_all p w \<and> s = x # w @ t) \<and> c0 = c" for c0
    unfolding derives_Seq split_paired_Ex derives_Cls derives_Rep_upto_Cls by auto
  then have "?l \<longleftrightarrow> (\<exists>x w. p x \<and> length w \<le> k \<and> list_all p w \<and> s = x # w @ t \<and> c' = c(n \<mapsto> x # w))"
    unfolding derives_Grp_word by auto
  also have "\<dots> \<longleftrightarrow> ?r"
  proof
    assume ?r
    then obtain w where "w \<noteq> []" "length w \<le> Suc k" "s = w @ t" "list_all p w" "c' = c(n \<mapsto> w)"
      by blast
    then show "\<exists>x w. p x \<and> length w \<le> k \<and> list_all p w \<and> s = x # w @ t \<and> c' = c(n \<mapsto> x # w)"
      by (cases w) auto
  qed force
  finally show ?thesis .
qed

section \<open>Characters that every match contains\<close>

inductive needs :: "char \<Rightarrow> re \<Rightarrow> bool" for d where
  needs_cls: "(\<And>x. p x \<Longrightarrow> x = d) \<Longrightarrow> needs d (Cls p)"
| needs_left: "needs d r1 \<Longrightarrow> needs d (Seq r1 r2)"
| needs_right: "needs d r2 \<Longrightarrow> needs d (Seq r1 r2)"
| needs_alt: "needs d r1 \<Longrightarrow> needs d r2 \<Longrightarrow> needs d (Alt r1 r2)"
| needs_grp: "needs d r \<Longrightarrow> needs d (Grp n r)"

lemma needs_derives: "needs d r \<Longrightarrow> derives r st st' \<Longrightarrow> \<exists>w. fst st = w @ fst st' \<and> d \<in> set w"
proof (induction arbitrary: st st' rule: needs.induct)
  case (needs_cls p)
  then show ?case by (auto simp: derives_Cls)
next
  case (needs_left r1 r2)
  then obtain st1 where st1: "derives r1 st st1" "derives r2 st1 st'" by (auto simp: derives_Seq)
  then obtain w v where "fst st = w @ fst st1" "d \<in> set w" "fst st1 = v @ fst st'"
    using needs_left.IH [OF st1(1)] derives_suffix [OF st1(2)] by auto
  then show ?case by (intro exI [of _ "w @ v"]) simp
next
  case (needs_right r2 r1)
  then obtain st1 where st1: "derives r1 st st1" "derives r2 st1 st'" by (auto simp: derives_Seq)
  then obtain w v where "fst st = w @ fst st1" "d \<in> set v" "fst st1 = v @ fst st'"
    using needs_right.IH [OF st1(2)] derives_suffix [OF st1(1)] by auto
  then show ?case by (intro exI [of _ "w @ v"]) simp
next
  case (needs_alt r1 r2)
  then show ?case by (cases st; cases st') (auto simp: derives_Alt)
next
  case (needs_grp r n)
  obtain a b aa ba where st: "st = (a, b)" "st' = (aa, ba)" by force
  with needs_grp.prems obtain w c0 where "a = w @ aa" "derives r (a, b) (aa, c0)"
    by (auto simp: derives_Grp_word)
  then show ?case using needs_grp.IH [of "(a, b)" "(aa, c0)"] st by simp
qed

lemma needs_regex_match: "needs d r \<Longrightarrow> regex_match r s = Some c \<Longrightarrow> d \<in> set s"
  using needs_derives regex_match_SomeD by fastforce

section \<open>Priorities: the first complete match\<close>

lemma regex_match_Alt:
  "regex_match (Alt r1 r2) s =
     (case regex_match r1 s of None \<Rightarrow> regex_match r2 s | Some c \<Rightarrow> Some c)"
  by (auto simp: regex_match_def split: list.splits)

definition full_matches :: "re \<Rightarrow> string \<times> caps \<Rightarrow> (string \<times> caps) list" where
  "full_matches r st = filter (\<lambda>st. fst st = []) (matches r st)"

lemma regex_match_full:
  "regex_match r s = (case full_matches r (s, Map.empty) of [] \<Rightarrow> None | st # _ \<Rightarrow> Some (snd st))"
  by (simp add: regex_match_def full_matches_def)

lemma full_matches_Seq:
  "full_matches (Seq r1 r2) st = concat (map (full_matches r2) (matches r1 st))"
  by (simp add: full_matches_def [abs_def] filter_concat comp_def)

lemma full_matches_Alt: "full_matches (Alt r1 r2) st = full_matches r1 st @ full_matches r2 st"
  by (simp add: full_matches_def)

lemma full_matches_Grp:
  "full_matches (Grp n r) st = map (\<lambda>st'. ([], (snd st')(n \<mapsto> fst st))) (full_matches r st)"
  by (auto simp: full_matches_def filter_map comp_def intro!: map_cong)

lemma matches_Star_Cls:
  "matches (Star (Cls p)) (s, c) =
     map (\<lambda>k. (drop k s, c)) (rev [0 ..< Suc (length (takeWhile p s))])"
proof (induction s)
  case Nil
  then show ?case by (simp add: matches.simps(5))
next
  case (Cons x s)
  have "[0 ..< Suc (Suc n)] = 0 # map Suc [0 ..< Suc n]" for n
    by (simp add: map_Suc_upt upt_conv_Cons del: upt_Suc)
  then show ?case
    using Cons by (cases "p x")
      (simp_all add: matches.simps(5) [of "Cls p" "(x # s, c)"] rev_map comp_def del: upt_Suc,
       simp)
qed

lemma full_matches_Star_Cls:
  "full_matches (Star (Cls p)) (s, c) = (if list_all p s then [([], c)] else [])"
proof (induction s)
  case Nil
  then show ?case by (simp add: full_matches_def matches.simps(5))
next
  case (Cons x s)
  then show ?case
    by (simp add: full_matches_def matches.simps(5) [of "Cls p" "(x # s, c)"])
qed

end
