(* ===== verification/Bittorrent_Files.thy ===== *)
theory Bittorrent_Files
  imports Bencoding Bittorrent_Pieces Std_Regex "HOL-Library.List_Lexorder" "HOL-Library.Char_ord"
begin

text \<open>
  The part of \<open>BitTorrent_Tools\<close> (\<open>bittorrent_tools.cpp\<close>) that works on torrent files and on the
  disk: what the meta information says about sizes and paths, checking and saving of completed
  pieces, finding them again, and the assembly of the shared files from the piece files.

  The bencoded meta information is only read, so it is the value itself. The file system is a map
  from paths to contents; the operations of \<open>Common_File_Tools\<close> and \<open>ACE_FILE_IO\<close>, the user's
  download directory, \<open>Common_Math_Tools::digitsBase10\<close>, \<open>ACE::basename\<close>, the order of file
  identifiers and SHA1 are code of other libraries and enter as parameters (\<open>files_env\<close>);
  \<open>files_env_ok\<close> states their documented behaviour when nothing fails.
\<close>

section \<open>Meta information\<close>

type_synonym bdict = "(string \<times> bvalue) list"

fun get_dictionary :: "bvalue \<Rightarrow> bdict run" where
  "get_dictionary (BDict d) = Inr d"
| "get_dictionary _ = Inl Assertion_failed"

fun get_list :: "bvalue \<Rightarrow> bvalue list run" where
  "get_list (BList vs) = Inr vs"
| "get_list _ = Inl Assertion_failed"

fun get_integer :: "bvalue \<Rightarrow> int run" where
  "get_integer (BInt i) = Inr i"
| "get_integer _ = Inl Assertion_failed"

fun get_string :: "bvalue \<Rightarrow> string run" where
  "get_string (BString s) = Inr s"
| "get_string _ = Inl Assertion_failed"

definition get_key :: "string \<Rightarrow> bdict \<Rightarrow> bvalue run" where
  "get_key k d = (case map_of d k of None \<Rightarrow> Inl Assertion_failed | Some v \<Rightarrow> Inr v)"

definition MetaInfoToInfoHash :: "(bvalue \<Rightarrow> string) \<Rightarrow> (string \<Rightarrow> string) \<Rightarrow> bdict \<Rightarrow> string run" where
  "MetaInfoToInfoHash encode SHA1 metaInfo =
     (case map_of metaInfo ''info'' of
        None \<Rightarrow> Inr []
      | Some v \<Rightarrow> run_bind (get_dictionary v) (\<lambda>info. Inr (take 20 (SHA1 (encode (BDict info))))))"

fun sum_lengths :: "bvalue list \<Rightarrow> u32 \<Rightarrow> u32 run" where
  "sum_lengths [] result = Inr result"
| "sum_lengths (v # vs) result =
     run_bind (get_dictionary v) (\<lambda>file.
     run_bind (get_key ''length'' file) (\<lambda>l.
     run_bind (get_integer l) (\<lambda>i. sum_lengths vs (result + word_of_int i))))"

definition MetaInfoToLength :: "bdict \<Rightarrow> u32 run" where
  "MetaInfoToLength metaInfo =
     run_bind (get_key ''info'' metaInfo) (\<lambda>v.
     run_bind (get_dictionary v) (\<lambda>info.
       case map_of info ''length'' of
         Some l \<Rightarrow> run_bind (get_integer l) (\<lambda>i. Inr (word_of_int i))
       | None \<Rightarrow>
           run_bind (get_key ''files'' info) (\<lambda>files.
           run_bind (get_list files) (\<lambda>files. sum_lengths files 0))))"

fun append_parts :: "char \<Rightarrow> bvalue list \<Rightarrow> string \<Rightarrow> string run" where
  "append_parts sep [] result = Inr result"
| "append_parts sep (v # vs) result =
     run_bind (get_string v) (\<lambda>s. append_parts sep vs (result @ s @ [sep]))"

definition listToPath :: "char \<Rightarrow> bvalue list \<Rightarrow> string run" where
  "listToPath sep vs =
     run_bind (append_parts sep vs []) (\<lambda>result.
       if result = [] then Inl Out_of_bounds else Inr (butlast result))"

definition torrentSupportsScrape :: "string \<Rightarrow> bool" where
  "torrentSupportsScrape announceURL =
     (case find_last_char CHR ''/'' announceURL of
        None \<Rightarrow> False
      | Some position \<Rightarrow> find_from ''announce'' announceURL (position + 1) = Some (position + 1))"

definition AnnounceURLToScrapeURL :: "string \<Rightarrow> string" where
  "AnnounceURLToScrapeURL announceURL =
     (if \<not> torrentSupportsScrape announceURL then []
      else str_replace announceURL (the (find_last_char CHR ''/'' announceURL))
             (length ''announce'') ''scrape'')"

section \<open>Piece files\<close>

type_synonym fs = "string \<rightharpoonup> byte list"

record files_env =
  sep :: char
  download_directory :: string
  digitsBase10 :: "int \<Rightarrow> nat"
  base_name :: "string \<Rightarrow> string"
  file_extension :: "string \<Rightarrow> string"
  identifier_less :: "string \<Rightarrow> string \<Rightarrow> bool"
  list_files :: "(string \<Rightarrow> bool) \<Rightarrow> string \<Rightarrow> fs \<Rightarrow> string list"
  ensure_directory :: "string \<Rightarrow> bool"
  write_n :: "string \<Rightarrow> byte list \<Rightarrow> fs \<Rightarrow> (nat \<times> bool \<times> fs) option"
  load_file :: "string \<Rightarrow> fs \<Rightarrow> byte list option"
  append_file :: "string \<Rightarrow> byte list \<Rightarrow> fs \<Rightarrow> bool \<times> fs"
  delete_files :: "string list \<Rightarrow> fs \<Rightarrow> fs"

definition piece_suffix :: string where "piece_suffix = ''.piece''"
definition pieces_suffix :: string where "pieces_suffix = ''_pieces''"

definition selector :: "files_env \<Rightarrow> string \<Rightarrow> bool" where
  "selector env d_name \<longleftrightarrow> take (length piece_suffix) (file_extension env d_name) = piece_suffix"

fun insert_by :: "('a \<Rightarrow> 'a \<Rightarrow> bool) \<Rightarrow> 'a \<Rightarrow> 'a list \<Rightarrow> 'a list" where
  "insert_by lt x [] = [x]"
| "insert_by lt x (y # ys) = (if lt y x then y # insert_by lt x ys else x # y # ys)"

definition std_sort :: "('a \<Rightarrow> 'a \<Rightarrow> bool) \<Rightarrow> 'a list \<Rightarrow> 'a list" where
  "std_sort lt xs = foldr (insert_by lt) xs []"

definition pieces_directory :: "files_env \<Rightarrow> string \<Rightarrow> string" where
  "pieces_directory env metaInfoFileName =
     download_directory env @ [sep env] @ metaInfoFileName @ pieces_suffix"

definition piece_files :: "files_env \<Rightarrow> string \<Rightarrow> fs \<Rightarrow> string list" where
  "piece_files env pieces_path fs =
     std_sort (identifier_less env) (list_files env (selector env) pieces_path fs)"

definition show_padded :: "nat \<Rightarrow> nat \<Rightarrow> string" where
  "show_padded w n = replicate (w - length (show_dec n)) CHR ''0'' @ show_dec n"

text \<open>\<open>static_cast<int> (numberOfPieces_in)\<close>: the number of digits is asked for an \<open>int\<close>.\<close>

definition piece_name :: "files_env \<Rightarrow> u32 \<Rightarrow> u32 \<Rightarrow> string \<Rightarrow> string" where
  "piece_name env numberOfPieces index filename =
     show_padded (digitsBase10 env (sint numberOfPieces)) (unat index) @ ''_'' @ filename @ piece_suffix"

definition chunks_bytes :: "chunk list \<Rightarrow> byte list" where
  "chunks_bytes cs = concat (concat (map chunk_data cs))"

definition validatePieceHash :: "(byte list \<Rightarrow> byte list) \<Rightarrow> piece \<Rightarrow> bool run" where
  "validatePieceHash SHA1 p =
     (if unat (piece_length p) < length (chunks_bytes (piece_chunks p)) then Inl Out_of_bounds
      else run_bind (ace_assert (length (chunks_bytes (piece_chunks p)) = unat (piece_length p))) (\<lambda>_.
        Inr (SHA1 (chunks_bytes (piece_chunks p)) = piece_hash p)))"

definition freeChunks :: "chunk list \<Rightarrow> chunk list run" where
  "freeChunks cs =
     (if \<forall>c \<in> set cs. chunk_data c \<noteq> [] then Inr [] else Inl Null_dereference)"

definition savePiece ::
    "files_env \<Rightarrow> string \<Rightarrow> u32 \<Rightarrow> u32 \<Rightarrow> piece \<Rightarrow> fs \<Rightarrow> (bool \<times> piece \<times> fs) run" where
  "savePiece env metaInfoFileName numberOfPieces index p fs =
     (let directory = pieces_directory env metaInfoFileName;
          filename = directory @ [sep env] @ piece_name env numberOfPieces index (piece_filename p) in
      if \<not> ensure_directory env directory then Inr (False, p, fs)
      else if piece_chunks p = [] then Inl Out_of_bounds
      else case write_n env filename (chunks_bytes (piece_chunks p)) fs of
        None \<Rightarrow> Inr (False, p, fs)
      | Some (bytes_transferred, closed, fs) \<Rightarrow>
          let result = (bytes_transferred = unat (piece_length p)) in
          if \<exists>c \<in> set (butlast (piece_chunks p)). chunk_data c = [] then Inl Null_dereference
          else if \<not> closed then Inr (False, p, fs)
          else run_bind (freeChunks (piece_chunks p)) (\<lambda>cs.
            Inr (result, p\<lparr>piece_onDisk := True, piece_chunks := cs\<rparr>, fs)))"

definition piece_file_re :: re where
  "piece_file_re =
     Seq (Grp 1 (Plus (Cls is_digit)))
       (Seq (Chr CHR ''_'') (Seq (Rep 6 (Cls is_alnum)) (Seq Dot (Lit ''piece''))))"

definition pieceFileNameToIndex :: "files_env \<Rightarrow> string \<Rightarrow> u32" where
  "pieceFileNameToIndex env fileName =
     (case regex_match piece_file_re (base_name env fileName) of
        None \<Rightarrow> - 1
      | Some m \<Rightarrow> word_of_nat (extract_unsigned 32 (the (m 1))))"

text \<open>
  \<open>loadPiece\<close> and \<open>loadPieces\<close>. The index of a name that is not a piece name is the largest
  unsigned value; advancing the iterator past the end is a fault. \<open>None\<close>: the function returns
  false.
\<close>

definition loaded_chunk :: "byte list \<Rightarrow> chunk" where
  "loaded_chunk data = \<lparr>chunk_data = [data], chunk_offset = 0\<rparr>"

fun loadPiece_loop :: "files_env \<Rightarrow> string \<Rightarrow> u32 \<Rightarrow> fs \<Rightarrow> string list \<Rightarrow> piece \<Rightarrow> piece option" where
  "loadPiece_loop env pieces_path index fs [] p = Some p"
| "loadPiece_loop env pieces_path index fs (name # names) p =
     (if pieceFileNameToIndex env name \<noteq> index then loadPiece_loop env pieces_path index fs names p
      else case load_file env (pieces_path @ [sep env] @ name) fs of
        None \<Rightarrow> None
      | Some data \<Rightarrow> Some (p\<lparr>piece_chunks := piece_chunks p @ [loaded_chunk data]\<rparr>))"

definition loadPiece :: "files_env \<Rightarrow> string \<Rightarrow> u32 \<Rightarrow> fs \<Rightarrow> piece \<Rightarrow> piece option run" where
  "loadPiece env metaInfoFileName index fs p =
     run_bind (ace_assert (piece_chunks p = [] \<and> piece_onDisk p)) (\<lambda>_.
       let pieces_path = pieces_directory env (base_name env metaInfoFileName) in
       Inr (loadPiece_loop env pieces_path index fs (piece_files env pieces_path fs) p))"

fun loadPieces_loop ::
    "files_env \<Rightarrow> string \<Rightarrow> bool \<Rightarrow> fs \<Rightarrow> string list \<Rightarrow> piece list \<Rightarrow> (bool \<times> piece list) run" where
  "loadPieces_loop env pieces_path loadToMemory fs [] ps = Inr (True, ps)"
| "loadPieces_loop env pieces_path loadToMemory fs (name # names) ps =
     (let i = unat (pieceFileNameToIndex env name) in
      if length ps < i then Inl Out_of_bounds
      else run_bind (ace_assert (i \<noteq> length ps)) (\<lambda>_.
        if \<not> loadToMemory
        then loadPieces_loop env pieces_path loadToMemory fs names (ps[i := (ps ! i)\<lparr>piece_onDisk := True\<rparr>])
        else case load_file env (pieces_path @ [sep env] @ name) fs of
          None \<Rightarrow> Inr (False, ps)
        | Some data \<Rightarrow>
            loadPieces_loop env pieces_path loadToMemory fs names
              (ps[i := (ps ! i)\<lparr>piece_chunks := piece_chunks (ps ! i) @ [loaded_chunk data]\<rparr>])))"

fun free_pieces :: "piece list \<Rightarrow> piece list run" where
  "free_pieces [] = Inr []"
| "free_pieces (p # ps) =
     run_bind (freeChunks (piece_chunks p)) (\<lambda>cs.
     run_bind (free_pieces ps) (\<lambda>ps. Inr (p\<lparr>piece_chunks := cs\<rparr> # ps)))"

definition loadPieces :: "files_env \<Rightarrow> string \<Rightarrow> bool \<Rightarrow> fs \<Rightarrow> piece list \<Rightarrow> (bool \<times> piece list) run" where
  "loadPieces env metaInfoFileName loadToMemory fs ps =
     run_bind (ace_assert (ps \<noteq> [])) (\<lambda>_.
       let pieces_path = pieces_directory env (base_name env metaInfoFileName) in
       run_bind (loadPieces_loop env pieces_path loadToMemory fs (piece_files env pieces_path fs) ps)
         (\<lambda>(result, ps).
           if result then Inr (True, ps)
           else run_bind (free_pieces ps) (\<lambda>ps. Inr (False, ps))))"

section \<open>Assembly of the files\<close>

text \<open>
  The loop of \<open>assembleFiles\<close> keeps the bytes the current file still lacks, its path, the entries
  of the file list from the current one on (\<open>iterator_3\<close>), and the disk.
\<close>

record assembly =
  file_length :: u64
  file_path :: string
  file_entries :: "bvalue list"
  disk :: fs

definition entry_path :: "files_env \<Rightarrow> string \<Rightarrow> bdict \<Rightarrow> string run" where
  "entry_path env directory file =
     run_bind (get_key ''path'' file) (\<lambda>v.
     run_bind (get_list v) (\<lambda>vs.
     run_bind (listToPath (sep env) vs) (\<lambda>path. Inr (directory @ [sep env] @ path))))"

definition entry_length :: "bdict \<Rightarrow> int run" where
  "entry_length file = run_bind (get_key ''length'' file) get_integer"

text \<open>
  From the label \<open>write_file\<close> on, for the rest \<open>data\<close> of a piece file. The length of every file but
  the first one is cast to \<open>unsigned int\<close>. \<open>False\<close>: the function returns false.
\<close>

function write_file ::
    "files_env \<Rightarrow> bool \<Rightarrow> string \<Rightarrow> byte list \<Rightarrow> assembly \<Rightarrow> (bool \<times> assembly) run" where
  "write_file env is_single_file directory data a =
     (let file_size = (word_of_nat (length data) :: u64);
          bytes_to_write = (ucast (if file_size \<ge> file_length a then file_length a else file_size) :: u32);
          rest = drop (unat bytes_to_write) data;
          (stored, d) = append_file env (file_path a) (take (unat bytes_to_write) data) (disk a) in
      if \<not> stored then Inr (False, a\<lparr>disk := d\<rparr>)
      else let a = a\<lparr>disk := d, file_length := file_length a - ucast bytes_to_write\<rparr> in
        if file_length a \<noteq> 0 \<or> is_single_file
        then run_bind (ace_assert (rest = [])) (\<lambda>_. Inr (True, a))
        else case file_entries a of
          [] \<Rightarrow> Inl Out_of_bounds
        | [_] \<Rightarrow> run_bind (ace_assert (rest = [])) (\<lambda>_. Inr (True, a\<lparr>file_entries := []\<rparr>))
        | _ # v # entries \<Rightarrow>
            run_bind (get_dictionary v) (\<lambda>file.
            run_bind (entry_length file) (\<lambda>i.
            run_bind (entry_path env directory file) (\<lambda>path.
              let a = a\<lparr>file_entries := v # entries, file_path := path,
                        file_length := ucast (word_of_int i :: u32)\<rparr> in
              if rest \<noteq> [] then write_file env is_single_file directory rest a
              else Inr (True, a)))))"
  by pat_completeness auto
termination
  by (relation "measure (\<lambda>(env, single, directory, data, a). length (file_entries a))") auto

declare write_file.simps [simp del]

fun assemble_loop ::
    "files_env \<Rightarrow> bool \<Rightarrow> string \<Rightarrow> string \<Rightarrow> string list \<Rightarrow> assembly \<Rightarrow> (bool \<times> assembly) run" where
  "assemble_loop env is_single_file pieces_path directory [] a = Inr (True, a)"
| "assemble_loop env is_single_file pieces_path directory (name # names) a =
     (case load_file env (pieces_path @ [sep env] @ name) (disk a) of
        None \<Rightarrow> Inr (False, a)
      | Some data \<Rightarrow>
          run_bind (write_file env is_single_file directory data a) (\<lambda>(ok, a).
            if ok then assemble_loop env is_single_file pieces_path directory names a
            else Inr (False, a)))"

definition first_file :: "files_env \<Rightarrow> string \<Rightarrow> bdict \<Rightarrow> fs \<Rightarrow> (bool \<times> string \<times> assembly) run" where
  "first_file env pieces_path info fs =
     run_bind (get_key ''name'' info) (\<lambda>v.
     run_bind (get_string v) (\<lambda>name.
       let directory = pieces_path @ [sep env] @ name in
       case map_of info ''files'' of
         None \<Rightarrow>
           run_bind (entry_length info) (\<lambda>i.
             Inr (True, directory, \<lparr>file_length = word_of_int i, file_path = directory, file_entries = [],
                                    disk = fs\<rparr>))
       | Some v \<Rightarrow>
           run_bind (get_list v) (\<lambda>entries.
           run_bind (ace_assert (entries \<noteq> [])) (\<lambda>_.
           run_bind (get_dictionary (hd entries)) (\<lambda>file.
           run_bind (entry_length file) (\<lambda>i.
           run_bind (entry_path env directory file) (\<lambda>path.
             Inr (False, directory, \<lparr>file_length = word_of_int i, file_path = path,
                                     file_entries = entries, disk = fs\<rparr>))))))))"

definition assembleFiles :: "files_env \<Rightarrow> string \<Rightarrow> bdict \<Rightarrow> fs \<Rightarrow> (bool \<times> fs) run" where
  "assembleFiles env metaInfoFileName metaInfo fs =
     (let pieces_path = pieces_directory env metaInfoFileName;
          names = piece_files env pieces_path fs in
      run_bind (get_key ''info'' metaInfo) (\<lambda>v.
      run_bind (get_dictionary v) (\<lambda>info.
      run_bind (first_file env pieces_path info fs) (\<lambda>(is_single_file, directory, a).
      run_bind (assemble_loop env is_single_file pieces_path directory names a) (\<lambda>(ok, a).
        Inr (ok, if ok then delete_files env (map (\<lambda>name. pieces_path @ [sep env] @ name) names) (disk a)
                 else disk a))))))"

section \<open>Writing a stream of bytes to consecutive files\<close>

text \<open>
  The specification of the assembly: \<open>spill\<close> appends a stream to the files of a list of paths and
  missing lengths; \<open>segments\<close> cuts a stream into pieces of given lengths.
\<close>

definition append_to :: "string \<Rightarrow> byte list \<Rightarrow> fs \<Rightarrow> fs" where
  "append_to p bs fs = fs(p \<mapsto> (case fs p of None \<Rightarrow> bs | Some old \<Rightarrow> old @ bs))"

fun spill :: "(string \<times> nat) list \<Rightarrow> byte list \<Rightarrow> fs \<Rightarrow> fs \<times> (string \<times> nat) list" where
  "spill [] bs fs = (fs, [])"
| "spill ((p, n) # ts) bs fs =
     (if bs = [] then (fs, (p, n) # ts)
      else if length bs < n then (append_to p bs fs, (p, n - length bs) # ts)
      else spill ts (drop n bs) (append_to p (take n bs) fs))"

fun segments :: "nat list \<Rightarrow> byte list \<Rightarrow> byte list list" where
  "segments [] bs = []"
| "segments (n # ns) bs = take n bs # segments ns (drop n bs)"

abbreviation missing :: "(string \<times> nat) list \<Rightarrow> nat" where
  "missing ts \<equiv> sum_list (map snd ts)"

definition positive :: "(string \<times> nat) list \<Rightarrow> bool" where
  "positive ts \<longleftrightarrow> (\<forall>t \<in> set ts. 0 < snd t)"

lemma positive_simps [simp]: "positive []" "positive (t # ts) \<longleftrightarrow> 0 < snd t \<and> positive ts"
  by (auto simp: positive_def)

lemma append_to_same: "append_to p bs fs p = Some ((case fs p of None \<Rightarrow> [] | Some old \<Rightarrow> old) @ bs)"
  by (simp add: append_to_def split: option.splits)

lemma append_to_other [simp]: "q \<noteq> p \<Longrightarrow> append_to p bs fs q = fs q"
  by (simp add: append_to_def)

lemma append_to_append: "append_to p ys (append_to p xs fs) = append_to p (xs @ ys) fs"
  by (auto simp: append_to_def split: option.splits)

lemma spill_Nil [simp]: "spill ts [] fs = (fs, ts)"
  by (cases ts) auto

lemma spill_append:
  "positive ts \<Longrightarrow> spill ts (xs @ ys) fs = (case spill ts xs fs of (fs', ts') \<Rightarrow> spill ts' ys fs')"
proof (induction ts xs fs rule: spill.induct)
  case (2 p n ts bs fs)
  consider "bs = []" | "ys = []" | "bs \<noteq> []" "ys \<noteq> []" "length bs + length ys < n"
    | "bs \<noteq> []" "ys \<noteq> []" "length bs < n" "n \<le> length bs + length ys"
    | "bs \<noteq> []" "n \<le> length bs"
    by linarith
  then show ?case
  proof cases
    case 2
    then show ?thesis
      by (simp split: prod.splits)
  next
    case 5
    with "2.IH" "2.prems" show ?thesis
      by simp
  qed (use "2.prems" in \<open>auto simp: append_to_append\<close>)
qed simp

lemma spill_other:
  "q \<notin> fst ` set ts \<Longrightarrow> fst (spill ts bs fs) q = fs q"
  by (induction ts bs fs rule: spill.induct) auto

lemma spill_targets: "fst ` set (snd (spill ts bs fs)) \<subseteq> fst ` set ts"
  by (induction ts bs fs rule: spill.induct) auto

lemma spill_positive: "positive ts \<Longrightarrow> positive (snd (spill ts bs fs))"
  by (induction ts bs fs rule: spill.induct) auto

lemma spill_missing:
  "length bs \<le> missing ts \<Longrightarrow> missing (snd (spill ts bs fs)) = missing ts - length bs"
  by (induction ts bs fs rule: spill.induct) auto

lemma spill_segments:
  "positive ts \<Longrightarrow> length bs = missing ts \<Longrightarrow> distinct (map fst ts) \<Longrightarrow> \<forall>t \<in> set ts. fs (fst t) = None \<Longrightarrow>
   map (fst (spill ts bs fs)) (map fst ts) = map Some (segments (map snd ts) bs)"
proof (induction ts bs fs rule: spill.induct)
  case (2 p n ts bs fs)
  then have bs: "bs \<noteq> []" "\<not> length bs < n"
    by auto
  have "p \<notin> fst ` set ts" "\<forall>t \<in> set ts. fst t \<noteq> p"
    using "2.prems"(3) by auto
  with "2.IH" "2.prems" bs show ?case
    by (simp add: spill_other append_to_same)
qed simp

section \<open>The assembly implements it\<close>

definition is_entry :: "files_env \<Rightarrow> string \<Rightarrow> bvalue \<Rightarrow> string \<times> nat \<Rightarrow> bool" where
  "is_entry env directory v t \<longleftrightarrow>
     (\<exists>file. v = BDict file \<and> entry_length file = Inr (int (snd t))
        \<and> entry_path env directory file = Inr (fst t))"

text \<open>The files that a state of the loop still has to write.\<close>

fun pending :: "files_env \<Rightarrow> bool \<Rightarrow> string \<Rightarrow> assembly \<Rightarrow> (string \<times> nat) list \<Rightarrow> bool" where
  "pending env single directory a [] \<longleftrightarrow> file_length a = 0 \<and> (single \<or> file_entries a = [])"
| "pending env single directory a (t # ts) \<longleftrightarrow>
     file_path a = fst t \<and> unat (file_length a) = snd t \<and> 0 < snd t
     \<and> (if single then ts = []
        else file_entries a \<noteq> [] \<and> list_all2 (is_entry env directory) (tl (file_entries a)) ts
             \<and> (\<forall>t \<in> set ts. 0 < snd t \<and> snd t < 2 ^ 32))"

definition files_env_ok :: "files_env \<Rightarrow> bool" where
  "files_env_ok env \<longleftrightarrow>
     sep env \<in> {CHR ''/'', CHR 0x5C}
     \<and> (\<forall>p fs. load_file env p fs = fs p)
     \<and> (\<forall>p bs fs. append_file env p bs fs = (True, append_to p bs fs))
     \<and> (\<forall>ps fs. delete_files env ps fs = fs |` (- set ps))
     \<and> (\<forall>p bs fs. write_n env p bs fs = Some (length bs, True, fs(p \<mapsto> bs)))
     \<and> (\<forall>p. ensure_directory env p)
     \<and> identifier_less env = (<)
     \<and> (\<forall>sel dir fs. finite (dom fs) \<longrightarrow> distinct (list_files env sel dir fs)
          \<and> set (list_files env sel dir fs) =
              {name. sep env \<notin> set name \<and> dir @ [sep env] @ name \<in> dom fs \<and> sel name})
     \<and> (\<forall>n. 0 < n \<longrightarrow> digitsBase10 env n = length (show_dec (nat n)))
     \<and> (\<forall>name. sep env \<notin> set name \<longrightarrow> base_name env name = name)
     \<and> (\<forall>stem. file_extension env (stem @ piece_suffix) = piece_suffix)"

lemma files_env_okD:
  assumes "files_env_ok env"
  shows "load_file env p fs = fs p" "append_file env p bs fs = (True, append_to p bs fs)"
    "delete_files env ps fs = fs |` (- set ps)" "write_n env p bs fs = Some (length bs, True, fs(p \<mapsto> bs))"
    "ensure_directory env p" "identifier_less env = (<)"
    "0 < n \<Longrightarrow> digitsBase10 env n = length (show_dec (nat n))"
    "sep env \<notin> set name \<Longrightarrow> base_name env name = name"
    "file_extension env (stem @ piece_suffix) = piece_suffix"
  using assms by (simp_all add: files_env_ok_def)

lemma bytes_to_write_min:
  fixes l :: u64
  assumes "length data < 2 ^ 32"
  shows "unat (ucast (if word_of_nat (length data) \<ge> l then l else word_of_nat (length data)) :: u32)
    = min (unat l) (length data)"
proof -
  have "unat (word_of_nat (length data) :: u64) = length data"
    using assms by (simp add: unat_of_nat)
  then have "unat (if word_of_nat (length data) \<ge> l then l else word_of_nat (length data)) = min (unat l) (length data)"
    by (simp add: word_le_nat_alt)
  moreover have "min (unat l) (length data) < 2 ^ 32"
    using assms by simp
  ultimately show ?thesis
    by (simp add: unsigned_ucast_eq take_bit_nat_eq_self)
qed

lemma unat_remaining:
  fixes l :: u64
  assumes "unat (w :: u32) \<le> unat l"
  shows "unat (l - ucast w) = unat l - unat w"
proof -
  have "unat (ucast w :: u64) = unat w"
    using unsigned_less [of w, where 'a = nat] by (simp add: unsigned_ucast_eq take_bit_nat_eq_self)
  with assms show ?thesis
    by (simp add: unat_sub_if_size)
qed

text \<open>The state after the bytes that fit have been stored.\<close>

definition stored_part :: "byte list \<Rightarrow> assembly \<Rightarrow> assembly" where
  "stored_part data a =
     a\<lparr>disk := append_to (file_path a) (take (unat (file_length a)) data) (disk a),
       file_length := word_of_nat (unat (file_length a) - length data)\<rparr>"

lemma stored_part_simps [simp]:
  "file_path (stored_part data a) = file_path a" "file_entries (stored_part data a) = file_entries a"
  "disk (stored_part data a) = append_to (file_path a) (take (unat (file_length a)) data) (disk a)"
  "unat (file_length (stored_part data a)) = unat (file_length a) - length data"
  using unsigned_less [of "file_length a", where 'a = nat]
  by (simp_all add: stored_part_def unat_of_nat)

lemma write_file_step:
  assumes "files_env_ok env" "length data < 2 ^ 32"
  shows "write_file env single directory data a =
    (let a1 = stored_part data a; rest = drop (unat (file_length a)) data in
     if file_length a1 \<noteq> 0 \<or> single then run_bind (ace_assert (rest = [])) (\<lambda>_. Inr (True, a1))
     else case file_entries a1 of
        [] \<Rightarrow> Inl Out_of_bounds
      | [_] \<Rightarrow> run_bind (ace_assert (rest = [])) (\<lambda>_. Inr (True, a1\<lparr>file_entries := []\<rparr>))
      | _ # v # entries \<Rightarrow>
          run_bind (get_dictionary v) (\<lambda>f.
          run_bind (entry_length f) (\<lambda>i.
          run_bind (entry_path env directory f) (\<lambda>path.
            let a = a1\<lparr>file_entries := v # entries, file_path := path,
                      file_length := ucast (word_of_int i :: u32)\<rparr> in
            if rest \<noteq> [] then write_file env single directory rest a else Inr (True, a)))))"
proof -
  define w where "w = (ucast (if word_of_nat (length data) \<ge> file_length a then file_length a
      else word_of_nat (length data)) :: u32)"
  have w: "unat w = min (unat (file_length a)) (length data)"
    using bytes_to_write_min [OF assms(2)] by (simp add: w_def)
  have "unat (file_length a - ucast w) = unat (file_length a) - length data"
    using unat_remaining [of w "file_length a"] w by simp
  then have "file_length a - ucast w = word_of_nat (unat (file_length a) - length data)"
    by (metis of_nat_unat ucast_id)
  moreover have "take (unat w) data = take (unat (file_length a)) data"
    "drop (unat w) data = drop (unat (file_length a)) data"
    by (simp_all add: w min_def)
  ultimately show ?thesis
    by (subst write_file.simps)
      (simp only: Let_def w_def [symmetric] files_env_okD(2) [OF assms(1)] stored_part_def prod.case
        not_True_eq_False if_False assembly.simps)
qed

lemma write_file_spill:
  assumes "files_env_ok env"
  shows "pending env single directory a ts \<Longrightarrow> data \<noteq> [] \<Longrightarrow> length data < 2 ^ 32 \<Longrightarrow>
    length data \<le> missing ts \<Longrightarrow>
    \<exists>a'. write_file env single directory data a = Inr (True, a')
      \<and> pending env single directory a' (snd (spill ts data (disk a)))
      \<and> disk a' = fst (spill ts data (disk a))"
proof (induction ts arbitrary: a data)
  case (Cons t ts)
  define a1 where "a1 = stored_part data a"
  obtain p n where t: "t = (p, n)"
    by fastforce
  have n: "file_path a = p" "unat (file_length a) = n" "0 < n"
    using Cons.prems(1) t by auto
  then have a1: "file_path a1 = p" "file_entries a1 = file_entries a"
    "disk a1 = append_to p (take n data) (disk a)" and len1: "unat (file_length a1) = n - length data"
    by (simp_all add: a1_def)
  note step = write_file_step [OF assms Cons.prems(3), of single directory a, folded a1_def, unfolded Let_def n]
  show ?case
  proof (cases "length data < n")
    case True
    then have "file_length a1 \<noteq> 0"
      using len1 by auto
    with True have "write_file env single directory data a = Inr (True, a1)"
      by (simp add: step)
    moreover have "pending env single directory a1 ((p, n - length data) # ts)"
      using True Cons.prems(1) len1 t a1 by (cases single) simp_all
    ultimately show ?thesis
      using True Cons.prems(2) t a1 by (simp del: pending.simps)
  next
    case False
    have len0: "file_length a1 = 0"
      using len1 False by (simp add: unat_eq_0 [symmetric])
    consider "single" | "\<not> single" "ts = []" | v2 vs t2 ts2
      where "\<not> single" "ts = t2 # ts2" "tl (file_entries a) = v2 # vs" "file_entries a \<noteq> []"
      using Cons.prems(1) t by (cases ts; cases "tl (file_entries a)") (auto split: if_splits)
    then show ?thesis
    proof cases
      case 1
      then have "ts = []" "drop n data = []"
        using Cons.prems(1,4) t by auto
      moreover from this 1 len0 have "write_file env single directory data a = Inr (True, a1)"
        using step by simp
      ultimately show ?thesis
        using 1 len0 t a1 False Cons.prems(2) by simp
    next
      case 2
      then obtain v where entries: "file_entries a = [v]"
        using Cons.prems(1) t by (cases "file_entries a") auto
      have "drop n data = []"
        using 2 Cons.prems(4) t by simp
      with 2 len0 a1(2) entries have "write_file env single directory data a = Inr (True, a1\<lparr>file_entries := []\<rparr>)"
        using step by simp
      with 2 len0 t a1 False \<open>drop n data = []\<close> Cons.prems(2) show ?thesis
        by simp
    next
      case 3
      then obtain v where entries: "file_entries a = v # v2 # vs"
        by (cases "file_entries a") auto
      obtain f where f: "v2 = BDict f" "entry_length f = Inr (int (snd t2))"
        "entry_path env directory f = Inr (fst t2)" and t2: "0 < snd t2" "snd t2 < 2 ^ 32"
        using 3 Cons.prems(1) t by (auto simp: is_entry_def)
      define a2 where "a2 = a1\<lparr>file_entries := v2 # vs, file_path := fst t2,
        file_length := ucast (word_of_int (int (snd t2)) :: u32)\<rparr>"
      have "unat (file_length a2) = snd t2"
        using t2(2) by (simp add: a2_def unsigned_ucast_eq unsigned_of_nat take_bit_nat_eq_self)
      then have pending: "pending env single directory a2 ts"
        using 3 Cons.prems(1) t entries t2(1) by (auto simp: a2_def)
      have "write_file env single directory data a =
          (if drop n data \<noteq> [] then write_file env single directory (drop n data) a2 else Inr (True, a2))"
        using step len0 a1(2) entries f 3(1) by (simp add: Let_def a2_def)
      moreover have "disk a2 = append_to p (take n data) (disk a)"
        using a1 by (simp add: a2_def)
      ultimately show ?thesis
        using Cons.IH [OF pending, of "drop n data"] pending Cons.prems(2-4) t False by (auto simp del: pending.simps)
    qed
  qed
qed simp

lemma map_eq_SomeD: "map f xs = map Some cs \<Longrightarrow> list_all2 (\<lambda>x c. f x = Some c) xs cs"
  by (induction xs arbitrary: cs) (auto simp: Cons_eq_map_conv)

lemma pending_positive: "pending env single directory a ts \<Longrightarrow> positive ts"
  by (cases ts) (auto simp: positive_def split: if_splits)

abbreviation in_directory :: "files_env \<Rightarrow> string \<Rightarrow> string \<Rightarrow> string" where
  "in_directory env directory name \<equiv> directory @ [sep env] @ name"

lemma assemble_loop_spill:
  assumes "files_env_ok env"
  shows "pending env single directory a ts \<Longrightarrow>
    list_all2 (\<lambda>name c. disk a (in_directory env pieces_path name) = Some c) names cs \<Longrightarrow>
    \<forall>c \<in> set cs. c \<noteq> [] \<and> length c < 2 ^ 32 \<Longrightarrow> length (concat cs) \<le> missing ts \<Longrightarrow>
    \<forall>name \<in> set names. in_directory env pieces_path name \<notin> fst ` set ts \<Longrightarrow>
    \<exists>a'. assemble_loop env single pieces_path directory names a = Inr (True, a')
      \<and> pending env single directory a' (snd (spill ts (concat cs) (disk a)))
      \<and> disk a' = fst (spill ts (concat cs) (disk a))"
proof (induction names arbitrary: a ts cs)
  case (Cons name names)
  then obtain c cs' where cs: "cs = c # cs'" "disk a (in_directory env pieces_path name) = Some c"
    "list_all2 (\<lambda>name c. disk a (in_directory env pieces_path name) = Some c) names cs'"
    by (cases cs) auto
  let ?ts = "snd (spill ts c (disk a))"
  obtain a1 where a1: "write_file env single directory c a = Inr (True, a1)"
    "pending env single directory a1 ?ts" "disk a1 = fst (spill ts c (disk a))"
    using write_file_spill [OF assms Cons.prems(1), of c] Cons.prems(3,4) cs by auto
  have "list_all2 (\<lambda>name c. disk a1 (in_directory env pieces_path name) = Some c) names cs'"
    using cs(3) Cons.prems(5) by (auto simp: a1(3) spill_other list_all2_conv_all_nth)
  moreover have "length (concat cs') \<le> missing ?ts"
    using Cons.prems(4) cs by (simp add: spill_missing)
  moreover have "\<forall>name \<in> set names. in_directory env pieces_path name \<notin> fst ` set ?ts"
    using Cons.prems(5) spill_targets [of ts c "disk a"] by auto
  ultimately obtain a' where "assemble_loop env single pieces_path directory names a1 = Inr (True, a')"
    "pending env single directory a' (snd (spill ?ts (concat cs') (disk a1)))"
    "disk a' = fst (spill ?ts (concat cs') (disk a1))"
    using Cons.IH [OF a1(2), of cs'] Cons.prems(3) cs(1) by auto
  moreover have "spill ts (concat cs) (disk a) = spill ?ts (concat cs') (disk a1)"
    using spill_append [OF pending_positive [OF Cons.prems(1)]] by (simp add: cs(1) a1(3) split: prod.splits)
  ultimately show ?case
    using cs(2) a1(1) by (simp add: files_env_okD(1) [OF assms])
qed simp

text \<open>The files a torrent shares, with their paths and lengths.\<close>

definition torrent_files :: "files_env \<Rightarrow> string \<Rightarrow> bdict \<Rightarrow> (string \<times> nat) list \<Rightarrow> bool" where
  "torrent_files env pieces_path info ts \<longleftrightarrow>
     (\<exists>name. map_of info ''name'' = Some (BString name)
        \<and> (case map_of info ''files'' of
             None \<Rightarrow> \<exists>n. map_of info ''length'' = Some (BInt (int n))
                      \<and> ts = [(in_directory env pieces_path name, n)]
           | Some v \<Rightarrow> \<exists>entries. v = BList entries \<and> entries \<noteq> []
                      \<and> list_all2 (is_entry env (in_directory env pieces_path name)) entries ts))"

lemma first_file_pending:
  assumes "torrent_files env pieces_path info ts" "positive ts"
    and "snd (hd ts) < 2 ^ 64" "\<forall>t \<in> set (tl ts). snd t < 2 ^ 32"
  obtains single directory a where "first_file env pieces_path info fs = Inr (single, directory, a)"
    "pending env single directory a ts" "disk a = fs"
proof -
  obtain name where name: "map_of info ''name'' = Some (BString name)"
    and files: "case map_of info ''files'' of
      None \<Rightarrow> \<exists>n. map_of info ''length'' = Some (BInt (int n)) \<and> ts = [(in_directory env pieces_path name, n)]
    | Some v \<Rightarrow> \<exists>entries. v = BList entries \<and> entries \<noteq> []
        \<and> list_all2 (is_entry env (in_directory env pieces_path name)) entries ts"
    using assms(1) by (auto simp: torrent_files_def)
  show thesis
  proof (cases "map_of info ''files''")
    case None
    with files obtain n where "map_of info ''length'' = Some (BInt (int n))"
      "ts = [(in_directory env pieces_path name, n)]"
      by auto
    with None name assms(2,3) that [of True "in_directory env pieces_path name"
        "\<lparr>file_length = word_of_nat n, file_path = in_directory env pieces_path name, file_entries = [],
          disk = fs\<rparr>"] show thesis
      by (simp add: first_file_def get_key_def entry_length_def unat_of_nat Let_def)
  next
    case (Some v)
    with files obtain entry entries t ts' where v: "v = BList (entry # entries)" "ts = t # ts'"
      and t: "is_entry env (in_directory env pieces_path name) entry t"
      and entries: "list_all2 (is_entry env (in_directory env pieces_path name)) entries ts'"
      by (auto simp: neq_Nil_conv list_all2_Cons1)
    have "\<forall>t \<in> set ts'. 0 < snd t \<and> snd t < 2 ^ 32"
      using assms(2,4) v(2) by (auto simp: positive_def)
    with v t entries name Some assms(2,3) that [of False "in_directory env pieces_path name"
        "\<lparr>file_length = word_of_nat (snd t), file_path = fst t, file_entries = entry # entries,
          disk = fs\<rparr>"] show thesis
      by (auto simp: first_file_def get_key_def is_entry_def unat_of_nat Let_def)
  qed
qed

text \<open>When the piece files hold as many bytes as the torrent's files have, \<open>assembleFiles\<close> gives
  every file its own stretch of the concatenated pieces.\<close>

lemma assembleFiles_splits_content:
  assumes "files_env_ok env" "map_of metaInfo ''info'' = Some (BDict info)"
    and "torrent_files env (pieces_directory env metaInfoFileName) info ts"
    and "positive ts" "snd (hd ts) < 2 ^ 64" "\<forall>t \<in> set (tl ts). snd t < 2 ^ 32" "distinct (map fst ts)"
    and "paths = map (in_directory env (pieces_directory env metaInfoFileName))
           (piece_files env (pieces_directory env metaInfoFileName) fs)"
    and "map fs paths = map Some cs" "\<forall>c \<in> set cs. c \<noteq> [] \<and> length c < 2 ^ 32"
    and "length (concat cs) = missing ts" "\<forall>t \<in> set ts. fs (fst t) = None"
  shows "\<exists>fs'. assembleFiles env metaInfoFileName metaInfo fs = Inr (True, fs')
    \<and> map fs' (map fst ts) = map Some (segments (map snd ts) (concat cs))
    \<and> (\<forall>path \<in> set paths. fs' path = None)"
proof -
  let ?path = "pieces_directory env metaInfoFileName"
  let ?names = "piece_files env ?path fs"
  obtain single directory a where a: "first_file env ?path info fs = Inr (single, directory, a)"
    "pending env single directory a ts" "disk a = fs"
    using first_file_pending [OF assms(3-6)] by metis
  have contents: "list_all2 (\<lambda>name c. fs (in_directory env ?path name) = Some c) ?names cs"
    using map_eq_SomeD [of "fs \<circ> in_directory env ?path"] assms(8,9) by (simp add: o_def)
  have fresh: "fst t \<notin> set paths" if "t \<in> set ts" for t
  proof
    assume "fst t \<in> set paths"
    then have "fs (fst t) \<in> set (map fs paths)"
      by simp
    with assms(9,12) that show False
      by auto
  qed
  then have "\<forall>name \<in> set ?names. in_directory env ?path name \<notin> fst ` set ts"
    using assms(8) by fastforce
  then obtain a' where a': "assemble_loop env single ?path directory ?names a = Inr (True, a')"
    "disk a' = fst (spill ts (concat cs) fs)"
    using assemble_loop_spill [OF assms(1) a(2), of ?path ?names cs] contents assms(10,11) a(3) by auto
  let ?fs' = "disk a' |` (- set paths)"
  have "assembleFiles env metaInfoFileName metaInfo fs = Inr (True, ?fs')"
    using a(1) a'(1) assms(2,8) by (simp add: assembleFiles_def get_key_def files_env_okD(3) [OF assms(1)] Let_def)
  moreover have "map ?fs' (map fst ts) = map Some (segments (map snd ts) (concat cs))"
  proof -
    have "map ?fs' (map fst ts) = map (disk a') (map fst ts)"
      using fresh by (auto simp: restrict_map_def)
    also have "\<dots> = map Some (segments (map snd ts) (concat cs))"
      using spill_segments [OF assms(4,11,7)] assms(12) a'(2) by simp
    finally show ?thesis .
  qed
  moreover have "\<forall>path \<in> set paths. ?fs' path = None"
    by simp
  ultimately show ?thesis
    by blast
qed

section \<open>Names of piece files\<close>

lemma derives_Rep_Cls:
  "derives (Rep n (Cls p)) st st' \<longleftrightarrow>
     (\<exists>w. length w = n \<and> list_all p w \<and> fst st = w @ fst st') \<and> snd st' = snd st"
proof (induction n arbitrary: st)
  case 0
  then show ?case
    by (auto simp: prod_eq_iff)
next
  case (Suc n)
  show ?case
    by (cases st) (fastforce simp: derives_Seq derives_Cls Suc length_Suc_conv)
qed

lemma dec_value_zeros: "dec_value (replicate k CHR ''0'' @ s) = dec_value s"
proof (induction k)
  case (Suc k)
  have "digit_value CHR ''0'' = 0"
    by (simp add: digit_value_def char_code_def)
  with Suc show ?case
    by (simp add: dec_value_def)
qed simp

lemma show_padded_digits: "list_all is_digit (show_padded w n)"
  using show_dec_digits [of _ n]
  by (auto simp: show_padded_def list_all_iff is_digit_def char_code_def)

lemma dec_value_show_padded: "dec_value (show_padded w n) = n"
  by (simp add: show_padded_def dec_value_zeros)

lemma show_padded_not_Nil: "show_padded w n \<noteq> []"
  by (simp add: show_padded_def)

lemma length_show_padded: "length (show_dec n) \<le> w \<Longrightarrow> length (show_padded w n) = w"
  by (simp add: show_padded_def)

lemma derives_piece_name_tail:
  "derives (Seq (Chr CHR ''_'') (Seq (Rep 6 (Cls is_alnum)) (Seq Dot (Lit ''piece'')))) (t, c) ([], c') \<longleftrightarrow>
     (\<exists>fn x. length fn = 6 \<and> list_all is_alnum fn \<and> \<not> line_terminator x
        \<and> t = CHR ''_'' # fn @ x # ''piece'') \<and> c' = c" (is "?l \<longleftrightarrow> ?r")
proof
  assume ?l
  then show ?r
    by (elim derives_Seq [THEN iffD1, elim_format] exE conjE)
      (auto simp: derives_Cls derives_Rep_Cls derives_Lit simp del: Lit.simps Rep.simps)
next
  assume ?r
  then obtain fn x where *: "length fn = 6" "list_all is_alnum fn" "\<not> line_terminator x"
    "t = CHR ''_'' # fn @ x # ''piece''" "c' = c"
    by blast
  have "derives (Chr CHR ''_'') (t, c) (fn @ x # ''piece'', c)"
    by (simp add: * derives_Cls)
  moreover have "derives (Rep 6 (Cls is_alnum)) (fn @ x # ''piece'', c) (x # ''piece'', c)"
    using * by (simp add: derives_Rep_Cls del: Rep.simps)
  moreover have "derives Dot (x # ''piece'', c) (''piece'', c)"
    by (simp add: * derives_Cls)
  moreover have "derives (Lit ''piece'') (''piece'', c) ([], c')"
    by (simp add: * derives_Lit del: Lit.simps)
  ultimately show ?l
    by (blast intro: derives.seq)
qed

lemma derives_piece_file_re:
  "derives piece_file_re (s, c) ([], c') \<longleftrightarrow>
     (\<exists>w fn x. w \<noteq> [] \<and> list_all is_digit w \<and> length fn = 6 \<and> list_all is_alnum fn
        \<and> \<not> line_terminator x \<and> s = w @ CHR ''_'' # fn @ x # ''piece'' \<and> c' = c(1 \<mapsto> w))"
  unfolding piece_file_re_def derives_Seq [of _ _ "(s, c)"] split_paired_Ex derives_Grp_Plus_Cls
    derives_piece_name_tail
  by blast

lemma piece_file_re_match:
  assumes "ds \<noteq> []" "list_all is_digit ds" "length fn = 6" "list_all is_alnum fn"
  shows "regex_match piece_file_re (ds @ ''_'' @ fn @ piece_suffix) = Some [1 \<mapsto> ds]"
proof (rule regex_match_unique)
  show "derives piece_file_re (ds @ ''_'' @ fn @ piece_suffix, Map.empty) ([], [1 \<mapsto> ds])"
    unfolding derives_piece_file_re
    by (rule exI [of _ ds], rule exI [of _ fn], rule exI [of _ "CHR ''.''"])
      (use assms in \<open>simp add: piece_suffix_def line_terminator_def\<close>)
  have "\<not> is_digit CHR ''_''"
    by (simp add: is_digit_def char_code_def)
  then have no_sep: "list_all is_digit w \<Longrightarrow> CHR ''_'' \<notin> set w" for w
    by (auto simp: list_all_iff)
  fix c' assume "derives piece_file_re (ds @ ''_'' @ fn @ piece_suffix, Map.empty) ([], c')"
  then obtain w t where "list_all is_digit w" "ds @ CHR ''_'' # fn @ piece_suffix = w @ CHR ''_'' # t"
    "c' = [1 \<mapsto> w]"
    by (auto simp: derives_piece_file_re)
  then show "c' = [1 \<mapsto> ds]"
    using append_sep_eq [OF no_sep no_sep] assms(2) by blast
qed

definition piece_filename_ok :: "string \<Rightarrow> bool" where
  "piece_filename_ok fn \<longleftrightarrow> length fn = 6 \<and> list_all is_alnum fn"

lemma sep_not_in_piece_name:
  assumes "files_env_ok env" "piece_filename_ok fn"
  shows "sep env \<notin> set (piece_name env n i fn)"
proof -
  have s: "\<not> is_digit (sep env)" "\<not> is_alnum (sep env)" "sep env \<notin> set (''_'' @ piece_suffix)"
    using assms(1) by (auto simp: files_env_ok_def char_class_defs char_code_def piece_suffix_def)
  then have "sep env \<notin> set (show_padded w k)" "sep env \<notin> set fn" for w k
    using show_padded_digits [of w k] assms(2) by (auto simp: list_all_iff piece_filename_ok_def)
  with s(3) show ?thesis
    by (simp add: piece_name_def)
qed

lemma pieceFileNameToIndex_piece_name:
  assumes "files_env_ok env" "piece_filename_ok fn"
  shows "pieceFileNameToIndex env (piece_name env n i fn) = i"
proof -
  let ?ds = "show_padded (digitsBase10 env (sint n)) (unat i)"
  have "regex_match piece_file_re (piece_name env n i fn) = Some [1 \<mapsto> ?ds]"
    using piece_file_re_match [OF show_padded_not_Nil show_padded_digits] assms(2)
    by (simp add: piece_name_def piece_filename_ok_def)
  moreover have "extract_unsigned 32 ?ds = unat i"
  proof -
    have "takeWhile is_digit ?ds = ?ds"
      using show_padded_digits by (simp add: list_all_iff)
    then have "extract_unsigned 32 ?ds = min (unat i) (2 ^ 32 - 1)"
      by (simp only: extract_unsigned_def dec_value_show_padded)
    then show ?thesis
      using unsigned_less [of i, where 'a = nat] by simp
  qed
  ultimately show ?thesis
    using assms by (simp add: pieceFileNameToIndex_def files_env_okD(8) sep_not_in_piece_name)
qed

lemma dec_value_Cons: "dec_value (c # s) = digit_value c * 10 ^ length s + dec_value s"
proof (induction s rule: rev_induct)
  case (snoc d s)
  have "dec_value (c # s @ [d]) = dec_value (c # s) * 10 + digit_value d"
    using dec_value_snoc [of "c # s" d] by simp
  with snoc show ?case
    by (simp add: algebra_simps)
qed (simp add: dec_value_def)

lemma dec_value_less: "list_all is_digit s \<Longrightarrow> dec_value s < 10 ^ length s"
proof (induction s)
  case (Cons c s)
  then have "digit_value c \<le> 9"
    by (auto simp: is_digit_def digit_value_def)
  then have "digit_value c * 10 ^ length s \<le> 9 * 10 ^ length s"
    by simp
  with Cons have "digit_value c * 10 ^ length s + dec_value s < 9 * 10 ^ length s + 10 ^ length s"
    by (intro add_le_less_mono) auto
  then show ?case
    by (simp add: dec_value_Cons)
qed (simp add: dec_value_def)

lemma dec_value_lex:
  "length s = length t \<Longrightarrow> list_all is_digit s \<Longrightarrow> list_all is_digit t \<Longrightarrow> dec_value s < dec_value t \<Longrightarrow> s < t"
proof (induction s t rule: list_induct2)
  case (Cons c s d t)
  have digits: "is_digit c" "is_digit d"
    using Cons.prems by auto
  consider "digit_value c < digit_value d" | "digit_value c = digit_value d" | "digit_value d < digit_value c"
    by linarith
  then show ?case
  proof cases
    case 1
    then have "c < d"
      using digits by (simp add: digit_value_def is_digit_def less_char_def char_code_def)
    then show ?thesis
      by (simp add: list_less_def)
  next
    case 2
    then have "char_code c = char_code d"
      using digits unfolding digit_value_def is_digit_def by arith
    then have "c = d"
      by simp
    moreover have "s < t"
      using Cons 2 by (auto simp: dec_value_Cons)
    ultimately show ?thesis
      by (simp add: list_less_def)
  next
    case 3
    then have "(digit_value d + 1) * 10 ^ length t \<le> digit_value c * 10 ^ length t"
      by (intro mult_le_mono1) simp
    then show ?thesis
      using Cons.prems dec_value_less [of t] Cons.hyps by (simp add: dec_value_Cons algebra_simps)
  qed
qed (simp add: dec_value_def)

lemma append_lex: "(s :: string) < t \<Longrightarrow> length s = length t \<Longrightarrow> s @ u < t @ v"
  by (simp add: list_less_def lexord_sufI)

lemma sint_small:
  fixes n :: u32
  assumes "unat n < 2 ^ 31"
  shows "sint n = int (unat n)"
proof -
  have "uint n < 2 ^ 31"
    using assms by (metis of_nat_less_numeral_power_cancel_iff uint_nat)
  moreover have "- (2 ^ 31) \<le> uint n"
    by (rule order_trans [of _ 0]) simp_all
  ultimately show ?thesis
    using signed_take_bit_int_eq_self [of 31 "uint n"] by (simp add: sint_uint)
qed

lemma piece_name_less:
  assumes "files_env_ok env" "i < j" "j < n" "unat n < 2 ^ 31"
  shows "piece_name env n i fn < piece_name env n j fn'"
proof -
  have "sint n = int (unat n)" "0 < unat n"
    using assms(3,4) by (auto simp: word_less_nat_alt sint_small)
  then have digits: "digitsBase10 env (sint n) = length (show_dec (unat n))"
    using files_env_okD(7) [OF assms(1), of "int (unat n)"] by (simp only: of_nat_0_less_iff nat_int)
  have le: "unat i \<le> unat n" "unat j \<le> unat n" "unat i < unat j"
    using assms(2,3) by (auto simp: word_less_nat_alt)
  have len: "length (show_padded (digitsBase10 env (sint n)) (unat k)) = digitsBase10 env (sint n)" if "unat k \<le> unat n" for k :: u32
    using that by (simp add: digits length_show_padded length_show_dec_mono)
  have "show_padded (digitsBase10 env (sint n)) (unat i) < show_padded (digitsBase10 env (sint n)) (unat j)"
    by (rule dec_value_lex) (use le in \<open>simp_all add: len show_padded_digits dec_value_show_padded\<close>)
  then show ?thesis
    unfolding piece_name_def by (rule append_lex) (simp add: len le)
qed

section \<open>Saving and finding pieces\<close>

lemma std_sort_sort: "std_sort (<) xs = sort (xs :: string list)"
proof -
  have "insert_by (<) x ys = insort x ys" for x :: string and ys
    by (induction ys) auto
  then have "insert_by (<) = (insort :: string \<Rightarrow> string list \<Rightarrow> string list)"
    by (intro ext)
  then show ?thesis
    by (simp add: std_sort_def sort_key_def)
qed

lemma piece_files_eq:
  assumes "files_env_ok env" "finite (dom fs)" "sorted names" "distinct names"
    and "set names = {name. sep env \<notin> set name \<and> in_directory env dir name \<in> dom fs \<and> selector env name}"
  shows "piece_files env dir fs = names"
proof -
  have "distinct (list_files env (selector env) dir fs)"
    "set (list_files env (selector env) dir fs) = set names"
    using assms(1,2,5) unfolding files_env_ok_def by auto
  then show ?thesis
    using assms(1,3,4) sorted_distinct_set_unique [of "sort (list_files env (selector env) dir fs)" names]
    by (simp add: piece_files_def files_env_okD(6) std_sort_sort)
qed

text \<open>A completed piece, and a sequence of pieces saved in the order in which they were completed.\<close>

definition piece_ready :: "piece \<Rightarrow> bool" where
  "piece_ready p \<longleftrightarrow> piece_chunks p \<noteq> [] \<and> (\<forall>c \<in> set (piece_chunks p). chunk_data c \<noteq> [])
     \<and> length (chunks_bytes (piece_chunks p)) = unat (piece_length p) \<and> 0 < piece_length p
     \<and> piece_filename_ok (piece_filename p)"

fun save_pieces :: "files_env \<Rightarrow> string \<Rightarrow> piece list \<Rightarrow> nat list \<Rightarrow> fs \<Rightarrow> (bool \<times> fs) run" where
  "save_pieces env metaInfoFileName ps [] fs = Inr (True, fs)"
| "save_pieces env metaInfoFileName ps (i # is) fs =
     run_bind (savePiece env metaInfoFileName (word_of_nat (length ps)) (word_of_nat i) (ps ! i) fs)
       (\<lambda>(ok, _, fs). if ok then save_pieces env metaInfoFileName ps is fs else Inr (False, fs))"

abbreviation name_of_piece :: "files_env \<Rightarrow> piece list \<Rightarrow> nat \<Rightarrow> string" where
  "name_of_piece env ps i \<equiv>
     piece_name env (word_of_nat (length ps)) (word_of_nat i) (piece_filename (ps ! i))"

abbreviation bytes_of_piece :: "piece list \<Rightarrow> nat \<Rightarrow> byte list" where
  "bytes_of_piece ps i \<equiv> chunks_bytes (piece_chunks (ps ! i))"

lemma savePiece_ready:
  assumes "files_env_ok env" "piece_ready p"
  shows "savePiece env m n i p fs =
    Inr (True, p\<lparr>piece_onDisk := True, piece_chunks := []\<rparr>,
         fs(in_directory env (pieces_directory env m) (piece_name env n i (piece_filename p))
              \<mapsto> chunks_bytes (piece_chunks p)))"
proof -
  have "\<not> (\<exists>c \<in> set (butlast (piece_chunks p)). chunk_data c = [])"
    using assms(2) by (auto simp: piece_ready_def dest: in_set_butlastD)
  with assms show ?thesis
    by (simp add: savePiece_def piece_ready_def freeChunks_def files_env_okD(4,5) Let_def)
qed

definition saved :: "files_env \<Rightarrow> string \<Rightarrow> piece list \<Rightarrow> nat list \<Rightarrow> fs \<Rightarrow> fs" where
  "saved env m ps is fs =
     foldl (\<lambda>fs i. fs(in_directory env (pieces_directory env m) (name_of_piece env ps i) \<mapsto> bytes_of_piece ps i))
       fs is"

lemma save_pieces_ready:
  assumes "files_env_ok env" "\<forall>p \<in> set ps. piece_ready p"
  shows "\<forall>i \<in> set is. i < length ps \<Longrightarrow> save_pieces env m ps is fs = Inr (True, saved env m ps is fs)"
  by (induction "is" arbitrary: fs)
    (use assms in \<open>auto simp: savePiece_ready saved_def\<close>)

lemma name_of_piece_less:
  assumes "files_env_ok env" "length ps < 2 ^ 31" "i < j" "j < length ps"
  shows "name_of_piece env ps i < name_of_piece env ps j"
  by (rule piece_name_less) (use assms in \<open>simp_all add: word_less_nat_alt unat_of_nat\<close>)

lemma name_of_piece_inject:
  assumes "files_env_ok env" "length ps < 2 ^ 31" "i < length ps" "j < length ps"
  shows "name_of_piece env ps i = name_of_piece env ps j \<longleftrightarrow> i = j"
  using name_of_piece_less [OF assms(1,2), of i j] name_of_piece_less [OF assms(1,2), of j i] assms(3,4)
  by (metis linorder_neqE_nat less_irrefl)

lemma saved_lookup:
  assumes "files_env_ok env" "length ps < 2 ^ 31"
  shows "\<forall>i \<in> set is. i < length ps \<Longrightarrow> i < length ps \<Longrightarrow>
    saved env m ps is fs (in_directory env (pieces_directory env m) (name_of_piece env ps i)) =
      (if i \<in> set is then Some (bytes_of_piece ps i)
       else fs (in_directory env (pieces_directory env m) (name_of_piece env ps i)))"
  by (induction "is" rule: rev_induct) (auto simp: saved_def name_of_piece_inject [OF assms])

lemma saved_other:
  "\<forall>i \<in> set is. path \<noteq> in_directory env (pieces_directory env m) (name_of_piece env ps i) \<Longrightarrow>
   saved env m ps is fs path = fs path"
  by (induction "is" rule: rev_induct) (auto simp: saved_def)

lemma finite_saved: "finite (dom fs) \<Longrightarrow> finite (dom (saved env m ps is fs))"
  by (induction "is" rule: rev_induct) (auto simp: saved_def)

lemma piece_files_saved:
  assumes "files_env_ok env" "\<forall>p \<in> set ps. piece_ready p" "length ps < 2 ^ 31"
    and "finite (dom fs)" "\<forall>name. fs (in_directory env (pieces_directory env m) name) = None"
    and "\<forall>i \<in> set is. i < length ps"
  shows "piece_files env (pieces_directory env m) (saved env m ps is fs) =
    map (name_of_piece env ps) (sorted_list_of_set (set is))"
proof (rule piece_files_eq [OF assms(1)])
  let ?is = "sorted_list_of_set (set is)"
  have less: "sorted_wrt (<) (map (name_of_piece env ps) ?is)"
    unfolding sorted_wrt_map
    by (rule sorted_wrt_mono_rel [OF _ strict_sorted_list_of_set])
      (use name_of_piece_less [OF assms(1,3)] assms(6) in auto)
  then show "sorted (map (name_of_piece env ps) ?is)" "distinct (map (name_of_piece env ps) ?is)"
    by (simp_all add: strict_sorted_iff)
  show "finite (dom (saved env m ps is fs))"
    using assms(4) by (rule finite_saved)
  have "selector env (name_of_piece env ps i)" for i
    using files_env_okD(9) [OF assms(1), of "show_padded _ _ @ ''_'' @ _"]
    by (simp add: selector_def piece_name_def)
  moreover have "sep env \<notin> set (name_of_piece env ps i)" if "i \<in> set is" for i
    using sep_not_in_piece_name [OF assms(1)] assms(2,6) that by (auto simp: piece_ready_def)
  moreover have "name \<in> name_of_piece env ps ` set is"
    if "in_directory env (pieces_directory env m) name \<in> dom (saved env m ps is fs)" for name
  proof (rule ccontr)
    assume "name \<notin> name_of_piece env ps ` set is"
    then have "saved env m ps is fs (in_directory env (pieces_directory env m) name)
        = fs (in_directory env (pieces_directory env m) name)"
      by (intro saved_other) auto
    with that assms(5) show False
      by (simp add: domIff)
  qed
  ultimately show "set (map (name_of_piece env ps) ?is) = {name. sep env \<notin> set name
      \<and> in_directory env (pieces_directory env m) name \<in> dom (saved env m ps is fs) \<and> selector env name}"
    using saved_lookup [OF assms(1,3,6)] assms(6) by (auto simp: domIff)
qed

lemma saved_pieces_assemble:
  assumes "files_env_ok env" "\<forall>p \<in> set ps. piece_ready p" "length ps < 2 ^ 31"
    and "finite (dom fs)" "\<forall>name. fs (in_directory env (pieces_directory env m) name) = None"
    and "set is = {..<length ps}"
    and "map_of metaInfo ''info'' = Some (BDict info)"
    and "torrent_files env (pieces_directory env m) info ts"
    and "positive ts" "snd (hd ts) < 2 ^ 64" "\<forall>t \<in> set (tl ts). snd t < 2 ^ 32" "distinct (map fst ts)"
    and "missing ts = length (concat (map (bytes_of_piece ps) [0..<length ps]))"
    and "\<forall>t \<in> set ts. fs (fst t) = None
      \<and> (\<forall>i < length ps. fst t \<noteq> in_directory env (pieces_directory env m) (name_of_piece env ps i))"
  shows "\<exists>fs2. assembleFiles env m metaInfo (saved env m ps is fs) = Inr (True, fs2)
    \<and> map fs2 (map fst ts) =
        map Some (segments (map snd ts) (concat (map (bytes_of_piece ps) [0..<length ps])))"
proof -
  let ?dir = "pieces_directory env m"
  let ?fs1 = "saved env m ps is fs"
  have range: "\<forall>i \<in> set is. i < length ps" "sorted_list_of_set (set is) = [0..<length ps]"
    using assms(6) by (simp_all add: lessThan_atLeast0)
  have names: "piece_files env ?dir ?fs1 = map (name_of_piece env ps) [0..<length ps]"
    using piece_files_saved [OF assms(1-5) range(1)] range(2) by simp
  have contents: "map ?fs1 (map (in_directory env ?dir) (piece_files env ?dir ?fs1)) =
      map Some (map (bytes_of_piece ps) [0..<length ps])"
    using saved_lookup [OF assms(1,3) range(1)] assms(6) by (simp add: names)
  have sizes: "\<forall>c \<in> set (map (bytes_of_piece ps) [0..<length ps]). c \<noteq> [] \<and> length c < 2 ^ 32"
  proof
    fix c assume "c \<in> set (map (bytes_of_piece ps) [0..<length ps])"
    then obtain i where "i < length ps" "c = bytes_of_piece ps i"
      by auto
    then have "length c = unat (piece_length (ps ! i))" "0 < piece_length (ps ! i)"
      using assms(2) by (auto simp: piece_ready_def)
    then show "c \<noteq> [] \<and> length c < 2 ^ 32"
      using unsigned_less [of "piece_length (ps ! i)", where 'a = nat] by (auto simp: word_less_nat_alt)
  qed
  have fresh: "\<forall>t \<in> set ts. ?fs1 (fst t) = None"
    using assms(14) range(1) by (auto simp: saved_other)
  show ?thesis
    using assembleFiles_splits_content [OF assms(1,7-12) refl contents sizes assms(13) [symmetric] fresh] by blast
qed

text \<open>C5: The pieces of a torrent, saved one by one in whatever order they were completed, are put
  together correctly: the zero-padded names sort in the order of the pieces, and \<open>assembleFiles\<close>
  gives every file of the torrent its own stretch of the concatenated pieces, in single-file and in
  multi-file mode, whatever the sizes of files and pieces. The lengths of all files but the first
  have to fit 32 bits.\<close>

theorem saved_torrent_is_assembled:
  assumes "files_env_ok env" "\<forall>p \<in> set ps. piece_ready p" "length ps < 2 ^ 31"
    and "finite (dom fs)" "\<forall>name. fs (in_directory env (pieces_directory env m) name) = None"
    and "set is = {..<length ps}"
    and "map_of metaInfo ''info'' = Some (BDict info)"
    and "torrent_files env (pieces_directory env m) info ts"
    and "positive ts" "snd (hd ts) < 2 ^ 64" "\<forall>t \<in> set (tl ts). snd t < 2 ^ 32" "distinct (map fst ts)"
    and "missing ts = length (concat (map (bytes_of_piece ps) [0..<length ps]))"
    and "\<forall>t \<in> set ts. fs (fst t) = None
      \<and> (\<forall>i < length ps. fst t \<noteq> in_directory env (pieces_directory env m) (name_of_piece env ps i))"
  shows "\<exists>fs1 fs2. save_pieces env m ps is fs = Inr (True, fs1)
    \<and> assembleFiles env m metaInfo fs1 = Inr (True, fs2)
    \<and> map fs2 (map fst ts) =
        map Some (segments (map snd ts) (concat (map (bytes_of_piece ps) [0..<length ps])))"
proof -
  have "\<forall>i \<in> set is. i < length ps"
    using assms(6) by simp
  from save_pieces_ready [OF assms(1,2) this] saved_pieces_assemble [OF assms] show ?thesis
    by blast
qed

definition example_files :: files_env where
  "example_files = \<lparr>sep = CHR ''/'', download_directory = ''d'', digitsBase10 = (\<lambda>n. length (show_dec (nat n))),
     base_name = (\<lambda>s. rev (takeWhile (\<lambda>c. c \<noteq> CHR ''/'') (rev s))),
     file_extension = (\<lambda>s. CHR ''.'' # rev (takeWhile (\<lambda>c. c \<noteq> CHR ''.'') (rev s))),
     identifier_less = (<),
     list_files = (\<lambda>sel dir fs. sorted_list_of_set
       {name. CHR ''/'' \<notin> set name \<and> dir @ [CHR ''/''] @ name \<in> dom fs \<and> sel name}),
     ensure_directory = (\<lambda>_. True), write_n = (\<lambda>p bs fs. Some (length bs, True, fs(p \<mapsto> bs))),
     load_file = (\<lambda>p fs. fs p), append_file = (\<lambda>p bs fs. (True, append_to p bs fs)),
     delete_files = (\<lambda>ps fs. fs |` (- set ps))\<rparr>"

lemma example_files_ok: "files_env_ok example_files"
proof -
  have "finite {name. CHR ''/'' \<notin> set name \<and> dir @ [CHR ''/''] @ name \<in> dom fs \<and> sel name}"
    if "finite (dom fs)" for dir sel and fs :: fs
  proof (rule finite_subset)
    show "{name. CHR ''/'' \<notin> set name \<and> dir @ [CHR ''/''] @ name \<in> dom fs \<and> sel name}
        \<subseteq> drop (length dir + 1) ` dom fs"
      by (force simp: image_iff)
  qed (use that in simp)
  moreover have "rev (takeWhile (\<lambda>c. c \<noteq> CHR ''/'') (rev name)) = name" if "CHR ''/'' \<notin> set name" for name
    using that by (subst takeWhile_eq_all_conv [THEN iffD2]) auto
  ultimately show ?thesis
    by (auto simp: files_env_ok_def example_files_def piece_suffix_def)
qed

definition example_pieces :: "piece list" where
  "example_pieces =
     [\<lparr>piece_chunks = [\<lparr>chunk_data = [[1, 2], [3]], chunk_offset = 0\<rparr>], piece_filename = ''abcdef'',
       piece_hash = [], piece_length = 3, piece_onDisk = False\<rparr>,
      \<lparr>piece_chunks = [\<lparr>chunk_data = [[4]], chunk_offset = 0\<rparr>, \<lparr>chunk_data = [[5]], chunk_offset = 1\<rparr>],
       piece_filename = ''ghijkl'', piece_hash = [], piece_length = 2, piece_onDisk = False\<rparr>]"

definition example_entry :: "string \<Rightarrow> int \<Rightarrow> bvalue" where
  "example_entry name n = BDict [(''length'', BInt n), (''path'', BList [BString name])]"

definition example_info :: bdict where
  "example_info = [(''files'', BList [example_entry ''a'' 2, example_entry ''b'' 3]), (''name'', BString ''n'')]"

lemma example_pieces_ready: "\<forall>p \<in> set example_pieces. piece_ready p"
  by (simp add: example_pieces_def piece_ready_def chunks_bytes_def piece_filename_ok_def char_class_defs
      char_code_def)

lemma example_torrent_files:
  "torrent_files example_files (pieces_directory example_files ''t'') example_info
     [(''d/t_pieces/n/a'', 2), (''d/t_pieces/n/b'', 3)]"
  by (simp add: torrent_files_def example_info_def example_entry_def is_entry_def entry_length_def
      entry_path_def get_key_def listToPath_def pieces_directory_def pieces_suffix_def example_files_def)

lemma example_paths_fresh:
  assumes "i < length example_pieces" "path = ''d/t_pieces/n/a'' \<or> path = ''d/t_pieces/n/b''"
  shows "path \<noteq> in_directory example_files (pieces_directory example_files ''t'')
    (name_of_piece example_files example_pieces i)"
proof -
  have "name_of_piece example_files example_pieces 0 = ''0_abcdef.piece''"
    "name_of_piece example_files example_pieces 1 = ''1_ghijkl.piece''"
    by (simp_all add: piece_name_def show_padded_def example_files_def example_pieces_def show_dec.simps
        piece_suffix_def)
  moreover have "i = 0 \<or> i = 1"
    using assms(1) by (auto simp: example_pieces_def)
  ultimately show ?thesis
    using assms(2) by (auto simp: pieces_directory_def pieces_suffix_def example_files_def)
qed

theorem saved_torrent_is_assembled_witness:
  "\<exists>fs1 fs2. save_pieces example_files ''t'' example_pieces [1, 0] Map.empty = Inr (True, fs1)
     \<and> assembleFiles example_files ''t'' [(''info'', BDict example_info)] fs1 = Inr (True, fs2)
     \<and> fs2 ''d/t_pieces/n/a'' = Some [1, 2] \<and> fs2 ''d/t_pieces/n/b'' = Some [3, 4, 5]"
proof -
  have bytes: "map (bytes_of_piece example_pieces) [0..<length example_pieces] = [[1, 2, 3], [4, 5]]"
    by (simp add: example_pieces_def chunks_bytes_def)
  have fresh: "\<forall>i < length example_pieces. path \<noteq> in_directory example_files (pieces_directory example_files ''t'')
      (name_of_piece example_files example_pieces i)" if "path = ''d/t_pieces/n/a'' \<or> path = ''d/t_pieces/n/b''" for path
    using example_paths_fresh that by blast
  have order: "set [1, 0] = {..<length example_pieces}"
    by (auto simp: example_pieces_def)
  have len: "length example_pieces = 2"
    by (simp add: example_pieces_def)
  show ?thesis
    using saved_torrent_is_assembled [OF example_files_ok example_pieces_ready _ _ _ order _
        example_torrent_files, of Map.empty "[(''info'', BDict example_info)]"] fresh
    by (simp add: len bytes [unfolded len] del: save_pieces.simps)
qed

text \<open>The piece files are found in the order of the indexes, so the search ends at the file of the piece.\<close>

lemma loadPiece_loop_saved:
  assumes "files_env_ok env" "sorted_wrt (<) js" "i \<in> set js"
    and "\<forall>j \<in> set js. pieceFileNameToIndex env (f j) = word_of_nat j \<and> j < 2 ^ 32"
    and "fs (in_directory env path (f i)) = Some data"
  shows "loadPiece_loop env path (word_of_nat i) fs (map f js) p
    = Some (p\<lparr>piece_chunks := piece_chunks p @ [loaded_chunk data]\<rparr>)"
  using assms(2-4)
proof (induction js)
  case (Cons j js)
  have inject: "(word_of_nat j :: u32) = word_of_nat i \<longleftrightarrow> j = i"
    using Cons.prems(2,3) by (auto simp: unat_of_nat dest!: arg_cong [of _ _ unat])
  show ?case
    using Cons assms(5) by (auto simp: inject files_env_okD(1) [OF assms(1)])
qed simp

text \<open>C27: After a restart \<open>loadPieces\<close> finds exactly the pieces that were saved, whatever the order in
  which they were: of the new pieces \<open>qs\<close>, which hold no data and have names of their own, it marks as
  being on disk those whose file was saved before, it changes nothing else about them, and
  \<open>loadPiece\<close> on a marked piece brings back the octets that were saved.\<close>

theorem loadPieces_marks_saved:
  assumes "files_env_ok env" "\<forall>p \<in> set ps. piece_ready p" "length ps < 2 ^ 31" "ps \<noteq> []"
    and "finite (dom fs)" "\<forall>name. fs (in_directory env (pieces_directory env m) name) = None"
    and "\<forall>i \<in> set is. i < length ps" "sep env \<notin> set m"
    and "length qs = length ps" "\<forall>q \<in> set qs. piece_chunks q = []"
  shows "\<exists>fs'. save_pieces env m ps is fs = Inr (True, fs')
    \<and> loadPieces env m False fs' qs =
        Inr (True, map (\<lambda>i. (qs ! i)\<lparr>piece_onDisk := piece_onDisk (qs ! i) \<or> i \<in> set is\<rparr>) [0..<length ps])
    \<and> (\<forall>i \<in> set is. loadPiece env m (word_of_nat i) fs' ((qs ! i)\<lparr>piece_onDisk := True\<rparr>) =
        Inr (Some ((qs ! i)\<lparr>piece_onDisk := True, piece_chunks := [loaded_chunk (bytes_of_piece ps i)]\<rparr>)))"
proof -
  let ?dir = "pieces_directory env m" and ?fs = "saved env m ps is fs"
  define mark where "mark js = map (\<lambda>i. (qs ! i)\<lparr>piece_onDisk := piece_onDisk (qs ! i) \<or> i \<in> js\<rparr>) [0..<length ps]"
    for js
  have word_index: "pieceFileNameToIndex env (name_of_piece env ps i) = word_of_nat i" if "i < length ps" for i
    using pieceFileNameToIndex_piece_name [OF assms(1)] assms(2) that by (simp add: piece_ready_def)
  then have index: "unat (pieceFileNameToIndex env (name_of_piece env ps i)) = i" if "i < length ps" for i
    using assms(3) that by (simp add: unat_of_nat)
  have step: "(mark js)[i := (mark js ! i)\<lparr>piece_onDisk := True\<rparr>] = mark (insert i js)" if "i < length ps" for i js
    using that by (auto simp: mark_def nth_list_update intro: nth_equalityI)
  have loop: "loadPieces_loop env path False fs' (map (name_of_piece env ps) js) (mark ks) =
      Inr (True, mark (ks \<union> set js))" if "\<forall>i \<in> set js. i < length ps" for path js ks and fs' :: fs
    using that by (induction js arbitrary: ks) (simp_all add: index step, simp add: mark_def)
  note files = piece_files_saved [OF assms(1-3,5-7)]
  have "mark {} = qs"
    using assms(9) by (simp add: mark_def map_nth flip: assms(9))
  then have "loadPieces env m False ?fs qs = Inr (True, mark (set is))"
    using loop [of "sorted_list_of_set (set is)" _ _ "{}"] files
      assms(4,7-9) files_env_okD(8) [OF assms(1), of m] by (auto simp: loadPieces_def)
  moreover have "loadPiece env m (word_of_nat i) ?fs ((qs ! i)\<lparr>piece_onDisk := True\<rparr>) =
      Inr (Some ((qs ! i)\<lparr>piece_onDisk := True, piece_chunks := [loaded_chunk (bytes_of_piece ps i)]\<rparr>))"
    if "i \<in> set is" for i
  proof -
    have "i < length ps" "piece_chunks (qs ! i) = []"
      using assms(7,9,10) that by auto
    moreover have "loadPiece_loop env ?dir (word_of_nat i) ?fs
        (map (name_of_piece env ps) (sorted_list_of_set (set is))) p
      = Some (p\<lparr>piece_chunks := piece_chunks p @ [loaded_chunk (bytes_of_piece ps i)]\<rparr>)" for p
      using that word_index assms(3,7) saved_lookup [OF assms(1,3,7), of i m fs]
      by (intro loadPiece_loop_saved [OF assms(1)]) (auto simp: less_imp_le intro: order.strict_trans)
    ultimately show ?thesis
      using files assms(8) files_env_okD(8) [OF assms(1), of m] by (simp add: loadPiece_def)
  qed
  ultimately show ?thesis
    using save_pieces_ready [OF assms(1,2,7)] by (simp add: mark_def)
qed

definition example_new_pieces :: "piece list" where
  "example_new_pieces =
     [\<lparr>piece_chunks = [], piece_filename = ''uvwxyz'', piece_hash = [], piece_length = 3, piece_onDisk = False\<rparr>,
      \<lparr>piece_chunks = [], piece_filename = ''rstuvw'', piece_hash = [], piece_length = 2, piece_onDisk = False\<rparr>]"

theorem loadPieces_marks_saved_witness:
  "\<exists>fs'. save_pieces example_files ''t'' example_pieces [1] Map.empty = Inr (True, fs')
     \<and> loadPieces example_files ''t'' False fs' example_new_pieces =
         Inr (True, [example_new_pieces ! 0, (example_new_pieces ! 1)\<lparr>piece_onDisk := True\<rparr>])
     \<and> loadPiece example_files ''t'' 1 fs' ((example_new_pieces ! 1)\<lparr>piece_onDisk := True\<rparr>) =
         Inr (Some ((example_new_pieces ! 1)\<lparr>piece_onDisk := True, piece_chunks := [loaded_chunk [4, 5]]\<rparr>))"
proof -
  have "length example_pieces = 2" "length example_new_pieces = 2" "example_pieces \<noteq> []"
    "sep example_files = CHR ''/''" "\<forall>q \<in> set example_new_pieces. piece_chunks q = []"
    by (simp_all add: example_pieces_def example_new_pieces_def example_files_def)
  moreover have same: "(example_new_pieces ! 0)\<lparr>piece_onDisk := piece_onDisk (example_new_pieces ! 0)\<rparr>
      = example_new_pieces ! 0" "bytes_of_piece example_pieces 1 = [4, 5]"
    by (simp_all add: example_pieces_def chunks_bytes_def)
  moreover have upt: "[0..<2] = [0, 1 :: nat]"
    by (simp add: upt_rec)
  ultimately show ?thesis
    using loadPieces_marks_saved [OF example_files_ok example_pieces_ready, of Map.empty "''t''" "[1]"
      example_new_pieces]
    by (simp add: upt del: save_pieces.simps)
qed

section \<open>Errors\<close>

text \<open>When a piece cannot be written completely, for want of disk space say, but the file can be
  closed, \<open>savePiece\<close> reports the failure and nevertheless marks the piece as being on disk and
  releases its data.\<close>

lemma savePiece_short_write:
  assumes "ensure_directory env (pieces_directory env m)"
    and "write_n env (in_directory env (pieces_directory env m) (piece_name env n i (piece_filename p)))
           (chunks_bytes (piece_chunks p)) fs = Some (k, True, fs')"
    and "piece_chunks p \<noteq> []" "\<forall>c \<in> set (piece_chunks p). chunk_data c \<noteq> []" "k < unat (piece_length p)"
  shows "savePiece env m n i p fs = Inr (False, p\<lparr>piece_onDisk := True, piece_chunks := []\<rparr>, fs')"
proof -
  have "\<not> (\<exists>c \<in> set (butlast (piece_chunks p)). chunk_data c = [])"
    using assms(4) by (auto dest: in_set_butlastD)
  with assms show ?thesis
    by (simp add: savePiece_def freeChunks_def Let_def)
qed

definition full_disk :: files_env where
  "full_disk = example_files\<lparr>write_n := (\<lambda>p bs fs. Some (0, True, fs(p \<mapsto> [])))\<rparr>"

text \<open>The length of the torrent is the sum of the lengths of its files modulo \<open>2\<^sup>3\<^sup>2\<close>.\<close>

lemma sum_lengths_entries:
  "list_all2 (is_entry env directory) entries ts \<Longrightarrow>
   sum_lengths entries acc = Inr (acc + word_of_nat (missing ts))"
proof (induction entries ts arbitrary: acc rule: list_all2_induct)
  case (Cons v vs t ts)
  then obtain f where f: "v = BDict f" "entry_length f = Inr (int (snd t))"
    by (auto simp: is_entry_def)
  then have "\<exists>l. get_key ''length'' f = Inr l \<and> get_integer l = Inr (int (snd t))"
    by (cases "get_key ''length'' f") (auto simp: entry_length_def)
  with f(1) Cons.IH show ?case
    by (auto simp: add.assoc)
qed simp

lemma MetaInfoToLength_missing:
  assumes "map_of metaInfo ''info'' = Some (BDict info)" "torrent_files env pieces_path info ts"
    and "map_of info ''files'' = None \<or> map_of info ''length'' = None"
  shows "MetaInfoToLength metaInfo = Inr (word_of_nat (missing ts))"
proof (cases "map_of info ''files''")
  case None
  with assms(1,2) show ?thesis
    by (auto simp: torrent_files_def MetaInfoToLength_def get_key_def)
next
  case (Some v)
  with assms obtain name entries where "v = BList entries" "map_of info ''length'' = None"
    "list_all2 (is_entry env (in_directory env pieces_path name)) entries ts"
    by (auto simp: torrent_files_def)
  with Some assms(1) show ?thesis
    using sum_lengths_entries [of env "in_directory env pieces_path name" entries ts 0]
    by (simp add: MetaInfoToLength_def get_key_def)
qed

text \<open>The scrape address of a tracker is wrong for every announce address: eight characters are
  replaced from the slash on, so that the slash is lost and the last letter of \<open>announce\<close> stays.\<close>

lemma scrape_url_is_wrong:
  assumes "CHR ''/'' \<notin> set rest"
  shows "AnnounceURLToScrapeURL (base @ ''/announce'' @ rest) = base @ ''scrapee'' @ rest"
proof -
  have last: "find_last_char CHR ''/'' (base @ ''/announce'' @ rest) = Some (length base)"
    using assms find_last_char_append [of "CHR ''/''" "''announce'' @ rest" base] by simp
  have "find_from ''announce'' (base @ ''/announce'' @ rest) (length base + 1) = Some (length base + 1)"
    using find_from_here [of "length base + 1" "base @ ''/announce'' @ rest" "''announce''"] by simp
  with last show ?thesis
    by (simp add: AnnounceURLToScrapeURL_def torrentSupportsScrape_def str_replace_def)
qed

end
