(* ===== verification/Bittorrent_Session.thy ===== *)
theory Bittorrent_Session
  imports Bittorrent_Wire Bittorrent_Files
begin

text \<open>
  The peer side of a BitTorrent session: \<open>BitTorrent_Session_T\<close> (\<open>bittorrent_session.inl\<close>) on top of
  \<open>Net_SessionBase_T\<close> (\<open>net_session_base.inl\<close>), with the records of \<open>bittorrent_network.h\<close>. A session
  keeps the pieces of its torrent, what it knows of every peer, and the set of its connections; it
  answers the messages of the peers. The piece accounting is that of \<open>Bittorrent_Pieces\<close>, the disk
  that of \<open>Bittorrent_Files\<close>, the records are those of \<open>Bittorrent_Wire\<close>.

  Parameters (\<open>session_env\<close>): the connection manager's answer to an identifier, whether a message
  can be obtained for a connection and whether sending it throws, the torrent, the hash
  functions and the disk. Random numbers are an argument of each call: \<open>draw n\<close> is the number drawn
  below \<open>n\<close>. What a session sends and announces is appended to its list of events. Allocation of
  records and duplication of message blocks are taken to succeed; locks are taken as acquired; the
  tracker is in the theory \<open>Bittorrent_Tracker\<close>, the requests sent to it and the streams are left out.
  An index past the end of a container and a division by zero
  are faults.
\<close>

section \<open>State\<close>

record peer_status =
  am_choking :: bool
  am_interested :: bool
  peer_choking :: bool
  peer_interested :: bool
  requesting_piece :: int

definition new_peer_status :: peer_status where
  "new_peer_status = \<lparr>am_choking = True, am_interested = False, peer_choking = True, peer_interested = False,
     requesting_piece = 0\<rparr>"

record peer_state =
  ps_connections :: "nat list"
  ps_pieces :: "byte list"
  ps_status :: peer_status

definition new_peer_state :: peer_state where
  "new_peer_state = \<lparr>ps_connections = [], ps_pieces = [], ps_status = new_peer_status\<rparr>"

text \<open>An address a tracker sends: six octets in network byte order, or text for an address family.\<close>

datatype tracker_peer = Compact_peer string | Textual_peer string bool

datatype session_event =
    Sent_handshake nat string string
  | Sent nat peer_record "byte list list"
  | Peer_connected nat
  | Peer_disconnected nat
  | Piece_complete u32
  | Torrent_complete
  | Controller_complete
  | Controller_no_more_peers
  | Connect_again nat
  | Controller_cancelled
  | Controller_redirected string
  | Torrent_cancelled
  | Abort_tracker nat
  | Tracker_connected nat
  | Tracker_disconnected nat
  | Connect_to_peers "tracker_peer list"

text \<open>\<open>ss_connections\<close> is a \<open>std::set\<close>: ascending and without duplicates.\<close>

record session =
  ss_connections :: "nat list"
  ss_connecting :: bool
  ss_aborted :: bool
  ss_trackerConnectionId :: nat
  ss_trackerId :: string
  ss_trackerRequestResponse :: "bdict option"
  ss_trackerScrapeResponse :: "bdict option"
  ss_pieces :: "piece list"
  ss_peerState :: "u32 \<rightharpoonup> peer_state"
  ss_disk :: fs
  ss_events :: "session_event list"

definition new_session :: "fs \<Rightarrow> session" where
  "new_session fs =
     \<lparr>ss_connections = [], ss_connecting = False, ss_aborted = False, ss_trackerConnectionId = 0,
      ss_trackerId = [], ss_trackerRequestResponse = None, ss_trackerScrapeResponse = None, ss_pieces = [],
      ss_peerState = Map.empty, ss_disk = fs, ss_events = []\<rparr>"

datatype inet_address = Inet_address u32 | Inet6_address "byte list"

record session_env =
  disk_env :: files_env
  SHA1 :: "byte list \<Rightarrow> byte list"
  SHA1_text :: "string \<Rightarrow> string"
  bencode :: "bvalue \<Rightarrow> string"
  metaInfo :: bdict
  metaInfoFileName :: string
  peerId :: string
  temp_filename :: "nat \<Rightarrow> string"
  connection_address :: "nat \<Rightarrow> inet_address option"
  gets_message :: "nat \<Rightarrow> bool"
  accepts_message :: "nat \<Rightarrow> bool"
  has_subscriber :: bool
  allowMultipleConnectionsPerPeer :: bool
  sendBitfieldAfterHandshake :: bool

definition MAX_CONNECTIONS_PER_PEER :: nat where
  "MAX_CONNECTIONS_PER_PEER = 5"

section \<open>Sending\<close>

definition emit_event :: "session_event \<Rightarrow> session \<Rightarrow> session" where
  "emit_event e s = s\<lparr>ss_events := ss_events s @ [e]\<rparr>"

definition tell_subscriber :: "session_env \<Rightarrow> session_event \<Rightarrow> session \<Rightarrow> session" where
  "tell_subscriber env e s = (if has_subscriber env then emit_event e s else s)"

text \<open>
  \<open>getConnectionAndMessage\<close> followed by \<open>send\<close>; on an error nothing is sent. The assertion that the
  identifier is not zero is left to the callers that can be given one: \<open>request_piece\<close>, \<open>send_piece\<close> and,
  for everything that handles a message or a connection, \<open>connectionIdToPeerAddress\<close>.
\<close>

definition send_to :: "session_env \<Rightarrow> nat \<Rightarrow> session_event \<Rightarrow> session \<Rightarrow> session" where
  "send_to env id_in e s = (if gets_message env id_in \<and> accepts_message env id_in then emit_event e s else s)"

definition choke :: "session_env \<Rightarrow> nat \<Rightarrow> bool \<Rightarrow> session \<Rightarrow> session" where
  "choke env id_in choke_in s =
     send_to env id_in
       (Sent id_in (new_record\<lparr>rec_type := if choke_in then MESSAGETYPE_CHOKE else MESSAGETYPE_UNCHOKE\<rparr>) []) s"

definition interested :: "session_env \<Rightarrow> nat \<Rightarrow> bool \<Rightarrow> session \<Rightarrow> session" where
  "interested env id_in interested_in s =
     send_to env id_in
       (Sent id_in (new_record\<lparr>rec_type := if interested_in then MESSAGETYPE_INTERESTED
                               else MESSAGETYPE_NOT_INTERESTED\<rparr>) []) s"

definition request_piece :: "session_env \<Rightarrow> nat \<Rightarrow> u32 \<Rightarrow> u32 \<Rightarrow> u32 \<Rightarrow> session \<Rightarrow> session run" where
  "request_piece env id_in index begin_in length_in s =
     run_bind (ace_assert (id_in \<noteq> 0)) (\<lambda>_.
     run_bind (ace_assert (length_in \<noteq> 0)) (\<lambda>_.
       Inr (send_to env id_in
         (Sent id_in (new_record\<lparr>rec_type := MESSAGETYPE_REQUEST,
                                 rec_payload := Request index begin_in length_in\<rparr>) []) s)))"

fun have_loop :: "session_env \<Rightarrow> u32 \<Rightarrow> nat list \<Rightarrow> session \<Rightarrow> session" where
  "have_loop env index [] s = s"
| "have_loop env index (i # ids) s =
     (if i = ss_trackerConnectionId s then have_loop env index ids s
      else if \<not> gets_message env i then have_loop env index ids s
      else if \<not> accepts_message env i then s
      else have_loop env index ids
             (emit_event (Sent i (new_record\<lparr>rec_type := MESSAGETYPE_HAVE, rec_payload := Have index\<rparr>) []) s))"

definition have_piece :: "session_env \<Rightarrow> u32 \<Rightarrow> session \<Rightarrow> session" where
  "have_piece env index s = have_loop env index (ss_connections s) s"

section \<open>Serving a request\<close>

text \<open>
  The chunk that holds \<open>begin\<close>: the first one that does not start before it, or the one in front of
  that if it starts behind it. The loop does not look for the end of the chunks.
\<close>

fun seek_chunk :: "u32 \<Rightarrow> chunk list \<Rightarrow> nat \<Rightarrow> nat run" where
  "seek_chunk begin_in [] i = Inl Out_of_bounds"
| "seek_chunk begin_in (c # cs) i =
     (if chunk_offset c < begin_in then seek_chunk begin_in cs (Suc i)
      else if chunk_offset c > begin_in then (if i = 0 then Inl Out_of_bounds else Inr (i - 1))
      else Inr i)"

text \<open>
  The loop that cuts \<open>missing\<close> bytes off the chain of the chunk and appends the chains of the chunks
  behind it as needed.
\<close>

function cut_blocks :: "nat \<Rightarrow> byte list list \<Rightarrow> chunk list \<Rightarrow> byte list list run" where
  "cut_blocks missing_bytes [] cs = Inl Null_dereference"
| "cut_blocks missing_bytes (b # bs) cs =
     (if length b \<ge> missing_bytes then Inr [take missing_bytes b]
      else if bs \<noteq> [] then run_bind (cut_blocks (missing_bytes - length b) bs cs) (\<lambda>rest. Inr (b # rest))
      else case cs of
        [] \<Rightarrow> Inl Assertion_failed
      | c # cs' \<Rightarrow>
          run_bind (cut_blocks (missing_bytes - length b) (chunk_data c) cs') (\<lambda>rest. Inr (b # rest)))"
  by pat_completeness auto
termination
  by (relation "measures [\<lambda>(_, _, cs). length cs, \<lambda>(_, bs, _). length bs]") auto

definition chunk_part :: "chunk list \<Rightarrow> u32 \<Rightarrow> u32 \<Rightarrow> byte list list run" where
  "chunk_part cs begin_in length_in =
     run_bind (seek_chunk begin_in cs 0) (\<lambda>j.
       let c = cs ! j; offset = begin_in - chunk_offset c in
       if chunk_data c = [] then Inl Null_dereference
       else
         run_bind (ace_assert (chunk_offset c \<le> begin_in
                               \<and> unat (chunk_offset c) + total_length (chunk_data c) > unat begin_in)) (\<lambda>_.
         run_bind (ace_assert (unat offset < length (hd (chunk_data c)))) (\<lambda>_.
         run_bind (cut_blocks (unat length_in) (drop (unat offset) (hd (chunk_data c)) # tl (chunk_data c))
                     (drop (Suc j) cs)) (\<lambda>blocks.
         run_bind (ace_assert (total_length blocks = unat length_in)) (\<lambda>_. Inr blocks)))))"

definition send_piece :: "session_env \<Rightarrow> nat \<Rightarrow> u32 \<Rightarrow> u32 \<Rightarrow> u32 \<Rightarrow> session \<Rightarrow> session run" where
  "send_piece env id_in index begin_in length_in s =
     run_bind (ace_assert (id_in \<noteq> 0)) (\<lambda>_.
     run_bind (ace_assert (length_in \<noteq> 0)) (\<lambda>_.
       if \<not> gets_message env id_in then Inr s
       else if length (ss_pieces s) \<le> unat index then Inl Out_of_bounds
       else let p = ss_pieces s ! unat index in
         run_bind
           (if piece_onDisk p
            then loadPiece (disk_env env) (metaInfoFileName env) index (ss_disk s) p
            else run_bind (isPieceComplete (piece_length p) (piece_chunks p)) (\<lambda>complete.
                   Inr (if complete then Some p else None)))
           (\<lambda>loaded. case loaded of
              None \<Rightarrow> Inr s
            | Some p \<Rightarrow>
                run_bind (chunk_part (piece_chunks p) begin_in length_in) (\<lambda>blocks.
                  Inr (send_to env id_in
                    (Sent id_in (new_record\<lparr>rec_type := MESSAGETYPE_PIECE, rec_payload := Piece index begin_in\<rparr>) blocks)
                    (s\<lparr>ss_pieces := (ss_pieces s)[unat index := p]\<rparr>))))))"

section \<open>Peers\<close>

definition connectionIdToPeerAddress :: "session_env \<Rightarrow> nat \<Rightarrow> u32 run" where
  "connectionIdToPeerAddress env id_in =
     run_bind (ace_assert (id_in \<noteq> 0)) (\<lambda>_.
       case connection_address env id_in of
         None \<Rightarrow> Inr 0
       | Some (Inet_address a) \<Rightarrow> Inr a
       | Some (Inet6_address bs) \<Rightarrow>
           Inr (ucast (bs ! 0) OR push_bit 8 (ucast (bs ! 5)) OR push_bit 16 (ucast (bs ! 9))
                OR push_bit 24 (ucast (bs ! 13))))"

definition find_peer :: "u32 \<Rightarrow> session \<Rightarrow> peer_state run" where
  "find_peer a s = (case ss_peerState s a of None \<Rightarrow> Inl Assertion_failed | Some p \<Rightarrow> Inr p)"

definition set_peer :: "u32 \<Rightarrow> peer_state \<Rightarrow> session \<Rightarrow> session" where
  "set_peer a p s = s\<lparr>ss_peerState := (ss_peerState s)(a \<mapsto> p)\<rparr>"

text \<open>A locked scope that finds the peer's state, asserts that it is there and changes its status.\<close>

definition change_status :: "u32 \<Rightarrow> (peer_status \<Rightarrow> peer_status) \<Rightarrow> session \<Rightarrow> session run" where
  "change_status a f s = run_bind (find_peer a s) (\<lambda>p. Inr (set_peer a (p\<lparr>ps_status := f (ps_status p)\<rparr>) s))"

definition count_request :: "u32 \<Rightarrow> bool \<Rightarrow> session \<Rightarrow> session run" where
  "count_request a requesting s =
     (if requesting then change_status a (\<lambda>st. st\<lparr>requesting_piece := requesting_piece st + 1\<rparr>) s else Inr s)"

section \<open>Choosing the next request\<close>

fun doesnt_have_loop :: "nat \<Rightarrow> u32 \<Rightarrow> byte list \<Rightarrow> u32 list run" where
  "doesnt_have_loop 0 i bitfield = Inr []"
| "doesnt_have_loop (Suc n) i bitfield =
     run_bind (havePiece i bitfield) (\<lambda>have_it.
     run_bind (doesnt_have_loop n (i + 1) bitfield) (\<lambda>rest.
       Inr (if have_it then rest else i # rest)))"

definition pick :: "(nat \<Rightarrow> nat) \<Rightarrow> 'a list \<Rightarrow> 'a run" where
  "pick draw xs = (if draw (length xs) < length xs then Inr (xs ! draw (length xs)) else Inl Out_of_bounds)"

definition requestNextPiece ::
    "session_env \<Rightarrow> (nat \<Rightarrow> nat) \<Rightarrow> (nat \<Rightarrow> nat) \<Rightarrow> nat \<Rightarrow> session \<Rightarrow> (bool \<times> session) run" where
  "requestNextPiece env draw draw_2 id_in s =
     run_bind (connectionIdToPeerAddress env id_in) (\<lambda>a.
     run_bind (find_peer a s) (\<lambda>peer.
     run_bind (hasMissingPiece (ss_pieces s) (ps_pieces peer)) (\<lambda>missing_piece.
       if \<not> missing_piece
       then run_bind (change_status a (\<lambda>st. st\<lparr>am_interested := False\<rparr>) s) (\<lambda>s.
              Inr (False, interested env id_in False s))
       else
         run_bind (ace_assert (ss_pieces s \<noteq> [])) (\<lambda>_.
         run_bind (getPieceIndexes (ss_pieces s) True) (\<lambda>missing_pieces.
         run_bind (doesnt_have_loop (length (ss_pieces s)) 0 (ps_pieces peer)) (\<lambda>doesnt_have.
         let candidates = filter (\<lambda>i. i \<notin> set doesnt_have) missing_pieces in
         run_bind (ace_assert (candidates \<noteq> [])) (\<lambda>_.
         run_bind (pick draw candidates) (\<lambda>index.
         let p = ss_pieces s ! unat index in
         run_bind (getMissingChunks (piece_length p) (piece_chunks p)) (\<lambda>missing_chunks.
         run_bind (ace_assert (missing_chunks \<noteq> [])) (\<lambda>_.
         run_bind (pick draw_2 missing_chunks) (\<lambda>r.
         run_bind (request_piece env id_in index (req_begin r) (req_length r) s) (\<lambda>s.
           Inr (True, s)))))))))))))"

definition request_and_count ::
    "session_env \<Rightarrow> (nat \<Rightarrow> nat) \<Rightarrow> (nat \<Rightarrow> nat) \<Rightarrow> nat \<Rightarrow> u32 \<Rightarrow> session \<Rightarrow> session run" where
  "request_and_count env draw draw_2 id_in a s =
     run_bind (requestNextPiece env draw draw_2 id_in s) (\<lambda>(requesting, s). count_request a requesting s)"

section \<open>Receiving a block\<close>

definition set_piece :: "u32 \<Rightarrow> piece \<Rightarrow> session \<Rightarrow> session" where
  "set_piece index p s = s\<lparr>ss_pieces := (ss_pieces s)[unat index := p]\<rparr>"

text \<open>
  The first locked scope of the case \<open>PIECE\<close>, up to the label \<open>continue_\<close>. The result says whether the
  piece has to be announced and whether the torrent is complete.
\<close>

definition piece_completed :: "session_env \<Rightarrow> u32 \<Rightarrow> piece \<Rightarrow> session \<Rightarrow> (session \<times> bool \<times> bool) run" where
  "piece_completed env index p s =
     (let name = base_name (disk_env env) (metaInfoFileName env) in
      run_bind (savePiece (disk_env env) name (word_of_nat (length (ss_pieces s))) index p (ss_disk s)) (\<lambda>(ok, p, fs).
      let s = set_piece index p (s\<lparr>ss_disk := fs\<rparr>) in
      run_bind (ace_assert ok) (\<lambda>_.
      let s = tell_subscriber env (Piece_complete index) s in
      run_bind (isMissingPiece (ss_pieces s)) (\<lambda>missing_piece.
        if missing_piece then Inr (s, True, False)
        else run_bind (assembleFiles (disk_env env) name (metaInfo env) (ss_disk s)) (\<lambda>(ok, fs).
             run_bind (ace_assert ok) (\<lambda>_. Inr (s\<lparr>ss_disk := fs\<rparr>, True, True)))))))"

definition block_received ::
    "session_env \<Rightarrow> u32 \<Rightarrow> u32 \<Rightarrow> byte list list \<Rightarrow> session \<Rightarrow> (session \<times> bool \<times> bool) run" where
  "block_received env index begin_in blocks s =
     (if length (ss_pieces s) \<le> unat index then Inl Out_of_bounds
      else let p = ss_pieces s ! unat index in
        run_bind (if piece_onDisk p then Inr True else isPieceComplete (piece_length p) (piece_chunks p)) (\<lambda>have_it.
          if have_it then Inr (s, False, False)
          else
            run_bind (sanitizeChunks (piece_chunks p @ [\<lparr>chunk_data = blocks, chunk_offset = begin_in\<rparr>])) (\<lambda>cs.
            let p = p\<lparr>piece_chunks := cs\<rparr>; s = set_piece index p s in
            run_bind (isPieceComplete (piece_length p) cs) (\<lambda>complete.
              if \<not> complete then Inr (s, False, False)
              else run_bind (validatePieceHash (SHA1 env) p) (\<lambda>valid.
                if valid then piece_completed env index p s
                else run_bind (freeChunks cs) (\<lambda>cs.
                  Inr (set_piece index (p\<lparr>piece_chunks := cs\<rparr>) s, False, False)))))))"

section \<open>Messages of a peer\<close>

definition set_have_bit :: "u32 \<Rightarrow> byte list \<Rightarrow> byte list run" where
  "set_have_bit i bitfield =
     (let index = unat (i div 8) in
      if index < length bitfield
      then Inr (bitfield[index := bitfield ! index OR drop_bit (unat (i mod 8)) 0x80])
      else Inl Out_of_bounds)"

text \<open>Whether to become interested in a peer that has a piece missing here.\<close>

definition notice_pieces :: "session_env \<Rightarrow> nat \<Rightarrow> u32 \<Rightarrow> peer_state \<Rightarrow> session \<Rightarrow> (bool \<times> session) run" where
  "notice_pieces env id_in a peer s =
     run_bind (hasMissingPiece (ss_pieces s) (ps_pieces peer)) (\<lambda>missing_piece.
       if \<not> am_interested (ps_status peer) \<and> missing_piece
       then Inr (missing_piece,
              interested env id_in True (set_peer a (peer\<lparr>ps_status := (ps_status peer)\<lparr>am_interested := True\<rparr>\<rparr>) s))
       else Inr (missing_piece, set_peer a peer s))"

definition notify_have ::
    "session_env \<Rightarrow> (nat \<Rightarrow> nat) \<Rightarrow> (nat \<Rightarrow> nat) \<Rightarrow> nat \<Rightarrow> u32 \<Rightarrow> u32 \<Rightarrow> session \<Rightarrow> session run" where
  "notify_have env draw draw_2 id_in a i s =
     run_bind (find_peer a s) (\<lambda>peer.
     run_bind (set_have_bit i (ps_pieces peer)) (\<lambda>bitfield.
     run_bind (notice_pieces env id_in a (peer\<lparr>ps_pieces := bitfield\<rparr>) s) (\<lambda>(missing_piece, s).
     run_bind (find_peer a s) (\<lambda>peer.
       if \<not> am_choking (ps_status peer) \<and> requesting_piece (ps_status peer) = 0 \<and> missing_piece
       then request_and_count env draw draw_2 id_in a s
       else if \<not> am_choking (ps_status peer) \<and> missing_piece
               \<and> allowMultipleConnectionsPerPeer env \<and> length (ps_connections peer) < MAX_CONNECTIONS_PER_PEER
               \<and> connection_address env id_in \<noteq> None
       then Inr (emit_event (Connect_again id_in) s)
       else Inr s))))"

definition notify_piece ::
    "session_env \<Rightarrow> (nat \<Rightarrow> nat) \<Rightarrow> (nat \<Rightarrow> nat) \<Rightarrow> nat \<Rightarrow> u32 \<Rightarrow> u32 \<Rightarrow> u32 \<Rightarrow> byte list list \<Rightarrow> session \<Rightarrow> session run" where
  "notify_piece env draw draw_2 id_in a index begin_in blocks s =
     run_bind (ace_assert (blocks \<noteq> [])) (\<lambda>_.
     run_bind (block_received env index begin_in blocks s) (\<lambda>(s, announce, complete).
     run_bind (find_peer a s) (\<lambda>peer.
     let request_next = \<not> (am_choking (ps_status peer) \<or> complete);
         s = (if announce then have_piece env index s else s) in
     run_bind (change_status a (\<lambda>st. st\<lparr>requesting_piece := requesting_piece st - 1\<rparr>) s) (\<lambda>s.
     run_bind (if request_next then request_and_count env draw draw_2 id_in a s else Inr s) (\<lambda>s.
       Inr (if complete then emit_event Controller_complete (tell_subscriber env Torrent_complete s) else s))))))"

definition notify_record ::
    "session_env \<Rightarrow> (nat \<Rightarrow> nat) \<Rightarrow> (nat \<Rightarrow> nat) \<Rightarrow> nat \<Rightarrow> peer_record \<Rightarrow> byte list list \<Rightarrow> session \<Rightarrow> session run" where
  "notify_record env draw draw_2 id_in r blocks s =
     run_bind (connectionIdToPeerAddress env id_in) (\<lambda>a.
       if rec_length r = 0 then Inr s
       else case rec_type r of
         MESSAGETYPE_CHOKE \<Rightarrow> change_status a (\<lambda>st. st\<lparr>am_choking := True\<rparr>) s
       | MESSAGETYPE_UNCHOKE \<Rightarrow>
           run_bind (change_status a (\<lambda>st. st\<lparr>am_choking := False\<rparr>) s) (\<lambda>s.
           run_bind (find_peer a s) (\<lambda>peer.
             if 1 < length (ps_connections peer) \<or> ps_pieces peer \<noteq> []
             then request_and_count env draw draw_2 id_in a s
             else Inr s))
       | MESSAGETYPE_INTERESTED \<Rightarrow>
           run_bind (change_status a (\<lambda>st. st\<lparr>peer_interested := True, peer_choking := False\<rparr>) s) (\<lambda>s.
             Inr (choke env id_in False s))
       | MESSAGETYPE_NOT_INTERESTED \<Rightarrow> change_status a (\<lambda>st. st\<lparr>peer_interested := False\<rparr>) s
       | MESSAGETYPE_HAVE \<Rightarrow>
           run_bind (read_have (rec_payload r)) (\<lambda>i. notify_have env draw draw_2 id_in a i s)
       | MESSAGETYPE_BITFIELD \<Rightarrow>
           run_bind (find_peer a s) (\<lambda>peer.
           let peer = peer\<lparr>ps_pieces := rec_bitfield r\<rparr> in
             if am_interested (ps_status peer) then Inr (set_peer a peer s)
             else run_bind (notice_pieces env id_in a peer s) (\<lambda>(_, s). Inr s))
       | MESSAGETYPE_REQUEST \<Rightarrow>
           run_bind (find_peer a s) (\<lambda>peer.
             if peer_choking (ps_status peer) then Inr s
             else
               run_bind (read_index (rec_payload r)) (\<lambda>index.
               run_bind (read_begin (rec_payload r)) (\<lambda>begin_in.
               run_bind (read_length (rec_payload r)) (\<lambda>length_in.
                 send_piece env id_in index begin_in length_in s))))
       | MESSAGETYPE_PIECE \<Rightarrow>
           run_bind (read_index (rec_payload r)) (\<lambda>index.
           run_bind (read_begin (rec_payload r)) (\<lambda>begin_in.
             notify_piece env draw draw_2 id_in a index begin_in blocks s))
       | _ \<Rightarrow> Inr s)"

section \<open>Connections\<close>

text \<open>\<open>Net_SessionBase_T\<close>: the set of connections.\<close>

definition base_connect :: "nat \<Rightarrow> session \<Rightarrow> session run" where
  "base_connect id_in s =
     run_bind (ace_assert (id_in \<notin> set (ss_connections s))) (\<lambda>_.
       Inr (s\<lparr>ss_connections := insort id_in (ss_connections s)\<rparr>))"

definition base_disconnect :: "nat \<Rightarrow> session \<Rightarrow> session run" where
  "base_disconnect id_in s =
     run_bind (ace_assert (id_in \<in> set (ss_connections s))) (\<lambda>_.
       Inr (s\<lparr>ss_connections := remove1 id_in (ss_connections s)\<rparr>))"

definition piece_hashes :: "bdict \<Rightarrow> (bdict \<times> string) run" where
  "piece_hashes meta =
     run_bind (get_key ''info'' meta) (\<lambda>v.
     run_bind (get_dictionary v) (\<lambda>info.
     run_bind (get_key ''pieces'' info) (\<lambda>v.
     run_bind (get_string v) (\<lambda>hashes.
     run_bind (ace_assert (length hashes mod 20 = 0)) (\<lambda>_. Inr (info, hashes))))))"

definition populatePeerPiecesBitfield :: "session_env \<Rightarrow> u32 \<Rightarrow> session \<Rightarrow> session run" where
  "populatePeerPiecesBitfield env a s =
     run_bind (find_peer a s) (\<lambda>peer.
     run_bind (ace_assert (ps_pieces peer = [])) (\<lambda>_.
     run_bind (piece_hashes (metaInfo env)) (\<lambda>(_, hashes).
       let pieces = length hashes div 20; indices = pieces div 8; indices_2 = pieces mod 8 in
       Inr (set_peer a (peer\<lparr>ps_pieces := replicate (if indices_2 \<noteq> 0 then indices + 1 else indices) 0\<rparr>) s))))"

text \<open>The bit field of the complete pieces: one byte for every piece of the torrent.\<close>

fun set_bits_loop :: "u32 list \<Rightarrow> byte list \<Rightarrow> byte list run" where
  "set_bits_loop [] bitfield = Inr bitfield"
| "set_bits_loop (i # is) bitfield = run_bind (set_have_bit i bitfield) (set_bits_loop is)"

definition own_bitfield :: "piece list \<Rightarrow> u32 list \<Rightarrow> byte list run" where
  "own_bitfield ps indexes = set_bits_loop indexes (replicate (length ps) 0)"

definition connect_peer :: "session_env \<Rightarrow> nat \<Rightarrow> session \<Rightarrow> session run" where
  "connect_peer env id_in s =
     run_bind (base_connect id_in s) (\<lambda>s.
     run_bind (connectionIdToPeerAddress env id_in) (\<lambda>a.
     let peer = (case ss_peerState s a of None \<Rightarrow> new_peer_state | Some p \<Rightarrow> p);
         s = set_peer a (peer\<lparr>ps_connections := ps_connections peer @ [id_in]\<rparr>) s in
     run_bind (if ps_pieces peer = [] then populatePeerPiecesBitfield env a s else Inr s) (\<lambda>s.
     run_bind (MetaInfoToInfoHash (bencode env) (SHA1_text env) (metaInfo env)) (\<lambda>info_hash.
       if \<not> (gets_message env id_in \<and> accepts_message env id_in) then Inr s
       else
         let s = emit_event (Sent_handshake id_in info_hash (peerId env)) s in
         run_bind (getPieceIndexes (ss_pieces s) False) (\<lambda>indexes.
           if indexes \<noteq> [] \<and> sendBitfieldAfterHandshake env
           then run_bind (own_bitfield (ss_pieces s) indexes) (\<lambda>bitfield.
             Inr (tell_subscriber env (Peer_connected id_in)
               (emit_event (Sent id_in (new_record\<lparr>rec_type := MESSAGETYPE_BITFIELD, rec_bitfield := bitfield\<rparr>) []) s)))
           else Inr (tell_subscriber env (Peer_connected id_in) s))))))"

definition disconnect_peer :: "session_env \<Rightarrow> nat \<Rightarrow> session \<Rightarrow> session run" where
  "disconnect_peer env id_in s =
     run_bind (connectionIdToPeerAddress env id_in) (\<lambda>a.
     run_bind (base_disconnect id_in s) (\<lambda>s.
     run_bind (find_peer a s) (\<lambda>peer.
     run_bind (ace_assert (id_in \<in> set (ps_connections peer))) (\<lambda>_.
       let connections = remove1 id_in (ps_connections peer);
           s = (if connections = [] then s\<lparr>ss_peerState := (ss_peerState s)(a := None)\<rparr>
                else set_peer a (peer\<lparr>ps_connections := connections\<rparr>) s);
           s = (if ss_connections s = [] \<and> \<not> ss_connecting s then emit_event Controller_no_more_peers s else s) in
       Inr (tell_subscriber env (Peer_disconnected id_in) s)))))"

section \<open>Initialization\<close>

definition char_byte :: "char \<Rightarrow> byte" where
  "char_byte c = word_of_nat (char_code c)"

fun new_pieces :: "(nat \<Rightarrow> string) \<Rightarrow> u32 \<Rightarrow> u32 \<Rightarrow> nat \<Rightarrow> nat \<Rightarrow> string \<Rightarrow> piece list run" where
  "new_pieces temp total_len piece_len 0 i hashes = Inr []"
| "new_pieces temp total_len piece_len (Suc n) i hashes =
     run_bind (ace_assert (temp i \<noteq> [])) (\<lambda>_.
     run_bind (if n = 0
               then if piece_len = 0 then Inl Out_of_bounds else Inr (total_len mod piece_len)
               else Inr piece_len) (\<lambda>len.
     run_bind (new_pieces temp total_len piece_len n (Suc i) (drop 20 hashes)) (\<lambda>ps.
       Inr (\<lparr>piece_chunks = [], piece_filename = temp i, piece_hash = map char_byte (take 20 hashes),
             piece_length = if len \<noteq> 0 then len else piece_len, piece_onDisk = False\<rparr> # ps))))"

fun tell_pieces :: "session_env \<Rightarrow> u32 \<Rightarrow> piece list \<Rightarrow> session \<Rightarrow> session" where
  "tell_pieces env i [] s = s"
| "tell_pieces env i (p # ps) s =
     tell_pieces env (i + 1) ps
       (if piece_chunks p \<noteq> [] then tell_subscriber env (Piece_complete i) s else s)"

definition initialize_session :: "session_env \<Rightarrow> session \<Rightarrow> (bool \<times> session) run" where
  "initialize_session env s =
     run_bind (piece_hashes (metaInfo env)) (\<lambda>(info, hashes).
     run_bind (get_key ''piece length'' info) (\<lambda>v.
     run_bind (get_integer v) (\<lambda>piece_len.
     run_bind (MetaInfoToLength (metaInfo env)) (\<lambda>total_len.
     run_bind (new_pieces (temp_filename env) total_len (word_of_int piece_len) (length hashes div 20) 0 hashes) (\<lambda>ps.
     run_bind (loadPieces (disk_env env) (metaInfoFileName env) False (ss_disk s) (ss_pieces s @ ps)) (\<lambda>(ok, ps).
       let s = s\<lparr>ss_pieces := ps\<rparr> in
       if \<not> ok then Inr (False, s) else Inr (True, tell_pieces env 0 ps s)))))))"

end
