(* ===== verification/Net_Addresses.thy ===== *)
theory Net_Addresses
  imports Std_Regex
begin

text \<open>
  The textual forms of addresses and URLs in \<open>Net_Common_Tools\<close> (\<open>net_common_tools.cpp\<close>).

  \<open>ACE_INET_Addr\<close> is code of another library: its conversions from and to text are parameters
  (\<open>string_to_addr\<close>, \<open>addr_to_string\<close>), \<open>None\<close> when they fail, and an address is a value of
  the type \<open>'addr\<close>. The capture groups of the expression for IPv6 addresses are left out,
  since only the success of the match is used.
\<close>

section \<open>Recognising addresses\<close>

abbreviation Digit :: re where "Digit \<equiv> Cls is_digit"
abbreviation Xdigit :: re where "Xdigit \<equiv> Cls is_xdigit"

definition ipv4_re :: re where
  "ipv4_re =
     Seq (Grp 1 (Rep_upto 3 Digit))
    (Seq (Opt (Grp 2 (Seq (Chr CHR ''.'') (Rep_upto 3 Digit))))
    (Seq (Opt (Grp 3 (Seq (Chr CHR ''.'') (Rep_upto 3 Digit))))
         (Opt (Grp 4 (Seq (Chr CHR ''.'') (Rep_upto 3 Digit))))))"

text \<open>
  The validation of the groups. Extracting a number from an empty group fails before anything
  is read and leaves the variable \<open>group\<close> with its previous value.
\<close>

fun valid_groups :: "caps \<Rightarrow> nat list \<Rightarrow> nat \<Rightarrow> bool" where
  "valid_groups m [] value = True"
| "valid_groups m (i # is) value =
     (case m i of
        None \<Rightarrow> False
      | Some s \<Rightarrow>
          let group_string = (if i > 1 then drop 1 s else s);
              value' = (if group_string = [] then value else extract_unsigned 32 group_string)
          in if value' > 255 then False
             else if find_from ''0'' group_string 0 = Some 0 \<and> length group_string > 1 then False
             else valid_groups m is value')"

definition matchIPv4Address :: "string \<Rightarrow> bool" where
  "matchIPv4Address address =
     (case regex_match ipv4_re address of
        None \<Rightarrow> False | Some m \<Rightarrow> valid_groups m [1, 2, 3, 4] 0)"

text \<open>The pieces of the expression: hexadecimal groups before and after a colon, decimal octets.\<close>

definition xgroup :: re where "xgroup = Rng 3 Xdigit"
definition xgroup_colon :: re where "xgroup_colon = Seq xgroup (Chr CHR '':'')"
definition colon_xgroup :: re where "colon_xgroup = Seq (Chr CHR '':'') xgroup"

definition octet_re :: re where
  "octet_re =
     Alt (Seq (Lit ''25'') (Cls (\<lambda>c. c \<in> set ''012345'')))
         (Seq (Opt (Alt (Seq (Chr CHR ''2'') (Cls (\<lambda>c. c \<in> set ''01234'')))
                        (Seq (Opt (Chr CHR ''1'')) Digit)))
              Digit)"

definition dotted_re :: re where
  "dotted_re = Seq (Rep 3 (Seq octet_re (Chr CHR ''.''))) octet_re"

definition ipv6_re :: re where
  "ipv6_re =
     Alt (Seq (Rep 7 xgroup_colon) xgroup)
    (Alt (Seq (Rng 6 xgroup_colon) (Chr CHR '':''))
    (Alt (Seq (Rng 5 xgroup_colon) (Seq (Chr CHR '':'') xgroup))
    (Alt (Seq (Rng 4 xgroup_colon) (Rng 1 colon_xgroup))
    (Alt (Seq (Rng 3 xgroup_colon) (Rng 2 colon_xgroup))
    (Alt (Seq (Rng 2 xgroup_colon) (Rng 3 colon_xgroup))
    (Alt (Seq (Rng 1 xgroup_colon) (Rng 4 colon_xgroup))
    (Alt (Seq xgroup (Seq (Chr CHR '':'') (Rng 5 colon_xgroup)))
    (Alt (Seq (Chr CHR '':'') (Alt (Rng 6 colon_xgroup) (Chr CHR '':'')))
    (Alt (Seq (Lit ''fe80:'') (Seq (Rep_upto 4 (Seq (Chr CHR '':'') (Rep_upto 4 Xdigit)))
            (Seq (Chr CHR ''%'') (Plus (Cls is_alnum)))))
    (Alt (Seq (Lit ''::'')
            (Seq (Opt (Seq (Lit ''ffff'') (Seq (Opt (Seq (Chr CHR '':'') (Rng 3 (Chr CHR ''0''))))
                    (Chr CHR '':''))))
                 dotted_re))
         (Seq (Rng 3 xgroup_colon) (Seq (Chr CHR '':'') dotted_re))))))))))))"

definition matchIPv6Address :: "string \<Rightarrow> bool" where
  "matchIPv6Address address \<longleftrightarrow> regex_match ipv6_re address \<noteq> None"

section \<open>Conversions\<close>

text \<open>
  \<open>string_to_addr s ipv4\<close> stands for \<open>ACE_INET_Addr::string_to_addr\<close> with the address family;
  \<open>no_address\<close> for the default constructed address that is returned when it fails.
\<close>

definition address_string :: "string \<Rightarrow> u16 \<Rightarrow> string" where
  "address_string address portNumber =
     (let ip_address_string = (if matchIPv6Address address then ''['' @ address @ '']'' else address)
      in case find_last_char CHR '':'' ip_address_string of
           Some _ \<Rightarrow> ip_address_string
         | None \<Rightarrow> ip_address_string @ '':'' @ show_dec (unat portNumber))"

definition stringToIPAddress ::
  "(string \<Rightarrow> bool \<Rightarrow> 'addr option) \<Rightarrow> 'addr \<Rightarrow> string \<Rightarrow> u16 \<Rightarrow> 'addr" where
  "stringToIPAddress string_to_addr no_address address portNumber =
     (case string_to_addr (address_string address portNumber) (\<not> matchIPv6Address address) of
        None \<Rightarrow> no_address | Some a \<Rightarrow> a)"

definition cut_last_colon :: "string \<Rightarrow> string run" where
  "cut_last_colon s =
     (case find_last_char CHR '':'' s of None \<Rightarrow> Inl Assertion_failed | Some i \<Rightarrow> Inr (take i s))"

definition IPv4AddressToString :: "(u16 \<Rightarrow> u32 \<Rightarrow> string option) \<Rightarrow> u16 \<Rightarrow> u32 \<Rightarrow> string run" where
  "IPv4AddressToString addr_to_string port address =
     (case addr_to_string port address of
        None \<Rightarrow> Inr []
      | Some s \<Rightarrow> if port = 0 then cut_last_colon s else Inr s)"

definition erase_at :: "nat \<Rightarrow> string \<Rightarrow> string" where
  "erase_at i s = take i s @ drop (Suc i) s"

definition remove_brackets :: "string \<Rightarrow> string" where
  "remove_brackets s =
     (let s1 = (if find_from ''['' s 0 = Some 0 then drop 1 s else s)
      in case find_last_char CHR '']'' s1 of None \<Rightarrow> s1 | Some i \<Rightarrow> erase_at i s1)"

definition IPAddressToString ::
  "('addr \<Rightarrow> bool \<Rightarrow> string option) \<Rightarrow> ('addr \<Rightarrow> bool) \<Rightarrow> 'addr \<Rightarrow> bool \<Rightarrow> bool \<Rightarrow> string run" where
  "IPAddressToString addr_to_string is_ipv6 address addressOnly resolve =
     (case addr_to_string address resolve of
        None \<Rightarrow> Inr []
      | Some s \<Rightarrow>
          let result = (if is_ipv6 address then remove_brackets s else s)
          in if addressOnly then cut_last_colon result else Inr result)"

section \<open>Link and transport layer\<close>

datatype Net_LinkLayerType =
    NET_LINKLAYER_802_3 | NET_LINKLAYER_802_11 | NET_LINKLAYER_PPP | NET_LINKLAYER_FDDI
  | NET_LINKLAYER_ATM | NET_LINKLAYER_MAX | NET_LINKLAYER_INVALID

fun LinkLayerTypeToString :: "Net_LinkLayerType \<Rightarrow> string" where
  "LinkLayerTypeToString NET_LINKLAYER_802_3 = ''IEEE 802.3''"
| "LinkLayerTypeToString NET_LINKLAYER_802_11 = ''IEEE 802.11''"
| "LinkLayerTypeToString NET_LINKLAYER_ATM = ''ATM''"
| "LinkLayerTypeToString NET_LINKLAYER_FDDI = ''FDDI''"
| "LinkLayerTypeToString NET_LINKLAYER_PPP = ''PPP''"
| "LinkLayerTypeToString _ = []"

text \<open>The octets as \<open>snprintf\<close> with \<open>%02x\<close> writes them; fewer than six are out of bounds.\<close>

definition octets_text :: "byte list \<Rightarrow> string" where
  "octets_text bs = butlast (concat (map (\<lambda>b. hex2 (unat b) @ '':'') bs))"

fun LinkLayerAddressToString :: "byte list \<Rightarrow> Net_LinkLayerType \<Rightarrow> string run" where
  "LinkLayerAddressToString bs NET_LINKLAYER_802_3 =
     (if length bs < 6 then Inl Out_of_bounds else Inr (octets_text (take 6 bs)))"
| "LinkLayerAddressToString bs NET_LINKLAYER_802_11 =
     (if length bs < 6 then Inl Out_of_bounds else Inr (octets_text (take 6 bs)))"
| "LinkLayerAddressToString bs NET_LINKLAYER_ATM = Inl Assertion_failed"
| "LinkLayerAddressToString bs NET_LINKLAYER_FDDI = Inl Assertion_failed"
| "LinkLayerAddressToString bs _ = Inr []"

datatype Net_TransportLayerType =
    NET_TRANSPORTLAYER_IP_CAST | NET_TRANSPORTLAYER_NETLINK | NET_TRANSPORTLAYER_TCP
  | NET_TRANSPORTLAYER_UDP | NET_TRANSPORTLAYER_SSL | NET_TRANSPORTLAYER_MAX
  | NET_TRANSPORTLAYER_INVALID

fun TransportLayerTypeToString :: "bool \<Rightarrow> Net_TransportLayerType \<Rightarrow> string" where
  "TransportLayerTypeToString linux NET_TRANSPORTLAYER_IP_CAST = ''IP''"
| "TransportLayerTypeToString linux NET_TRANSPORTLAYER_NETLINK = (if linux then ''Netlink'' else [])"
| "TransportLayerTypeToString linux NET_TRANSPORTLAYER_TCP = ''TCP''"
| "TransportLayerTypeToString linux NET_TRANSPORTLAYER_UDP = ''UDP''"
| "TransportLayerTypeToString linux _ = []"

section \<open>URLs\<close>

definition url_host_re :: re where
  "url_host_re =
     Seq (Opt (Seq (Grp 1 (Plus (Cls is_alpha))) (Lit ''://'')))
    (Seq (Grp 2 (Plus (Cls (\<lambda>c. c \<noteq> CHR ''/'' \<and> c \<noteq> CHR '':''))))
    (Seq (Opt (Seq (Chr CHR '':'') (Grp 3 (Rng 4 Digit))))
         (Opt (Plus Dot))))"

definition group_text :: "caps \<Rightarrow> nat \<Rightarrow> string" where
  "group_text m n = (case m n of Some s \<Rightarrow> s | None \<Rightarrow> [])"

definition URLToHostName :: "string \<Rightarrow> bool \<Rightarrow> bool \<Rightarrow> string run" where
  "URLToHostName URL returnProtocol returnPort =
     (case regex_match url_host_re URL of
        None \<Rightarrow> Inr []
      | Some m \<Rightarrow>
          if m 2 = None then Inr []
          else run_bind (ace_assert (\<not> returnProtocol \<or> m 1 \<noteq> None)) (\<lambda>_.
            Inr ((if returnProtocol then group_text m 1 @ ''://'' else []) @ group_text m 2
              @ (if returnPort \<and> m 3 \<noteq> None then group_text m 3 else []))))"

definition URLToProtocol :: "string \<Rightarrow> string" where
  "URLToProtocol URL =
     (case regex_match url_host_re URL of
        None \<Rightarrow> [] | Some m \<Rightarrow> group_text m 1)"

section \<open>Dotted quads\<close>

definition dot_group :: "string \<Rightarrow> bool" where
  "dot_group x \<longleftrightarrow> x = [] \<or> (\<exists>w. x = CHR ''.'' # w \<and> length w \<le> 3 \<and> list_all is_digit w)"

definition capture :: "nat \<Rightarrow> string \<Rightarrow> caps \<Rightarrow> caps" where
  "capture n x c = (if x = [] then c else c(n \<mapsto> x))"

lemma derives_dot_group:
  "derives (Opt (Grp n (Seq (Chr CHR ''.'') (Rep_upto 3 Digit)))) (s, c) (t, c') \<longleftrightarrow>
     (\<exists>x. s = x @ t \<and> dot_group x \<and> c' = capture n x c)"
proof -
  have "derives (Seq (Chr CHR ''.'') (Rep_upto 3 Digit)) (s, c) (t, c0) \<longleftrightarrow>
      (\<exists>w. s = CHR ''.'' # w @ t \<and> length w \<le> 3 \<and> list_all is_digit w) \<and> c0 = c" for c0
    unfolding derives_Seq split_paired_Ex derives_Cls derives_Rep_upto_Cls by auto
  then show ?thesis
    unfolding derives_Alt derives_Grp_word dot_group_def capture_def by auto
qed

lemma derives_ipv4:
  "derives ipv4_re (s, Map.empty) ([], c) \<longleftrightarrow>
     (\<exists>v x2 x3 x4. s = v @ x2 @ x3 @ x4 \<and> length v \<le> 3 \<and> list_all is_digit v \<and>
        dot_group x2 \<and> dot_group x3 \<and> dot_group x4 \<and>
        c = capture 4 x4 (capture 3 x3 (capture 2 x2 [1 \<mapsto> v])))"
  unfolding ipv4_re_def derives_Seq [of "Grp _ _"] derives_Seq [of "Alt _ _"] split_paired_Ex
    derives_Grp_Rep_upto_Cls derives_dot_group
  by (simp; blast)

lemma digits_no_dot: "list_all is_digit w \<Longrightarrow> CHR ''.'' \<notin> set w"
  by (auto simp: list_all_iff is_digit_def char_code_def)

lemma dots_append: "count_list (x @ y) d = count_list x d + count_list y d"
  by simp

lemma dots_digits: "list_all is_digit w \<Longrightarrow> count_list w CHR ''.'' = 0"
  using digits_no_dot by (simp add: count_list_0_iff)

lemma dots_group: "dot_group x \<Longrightarrow> count_list x CHR ''.'' = (if x = [] then 0 else 1)"
  by (auto simp: dot_group_def dots_digits)

abbreviation dotted :: "string \<Rightarrow> string \<Rightarrow> string \<Rightarrow> string \<Rightarrow> string" where
  "dotted a b c d \<equiv> a @ ''.'' @ b @ ''.'' @ c @ ''.'' @ d"

lemma ipv4_match:
  assumes "\<And>w. w \<in> {a, b, c, d} \<Longrightarrow> length w \<le> 3 \<and> list_all is_digit w"
  shows "regex_match ipv4_re (dotted a b c d) =
    Some [1 \<mapsto> a, 2 \<mapsto> CHR ''.'' # b, 3 \<mapsto> CHR ''.'' # c, 4 \<mapsto> CHR ''.'' # d]"
proof (rule regex_match_unique)
  show "derives ipv4_re (dotted a b c d, Map.empty)
     ([], [1 \<mapsto> a, 2 \<mapsto> CHR ''.'' # b, 3 \<mapsto> CHR ''.'' # c, 4 \<mapsto> CHR ''.'' # d])"
    unfolding derives_ipv4 using assms
    by (intro exI [of _ a] exI [of _ "CHR ''.'' # b"] exI [of _ "CHR ''.'' # c"]
        exI [of _ "CHR ''.'' # d"]) (simp add: dot_group_def capture_def)
next
  fix m
  assume "derives ipv4_re (dotted a b c d, Map.empty) ([], m)"
  then obtain v x2 x3 x4 where eq: "dotted a b c d = v @ x2 @ x3 @ x4" and v: "list_all is_digit v"
      and x: "dot_group x2" "dot_group x3" "dot_group x4"
      and m: "m = capture 4 x4 (capture 3 x3 (capture 2 x2 [1 \<mapsto> v]))"
    unfolding derives_ipv4 by blast
  have digits: "list_all is_digit a" "list_all is_digit b" "list_all is_digit c" "list_all is_digit d"
    using assms by blast+
  have "count_list (v @ x2 @ x3 @ x4) CHR ''.'' = 3"
    unfolding eq [symmetric] using digits by (simp add: dots_digits)
  then have "x2 \<noteq> [] \<and> x3 \<noteq> [] \<and> x4 \<noteq> []"
    using v x by (simp add: dots_digits dots_group split: if_splits)
  then obtain w2 w3 w4 where w: "x2 = CHR ''.'' # w2" "x3 = CHR ''.'' # w3" "x4 = CHR ''.'' # w4"
      "list_all is_digit w2" "list_all is_digit w3"
    using x by (auto simp: dot_group_def)
  have "a = v \<and> b = w2 \<and> c = w3 \<and> d = w4"
    using eq digits_no_dot [OF digits(1)] digits_no_dot [OF digits(2)] digits_no_dot [OF digits(3)]
      digits_no_dot [OF v] digits_no_dot [OF w(4)] digits_no_dot [OF w(5)]
    by (simp add: w(1-3) append_sep_eq)
  with m w show "m = [1 \<mapsto> a, 2 \<mapsto> CHR ''.'' # b, 3 \<mapsto> CHR ''.'' # c, 4 \<mapsto> CHR ''.'' # d]"
    by (simp add: capture_def)
qed

lemma hd_show_dec: "hd (show_dec n) = CHR ''0'' \<Longrightarrow> n = 0"
proof (induction n rule: show_dec.induct)
  case (1 n)
  show ?case
  proof (cases "n < 10")
    case True
    then have "digit_value (digit_char n) = n" by simp
    moreover have "digit_char n = digit_char 0" using 1 True by (simp add: show_dec.simps [of n])
    ultimately show ?thesis by (metis digit_value_char zero_less_numeral)
  next
    case False
    with 1 show ?thesis by (simp add: show_dec.simps [of n])
  qed
qed

lemma no_leading_zero: "find_from ''0'' (show_dec n) 0 = Some 0 \<Longrightarrow> length (show_dec n) \<le> 1"
  using hd_show_dec [of n] by (cases "show_dec n") (auto split: if_splits simp: show_dec.simps [of 0])

lemma digits_show_dec: "list_all is_digit (show_dec n)"
  by (simp add: list_all_iff show_dec_digits)

lemma valid_groups_step:
  assumes "m i = Some (if i > 1 then CHR ''.'' # show_dec n else show_dec n)" and "n < 1000"
  shows "valid_groups m (i # is) v \<longleftrightarrow> n \<le> 255 \<and> valid_groups m is n"
proof -
  have "extract_unsigned 32 (show_dec n) = n"
    using extract_show_dec [of n 32 "[]"] assms(2) by simp
  moreover have "\<not> (find_from ''0'' (show_dec n) 0 = Some 0 \<and> length (show_dec n) > 1)"
    using no_leading_zero [of n] by auto
  ultimately show ?thesis
    unfolding valid_groups.simps assms(1) by (auto simp only: Let_def option.case list.sel drop_Suc_Cons
        drop0 show_dec_not_Nil if_True if_False split: if_splits) simp_all
qed

section \<open>Colons in IPv6 addresses\<close>

lemma needs_colon_groups:
  "needs CHR '':'' (Chr CHR '':'')" "needs CHR '':'' xgroup_colon" "needs CHR '':'' colon_xgroup"
  unfolding xgroup_colon_def colon_xgroup_def
  by (intro needs_cls needs_right needs_left; simp)+

lemma ipv6_needs_colon: "needs CHR '':'' ipv6_re"
  unfolding ipv6_re_def eval_nat_numeral Rep.simps Lit.simps
  by (intro needs_alt; (rule needs_left needs_right)+; rule needs_colon_groups)

section \<open>Properties\<close>

text \<open>Four decimal numbers of up to three digits, written without leading zeros and separated
  by dots, are accepted as an IPv4 address exactly when none exceeds 255. The expression also
  admits empty groups, which keep the value of the group before: three dots are accepted.\<close>

lemma matchIPv4Address_quads:
  assumes "a < 1000" and "b < 1000" and "c < 1000" and "d < 1000"
  shows "(matchIPv4Address (dotted (show_dec a) (show_dec b) (show_dec c) (show_dec d)) \<longleftrightarrow>
      a \<le> 255 \<and> b \<le> 255 \<and> c \<le> 255 \<and> d \<le> 255) \<and>
    matchIPv4Address ''...''"
proof -
  have len: "n < 1000 \<Longrightarrow> length (show_dec n) \<le> 3" for n
    using length_show_dec [of n 2] by simp
  have "regex_match ipv4_re (dotted (show_dec a) (show_dec b) (show_dec c) (show_dec d)) =
      Some [1 \<mapsto> show_dec a, 2 \<mapsto> CHR ''.'' # show_dec b, 3 \<mapsto> CHR ''.'' # show_dec c,
            4 \<mapsto> CHR ''.'' # show_dec d]"
    by (rule ipv4_match) (use assms len digits_show_dec in auto)
  then have "matchIPv4Address (dotted (show_dec a) (show_dec b) (show_dec c) (show_dec d)) \<longleftrightarrow>
      a \<le> 255 \<and> b \<le> 255 \<and> c \<le> 255 \<and> d \<le> 255"
    using assms by (simp add: matchIPv4Address_def valid_groups_step del: valid_groups.simps(2))
  moreover have "regex_match ipv4_re (dotted [] [] [] []) =
      Some [1 \<mapsto> [], 2 \<mapsto> ''.'', 3 \<mapsto> ''.'', 4 \<mapsto> ''.'']"
    by (rule ipv4_match) simp
  then have "matchIPv4Address ''...''" by (simp add: matchIPv4Address_def)
  ultimately show ?thesis by blast
qed

text \<open>For an IPv6 address the port argument is without effect: the colons of the address are
  taken for the separator of a port, so none is appended and the address alone, in brackets,
  is converted.\<close>

lemma stringToIPAddress_ipv6_ignores_port:
  assumes "matchIPv6Address s"
  shows "stringToIPAddress string_to_addr no_address s portNumber =
    (case string_to_addr (''['' @ s @ '']'') False of None \<Rightarrow> no_address | Some a \<Rightarrow> a)"
proof -
  have "CHR '':'' \<in> set (''['' @ s @ '']'')"
    using assms needs_regex_match [OF ipv6_needs_colon] by (auto simp: matchIPv6Address_def)
  then obtain i where "find_last_char CHR '':'' (''['' @ s @ '']'') = Some i"
    using find_last_char_None [of "CHR '':''" "''['' @ s @ '']''"] by auto
  with assms show ?thesis by (simp add: stringToIPAddress_def address_string_def)
qed

lemma matchIPv6Address_any: "matchIPv6Address ''::''"
proof -
  have "derives (Seq (Chr CHR '':'') (Alt (Rng 6 colon_xgroup) (Chr CHR '':''))) (''::'', Map.empty) ([], Map.empty)"
    by (auto simp: derives_Seq derives_Alt derives_Cls)
  then have "derives ipv6_re (''::'', Map.empty) ([], Map.empty)"
    unfolding ipv6_re_def by (intro derives.alt_right derives.alt_left; assumption)
  then show ?thesis
    using regex_match_None_iff [of ipv6_re "''::''"] by (auto simp: matchIPv6Address_def)
qed

text \<open>A port is appended to the host name without the colon that separates the two.\<close>

lemma URLToHostName_joins_port: "URLToHostName ''ws://h:80/x'' False True = Inr ''h80''"
  by (simp add: URLToHostName_def regex_match_def url_host_re_def matches.simps(5) group_text_def
      char_class_defs char_code_def line_terminator_def eval_nat_numeral)

end
