(* ===== verification/Bittorrent_Tracker.thy ===== *)
theory Bittorrent_Tracker
  imports Bittorrent_Session Net_Addresses
begin

text \<open>
  A BitTorrent session towards its tracker (\<open>bittorrent_session.inl\<close>): the connections to it, its
  redirections and errors, and its response, which lists the peers to connect to. The threads that
  connect to these peers (\<open>bittorrent_session.cpp\<close>) end with \<open>setup_finished\<close>; what a connection does
  is in the theory \<open>Bittorrent_Session\<close>.

  Parameters: whether the connection manager of the tracker knows an identifier (\<open>tracker_found\<close>),
  whether \<open>ACE_INET_Addr::set\<close> accepts an address (\<open>set_ok\<close>), what the uninitialized port number holds,
  and whether the threads can be spawned.
\<close>

section \<open>Connections\<close>

text \<open>A connection to the tracker that is still there is aborted; it is disconnected later.\<close>

definition tracker_connect :: "session_env \<Rightarrow> (nat \<Rightarrow> bool) \<Rightarrow> nat \<Rightarrow> session \<Rightarrow> session run" where
  "tracker_connect env tracker_found id_in s =
     (let old = ss_trackerConnectionId s;
          s = (if old \<noteq> 0 \<and> tracker_found old then emit_event (Abort_tracker old) s else s) in
      run_bind (base_connect id_in (s\<lparr>ss_trackerConnectionId := id_in\<rparr>)) (\<lambda>s.
        Inr (tell_subscriber env (Tracker_connected id_in) s)))"

definition tracker_disconnect :: "session_env \<Rightarrow> nat \<Rightarrow> session \<Rightarrow> session run" where
  "tracker_disconnect env id_in s =
     run_bind (base_disconnect id_in s) (\<lambda>s.
     let s = (if ss_trackerConnectionId s = id_in then s\<lparr>ss_trackerConnectionId := 0\<rparr> else s) in
     run_bind
       (if ss_aborted s then Inr (emit_event Controller_cancelled s)
        else run_bind (isMissingPiece (ss_pieces s)) (\<lambda>missing_piece.
          Inr (if missing_piece \<and> ss_connections s = [] \<and> \<not> ss_connecting s
               then emit_event Controller_no_more_peers s else s)))
       (\<lambda>s. Inr (tell_subscriber env (Tracker_disconnected id_in) s)))"

definition tracker_redirect :: "string \<Rightarrow> session \<Rightarrow> session" where
  "tracker_redirect location = emit_event (Controller_redirected location)"

definition tracker_error :: "session_env \<Rightarrow> session \<Rightarrow> session" where
  "tracker_error env s = emit_event Controller_cancelled (tell_subscriber env Torrent_cancelled s)"

section \<open>Responses\<close>

definition compact_peers :: "string \<Rightarrow> tracker_peer list" where
  "compact_peers bytes = map (\<lambda>i. Compact_peer (take 6 (drop (6 * i) bytes))) [0..<length bytes div 6]"

definition textual_peer :: "string \<Rightarrow> u16 \<Rightarrow> tracker_peer" where
  "textual_peer ip port =
     (let v6 = matchIPv6Address ip in
      Textual_peer ((if v6 then ''['' @ ip @ '']'' else ip) @ '':'' @ show_dec (unat port)) v6)"

text \<open>The port number is declared in front of the loop: an entry without one uses that of the entry before.\<close>

fun listed_peers :: "(tracker_peer \<Rightarrow> bool) \<Rightarrow> u16 \<Rightarrow> bvalue list \<Rightarrow> tracker_peer list run" where
  "listed_peers set_ok port [] = Inr []"
| "listed_peers set_ok port (v # vs) =
     run_bind (get_dictionary v) (\<lambda>d.
     run_bind (case map_of d ''port'' of
                 None \<Rightarrow> Inr port
               | Some i \<Rightarrow> run_bind (get_integer i) (\<lambda>i. Inr (word_of_int i))) (\<lambda>port.
     run_bind (ace_assert (port \<noteq> 0)) (\<lambda>_.
     run_bind (case map_of d ''ip'' of
                 None \<Rightarrow> Inr []
               | Some a \<Rightarrow> run_bind (get_string a) (\<lambda>ip.
                   Inr (filter set_ok [textual_peer ip port]))) (\<lambda>found.
     run_bind (listed_peers set_ok port vs) (\<lambda>rest. Inr (found @ rest))))))"

text \<open>An address of the compact form that is not accepted ends the function, as no peers do.\<close>

definition tracker_peers :: "(tracker_peer \<Rightarrow> bool) \<Rightarrow> u16 \<Rightarrow> bvalue \<Rightarrow> tracker_peer list run" where
  "tracker_peers set_ok port v =
     (case v of
        BString bytes \<Rightarrow>
          run_bind (ace_assert (length bytes mod 6 = 0)) (\<lambda>_.
            Inr (if list_all set_ok (compact_peers bytes) then compact_peers bytes else []))
      | BList vs \<Rightarrow> listed_peers set_ok port vs
      | _ \<Rightarrow> Inr [])"

definition notify_tracker ::
    "(tracker_peer \<Rightarrow> bool) \<Rightarrow> u16 \<Rightarrow> bool \<Rightarrow> bdict \<Rightarrow> session \<Rightarrow> session run" where
  "notify_tracker set_ok stale_port spawned d s =
     (if map_of d ''files'' \<noteq> None then Inr (s\<lparr>ss_trackerScrapeResponse := Some d\<rparr>)
      else
        run_bind (case map_of d ''tracker id'' of None \<Rightarrow> Inr (ss_trackerId s) | Some v \<Rightarrow> get_string v) (\<lambda>tracker.
        run_bind (get_key ''interval'' d) (\<lambda>v.
        run_bind (get_integer v) (\<lambda>_.
        let s = s\<lparr>ss_trackerId := tracker, ss_trackerRequestResponse := Some d\<rparr> in
          case map_of d ''peers'' of
            None \<Rightarrow>
              (case map_of d ''failure reason'' of
                 None \<Rightarrow> Inl Out_of_bounds
               | Some v \<Rightarrow> run_bind (get_string v) (\<lambda>_. Inr (s\<lparr>ss_aborted := True\<rparr>)))
          | Some v \<Rightarrow>
              run_bind (tracker_peers set_ok stale_port v) (\<lambda>peers.
                Inr (if peers = [] then s
                     else if spawned then emit_event (Connect_to_peers peers) (s\<lparr>ss_connecting := True\<rparr>)
                     else s\<lparr>ss_connecting := False\<rparr>))))))"

text \<open>
  The handshake of a peer is compared with the response of the tracker: a difference of the peers'
  identifiers is only logged, but there has to be a response with peers.
\<close>

definition notify_handshake :: "session \<Rightarrow> session run" where
  "notify_handshake s =
     (case ss_trackerRequestResponse s of
        None \<Rightarrow> Inl Assertion_failed
      | Some d \<Rightarrow>
          (case map_of d ''peers'' of
             None \<Rightarrow> Inl Assertion_failed
           | Some (BDict peers) \<Rightarrow>
               (case map_of peers ''peer id'' of
                  None \<Rightarrow> Inl Assertion_failed
                | Some v \<Rightarrow> run_bind (get_string v) (\<lambda>_. Inr s))
           | Some _ \<Rightarrow> Inr s))"

definition setup_finished :: "session \<Rightarrow> session" where
  "setup_finished s = s\<lparr>ss_connecting := False\<rparr>"

section \<open>Lemmas\<close>

text \<open>The compact form: six octets a peer, in their order, nothing left over.\<close>

lemma compact_peers_concat:
  "concat (map (\<lambda>p. case p of Compact_peer b \<Rightarrow> b | Textual_peer t v6 \<Rightarrow> t) (compact_peers (concat bs))) = concat bs
     \<and> compact_peers (concat bs) = map Compact_peer bs"
  if "\<forall>b \<in> set bs. length b = 6"
proof -
  have len: "length (concat bs) = 6 * length bs"
    using that by (induction bs) auto
  have "take 6 (drop (6 * i) (concat bs)) = bs ! i" if "i < length bs" for i
    using that \<open>\<forall>b \<in> set bs. length b = 6\<close>
  proof (induction bs arbitrary: i)
    case (Cons b bs)
    then show ?case
      by (cases i) auto
  qed simp
  then have "compact_peers (concat bs) = map Compact_peer bs"
    by (auto simp: compact_peers_def len intro: nth_equalityI)
  then show ?thesis
    by (simp add: comp_def)
qed

text \<open>Handshakes change nothing, but they are not survived before the tracker has named peers.\<close>

lemma notify_handshake_same: "notify_handshake s = Inr s' \<Longrightarrow> s' = s"
  by (auto simp: notify_handshake_def elim: get_string.elims split: option.splits bvalue.splits)

text \<open>A response without peers and without a reason is not survived, and an entry without a port takes
  the port of the entry in front of it.\<close>

lemma response_without_reason:
  "map_of d ''files'' = None \<Longrightarrow> map_of d ''tracker id'' = None \<Longrightarrow> map_of d ''interval'' = Some (BInt i) \<Longrightarrow>
   map_of d ''peers'' = None \<Longrightarrow> map_of d ''failure reason'' = None \<Longrightarrow>
   notify_tracker set_ok stale_port spawned d s = Inl Out_of_bounds"
  by (simp add: notify_tracker_def get_key_def)

lemma listed_port_is_kept:
  assumes "\<And>p. set_ok p"
  shows "listed_peers set_ok stale
      [BDict [(''port'', BInt 80), (''ip'', BString ''a'')], BDict [(''ip'', BString ''b'')]] =
    Inr [textual_peer ''a'' 80, textual_peer ''b'' 80]"
  using assms by simp

end
