(* ===== verification/Bittorrent_Download.thy ===== *)
theory Bittorrent_Download
  imports Bittorrent_Tracker
begin

text \<open>
  A BitTorrent session seen as a download. The first parts are lemmas on the blocks of a piece, on the
  choice of requests and on the messages that leave the pieces alone. Then comes the refinement: the
  abstract state of a download is the set of the blocks that have arrived (\<open>delivered\<close>), \<open>progress\<close>
  relates it to the pieces, the disk and the announcements of a session, and each message
  (\<open>honest\<close>) takes one to the other. What is relied on is collected in \<open>torrent_ok\<close>:
  the contents of the pieces have the lengths and hashes the torrent gives for them, the disk
  behaves as \<open>files_env_ok\<close> says and holds nothing of the torrent yet. The numbers drawn at random
  are only assumed to lie below their bounds (\<open>valid_draw\<close>).
\<close>

section \<open>Blocks of a piece\<close>

text \<open>
  A peer is asked for blocks of at most 16384 bytes. \<open>is_block\<close>: the chunk is one of these blocks of
  the piece with content \<open>X\<close>.
\<close>

definition block_offsets :: "byte list \<Rightarrow> nat set" where
  "block_offsets X = {i. i mod 16384 = 0 \<and> i < length X}"

definition is_block :: "byte list \<Rightarrow> chunk \<Rightarrow> bool" where
  "is_block X c \<longleftrightarrow> unat (chunk_offset c) \<in> block_offsets X
     \<and> concat (chunk_data c) = take 16384 (drop (unat (chunk_offset c)) X)"

definition offsets :: "chunk list \<Rightarrow> nat set" where
  "offsets cs = (\<lambda>c. unat (chunk_offset c)) ` set cs"

definition blocks_from :: "byte list \<Rightarrow> nat \<Rightarrow> chunk list \<Rightarrow> bool" where
  "blocks_from X a cs \<longleftrightarrow> (\<forall>c \<in> set cs. is_block X c \<and> a \<le> unat (chunk_offset c))
     \<and> sorted_wrt (\<lambda>c d. chunk_offset c < chunk_offset d) cs"

lemma chunks_bytes_simps [simp]:
  "chunks_bytes [] = []" "chunks_bytes (c # cs) = concat (chunk_data c) @ chunks_bytes cs"
  by (simp_all add: chunks_bytes_def)

lemma offsets_simps [simp]:
  "offsets [] = {}" "offsets (c # cs) = insert (unat (chunk_offset c)) (offsets cs)"
  by (simp_all add: offsets_def)

lemma is_blockD:
  assumes "is_block X c"
  shows "chunk_data c \<noteq> []" "chunk_end c \<le> length X"
    "chunk_end c = min (length X) (unat (chunk_offset c) + 16384)"
    "length (concat (chunk_data c)) = min 16384 (length X - unat (chunk_offset c))"
proof -
  have len: "length (concat (chunk_data c)) = min 16384 (length X - unat (chunk_offset c))"
    and less: "unat (chunk_offset c) < length X"
    using assms by (simp_all add: is_block_def block_offsets_def)
  then show "chunk_data c \<noteq> []" "chunk_end c \<le> length X"
      "chunk_end c = min (length X) (unat (chunk_offset c) + 16384)"
      "length (concat (chunk_data c)) = min 16384 (length X - unat (chunk_offset c))"
    by (auto simp: chunk_end_def total_length_concat)
qed

lemma mod_16384_gap: "m mod 16384 = 0 \<Longrightarrow> n mod 16384 = 0 \<Longrightarrow> (m :: nat) < n \<Longrightarrow> m + 16384 \<le> n"
  by (auto simp: mod_eq_0_iff_dvd elim!: dvdE)

lemma block_ends:
  assumes "is_block X c" "is_block X d" "chunk_offset c < chunk_offset d"
  shows "chunk_end c \<le> unat (chunk_offset d)"
proof -
  have "unat (chunk_offset c) + 16384 \<le> unat (chunk_offset d)"
    by (rule mod_16384_gap) (use assms in \<open>simp_all add: is_block_def block_offsets_def word_less_nat_alt\<close>)
  with is_blockD(3) [OF assms(1)] show ?thesis
    by simp
qed

lemma blocks_from_wf:
  assumes "blocks_from X a cs" "length X = unat plen"
  shows "chunks_wf plen cs"
  using assms(1) unfolding blocks_from_def chunks_wf_def list_all_iff assms(2) [symmetric]
  by (auto intro: is_blockD(2) block_ends sorted_wrt_mono_rel [rotated])

lemma blocks_from_ConsD:
  assumes "blocks_from X a (c # cs)" "a mod 16384 = 0"
  shows "is_block X c" "a \<le> unat (chunk_offset c)" "unat (chunk_offset c) mod 16384 = 0"
    "blocks_from X (unat (chunk_offset c) + 16384) cs"
proof -
  show c: "is_block X c" "a \<le> unat (chunk_offset c)" "unat (chunk_offset c) mod 16384 = 0"
    using assms by (auto simp: blocks_from_def is_block_def block_offsets_def)
  have "unat (chunk_offset c) + 16384 \<le> unat (chunk_offset d)" if "d \<in> set cs" for d
    by (rule mod_16384_gap)
      (use that assms in \<open>auto simp: blocks_from_def is_block_def block_offsets_def word_less_nat_alt\<close>)
  with assms show "blocks_from X (unat (chunk_offset c) + 16384) cs"
    by (auto simp: blocks_from_def)
qed

text \<open>Blocks hold the rest of the piece if all are there, and are shorter if one is missing.\<close>

lemma all_blocks_bytes:
  "blocks_from X a cs \<Longrightarrow> a mod 16384 = 0 \<Longrightarrow> {i \<in> block_offsets X. a \<le> i} \<subseteq> offsets cs \<Longrightarrow>
   chunks_bytes cs = drop a X"
proof (induction cs arbitrary: a)
  case Nil
  then have "a \<notin> block_offsets X"
    by auto
  with Nil show ?case
    by (simp add: block_offsets_def)
next
  case (Cons c cs)
  note D = blocks_from_ConsD [OF Cons.prems(1,2)]
  have rest: "\<forall>i \<in> offsets cs. unat (chunk_offset c) + 16384 \<le> i"
    using D(4) by (auto simp: blocks_from_def offsets_def)
  have "a \<in> block_offsets X"
    using D(1,2) Cons.prems(2) by (auto simp: is_block_def block_offsets_def)
  then have "a \<in> offsets (c # cs)"
    using Cons.prems(3) by blast
  with rest D(2) have a: "unat (chunk_offset c) = a"
    by auto
  have "chunks_bytes cs = drop (a + 16384) X"
    using Cons.prems(2,3) D(4) by (intro Cons.IH) (auto simp: a)
  then have "chunks_bytes (c # cs) = take 16384 (drop a X) @ drop 16384 (drop a X)"
    using D(1) by (simp add: is_block_def a add.commute)
  then show ?case
    by (simp only: append_take_drop_id)
qed

lemma blocks_length:
  "blocks_from X a cs \<Longrightarrow> a mod 16384 = 0 \<Longrightarrow> length (chunks_bytes cs) \<le> length X - a"
proof (induction cs arbitrary: a)
  case (Cons c cs)
  note D = blocks_from_ConsD [OF Cons.prems]
  have "length (chunks_bytes cs) \<le> length X - (unat (chunk_offset c) + 16384)"
    by (rule Cons.IH) (use D in simp_all)
  with D(2) is_blockD(4) [OF D(1)] show ?case
    by simp
qed simp

lemma missing_block_bytes:
  "blocks_from X a cs \<Longrightarrow> a mod 16384 = 0 \<Longrightarrow> i \<in> block_offsets X \<Longrightarrow> a \<le> i \<Longrightarrow> i \<notin> offsets cs \<Longrightarrow>
   length (chunks_bytes cs) < length X - a"
proof (induction cs arbitrary: a)
  case (Cons c cs)
  note D = blocks_from_ConsD [OF Cons.prems(1,2)]
  have less: "unat (chunk_offset c) < length X" "i < length X"
    using D(1) Cons.prems(3) by (simp_all add: is_block_def block_offsets_def)
  show ?case
  proof (cases "unat (chunk_offset c) < i")
    case True
    have "unat (chunk_offset c) + 16384 \<le> i"
      by (rule mod_16384_gap) (use True D(3) Cons.prems(3) in \<open>simp_all add: block_offsets_def\<close>)
    then have "length (chunks_bytes cs) < length X - (unat (chunk_offset c) + 16384)"
      by (intro Cons.IH) (use D Cons.prems in simp_all)
    with D(2) is_blockD(4) [OF D(1)] show ?thesis
      by simp
  next
    case False
    with Cons.prems(4,5) have "a < unat (chunk_offset c)"
      by simp
    moreover have "length (chunks_bytes cs) \<le> length X - (unat (chunk_offset c) + 16384)"
      by (rule blocks_length) (use D in simp_all)
    ultimately show ?thesis
      using less is_blockD(4) [OF D(1)] by simp
  qed
qed (simp add: block_offsets_def)

lemma chunksLength_bytes: "chunksLength cs = word_of_nat (length (chunks_bytes cs))"
proof (induction cs)
  case (Cons c cs)
  then show ?case
    by (simp add: chunkLength_def total_length_concat)
qed (simp add: chunksLength_def)

lemma blocks_complete:
  assumes "blocks_from X 0 cs" "length X = unat plen"
  shows "isPieceComplete plen cs = Inr (block_offsets X \<subseteq> offsets cs)"
    and "block_offsets X \<subseteq> offsets cs \<Longrightarrow> chunks_bytes cs = X"
proof -
  show bytes: "chunks_bytes cs = X" if "block_offsets X \<subseteq> offsets cs"
    using all_blocks_bytes [of X 0 cs] assms(1) that by auto
  have "list_all (\<lambda>c. chunk_data c \<noteq> []) cs"
    using assms(1) is_blockD(1) by (auto simp: blocks_from_def list_all_iff)
  moreover have "plen = chunksLength cs \<longleftrightarrow> block_offsets X \<subseteq> offsets cs"
  proof (cases "block_offsets X \<subseteq> offsets cs")
    case True
    then show ?thesis
      by (simp add: chunksLength_bytes bytes assms(2))
  next
    case False
    then obtain i where i: "i \<in> block_offsets X" "i \<notin> offsets cs"
      by blast
    have less: "length (chunks_bytes cs) < unat plen"
      using missing_block_bytes [OF assms(1) _ i(1) _ i(2)] assms(2) by simp
    then have "unat (chunksLength cs) = length (chunks_bytes cs)"
      unfolding chunksLength_bytes
      by (intro unat_of_nat_u32 order.strict_trans [OF _ unat_less_32 [of plen]])
    with less False show ?thesis
      by auto
  qed
  ultimately show "isPieceComplete plen cs = Inr (block_offsets X \<subseteq> offsets cs)"
    by (simp add: isPieceComplete_eq)
qed

text \<open>A block more: whatever it was, \<open>sanitizeChunks\<close> leaves each block once.\<close>

lemma sanitizeChunks_blocks:
  assumes "\<forall>c \<in> set cs. is_block X c" "length X = unat (plen :: u32)"
  shows "\<exists>cs'. sanitizeChunks cs = Inr cs' \<and> blocks_from X 0 cs' \<and> offsets cs' = offsets cs"
proof (rule sanitizeChunks_cases)
  fix c ds
  assume srt: "chunks_sorted (c # ds)" and set_eq: "set (c # ds) = set cs"
  have blocks: "\<forall>x \<in> set (c # ds). is_block X x"
    using assms(1) unfolding set_eq .
  have ends: "\<forall>x \<in> set (c # ds). chunk_data x \<noteq> [] \<and> chunk_end x \<le> unat plen"
    using blocks is_blockD(1,2) [of X] assms(2) by auto
  obtain cs' where cs': "merge_chunks c ds = Inr cs'" "chunks_wf plen cs'"
      "chunk_offset ` set cs' = chunk_offset ` set (c # ds)"
    using merge_chunks_wf [OF srt ends] by blast
  have "\<forall>x \<in> set (c # ds). chunk_data x \<noteq> [] \<and> chunk_end x < 2 ^ 32"
    using ends unat_less_32 [of plen] by (auto intro: le_less_trans)
  moreover have "\<forall>x \<in> set (c # ds). \<forall>y \<in> set (c # ds).
      chunk_offset x < chunk_offset y \<longrightarrow> chunk_end x \<le> unat (chunk_offset y)"
    using blocks block_ends by blast
  ultimately have "set cs' \<subseteq> set (c # ds)"
    using merge_chunks_only_duplicates [OF srt] cs'(1) by auto
  with blocks cs'(2) have "blocks_from X 0 cs'"
    by (auto simp: blocks_from_def chunks_wf_def intro: sorted_wrt_mono_rel [rotated])
  moreover have "offsets cs' = unat ` chunk_offset ` set cs" if "chunk_offset ` set cs' = chunk_offset ` set cs"
    unfolding that [symmetric] by (auto simp: offsets_def)
  ultimately show "\<exists>cs'. merge_chunks c ds = Inr cs' \<and> blocks_from X 0 cs' \<and> offsets cs' = offsets cs"
    using cs'(1,3) unfolding set_eq by (auto simp: offsets_def)
qed (simp add: blocks_from_def)

section \<open>The choice of the next request\<close>

definition has_piece :: "byte list \<Rightarrow> nat \<Rightarrow> bool" where
  "has_piece bitfield i \<longleftrightarrow> bit (bitfield ! (i div 8)) (7 - i mod 8)"

definition valid_draw :: "(nat \<Rightarrow> nat) \<Rightarrow> bool" where
  "valid_draw draw \<longleftrightarrow> (\<forall>n > 0. draw n < n)"

definition accounted :: "piece \<Rightarrow> bool" where
  "accounted p \<longleftrightarrow> piece_ok p \<and> (piece_onDisk p \<or> chunks_wf (piece_length p) (piece_chunks p))"

text \<open>The pieces to ask a peer for: not complete here, and the peer has them.\<close>

definition wanted :: "piece list \<Rightarrow> byte list \<Rightarrow> nat set" where
  "wanted ps bitfield = {i. i < length ps \<and> \<not> piece_complete (ps ! i) \<and> has_piece bitfield i}"

lemma havePiece_has_piece:
  "i < 8 * length bitfield \<Longrightarrow> i < 2 ^ 32 \<Longrightarrow> havePiece (word_of_nat i) bitfield = Inr (has_piece bitfield i)"
  using havePiece_eq [of "word_of_nat i" bitfield] by (simp add: has_piece_def unat_of_nat)

lemma hasMissingPiece_loop_eq:
  "list_all piece_ok ps \<Longrightarrow> k + length ps \<le> 8 * length bitfield \<Longrightarrow> k + length ps < 2 ^ 32 \<Longrightarrow>
   hasMissingPiece_loop ps (word_of_nat k) bitfield =
     Inr (\<exists>i < length ps. \<not> piece_complete (ps ! i) \<and> has_piece bitfield (k + i))"
proof (induction ps arbitrary: k)
  case (Cons p ps)
  have "(word_of_nat k :: u32) + 1 = word_of_nat (Suc k)"
    by simp
  with Cons.IH [of "Suc k"] Cons.prems
  have "hasMissingPiece_loop ps (word_of_nat k + 1) bitfield =
      Inr (\<exists>i < length ps. \<not> piece_complete (ps ! i) \<and> has_piece bitfield (Suc k + i))"
    by (simp only:) simp
  with Cons.prems show ?case
    by (simp add: Ex_less_Suc2 piece_ok_def piece_complete_def isPieceComplete_eq havePiece_has_piece)
qed simp

lemma hasMissingPiece_wanted:
  assumes "list_all piece_ok ps" "length ps \<le> 8 * length bitfield" "length ps < 2 ^ 32"
  shows "hasMissingPiece ps bitfield = Inr (wanted ps bitfield \<noteq> {})"
  using hasMissingPiece_loop_eq [OF assms(1), of 0 bitfield] assms(2,3)
  by (auto simp: hasMissingPiece_def wanted_def)

lemma doesnt_have_loop_eq:
  "k + n \<le> 8 * length bitfield \<Longrightarrow> k + n < 2 ^ 32 \<Longrightarrow>
   doesnt_have_loop n (word_of_nat k) bitfield =
     Inr (map word_of_nat (filter (\<lambda>i. \<not> has_piece bitfield i) [k..<k + n]))"
proof (induction n arbitrary: k)
  case (Suc n)
  have "(word_of_nat k :: u32) + 1 = word_of_nat (Suc k)"
    by simp
  moreover have "[k..<k + Suc n] = k # [Suc k..<Suc k + n]"
    by (subst upt_conv_Cons) simp_all
  moreover have "doesnt_have_loop n (word_of_nat (Suc k)) bitfield =
      Inr (map word_of_nat (filter (\<lambda>i. \<not> has_piece bitfield i) [Suc k..<Suc k + n]))"
    using Suc.prems by (intro Suc.IH) simp_all
  ultimately show ?case
    using Suc.prems by (simp add: havePiece_has_piece del: upt_Suc of_nat_Suc)
qed simp

lemma candidates_eq:
  assumes "list_all piece_ok ps" "length ps \<le> 8 * length bitfield" "length ps < 2 ^ 32"
  shows "\<exists>missing doesnt_have. getPieceIndexes ps True = Inr missing
    \<and> doesnt_have_loop (length ps) 0 bitfield = Inr doesnt_have
    \<and> filter (\<lambda>i. i \<notin> set doesnt_have) missing =
        map word_of_nat (filter (\<lambda>i. i \<in> wanted ps bitfield) [0..<length ps])"
proof -
  let ?missing = "filter (\<lambda>i. \<not> piece_complete (ps ! i)) [0..<length ps]"
  let ?doesnt = "map word_of_nat (filter (\<lambda>i. \<not> has_piece bitfield i) [0..<length ps]) :: u32 list"
  have "(word_of_nat i :: u32) \<in> set ?doesnt \<longleftrightarrow> \<not> has_piece bitfield i" if "i < length ps" for i
    using that assms(3) by (auto dest!: arg_cong [where f = unat] simp: unat_of_nat)
  then have "filter (\<lambda>i. i \<notin> set ?doesnt) (map word_of_nat ?missing) =
      map word_of_nat (filter (\<lambda>i. i \<in> wanted ps bitfield) [0..<length ps])"
    unfolding filter_map filter_filter comp_def wanted_def
    by (intro arg_cong [where f = "map _"] filter_cong) auto
  moreover have "getPieceIndexes ps True = Inr (map word_of_nat ?missing)"
    using getPieceIndexes_loop_eq [OF assms(1), of True 0]
    by (simp add: getPieceIndexes_def)
  ultimately show ?thesis
    using doesnt_have_loop_eq [of 0 "length ps" bitfield] assms(2,3) by simp
qed

text \<open>A gapless piece is complete, so an incomplete one has something to ask for.\<close>

lemma prefix_end_full:
  "chunks_wf plen cs \<Longrightarrow> \<forall>c \<in> set cs. offset \<le> chunk_offset c \<Longrightarrow> prefix_end offset cs = plen \<Longrightarrow>
   offset + chunksLength cs = plen"
proof (induction cs arbitrary: offset)
  case (Cons c cs)
  note wf = chunks_wf_ConsD [OF Cons.prems(1)]
  have le: "chunk_offset c \<le> plen"
    using wf(3) by (simp add: chunk_end_def word_le_nat_alt)
  show ?case
  proof (cases "chunk_offset c = offset")
    case True
    have "\<forall>d \<in> set cs. chunk_offset c + chunkLength c \<le> chunk_offset d"
      using wf(2,4) by (simp add: word_le_nat_alt)
    with Cons.IH [OF wf(1), of "chunk_offset c + chunkLength c"] Cons.prems(3) True show ?thesis
      by (simp add: add.assoc)
  next
    case False
    with Cons.prems(2,3) le show ?thesis
      by simp
  qed
qed (simp add: chunksLength_def)

lemma tiles_member:
  "tiles a b rs \<Longrightarrow> r \<in> set rs \<Longrightarrow>
   a \<le> unat (req_begin r) \<and> unat (req_begin r) + unat (req_length r) \<le> b \<and> req_length r \<noteq> 0
   \<and> req_length r \<le> BLOCK_LENGTH_MAX"
proof (induction rs arbitrary: a)
  case (Cons q rs)
  then show ?case
    using tiles_le [of "a + unat (req_length q)" b rs] by (fastforce simp: word_gt_0)
qed simp

text \<open>A request lies in the part of the piece behind the gapless run of received chunks.\<close>

definition useful_request :: "piece \<Rightarrow> request \<Rightarrow> bool" where
  "useful_request p r \<longleftrightarrow>
     unat (prefix_end 0 (piece_chunks p)) \<le> unat (req_begin r)
     \<and> unat (req_begin r) + unat (req_length r) \<le> unat (piece_length p)
     \<and> req_length r \<noteq> 0 \<and> req_length r \<le> BLOCK_LENGTH_MAX"

lemma getMissingChunks_useful:
  assumes "accounted p" "\<not> piece_complete p"
  shows "\<exists>rs. getMissingChunks (piece_length p) (piece_chunks p) = Inr rs \<and> rs \<noteq> []
    \<and> (\<forall>r \<in> set rs. useful_request p r)"
proof -
  have wf: "chunks_wf (piece_length p) (piece_chunks p)" and len: "piece_length p \<noteq> chunksLength (piece_chunks p)"
    using assms by (auto simp: accounted_def piece_complete_def)
  obtain rs where rs: "getMissingChunks (piece_length p) (piece_chunks p) = Inr rs"
      "tiles (unat (prefix_end 0 (piece_chunks p))) (unat (piece_length p)) rs"
    using getMissingChunks_spec [OF wf] by blast
  moreover have "rs \<noteq> []"
    using rs(2) prefix_end_full [OF wf, of 0] len by (auto simp flip: word_unat_eq_iff)
  moreover have "\<forall>r \<in> set rs. useful_request p r"
    using tiles_member [OF rs(2)] by (simp add: useful_request_def)
  ultimately show ?thesis
    by blast
qed

lemma pick_valid: "valid_draw draw \<Longrightarrow> xs \<noteq> [] \<Longrightarrow> \<exists>x \<in> set xs. pick draw xs = Inr x"
  by (auto simp: valid_draw_def pick_def)

definition request_event :: "nat \<Rightarrow> u32 \<Rightarrow> request \<Rightarrow> session_event" where
  "request_event id_in i r =
     Sent id_in (new_record\<lparr>rec_type := MESSAGETYPE_REQUEST, rec_payload := Request i (req_begin r) (req_length r)\<rparr>) []"

lemma requestNextPiece_cases:
  assumes "\<forall>p \<in> set (ss_pieces s). accounted p" "length (ss_pieces s) < 2 ^ 32" "valid_draw draw" "valid_draw draw_2"
    and "id_in \<noteq> 0" "connectionIdToPeerAddress env id_in = Inr a" "ss_peerState s a = Some peer"
    and "length (ss_pieces s) \<le> 8 * length (ps_pieces peer)"
  shows "wanted (ss_pieces s) (ps_pieces peer) = {} \<Longrightarrow> requestNextPiece env draw draw_2 id_in s =
      Inr (False, interested env id_in False
        (set_peer a (peer\<lparr>ps_status := (ps_status peer)\<lparr>am_interested := False\<rparr>\<rparr>) s))" (is "?none \<Longrightarrow> ?no")
    and "wanted (ss_pieces s) (ps_pieces peer) \<noteq> {} \<Longrightarrow>
      \<exists>i \<in> wanted (ss_pieces s) (ps_pieces peer). \<exists>r. useful_request (ss_pieces s ! i) r
        \<and> requestNextPiece env draw draw_2 id_in s =
            Inr (True, send_to env id_in (request_event id_in (word_of_nat i) r) s)" (is "?some \<Longrightarrow> ?yes")
proof -
  let ?ps = "ss_pieces s" and ?w = "wanted (ss_pieces s) (ps_pieces peer)"
  have ok: "list_all piece_ok ?ps"
    using assms(1) by (simp add: accounted_def list_all_iff)
  note start = assms(6,7) hasMissingPiece_wanted [OF ok assms(8,2)]
  show "?none \<Longrightarrow> ?no"
    by (simp add: requestNextPiece_def start find_peer_def change_status_def)
  assume some: ?some
  then have ne: "?ps \<noteq> []" "filter (\<lambda>i. i \<in> ?w) [0..<length ?ps] \<noteq> []"
    by (auto simp: wanted_def filter_empty_conv)
  obtain missing doesnt_have where lists: "getPieceIndexes ?ps True = Inr missing"
      "doesnt_have_loop (length ?ps) 0 (ps_pieces peer) = Inr doesnt_have"
      "filter (\<lambda>i. i \<notin> set doesnt_have) missing = map word_of_nat (filter (\<lambda>i. i \<in> ?w) [0..<length ?ps])"
    using candidates_eq [OF ok assms(8,2)] by blast
  obtain i where i: "i \<in> ?w" "pick draw (filter (\<lambda>i. i \<notin> set doesnt_have) missing) = Inr (word_of_nat i)"
    using pick_valid [OF assms(3), of "map word_of_nat (filter (\<lambda>i. i \<in> ?w) [0..<length ?ps]) :: u32 list"] ne(2)
    unfolding lists(3) by auto
  then have at: "unat (word_of_nat i :: u32) = i" "i < length ?ps" "\<not> piece_complete (?ps ! i)"
    using assms(2) by (simp_all add: wanted_def unat_of_nat)
  obtain rs where rs: "getMissingChunks (piece_length (?ps ! i)) (piece_chunks (?ps ! i)) = Inr rs" "rs \<noteq> []"
      "\<forall>r \<in> set rs. useful_request (?ps ! i) r"
    using getMissingChunks_useful [of "?ps ! i"] assms(1) at(2,3) by auto
  obtain r where r: "pick draw_2 rs = Inr r" "useful_request (?ps ! i) r"
    using pick_valid [OF assms(4) rs(2)] rs(3) by blast
  moreover have "filter (\<lambda>i. i \<notin> set doesnt_have) missing \<noteq> []"
    using lists(3) ne(2) by simp
  ultimately have "requestNextPiece env draw draw_2 id_in s =
      Inr (True, send_to env id_in (request_event id_in (word_of_nat i) r) s)"
    using some ne(1) assms(5)
    by (simp add: requestNextPiece_def start find_peer_def lists(1,2) i(2) at(1) rs(1,2) Let_def
        request_piece_def request_event_def useful_request_def)
  with i(1) r(2) show ?yes
    by blast
qed

section \<open>Operations that leave pieces and disk alone\<close>

definition completions :: "session \<Rightarrow> nat" where
  "completions s = count_list (ss_events s) Controller_complete"

definition peers_kept :: "nat \<Rightarrow> session \<Rightarrow> session \<Rightarrow> bool" where
  "peers_kept n s s' \<longleftrightarrow>
     (\<forall>a peer. ss_peerState s a = Some peer \<and> n \<le> 8 * length (ps_pieces peer)
        \<longrightarrow> (\<exists>peer'. ss_peerState s' a = Some peer' \<and> n \<le> 8 * length (ps_pieces peer')))"

definition quiet :: "nat \<Rightarrow> session \<Rightarrow> session \<Rightarrow> bool" where
  "quiet n s s' \<longleftrightarrow> ss_pieces s' = ss_pieces s \<and> ss_disk s' = ss_disk s \<and> completions s' = completions s
     \<and> peers_kept n s s'"

definition stays :: "nat \<Rightarrow> session \<Rightarrow> session run \<Rightarrow> bool" where
  "stays n s m \<longleftrightarrow> (\<exists>s'. m = Inr s' \<and> quiet n s s')"

text \<open>The peer behind a connection, with a bit field for all pieces.\<close>

definition peer_known :: "session_env \<Rightarrow> nat \<Rightarrow> nat \<Rightarrow> u32 \<Rightarrow> session \<Rightarrow> bool" where
  "peer_known env n id_in a s \<longleftrightarrow> id_in \<noteq> 0 \<and> connectionIdToPeerAddress env id_in = Inr a
     \<and> (\<exists>peer. ss_peerState s a = Some peer \<and> n \<le> 8 * length (ps_pieces peer))"

lemma completions_simps [simp]:
  "completions (s\<lparr>ss_pieces := ps\<rparr>) = completions s" "completions (s\<lparr>ss_disk := fs\<rparr>) = completions s"
  "completions (s\<lparr>ss_peerState := m\<rparr>) = completions s"
  "completions (emit_event e s) = completions s + (if e = Controller_complete then 1 else 0)"
  by (simp_all add: completions_def emit_event_def)

lemma emit_event_simps [simp]:
  "ss_pieces (emit_event e s) = ss_pieces s" "ss_disk (emit_event e s) = ss_disk s"
  "ss_peerState (emit_event e s) = ss_peerState s" "ss_connections (emit_event e s) = ss_connections s"
  "ss_trackerConnectionId (emit_event e s) = ss_trackerConnectionId s"
  by (simp_all add: emit_event_def)

lemma peers_kept_same: "ss_peerState s' = ss_peerState s \<Longrightarrow> peers_kept n s s'"
  by (simp add: peers_kept_def)

lemma quiet_refl [simp]: "quiet n s s"
  by (simp add: quiet_def peers_kept_def)

lemma quiet_trans [trans]: "quiet n s s' \<Longrightarrow> quiet n s' s'' \<Longrightarrow> quiet n s s''"
  unfolding quiet_def peers_kept_def by metis

lemma quiet_emit_event [simp]: "e \<noteq> Controller_complete \<Longrightarrow> quiet n s (emit_event e s)"
  by (simp add: quiet_def peers_kept_same)

lemma quiet_send_to [simp]: "e \<noteq> Controller_complete \<Longrightarrow> quiet n s (send_to env id_in e s)"
  by (simp add: send_to_def)

lemma quiet_tell_subscriber [simp]: "e \<noteq> Controller_complete \<Longrightarrow> quiet n s (tell_subscriber env e s)"
  by (simp add: tell_subscriber_def)

lemma quiet_interested [simp]: "quiet n s (interested env id_in b s)"
  by (simp add: interested_def)

lemma quiet_choke [simp]: "quiet n s (choke env id_in b s)"
  by (simp add: choke_def)

lemma quiet_have_loop: "quiet n s (have_loop env i ids s)"
  by (induction env i ids s rule: have_loop.induct) (auto intro: quiet_trans [OF quiet_emit_event])

lemma quiet_have_piece [simp]: "quiet n s (have_piece env i s)"
  by (simp add: have_piece_def quiet_have_loop)

lemma quiet_set_peer: "n \<le> 8 * length (ps_pieces peer) \<Longrightarrow> quiet n s (set_peer a peer s)"
  by (auto simp: quiet_def peers_kept_def set_peer_def)

lemma stays_Inr [simp]: "stays n s (Inr s') \<longleftrightarrow> quiet n s s'"
  by (simp add: stays_def)

lemma stays_bind:
  assumes "stays n s m" "\<And>s'. quiet n s s' \<Longrightarrow> stays n s' (f s')"
  shows "stays n s (run_bind m f)"
  using assms quiet_trans unfolding stays_def by fastforce

lemma peer_known_quiet: "peer_known env n id_in a s \<Longrightarrow> quiet n s s' \<Longrightarrow> peer_known env n id_in a s'"
  by (auto simp: peer_known_def quiet_def peers_kept_def)

lemma peer_knownE:
  assumes "peer_known env n id_in a s"
  obtains peer where "find_peer a s = Inr peer" "ss_peerState s a = Some peer" "n \<le> 8 * length (ps_pieces peer)"
  using assms by (auto simp: peer_known_def find_peer_def)

lemma stays_change_status: "peer_known env n id_in a s \<Longrightarrow> stays n s (change_status a f s)"
  by (elim peer_knownE) (simp add: change_status_def quiet_set_peer)

lemma stays_request_and_count:
  assumes "\<forall>p \<in> set (ss_pieces s). accounted p" "length (ss_pieces s) < 2 ^ 32" "valid_draw draw" "valid_draw draw_2"
    and "peer_known env (length (ss_pieces s)) id_in a s"
  shows "stays (length (ss_pieces s)) s (request_and_count env draw draw_2 id_in a s)"
proof -
  let ?n = "length (ss_pieces s)"
  obtain peer where peer: "ss_peerState s a = Some peer" "?n \<le> 8 * length (ps_pieces peer)"
    using assms(5) by (rule peer_knownE)
  have id_in: "id_in \<noteq> 0" "connectionIdToPeerAddress env id_in = Inr a"
    using assms(5) by (simp_all add: peer_known_def)
  note cases = requestNextPiece_cases [OF assms(1-4) id_in peer]
  have "\<exists>b s'. requestNextPiece env draw draw_2 id_in s = Inr (b, s') \<and> quiet ?n s s'"
  proof (cases "wanted (ss_pieces s) (ps_pieces peer) = {}")
    case True
    have "quiet ?n s (interested env id_in False
        (set_peer a (peer\<lparr>ps_status := (ps_status peer)\<lparr>am_interested := False\<rparr>\<rparr>) s))"
      using peer(2) by (intro quiet_trans [OF quiet_set_peer quiet_interested]) simp
    with cases(1) [OF True] show ?thesis
      by blast
  next
    case False
    with cases(2) show ?thesis
      by (fastforce simp: request_event_def)
  qed
  then obtain b s' where run: "requestNextPiece env draw draw_2 id_in s = Inr (b, s')" "quiet ?n s s'"
    by blast
  then have "stays ?n s' (count_request a b s')"
    using assms(5) by (auto simp: count_request_def intro: stays_change_status peer_known_quiet)
  with run show ?thesis
    by (auto simp: request_and_count_def stays_def intro: quiet_trans)
qed

lemma length_set_have_bit: "set_have_bit i bitfield = Inr bitfield' \<Longrightarrow> length bitfield' = length bitfield"
  by (auto simp: set_have_bit_def Let_def split: if_splits)

lemma set_have_bit_ok: "unat i < 8 * length bitfield \<Longrightarrow> \<exists>bitfield'. set_have_bit i bitfield = Inr bitfield'"
  by (auto simp: set_have_bit_def Let_def unat_div)

lemma notice_pieces_stays:
  assumes "\<forall>p \<in> set (ss_pieces s). accounted p" "length (ss_pieces s) < 2 ^ 32"
    and "length (ss_pieces s) \<le> 8 * length (ps_pieces peer)"
  shows "\<exists>b s'. notice_pieces env id_in a peer s = Inr (b, s') \<and> quiet (length (ss_pieces s)) s s'"
proof -
  have "list_all piece_ok (ss_pieces s)"
    using assms(1) by (simp add: accounted_def list_all_iff)
  note missing = hasMissingPiece_wanted [OF this assms(3,2)]
  show ?thesis
    using assms(3) by (auto simp: notice_pieces_def missing intro!: quiet_set_peer quiet_trans [OF quiet_set_peer quiet_interested])
qed

text \<open>A message other than \<open>REQUEST\<close> and \<open>PIECE\<close> that stays within the torrent.\<close>

definition harmless :: "nat \<Rightarrow> peer_record \<Rightarrow> bool" where
  "harmless n r \<longleftrightarrow> rec_length r = 0 \<or>
     (case rec_type r of
        MESSAGETYPE_HAVE \<Rightarrow> \<exists>i. rec_payload r = Have i \<and> unat i < n
      | MESSAGETYPE_BITFIELD \<Rightarrow> n \<le> 8 * length (rec_bitfield r)
      | MESSAGETYPE_REQUEST \<Rightarrow> False
      | MESSAGETYPE_PIECE \<Rightarrow> False
      | _ \<Rightarrow> True)"

lemma notify_have_stays:
  assumes "\<forall>p \<in> set (ss_pieces s). accounted p" "length (ss_pieces s) < 2 ^ 32" "valid_draw draw" "valid_draw draw_2"
    and known: "peer_known env (length (ss_pieces s)) id_in a s" and "unat i < length (ss_pieces s)"
  shows "stays (length (ss_pieces s)) s (notify_have env draw draw_2 id_in a i s)"
proof -
  let ?n = "length (ss_pieces s)"
  obtain peer where peer: "find_peer a s = Inr peer" "?n \<le> 8 * length (ps_pieces peer)"
    using known by (rule peer_knownE)
  obtain bitfield where bits: "set_have_bit i (ps_pieces peer) = Inr bitfield"
    using set_have_bit_ok peer(2) assms(6) order.strict_trans2 by blast
  obtain b s' where notice: "notice_pieces env id_in a (peer\<lparr>ps_pieces := bitfield\<rparr>) s = Inr (b, s')" "quiet ?n s s'"
    using notice_pieces_stays [OF assms(1,2), of "peer\<lparr>ps_pieces := bitfield\<rparr>" env id_in a]
      peer(2) length_set_have_bit [OF bits] by auto
  then have same: "ss_pieces s' = ss_pieces s"
    by (simp add: quiet_def)
  have known': "peer_known env ?n id_in a s'"
    using known notice(2) by (rule peer_known_quiet)
  then obtain peer' where "find_peer a s' = Inr peer'"
    by (rule peer_knownE)
  moreover have "stays ?n s' (request_and_count env draw draw_2 id_in a s')"
    using stays_request_and_count [of s'] assms(1-4) known' by (simp add: same)
  ultimately show ?thesis
    using notice(2) by (auto simp: notify_have_def peer(1) bits notice(1) stays_def
        intro: quiet_trans [OF _ quiet_emit_event] quiet_trans)
qed

lemma notify_record_stays:
  assumes "\<forall>p \<in> set (ss_pieces s). accounted p" "length (ss_pieces s) < 2 ^ 32" "valid_draw draw" "valid_draw draw_2"
    and known: "peer_known env (length (ss_pieces s)) id_in a s" and "harmless (length (ss_pieces s)) r"
  shows "stays (length (ss_pieces s)) s (notify_record env draw draw_2 id_in r blocks s)"
proof -
  let ?n = "length (ss_pieces s)"
  have a: "connectionIdToPeerAddress env id_in = Inr a"
    using known by (simp add: peer_known_def)
  note status = stays_change_status [OF known]
  obtain peer where peer: "find_peer a s = Inr peer" "?n \<le> 8 * length (ps_pieces peer)"
    using known by (rule peer_knownE)
  have unchoke: "stays ?n s' (run_bind (find_peer a s') (\<lambda>peer.
        if 1 < length (ps_connections peer) \<or> ps_pieces peer \<noteq> []
        then request_and_count env draw draw_2 id_in a s' else Inr s'))" if "quiet ?n s s'" for s'
  proof -
    have same: "ss_pieces s' = ss_pieces s"
      using that by (simp add: quiet_def)
    have known': "peer_known env ?n id_in a s'"
      using known that by (rule peer_known_quiet)
    then obtain peer' where "find_peer a s' = Inr peer'"
      by (rule peer_knownE)
    with stays_request_and_count [of s'] assms(1-4) known' show ?thesis
      by (simp add: same)
  qed
  let ?peer = "peer\<lparr>ps_pieces := rec_bitfield r\<rparr>"
  have bitfield: "stays ?n s (run_bind (notice_pieces env id_in a ?peer s) (\<lambda>(_, s). Inr s))"
      "quiet ?n s (set_peer a ?peer s)" if "?n \<le> 8 * length (rec_bitfield r)"
    using that notice_pieces_stays [OF assms(1,2), of ?peer env id_in a] by (auto simp: quiet_set_peer)
  show ?thesis
  proof (cases "rec_length r = 0")
    case False
    with assms(6) show ?thesis
      unfolding notify_record_def a run_bind_simps
      by (cases "rec_type r")
        (auto simp: harmless_def peer(1) Let_def intro!: status stays_bind [OF status] unchoke [unfolded One_nat_def]
          bitfield           notify_have_stays [OF assms(1-5)])
  qed (simp add: notify_record_def a)
qed

section \<open>Receiving the blocks of a torrent\<close>

abbreviation torrent_name :: "session_env \<Rightarrow> string" where
  "torrent_name env \<equiv> base_name (disk_env env) (metaInfoFileName env)"

text \<open>The pieces of the torrent, with all of their contents \<open>Xs\<close>.\<close>

definition whole :: "byte list list \<Rightarrow> piece list \<Rightarrow> piece list" where
  "whole Xs ps = map2 (\<lambda>X p. p\<lparr>piece_chunks := [\<lparr>chunk_data = [X], chunk_offset = 0\<rparr>]\<rparr>) Xs ps"

text \<open>
  \<open>torrent_ok\<close>: \<open>Xs\<close> are contents of the pieces \<open>ps\<close> with the right lengths and hashes; the files
  \<open>ts\<close> of the torrent are as long as the pieces together, and neither they nor the directory of the
  pieces is on the disk yet.
\<close>

definition contents_ok :: "session_env \<Rightarrow> byte list list \<Rightarrow> piece list \<Rightarrow> bool" where
  "contents_ok env Xs ps \<longleftrightarrow>
     list_all2 (\<lambda>X p. X \<noteq> [] \<and> length X = unat (piece_length p) \<and> SHA1 env X = piece_hash p
       \<and> piece_filename_ok (piece_filename p)) Xs ps
     \<and> ps \<noteq> [] \<and> length ps < 2 ^ 31"

definition torrent_ok ::
    "session_env \<Rightarrow> byte list list \<Rightarrow> piece list \<Rightarrow> bdict \<Rightarrow> (string \<times> nat) list \<Rightarrow> fs \<Rightarrow> bool" where
  "torrent_ok env Xs ps info ts fs \<longleftrightarrow>
     files_env_ok (disk_env env) \<and> contents_ok env Xs ps
     \<and> map_of (metaInfo env) ''info'' = Some (BDict info)
     \<and> torrent_files (disk_env env) (pieces_directory (disk_env env) (torrent_name env)) info ts
     \<and> positive ts \<and> snd (hd ts) < 2 ^ 64 \<and> (\<forall>t \<in> set (tl ts). snd t < 2 ^ 32) \<and> distinct (map fst ts)
     \<and> missing ts = length (concat Xs)
     \<and> finite (dom fs)
     \<and> (\<forall>name. fs (in_directory (disk_env env) (pieces_directory (disk_env env) (torrent_name env)) name) = None)
     \<and> (\<forall>t \<in> set ts. fs (fst t) = None
          \<and> (\<forall>i < length ps. fst t \<noteq>
               in_directory (disk_env env) (pieces_directory (disk_env env) (torrent_name env))
                 (name_of_piece (disk_env env) ps i)))"

lemma torrent_okD:
  assumes "torrent_ok env Xs ps info ts fs"
  shows "files_env_ok (disk_env env)" "contents_ok env Xs ps"
  using assms by (simp_all add: torrent_ok_def)

lemma contents_okD:
  assumes "contents_ok env Xs ps"
  shows "length Xs = length ps" "length ps < 2 ^ 31"
    and "i < length ps \<Longrightarrow> Xs ! i \<noteq> [] \<and> length (Xs ! i) = unat (piece_length (ps ! i))
      \<and> SHA1 env (Xs ! i) = piece_hash (ps ! i) \<and> piece_filename_ok (piece_filename (ps ! i))"
    and "i < length ps \<Longrightarrow> 0 < piece_length (ps ! i)"
proof -
  show "length Xs = length ps" "length ps < 2 ^ 31"
    and each: "i < length ps \<Longrightarrow> Xs ! i \<noteq> [] \<and> length (Xs ! i) = unat (piece_length (ps ! i))
      \<and> SHA1 env (Xs ! i) = piece_hash (ps ! i) \<and> piece_filename_ok (piece_filename (ps ! i))"
    using assms by (simp_all add: contents_ok_def list_all2_conv_all_nth)
  show "0 < piece_length (ps ! i)" if "i < length ps"
    using each [OF that] unfolding word_gt_0 by (metis length_0_conv unsigned_0)
qed

lemma whole_simps:
  assumes "contents_ok env Xs ps"
  shows "length (whole Xs ps) = length ps"
    and "i < length ps \<Longrightarrow> bytes_of_piece (whole Xs ps) i = Xs ! i"
    and "i < length ps \<Longrightarrow> piece_filename (whole Xs ps ! i) = piece_filename (ps ! i)"
    and "map (bytes_of_piece (whole Xs ps)) [0..<length ps] = Xs"
proof -
  note len = contents_okD(1) [OF assms]
  show "length (whole Xs ps) = length ps"
    by (simp add: whole_def len)
  show bytes: "bytes_of_piece (whole Xs ps) i = Xs ! i" if "i < length ps" for i
    using that by (simp add: whole_def len)
  show "piece_filename (whole Xs ps ! i) = piece_filename (ps ! i)" if "i < length ps"
    using that by (simp add: whole_def len)
  show "map (bytes_of_piece (whole Xs ps)) [0..<length ps] = Xs"
    by (rule nth_equalityI) (simp_all add: len bytes)
qed

lemma whole_ready:
  "contents_ok env Xs ps \<Longrightarrow> \<forall>p \<in> set (whole Xs ps). piece_ready p"
proof
  fix q assume ok: "contents_ok env Xs ps" and "q \<in> set (whole Xs ps)"
  then obtain i where i: "i < length ps" "q = whole Xs ps ! i"
    using whole_simps(1) [OF ok] by (auto simp: in_set_conv_nth)
  show "piece_ready q"
    using contents_okD(1) [OF ok] contents_okD(3,4) [OF ok i(1)] i
    by (auto simp: piece_ready_def whole_def)
qed

section \<open>The invariant of a download\<close>

text \<open>
  \<open>D i\<close> is the set of offsets of the blocks of piece \<open>i\<close> that have arrived. A piece is on disk
  exactly if all of its blocks have arrived; else it holds these blocks.
\<close>

definition piece_inv :: "byte list \<Rightarrow> piece \<Rightarrow> nat set \<Rightarrow> piece \<Rightarrow> bool" where
  "piece_inv X p D q \<longleftrightarrow>
     piece_filename q = piece_filename p \<and> piece_hash q = piece_hash p \<and> piece_length q = piece_length p
     \<and> D \<subseteq> block_offsets X \<and> (piece_onDisk q \<longleftrightarrow> D = block_offsets X)
     \<and> (if piece_onDisk q then piece_chunks q = []
        else blocks_from X 0 (piece_chunks q) \<and> offsets (piece_chunks q) = D)"

definition pieces_inv :: "byte list list \<Rightarrow> piece list \<Rightarrow> (nat \<Rightarrow> nat set) \<Rightarrow> piece list \<Rightarrow> bool" where
  "pieces_inv Xs ps D qs \<longleftrightarrow>
     length qs = length ps \<and> (\<forall>i < length ps. piece_inv (Xs ! i) (ps ! i) (D i) (qs ! i))"

definition all_there :: "byte list list \<Rightarrow> (nat \<Rightarrow> nat set) \<Rightarrow> bool" where
  "all_there Xs D \<longleftrightarrow> (\<forall>i < length Xs. D i = block_offsets (Xs ! i))"

definition files_written :: "byte list list \<Rightarrow> (string \<times> nat) list \<Rightarrow> fs \<Rightarrow> bool" where
  "files_written Xs ts fs \<longleftrightarrow> map fs (map fst ts) = map Some (segments (map snd ts) (concat Xs))"

definition disk_inv ::
    "session_env \<Rightarrow> byte list list \<Rightarrow> piece list \<Rightarrow> (string \<times> nat) list \<Rightarrow> fs \<Rightarrow> (nat \<Rightarrow> nat set) \<Rightarrow> fs \<Rightarrow> bool" where
  "disk_inv env Xs ps ts fs D fs' \<longleftrightarrow>
     (if all_there Xs D then files_written Xs ts fs'
      else \<exists>is. set is = {i. i < length ps \<and> D i = block_offsets (Xs ! i)}
             \<and> fs' = saved (disk_env env) (torrent_name env) (whole Xs ps) is fs)"

lemma piece_inv_accounted:
  assumes "piece_inv X p D q" "length X = unat (piece_length p)"
  shows "accounted q" "piece_complete q \<longleftrightarrow> D = block_offsets X"
proof -
  have len: "length X = unat (piece_length q)"
    using assms by (simp add: piece_inv_def)
  have blocks: "blocks_from X 0 (piece_chunks q) \<and> offsets (piece_chunks q) = D" if "\<not> piece_onDisk q"
    using assms(1) that by (simp add: piece_inv_def)
  then have ok: "piece_ok q"
    using assms(1) is_blockD(1) by (fastforce simp: piece_ok_def piece_inv_def blocks_from_def list_all_iff)
  with blocks blocks_from_wf [OF _ len] show "accounted q"
    by (auto simp: accounted_def)
  show "piece_complete q \<longleftrightarrow> D = block_offsets X"
  proof (cases "piece_onDisk q")
    case False
    then have "isPieceComplete (piece_length q) (piece_chunks q) = Inr (block_offsets X \<subseteq> D)"
      using blocks_complete(1) [OF _ len, of "piece_chunks q"] blocks by simp
    moreover have "isPieceComplete (piece_length q) (piece_chunks q) =
        Inr (piece_length q = chunksLength (piece_chunks q))"
      using ok by (simp add: piece_ok_def isPieceComplete_eq)
    moreover have "D \<subseteq> block_offsets X"
      using assms(1) by (simp add: piece_inv_def)
    ultimately show ?thesis
      using False by (auto simp: piece_complete_def)
  qed (use assms(1) in \<open>simp add: piece_inv_def piece_complete_def\<close>)
qed

lemma pieces_inv_accounted:
  assumes "contents_ok env Xs ps" "pieces_inv Xs ps D qs"
  shows "\<forall>p \<in> set qs. accounted p"
    and "isMissingPiece qs = Inr (\<not> all_there Xs D)"
proof -
  have len: "length qs = length ps" "length Xs = length ps"
    using assms contents_okD(1) by (auto simp: pieces_inv_def)
  have each: "accounted (qs ! i)" "piece_complete (qs ! i) \<longleftrightarrow> D i = block_offsets (Xs ! i)" if "i < length ps" for i
    using piece_inv_accounted [of "Xs ! i" "ps ! i" "D i" "qs ! i"] that assms(2) contents_okD(3) [OF assms(1) that]
    by (simp_all add: pieces_inv_def)
  show "\<forall>p \<in> set qs. accounted p"
    using each(1) by (auto simp: in_set_conv_nth len)
  then have missing: "isMissingPiece qs = Inr (\<exists>p \<in> set qs. \<not> piece_complete p)"
    by (simp add: isMissingPiece_eq accounted_def list_all_iff)
  have "(\<forall>p \<in> set qs. piece_complete p) \<longleftrightarrow> all_there Xs D"
    by (simp add: all_set_conv_all_nth all_there_def len each(2))
  then have "(\<exists>p \<in> set qs. \<not> piece_complete p) \<longleftrightarrow> \<not> all_there Xs D"
    by blast
  with missing show "isMissingPiece qs = Inr (\<not> all_there Xs D)"
    by simp
qed

lemma pieces_inv_update:
  "pieces_inv Xs ps D qs \<Longrightarrow> piece_inv (Xs ! i) (ps ! i) B q \<Longrightarrow> pieces_inv Xs ps (D(i := B)) (qs[i := q])"
  by (auto simp: pieces_inv_def nth_list_update)

text \<open>Saving one more piece, and putting the files together when it was the last.\<close>

lemma saved_one_more:
  assumes "contents_ok env Xs ps" "i < length ps"
  shows "saved (disk_env env) m (whole Xs ps) (is @ [i]) fs =
    (saved (disk_env env) m (whole Xs ps) is fs)
      (in_directory (disk_env env) (pieces_directory (disk_env env) m) (name_of_piece (disk_env env) ps i) \<mapsto> Xs ! i)"
  using whole_simps(1-3) [OF assms(1)] assms(2) by (simp add: saved_def)

lemma assemble_whole:
  assumes "torrent_ok env Xs ps info ts fs" "set is = {..<length ps}"
  shows "\<exists>fs'. assembleFiles (disk_env env) (torrent_name env) (metaInfo env)
      (saved (disk_env env) (torrent_name env) (whole Xs ps) is fs) = Inr (True, fs')
    \<and> files_written Xs ts fs'"
proof -
  note ok = assms(1) [unfolded torrent_ok_def]
  then have contents: "contents_ok env Xs ps"
    by simp
  note w = whole_simps [OF contents] whole_ready [OF contents] contents_okD(2) [OF contents]
  have "\<forall>t \<in> set ts. fs (fst t) = None \<and> (\<forall>i < length (whole Xs ps). fst t \<noteq>
      in_directory (disk_env env) (pieces_directory (disk_env env) (torrent_name env))
        (name_of_piece (disk_env env) (whole Xs ps) i))"
    using ok w(1,3) by simp
  then show ?thesis
    using saved_pieces_assemble [of "disk_env env" "whole Xs ps" fs "torrent_name env" "is" "metaInfo env" info ts]
      ok w assms(2) by (simp add: files_written_def)
qed

section \<open>One message\<close>

lemma tell_subscriber_simps [simp]:
  "ss_pieces (tell_subscriber env e s) = ss_pieces s" "ss_disk (tell_subscriber env e s) = ss_disk s"
  "ss_peerState (tell_subscriber env e s) = ss_peerState s"
  "e \<noteq> Controller_complete \<Longrightarrow> completions (tell_subscriber env e s) = completions s"
  by (simp_all add: tell_subscriber_def)

lemma disk_inv_last:
  assumes "contents_ok env Xs ps" "set is = {j. j < length ps \<and> D j = block_offsets (Xs ! j)}" "i < length ps"
    and "all_there Xs (D(i := block_offsets (Xs ! i)))"
  shows "set (is @ [i]) = {..<length ps}"
  using assms(2-4) contents_okD(1) [OF assms(1)] by (auto simp: all_there_def split: if_splits)

text \<open>What a received block does, as seen from outside of the locked scope.\<close>

definition received ::
    "session_env \<Rightarrow> byte list list \<Rightarrow> piece list \<Rightarrow> (string \<times> nat) list \<Rightarrow> fs \<Rightarrow> (nat \<Rightarrow> nat set)
     \<Rightarrow> bool \<Rightarrow> session \<Rightarrow> (session \<times> bool \<times> bool) run \<Rightarrow> bool" where
  "received env Xs ps ts fs D complete s m \<longleftrightarrow>
     (\<exists>s' announce. m = Inr (s', announce, complete) \<and> pieces_inv Xs ps D (ss_pieces s')
        \<and> disk_inv env Xs ps ts fs D (ss_disk s') \<and> ss_peerState s' = ss_peerState s
        \<and> completions s' = completions s)"

lemma piece_completed_received:
  assumes ok: "torrent_ok env Xs ps info ts fs" and inv: "pieces_inv Xs ps D qs" "ss_pieces s = qs[i := q]"
    and disk: "disk_inv env Xs ps ts fs D (ss_disk s)" and i: "i < length ps" "D i \<noteq> block_offsets (Xs ! i)"
    and q: "piece_filename q = piece_filename (ps ! i)" "piece_hash q = piece_hash (ps ! i)"
      "piece_length q = piece_length (ps ! i)"
    and blocks: "blocks_from (Xs ! i) 0 (piece_chunks q)" "chunks_bytes (piece_chunks q) = Xs ! i"
  shows "received env Xs ps ts fs (D(i := block_offsets (Xs ! i))) (all_there Xs (D(i := block_offsets (Xs ! i)))) s
    (piece_completed env (word_of_nat i) q s)"
proof -
  let ?D = "D(i := block_offsets (Xs ! i))" and ?de = "disk_env env" and ?m = "torrent_name env"
  let ?q = "q\<lparr>piece_onDisk := True, piece_chunks := []\<rparr>"
  let ?qs = "qs[i := ?q]"
  note contents = torrent_okD(2) [OF ok]
  note X = contents_okD(3) [OF contents i(1)]
  have at: "unat (word_of_nat i :: u32) = i"
    using i(1) contents_okD(2) [OF contents] by (simp add: unat_of_nat)
  have len: "length qs = length ps" "length Xs = length ps"
    using inv(1) contents_okD(1) [OF contents] by (simp_all add: pieces_inv_def)
  have ready: "piece_ready q"
    using X contents_okD(4) [OF contents i(1)] blocks is_blockD(1) q(1,3)
    by (auto simp: piece_ready_def blocks_from_def)
  have not_all: "\<not> all_there Xs D"
    using i len by (auto simp: all_there_def)
  obtain js where js: "set js = {j. j < length ps \<and> D j = block_offsets (Xs ! j)}"
      "ss_disk s = saved ?de ?m (whole Xs ps) js fs"
    using disk not_all by (auto simp: disk_inv_def)
  define fs1 where "fs1 = saved ?de ?m (whole Xs ps) (js @ [i]) fs"
  have save: "savePiece ?de ?m (word_of_nat (length ps)) (word_of_nat i) q (ss_disk s) = Inr (True, ?q, fs1)"
    using savePiece_ready [OF torrent_okD(1) [OF ok] ready]
    by (simp add: fs1_def saved_one_more [OF contents i(1)] js(2) q(1) blocks(2))
  have "piece_inv (Xs ! i) (ps ! i) (block_offsets (Xs ! i)) ?q"
    using q by (simp add: piece_inv_def)
  then have inv': "pieces_inv Xs ps ?D ?qs"
    by (rule pieces_inv_update [OF inv(1)])
  note missing = pieces_inv_accounted(2) [OF contents inv']
  have names: "set (js @ [i]) = {j. j < length ps \<and> ?D j = block_offsets (Xs ! j)}"
    using js(1) i(1) by auto
  show ?thesis
  proof (cases "all_there Xs ?D")
    case True
    obtain fs2 where "assembleFiles ?de ?m (metaInfo env) fs1 = Inr (True, fs2)" "files_written Xs ts fs2"
      using assemble_whole [OF ok disk_inv_last [OF contents js(1) i(1) True]] unfolding fs1_def by blast
    with True inv' missing save show ?thesis
      by (simp add: received_def ex_bool_eq piece_completed_def inv(2) len at Let_def set_piece_def disk_inv_def)
  next
    case False
    then have "disk_inv env Xs ps ts fs ?D fs1"
      unfolding disk_inv_def fs1_def if_not_P [OF False] using names by blast
    with False inv' missing save show ?thesis
      by (simp add: received_def ex_bool_eq piece_completed_def inv(2) len at Let_def set_piece_def)
  qed
qed

lemma block_received_honest:
  assumes ok: "torrent_ok env Xs ps info ts fs" and inv: "pieces_inv Xs ps D (ss_pieces s)"
    and disk: "disk_inv env Xs ps ts fs D (ss_disk s)" and i: "i < length ps" "j \<in> block_offsets (Xs ! i)"
    and blocks: "concat blocks = take 16384 (drop j (Xs ! i))" and D': "D' = D(i := insert j (D i))"
  shows "received env Xs ps ts fs D' (all_there Xs D' \<and> \<not> all_there Xs D) s
    (block_received env (word_of_nat i) (word_of_nat j) blocks s)"
proof -
  let ?X = "Xs ! i" and ?qs = "ss_pieces s"
  let ?q = "?qs ! i"
  note contents = torrent_okD(2) [OF ok]
  note X = contents_okD(3) [OF contents i(1)]
  have at: "unat (word_of_nat i :: u32) = i"
    using i(1) contents_okD(2) [OF contents] by (simp add: unat_of_nat)
  have len: "length ?qs = length ps" "length Xs = length ps"
    using inv contents_okD(1) [OF contents] by (simp_all add: pieces_inv_def)
  have q: "piece_inv ?X (ps ! i) (D i) ?q"
    using inv i(1) by (simp add: pieces_inv_def)
  show ?thesis
  proof (cases "piece_onDisk ?q")
    case True
    then have "D' = D"
      using q i(2) by (simp add: D' piece_inv_def insert_absorb fun_upd_idem)
    with True inv disk i(1) show ?thesis
      by (simp add: received_def ex_bool_eq block_received_def at len Let_def)
  next
    case False
    let ?c = "\<lparr>chunk_data = blocks, chunk_offset = word_of_nat j\<rparr>"
    have more: "D i \<noteq> block_offsets ?X" "blocks_from ?X 0 (piece_chunks ?q)" "offsets (piece_chunks ?q) = D i"
        "D i \<subseteq> block_offsets ?X" "length ?X = unat (piece_length ?q)"
      using q False X by (auto simp: piece_inv_def)
    have "j < 2 ^ 32"
      using i(2) unat_less_32 [of "piece_length ?q"] unfolding more(5) [symmetric] by (simp add: block_offsets_def)
    then have j: "unat (word_of_nat j :: u32) = j"
      by (rule unat_of_nat_u32)
    have "\<forall>c \<in> set (piece_chunks ?q @ [?c]). is_block ?X c"
      using more(2) i(2) blocks by (auto simp: blocks_from_def is_block_def j)
    moreover have "offsets (piece_chunks ?q @ [?c]) = insert j (D i)"
      using more(3) j by (simp add: offsets_def)
    ultimately obtain cs where cs: "sanitizeChunks (piece_chunks ?q @ [?c]) = Inr cs" "blocks_from ?X 0 cs"
        "offsets cs = insert j (D i)"
      using sanitizeChunks_blocks [OF _ more(5)] by metis
    have before: "isPieceComplete (piece_length ?q) (piece_chunks ?q) = Inr False"
      using blocks_complete(1) [OF more(2,5)] more(1,3,4) by auto
    have after: "isPieceComplete (piece_length ?q) cs = Inr (D' i = block_offsets ?X)"
      using blocks_complete(1) [OF cs(2) more(5)] cs(3) more(4) i(2) by (auto simp: D')
    let ?q' = "?q\<lparr>piece_chunks := cs\<rparr>"
    note start = block_received_def at len Let_def False before cs(1) after
    have D'_eq: "D' = D(i := block_offsets ?X)" if "D' i = block_offsets ?X"
      using that by (auto simp: D')
    show ?thesis
    proof (cases "D' i = block_offsets ?X")
      case True
      then have bytes: "chunks_bytes cs = ?X"
        using blocks_complete(2) [OF cs(2) more(5)] cs(3) by (simp add: D')
      have "validatePieceHash (SHA1 env) ?q' = Inr True"
        using X q more(5) by (simp add: validatePieceHash_def bytes piece_inv_def)
      moreover have "received env Xs ps ts fs D' (all_there Xs D') (set_piece (word_of_nat i) ?q' s)
          (piece_completed env (word_of_nat i) ?q' (set_piece (word_of_nat i) ?q' s))"
        using piece_completed_received [OF ok inv _ _ i(1) more(1), of "set_piece (word_of_nat i) ?q' s" ?q']
          q disk cs(2) bytes unfolding D'_eq [OF True]
        by (simp add: set_piece_def at piece_inv_def)
      moreover have "\<not> all_there Xs D"
        using more(1) i(1) len by (auto simp: all_there_def)
      ultimately show ?thesis
        using True i(1) by (simp add: received_def ex_bool_eq start) (simp add: set_piece_def)
    next
      case incomplete: False
      then have "\<not> all_there Xs D'" "\<not> all_there Xs D"
        "{k. k < length ps \<and> D' k = block_offsets (Xs ! k)} = {k. k < length ps \<and> D k = block_offsets (Xs ! k)}"
        using i(1) len more(1) by (auto simp: all_there_def D' split: if_splits)
      then have "disk_inv env Xs ps ts fs D' (ss_disk s)"
        using disk by (simp add: disk_inv_def)
      moreover have "piece_inv ?X (ps ! i) (D' i) ?q'"
        using q False cs(2,3) incomplete i(2) more(4) by (simp add: piece_inv_def D')
      ultimately show ?thesis
        using incomplete pieces_inv_update [OF inv, of i "insert j (D i)" ?q'] \<open>\<not> all_there Xs D'\<close> i(1)
        by (simp add: received_def ex_bool_eq start) (simp add: set_piece_def at D')
    qed
  qed
qed

section \<open>A whole download\<close>

text \<open>
  \<open>progress\<close>: the pieces and the disk are as the blocks that have arrived demand, and the controller
  has been told of the completion once, if and only if everything is there.
\<close>

definition progress ::
    "session_env \<Rightarrow> byte list list \<Rightarrow> piece list \<Rightarrow> (string \<times> nat) list \<Rightarrow> fs \<Rightarrow> (nat \<Rightarrow> nat set) \<Rightarrow> session \<Rightarrow> bool" where
  "progress env Xs ps ts fs D s \<longleftrightarrow> pieces_inv Xs ps D (ss_pieces s) \<and> disk_inv env Xs ps ts fs D (ss_disk s)
     \<and> completions s = (if all_there Xs D then 1 else 0)"

definition steps_to ::
    "session_env \<Rightarrow> byte list list \<Rightarrow> piece list \<Rightarrow> (string \<times> nat) list \<Rightarrow> fs \<Rightarrow> (nat \<Rightarrow> nat set) \<Rightarrow> session
     \<Rightarrow> session run \<Rightarrow> bool" where
  "steps_to env Xs ps ts fs D s m \<longleftrightarrow>
     (\<exists>s'. m = Inr s' \<and> progress env Xs ps ts fs D s' \<and> peers_kept (length ps) s s')"

lemma peers_kept_trans: "peers_kept n s s' \<Longrightarrow> peers_kept n s' s'' \<Longrightarrow> peers_kept n s s''"
  unfolding peers_kept_def by metis

lemma quiet_kept: "quiet n s s' \<Longrightarrow> peers_kept n s s'"
  by (simp add: quiet_def)

lemma peer_known_kept: "peer_known env n id_in a s \<Longrightarrow> peers_kept n s s' \<Longrightarrow> peer_known env n id_in a s'"
  by (auto simp: peer_known_def peers_kept_def)

lemma stays_steps_to: "progress env Xs ps ts fs D s \<Longrightarrow> stays (length ps) s m \<Longrightarrow> steps_to env Xs ps ts fs D s m"
  by (auto simp: steps_to_def stays_def progress_def quiet_def)

lemma notify_piece_honest:
  assumes ok: "torrent_ok env Xs ps info ts fs" and s: "progress env Xs ps ts fs D s"
    and i: "i < length ps" "j \<in> block_offsets (Xs ! i)"
    and blocks: "concat blocks = take 16384 (drop j (Xs ! i))" and D': "D' = D(i := insert j (D i))"
    and draws: "valid_draw draw" "valid_draw draw_2" and known: "peer_known env (length ps) id_in a s"
  shows "steps_to env Xs ps ts fs D' s (notify_piece env draw draw_2 id_in a (word_of_nat i) (word_of_nat j) blocks s)"
proof -
  let ?n = "length ps" and ?c = "all_there Xs D' \<and> \<not> all_there Xs D"
  note contents = torrent_okD(2) [OF ok]
  have "blocks \<noteq> []"
    using blocks i(2) by (auto simp: block_offsets_def)
  obtain s1 announce where s1: "block_received env (word_of_nat i) (word_of_nat j) blocks s = Inr (s1, announce, ?c)"
      "pieces_inv Xs ps D' (ss_pieces s1)" "disk_inv env Xs ps ts fs D' (ss_disk s1)"
      "ss_peerState s1 = ss_peerState s" "completions s1 = completions s"
    using block_received_honest [OF ok _ _ i blocks D', of s] s unfolding progress_def received_def by blast
  have len: "length (ss_pieces s1) = ?n"
    using s1(2) by (simp add: pieces_inv_def)
  have known1: "peer_known env ?n id_in a s1"
    using known s1(4) by (simp add: peer_known_def)
  then obtain peer where peer: "find_peer a s1 = Inr peer"
    by (rule peer_knownE)
  define s2 where "s2 = (if announce then have_piece env (word_of_nat i) s1 else s1)"
  have quiet2: "quiet ?n s1 s2"
    by (simp add: s2_def)
  obtain s3 where s3: "change_status a (\<lambda>st. st\<lparr>requesting_piece := requesting_piece st - 1\<rparr>) s2 = Inr s3" "quiet ?n s2 s3"
    using stays_change_status [OF peer_known_quiet [OF known1 quiet2]] by (auto simp: stays_def)
  have quiet3: "quiet ?n s1 s3"
    using quiet2 s3(2) by (rule quiet_trans)
  have same: "ss_pieces s3 = ss_pieces s1"
    using quiet3 by (simp add: quiet_def)
  have "stays ?n s3 (request_and_count env draw draw_2 id_in a s3)"
    using stays_request_and_count [of s3 draw draw_2 env id_in a] pieces_inv_accounted(1) [OF contents s1(2)]
      contents_okD(2) [OF contents] draws peer_known_quiet [OF known1 quiet3] by (simp add: same len)
  then obtain s4 where s4: "(if \<not> (am_choking (ps_status peer) \<or> ?c) then request_and_count env draw draw_2 id_in a s3
      else Inr s3) = Inr s4" "quiet ?n s3 s4"
    by (cases "am_choking (ps_status peer) \<or> ?c") (auto simp: stays_def)
  have quiet4: "quiet ?n s1 s4"
    using quiet3 s4(2) by (rule quiet_trans)
  define s5 where "s5 = (if ?c then emit_event Controller_complete (tell_subscriber env Torrent_complete s4) else s4)"
  have "notify_piece env draw draw_2 id_in a (word_of_nat i) (word_of_nat j) blocks s = Inr s5"
    using \<open>blocks \<noteq> []\<close> peer s3(1) s4(1) unfolding notify_piece_def s1(1) Let_def s2_def s5_def
    by (simp split del: if_split)
  moreover have "ss_pieces s5 = ss_pieces s1" "ss_disk s5 = ss_disk s1" "ss_peerState s5 = ss_peerState s4"
      "completions s5 = completions s + (if ?c then 1 else 0)"
    using quiet4 s1(5) by (simp_all add: s5_def quiet_def)
  moreover have "all_there Xs D \<Longrightarrow> all_there Xs D'"
    using i(2) by (auto simp: all_there_def D')
  moreover have "peers_kept ?n s s4"
    using quiet4 s1(4) by (simp add: quiet_def peers_kept_def)
  ultimately show ?thesis
    using s s1(2,3) by (auto simp: steps_to_def progress_def peers_kept_def)
qed

text \<open>
  Messages in the order in which they arrive: the connection, the numbers drawn while it is handled,
  the record and, for a block, its data. \<open>brings i j\<close>: the block at offset \<open>j\<close> of piece \<open>i\<close>.
\<close>

type_synonym delivery = "nat \<times> (nat \<Rightarrow> nat) \<times> (nat \<Rightarrow> nat) \<times> peer_record \<times> byte list list"

fun notify_all :: "session_env \<Rightarrow> delivery list \<Rightarrow> session \<Rightarrow> session run" where
  "notify_all env [] s = Inr s"
| "notify_all env ((id_in, draw, draw_2, r, blocks) # ms) s =
     run_bind (notify_record env draw draw_2 id_in r blocks s) (notify_all env ms)"

fun brings :: "nat \<Rightarrow> nat \<Rightarrow> delivery \<Rightarrow> bool" where
  "brings i j (id_in, draw, draw_2, r, blocks) \<longleftrightarrow>
     rec_length r \<noteq> 0 \<and> rec_type r = MESSAGETYPE_PIECE \<and> rec_payload r = Piece (word_of_nat i) (word_of_nat j)"

text \<open>
  \<open>asks_for n r\<close>: the request for data of a piece. \<open>honest Xs D m\<close>: the message \<open>m\<close> may be sent when the blocks
  \<open>D\<close> of the pieces have arrived, a request only for a piece that is not complete yet.
\<close>

definition asks_for :: "nat \<Rightarrow> peer_record \<Rightarrow> bool" where
  "asks_for i r \<longleftrightarrow> rec_type r = MESSAGETYPE_REQUEST
     \<and> (\<exists>begin_in length_in. rec_payload r = Request (word_of_nat i) begin_in length_in \<and> length_in \<noteq> 0)"

fun honest :: "byte list list \<Rightarrow> (nat \<Rightarrow> nat set) \<Rightarrow> delivery \<Rightarrow> bool" where
  "honest Xs D (id_in, draw, draw_2, r, blocks) \<longleftrightarrow>
     valid_draw draw \<and> valid_draw draw_2
     \<and> (harmless (length Xs) r
        \<or> (\<exists>i < length Xs. asks_for i r \<and> D i \<noteq> block_offsets (Xs ! i))
        \<or> (\<exists>i < length Xs. \<exists>j \<in> block_offsets (Xs ! i). brings i j (id_in, draw, draw_2, r, blocks)
             \<and> concat blocks = take 16384 (drop j (Xs ! i))))"

definition delivered :: "byte list list \<Rightarrow> delivery list \<Rightarrow> nat \<Rightarrow> nat set" where
  "delivered Xs ms i = {j. i < length Xs \<and> j \<in> block_offsets (Xs ! i) \<and> (\<exists>m \<in> set ms. brings i j m)}"

fun well_behaved :: "byte list list \<Rightarrow> (nat \<Rightarrow> nat set) \<Rightarrow> delivery list \<Rightarrow> bool" where
  "well_behaved Xs D [] \<longleftrightarrow> True"
| "well_behaved Xs D (m # ms) \<longleftrightarrow> honest Xs D m \<and> well_behaved Xs (\<lambda>i. D i \<union> delivered Xs [m] i) ms"

lemma brings_unique:
  assumes "contents_ok env Xs ps" "brings i j m" "brings i' j' m" "i < length Xs" "i' < length Xs"
    and "j \<in> block_offsets (Xs ! i)" "j' \<in> block_offsets (Xs ! i')"
  shows "i' = i \<and> j' = j"
proof -
  have "(word_of_nat i :: u32) = word_of_nat i'" "(word_of_nat j :: u32) = word_of_nat j'"
    using assms(2,3) by (cases m; simp)+
  moreover have less: "k < 2 ^ 32" if "k \<in> block_offsets (Xs ! l)" "l < length Xs" for k l
    using contents_okD(3) [OF assms(1), of l] that unat_less_32 [of "piece_length (ps ! l)"]
    unfolding contents_okD(1) [OF assms(1)] by (auto simp: block_offsets_def)
  moreover have "i < 2 ^ 32" "i' < 2 ^ 32"
    using assms(4,5) contents_okD(1,2) [OF assms(1)] by simp_all
  ultimately show ?thesis
    using less [OF assms(6,4)] less [OF assms(7,5)]
    by (auto dest!: arg_cong [where f = unat] simp: unat_of_nat)
qed

lemma harmless_not_brings: "harmless n r \<Longrightarrow> \<not> brings i j (id_in, draw, draw_2, r, blocks)"
  by (auto simp: harmless_def)

lemma asks_not_brings: "asks_for k r \<Longrightarrow> \<not> brings i j (id_in, draw, draw_2, r, blocks)"
  by (auto simp: asks_for_def)

text \<open>A request for a piece that is not complete is left unanswered.\<close>

lemma incomplete_not_sent:
  assumes "contents_ok env Xs ps" "pieces_inv Xs ps D (ss_pieces s)" "i < length ps" "D i \<noteq> block_offsets (Xs ! i)"
    and "id_in \<noteq> 0" "length_in \<noteq> 0"
  shows "send_piece env id_in (word_of_nat i) begin_in length_in s = Inr s"
proof -
  let ?q = "ss_pieces s ! i"
  have "piece_inv (Xs ! i) (ps ! i) (D i) ?q" and len: "length (ss_pieces s) = length ps"
    using assms(2,3) by (simp_all add: pieces_inv_def)
  then have q: "\<not> piece_onDisk ?q" "blocks_from (Xs ! i) 0 (piece_chunks ?q)" "offsets (piece_chunks ?q) = D i"
      "piece_length ?q = piece_length (ps ! i)" "D i \<subseteq> block_offsets (Xs ! i)"
    using assms(4) by (auto simp: piece_inv_def split: if_splits)
  have "isPieceComplete (piece_length ?q) (piece_chunks ?q) = Inr False"
    using blocks_complete(1) [OF q(2), of "piece_length ?q"] contents_okD(3) [OF assms(1,3)] q(3-5) assms(4) by auto
  moreover have "unat (word_of_nat i :: u32) = i"
    using assms(3) contents_okD(2) [OF assms(1)] by (simp add: unat_of_nat)
  ultimately show ?thesis
    using q(1) assms(3,5,6) by (simp add: send_piece_def len)
qed

lemma notify_record_honest:
  assumes ok: "torrent_ok env Xs ps info ts fs" and s: "progress env Xs ps ts fs D s"
    and m: "honest Xs D (id_in, draw, draw_2, r, blocks)" and known: "peer_known env (length ps) id_in a s"
  shows "steps_to env Xs ps ts fs (\<lambda>i. D i \<union> delivered Xs [(id_in, draw, draw_2, r, blocks)] i) s
    (notify_record env draw draw_2 id_in r blocks s)"
proof -
  let ?m = "(id_in, draw, draw_2, r, blocks)"
  note contents = torrent_okD(2) [OF ok]
  have inv: "pieces_inv Xs ps D (ss_pieces s)"
    using s by (simp add: progress_def)
  have len: "length (ss_pieces s) = length ps" "length Xs = length ps"
    using inv contents_okD(1) [OF contents] by (simp_all add: pieces_inv_def)
  from m consider "harmless (length Xs) r"
    | i where "i < length Xs" "asks_for i r" "D i \<noteq> block_offsets (Xs ! i)"
    | i j where "i < length Xs" "j \<in> block_offsets (Xs ! i)" "brings i j ?m" "concat blocks = take 16384 (drop j (Xs ! i))"
    by auto
  then show ?thesis
  proof cases
    case 1
    then have "delivered Xs [?m] i = {}" for i
      by (simp add: delivered_def harmless_not_brings del: brings.simps)
    moreover have "stays (length ps) s (notify_record env draw draw_2 id_in r blocks s)"
      using notify_record_stays [OF pieces_inv_accounted(1) [OF contents inv]] contents_okD(2) [OF contents] m 1 known
      by (simp add: len)
    ultimately show ?thesis
      using stays_steps_to [OF s] by simp
  next
    case 2
    then have "delivered Xs [?m] k = {}" for k
      by (simp add: delivered_def asks_not_brings del: brings.simps)
    moreover have "stays (length ps) s (notify_record env draw draw_2 id_in r blocks s)"
    proof -
      obtain peer where "find_peer a s = Inr peer"
        using known by (rule peer_knownE)
      moreover have "send_piece env id_in (word_of_nat i) begin_in length_in s = Inr s" if "length_in \<noteq> 0" for begin_in length_in
        by (rule incomplete_not_sent [OF contents inv _ 2(3) _ that]) (use known 2(1) len in \<open>simp_all add: peer_known_def\<close>)
      ultimately show ?thesis
        using known 2(2) by (auto simp: notify_record_def asks_for_def peer_known_def stays_def)
    qed
    ultimately show ?thesis
      using stays_steps_to [OF s] by simp
  next
    case 3
    have "j' \<in> delivered Xs [?m] i' \<longleftrightarrow> i' = i \<and> j' = j" for i' j'
      using brings_unique [OF contents 3(3) _ 3(1) _ 3(2), of i' j'] 3(1-3) by (auto simp: delivered_def)
    then have "(\<lambda>i. D i \<union> delivered Xs [?m] i) = D(i := insert j (D i))"
      by (auto simp: fun_eq_iff)
    moreover have "notify_record env draw draw_2 id_in r blocks s =
        notify_piece env draw draw_2 id_in a (word_of_nat i) (word_of_nat j) blocks s"
      using 3(3) known by (simp add: notify_record_def peer_known_def)
    ultimately show ?thesis
      using notify_piece_honest [OF ok s _ 3(2,4) refl _ _ known] 3(1) m len by simp
  qed
qed

lemma notify_all_honest:
  assumes ok: "torrent_ok env Xs ps info ts fs"
  shows "progress env Xs ps ts fs D s \<Longrightarrow> well_behaved Xs D ms \<Longrightarrow>
    \<forall>m \<in> set ms. \<exists>a. peer_known env (length ps) (fst m) a s \<Longrightarrow>
    steps_to env Xs ps ts fs (\<lambda>i. D i \<union> delivered Xs ms i) s (notify_all env ms s)"
proof (induction ms arbitrary: D s)
  case Nil
  then show ?case
    by (simp add: steps_to_def delivered_def peers_kept_def)
next
  case (Cons m ms)
  obtain id_in draw draw_2 r blocks where m: "m = (id_in, draw, draw_2, r, blocks)"
    by (cases m)
  obtain a where known: "peer_known env (length ps) id_in a s" "honest Xs D (id_in, draw, draw_2, r, blocks)"
    using Cons.prems(2,3) by (auto simp: m)
  obtain s1 where s1: "notify_record env draw draw_2 id_in r blocks s = Inr s1"
      "progress env Xs ps ts fs (\<lambda>i. D i \<union> delivered Xs [m] i) s1" "peers_kept (length ps) s s1"
    using notify_record_honest [OF ok Cons.prems(1) known(2,1)] unfolding m steps_to_def by blast
  have "\<forall>m \<in> set ms. \<exists>a. peer_known env (length ps) (fst m) a s1"
    using Cons.prems(3) peer_known_kept [OF _ s1(3)] by (meson list.set_intros(2))
  moreover have "well_behaved Xs (\<lambda>i. D i \<union> delivered Xs [m] i) ms"
    using Cons.prems(2) by simp
  ultimately have
    "steps_to env Xs ps ts fs (\<lambda>i. D i \<union> delivered Xs [m] i \<union> delivered Xs ms i) s1 (notify_all env ms s1)"
    using Cons.IH [OF s1(2)] by blast
  moreover have "(\<lambda>i. D i \<union> delivered Xs [m] i \<union> delivered Xs ms i) = (\<lambda>i. D i \<union> delivered Xs (m # ms) i)"
    by (auto simp: delivered_def)
  ultimately show ?case
    using s1(1,3) peers_kept_trans by (auto simp: steps_to_def m)
qed

lemma progress_start:
  assumes "contents_ok env Xs ps" "\<forall>p \<in> set ps. piece_chunks p = [] \<and> \<not> piece_onDisk p"
    and "ss_pieces s = ps" "completions s = 0"
  shows "progress env Xs ps ts (ss_disk s) (\<lambda>_. {}) s"
proof -
  have offsets: "{} \<noteq> block_offsets (Xs ! i)" if "i < length ps" for i
  proof -
    have "0 \<in> block_offsets (Xs ! i)"
      using contents_okD(3) [OF assms(1) that] by (simp add: block_offsets_def del: length_greater_0_conv flip: length_0_conv)
    then show ?thesis
      by blast
  qed
  then have "pieces_inv Xs ps (\<lambda>_. {}) ps"
    using assms(2) by (auto simp: pieces_inv_def piece_inv_def blocks_from_def)
  moreover have "\<not> all_there Xs (\<lambda>_. {})"
    using offsets contents_okD(1) [OF assms(1)] assms(1) by (auto simp: all_there_def contents_ok_def)
  moreover have "{i. i < length ps \<and> {} = block_offsets (Xs ! i)} = {}"
    using offsets by blast
  ultimately show ?thesis
    using assms(3,4) by (auto simp: progress_def disk_inv_def saved_def intro!: exI [of _ "[]"])
qed

text \<open>C1: A download comes to its end, whatever the order: however the blocks of the pieces arrive -
  repeated, interleaved with each other and with other messages, from any of the connected peers - and
  whatever numbers are drawn for the next requests, the session never fails an assertion or leaves the
  bounds of a container. The other messages are all that the protocol has, within the torrent: a \<open>HAVE\<close>
  with the index of a piece, a \<open>BITFIELD\<close> with a bit for each piece, a \<open>REQUEST\<close> for at least one byte of a
  piece that is not complete here yet. Requests for pieces that are complete are left out, as their
  service may fail (\<open>stored_piece_not_served\<close>). A piece is on disk if and only if all of its
  blocks have arrived; the controller is told of the completion exactly once, when all pieces are
  there and not before; and then the files of the torrent hold the concatenated contents of the
  pieces.\<close>

theorem download_completes:
  assumes "torrent_ok env Xs (ss_pieces s) info ts (ss_disk s)"
    and "\<forall>p \<in> set (ss_pieces s). piece_chunks p = [] \<and> \<not> piece_onDisk p" "Controller_complete \<notin> set (ss_events s)"
    and "well_behaved Xs (\<lambda>_. {}) ms" "\<forall>m \<in> set ms. \<exists>a. peer_known env (length (ss_pieces s)) (fst m) a s"
  shows "\<exists>s'. notify_all env ms s = Inr s'
    \<and> (\<forall>i < length Xs. piece_onDisk (ss_pieces s' ! i) \<longleftrightarrow> block_offsets (Xs ! i) = delivered Xs ms i)
    \<and> count_list (ss_events s') Controller_complete =
        (if \<forall>i < length Xs. block_offsets (Xs ! i) = delivered Xs ms i then 1 else 0)
    \<and> ((\<forall>i < length Xs. block_offsets (Xs ! i) = delivered Xs ms i) \<longrightarrow> files_written Xs ts (ss_disk s'))"
proof -
  note contents = torrent_okD(2) [OF assms(1)]
  have "completions s = 0"
    using assms(3) by (simp add: completions_def count_list_0_iff)
  then have start: "progress env Xs (ss_pieces s) ts (ss_disk s) (\<lambda>_. {}) s"
    by (intro progress_start [OF contents assms(2)]) simp_all
  obtain s' where "notify_all env ms s = Inr s'"
      "progress env Xs (ss_pieces s) ts (ss_disk s) (delivered Xs ms) s'"
    using notify_all_honest [OF assms(1) start assms(4,5)] by (auto simp: steps_to_def)
  then show ?thesis
    using contents_okD(1) [OF contents]
    by (intro exI [of _ s'])
      (auto simp: progress_def pieces_inv_def piece_inv_def disk_inv_def all_there_def completions_def split: if_splits)
qed

definition example_session_env :: session_env where
  "example_session_env =
     \<lparr>disk_env = example_files, SHA1 = (\<lambda>bytes. bytes), SHA1_text = (\<lambda>s. s), bencode = (\<lambda>_. []),
      metaInfo = [(''info'', BDict example_info)], metaInfoFileName = ''t'', peerId = ''id'',
      temp_filename = (\<lambda>_. ''abcdef''), connection_address = (\<lambda>_. Some (Inet_address 1)),
      gets_message = (\<lambda>_. True), accepts_message = (\<lambda>_. True), has_subscriber = True,
      allowMultipleConnectionsPerPeer = False, sendBitfieldAfterHandshake = True\<rparr>"

definition example_contents :: "byte list list" where
  "example_contents = [[1, 2, 3], [4, 5]]"

definition example_session :: session where
  "example_session = (new_session Map.empty)
     \<lparr>ss_pieces := map (\<lambda>p. p\<lparr>piece_chunks := [], piece_hash := chunks_bytes (piece_chunks p)\<rparr>) example_pieces,
      ss_peerState := [1 \<mapsto> new_peer_state\<lparr>ps_connections := [7, 8], ps_pieces := [0xC0]\<rparr>]\<rparr>"

definition piece_record :: "u32 \<Rightarrow> u32 \<Rightarrow> peer_record" where
  "piece_record i j = new_record\<lparr>rec_length := 9, rec_type := MESSAGETYPE_PIECE, rec_payload := Piece i j\<rparr>"

definition request_record :: "u32 \<Rightarrow> u32 \<Rightarrow> u32 \<Rightarrow> peer_record" where
  "request_record i j n = new_record\<lparr>rec_length := 13, rec_type := MESSAGETYPE_REQUEST, rec_payload := Request i j n\<rparr>"

definition example_deliveries :: "delivery list" where
  "example_deliveries =
     [(7, (\<lambda>_. 0), (\<lambda>_. 0), new_record\<lparr>rec_length := 1, rec_type := MESSAGETYPE_UNCHOKE\<rparr>, []),
      (7, (\<lambda>_. 0), (\<lambda>_. 0), request_record 0 0 2, []),
      (7, (\<lambda>_. 0), (\<lambda>_. 0), piece_record 1 0, [[4], [5]]),
      (8, (\<lambda>_. 0), (\<lambda>_. 0), piece_record 1 0, [[4, 5]]),
      (8, (\<lambda>_. 0), (\<lambda>_. 0), piece_record 0 0, [[1, 2, 3]])]"

lemma brings_piece_record [simp]:
  "brings i j (id_in, draw, draw_2, piece_record i' j', blocks) \<longleftrightarrow> i' = word_of_nat i \<and> j' = word_of_nat j"
  by (auto simp: piece_record_def new_record_def)

lemma honest_piece_record:
  "i < length Xs \<Longrightarrow> j \<in> block_offsets (Xs ! i) \<Longrightarrow> concat blocks = take 16384 (drop j (Xs ! i)) \<Longrightarrow>
   valid_draw draw \<Longrightarrow> valid_draw draw_2 \<Longrightarrow>
   honest Xs D (id_in, draw, draw_2, piece_record (word_of_nat i) (word_of_nat j), blocks)"
  by (auto simp del: brings.simps)

lemma honest_harmless:
  "harmless (length Xs) r \<Longrightarrow> valid_draw draw \<Longrightarrow> valid_draw draw_2 \<Longrightarrow> honest Xs D (id_in, draw, draw_2, r, blocks)"
  by simp

lemma honest_request_record:
  "i < length Xs \<Longrightarrow> D i \<noteq> block_offsets (Xs ! i) \<Longrightarrow> n \<noteq> 0 \<Longrightarrow> valid_draw draw \<Longrightarrow> valid_draw draw_2 \<Longrightarrow>
   honest Xs D (id_in, draw, draw_2, request_record (word_of_nat i) j n, blocks)"
  by (auto simp: asks_for_def request_record_def)

lemma brings_request_record [simp]: "\<not> brings i j (id_in, draw, draw_2, request_record k l n, blocks)"
  by (simp add: request_record_def)

lemma example_block_offsets: "block_offsets [a, b] = {0}" "block_offsets [a, b, c] = {0}"
  by (auto simp: block_offsets_def)

lemma valid_draw_0: "valid_draw (\<lambda>_. 0)"
  by (simp add: valid_draw_def)

lemma example_names:
  "length example_pieces = 2"
  "length (ss_pieces example_session) = 2"
  by (simp_all add: example_pieces_def example_session_def)

lemma example_torrent_ok:
  "torrent_ok example_session_env example_contents (ss_pieces example_session) example_info
     [(''d/t_pieces/n/a'', 2), (''d/t_pieces/n/b'', 3)] (ss_disk example_session)"
proof -
  have names: "piece_filename_ok ''abcdef''" "piece_filename_ok ''ghijkl''"
    using example_pieces_ready by (simp_all add: example_pieces_def piece_ready_def)
  have "SHA1 example_session_env = (\<lambda>bytes. bytes)"
    by (simp add: example_session_env_def)
  moreover have "ss_pieces example_session =
      map (\<lambda>p. p\<lparr>piece_chunks := [], piece_hash := chunks_bytes (piece_chunks p)\<rparr>) example_pieces"
    by (simp add: example_session_def)
  moreover have "unat (3 :: u32) = 3" "unat (2 :: u32) = 2"
    by simp_all
  ultimately have contents: "contents_ok example_session_env example_contents (ss_pieces example_session)"
    by (simp add: contents_ok_def example_contents_def example_pieces_def names)
  have name: "torrent_name example_session_env = ''t''"
    by (simp add: example_session_env_def example_files_def)
  have "t \<noteq> in_directory example_files (pieces_directory example_files ''t'')
      (name_of_piece example_files (ss_pieces example_session) i)"
    if "t = ''d/t_pieces/n/a'' \<or> t = ''d/t_pieces/n/b''" "i < length (ss_pieces example_session)" for t i
    using example_paths_fresh [OF _ that(1), of i] that(2) by (simp add: example_session_def)
  with contents example_files_ok example_torrent_files name show ?thesis
    by (auto simp: torrent_ok_def example_contents_def example_session_env_def example_session_def new_session_def)
qed

theorem download_completes_witness:
  "\<exists>s'. notify_all example_session_env example_deliveries example_session = Inr s'
     \<and> piece_onDisk (ss_pieces s' ! 0) \<and> piece_onDisk (ss_pieces s' ! 1)
     \<and> count_list (ss_events s') Controller_complete = 1
     \<and> ss_disk s' ''d/t_pieces/n/a'' = Some [1, 2] \<and> ss_disk s' ''d/t_pieces/n/b'' = Some [3, 4, 5]"
proof -
  have known: "peer_known example_session_env 2 id_in 1 example_session" if "id_in \<noteq> 0" for id_in
    using that by (simp add: peer_known_def connectionIdToPeerAddress_def example_session_env_def
        example_session_def new_peer_state_def)
  have "honest example_contents D (id_in, \<lambda>_. 0, \<lambda>_. 0, piece_record 0 0, [[1, 2, 3]])"
      "concat bs = [4, 5] \<Longrightarrow> honest example_contents D (id_in, \<lambda>_. 0, \<lambda>_. 0, piece_record 1 0, bs)"
      "D 0 = {} \<Longrightarrow> honest example_contents D (id_in, \<lambda>_. 0, \<lambda>_. 0, request_record 0 0 2, [])" for D id_in bs
    using honest_piece_record [of 0 example_contents 0] honest_piece_record [of 1 example_contents 0]
      honest_request_record [of 0 example_contents]
    by (simp_all add: example_contents_def example_block_offsets valid_draw_0 del: honest.simps)
  moreover have "delivered example_contents [m] 0 = {}" if "m = hd example_deliveries" for m
    by (simp add: that delivered_def example_deliveries_def new_record_def)
  ultimately have honest: "well_behaved example_contents (\<lambda>_. {}) example_deliveries"
    by (simp add: example_deliveries_def valid_draw_0 harmless_def honest_harmless new_record_def
        del: honest.simps)
  have delivered: "block_offsets (example_contents ! i) = delivered example_contents example_deliveries i" if "i < 2" for i
  proof -
    have "i = 0 \<or> i = 1"
      using that by auto
    then show ?thesis
      by (auto simp: example_deliveries_def example_contents_def delivered_def example_block_offsets
          simp del: brings.simps)
  qed
  have senders: "\<forall>m \<in> set example_deliveries.
      \<exists>a. peer_known example_session_env (length (ss_pieces example_session)) (fst m) a example_session"
  proof
    fix m assume "m \<in> set example_deliveries"
    moreover from this have "fst m \<noteq> 0"
      by (auto simp: example_deliveries_def)
    ultimately show "\<exists>a. peer_known example_session_env (length (ss_pieces example_session)) (fst m) a example_session"
      using known by (auto simp: example_names)
  qed
  have fresh: "\<forall>p \<in> set (ss_pieces example_session). piece_chunks p = [] \<and> \<not> piece_onDisk p"
    "Controller_complete \<notin> set (ss_events example_session)"
    by (auto simp: example_session_def example_pieces_def new_session_def)
  have "length example_contents = 2"
    by (simp add: example_contents_def)
  with download_completes [OF example_torrent_ok fresh honest senders] delivered show ?thesis
    by (fastforce simp: files_written_def example_contents_def)
qed

section \<open>Requests\<close>

text \<open>C12: Every request is useful: with the pieces of a torrent in whatever state of progress and any
  numbers drawn, \<open>requestNextPiece\<close> does not fail; if the peer has a piece that is incomplete here, it is
  asked for a block of at most 16384 bytes that lies in such a piece, behind the gapless run of bytes
  already received and before the end of the piece; else the peer is told that it is not interesting.\<close>

theorem requests_are_useful:
  assumes "\<forall>p \<in> set (ss_pieces s). accounted p" "length (ss_pieces s) < 2 ^ 32" "valid_draw draw" "valid_draw draw_2"
    and "id_in \<noteq> 0" "connectionIdToPeerAddress env id_in = Inr a" "ss_peerState s a = Some peer"
    and "length (ss_pieces s) \<le> 8 * length (ps_pieces peer)"
  shows "if wanted (ss_pieces s) (ps_pieces peer) = {}
    then requestNextPiece env draw draw_2 id_in s =
      Inr (False, interested env id_in False
        (set_peer a (peer\<lparr>ps_status := (ps_status peer)\<lparr>am_interested := False\<rparr>\<rparr>) s))
    else \<exists>i \<in> wanted (ss_pieces s) (ps_pieces peer). \<exists>r. useful_request (ss_pieces s ! i) r
      \<and> requestNextPiece env draw draw_2 id_in s =
          Inr (True, send_to env id_in (request_event id_in (word_of_nat i) r) s)"
  using requestNextPiece_cases [OF assms] by simp

lemma example_accounted: "\<forall>p \<in> set (ss_pieces example_session). accounted p"
  by (simp add: example_session_def example_pieces_def accounted_def piece_ok_def chunks_wf_def)

theorem requests_are_useful_witness:
  "\<exists>i \<in> {0, 1}. \<exists>r. useful_request (ss_pieces example_session ! i) r
     \<and> requestNextPiece example_session_env (\<lambda>_. 0) (\<lambda>_. 0) 7 example_session =
         Inr (True, emit_event (request_event 7 (word_of_nat i) r) example_session)"
proof -
  let ?peer = "new_peer_state\<lparr>ps_connections := [7, 8], ps_pieces := [0xC0]\<rparr>"
  have "wanted (ss_pieces example_session) [0xC0] = {0, 1}"
    by (auto simp: wanted_def has_piece_def example_names less_Suc_eq numeral_2_eq_2)
      (simp_all add: example_session_def example_pieces_def piece_complete_def chunksLength_def)
  then show ?thesis
    using requests_are_useful [OF example_accounted _ valid_draw_0 valid_draw_0, of 7 example_session_env 1 ?peer]
    by (simp add: example_names send_to_def)
      (simp add: example_session_env_def connectionIdToPeerAddress_def example_session_def new_peer_state_def)
qed

end
