(* ===== verification/Bittorrent_Peers.thy ===== *)
theory Bittorrent_Peers
  imports Bittorrent_Download
begin

text \<open>
  A BitTorrent session towards its peers: the bit field it announces, what a message can change
  whoever sent it (the marks of the pieces and the disk change only for data with the right hash), the
  bookkeeping of connections over all histories (\<open>session_history\<close>, \<open>links_ok\<close>), and the requests and
  indexes of peers that the session does not survive.
\<close>

section \<open>Bit fields\<close>

lemma has_piece_set:
  assumes "i < 8 * length bitfield" "i < 2 ^ 32"
  shows "\<exists>bitfield'. set_have_bit (word_of_nat i) bitfield = Inr bitfield' \<and> length bitfield' = length bitfield
    \<and> (\<forall>j < 8 * length bitfield. has_piece bitfield' j \<longleftrightarrow> j = i \<or> has_piece bitfield j)"
proof -
  let ?k = "7 - i mod 8"
  let ?bits = "bitfield[i div 8 := bitfield ! (i div 8) OR 2 ^ ?k]"
  have "i mod 8 < 8"
    by simp
  then have "drop_bit (i mod 8) (0x80 :: byte) = 2 ^ ?k"
    by (rule drop_bit_high_bit)
  with assms have run: "set_have_bit (word_of_nat i) bitfield = Inr ?bits"
    by (auto simp: set_have_bit_def Let_def unat_div unat_mod unat_of_nat)
  have "has_piece ?bits j \<longleftrightarrow> j = i \<or> has_piece bitfield j" if "j < 8 * length bitfield" for j
  proof (cases "j div 8 = i div 8")
    case True
    have "7 - j mod 8 = ?k \<longleftrightarrow> j = i"
    proof
      assume "7 - j mod 8 = ?k"
      moreover have "j mod 8 < 8" "i mod 8 < 8"
        by simp_all
      ultimately have "j mod 8 = i mod 8"
        by linarith
      with True show "j = i"
        by (metis div_mult_mod_eq)
    qed simp
    then show ?thesis
      using True that assms(1) by (auto simp: has_piece_def bit_simps)
  next
    case False
    then have "j \<noteq> i"
      by blast
    with False show ?thesis
      by (simp add: has_piece_def)
  qed
  with run show ?thesis
    by simp
qed

lemma set_bits_loop_eq:
  "\<forall>i \<in> set js. i < 8 * length bitfield \<and> i < 2 ^ 32 \<Longrightarrow>
   \<exists>bitfield'. set_bits_loop (map word_of_nat js) bitfield = Inr bitfield' \<and> length bitfield' = length bitfield
    \<and> (\<forall>i < 8 * length bitfield. has_piece bitfield' i \<longleftrightarrow> i \<in> set js \<or> has_piece bitfield i)"
proof (induction js arbitrary: bitfield)
  case (Cons j js)
  have "j < 8 * length bitfield" "j < 2 ^ 32"
    using Cons.prems by simp_all
  from has_piece_set [OF this] obtain bitfield' where j: "set_have_bit (word_of_nat j) bitfield = Inr bitfield'"
      "length bitfield' = length bitfield"
      "\<forall>i < 8 * length bitfield. has_piece bitfield' i \<longleftrightarrow> i = j \<or> has_piece bitfield i"
    by blast
  have "\<forall>i \<in> set js. i < 8 * length bitfield' \<and> i < 2 ^ 32"
    using Cons.prems j(2) by simp
  from Cons.IH [OF this] j show ?case
    by auto
qed simp

definition example_progress :: "piece list" where
  "example_progress =
     [\<lparr>piece_chunks = [], piece_filename = ''abcdef'', piece_hash = [], piece_length = 4, piece_onDisk = True\<rparr>,
      \<lparr>piece_chunks = [], piece_filename = ''ghijkl'', piece_hash = [], piece_length = 4, piece_onDisk = False\<rparr>]"

text \<open>The bit field a session announces itself with is right and too long: the bit of each piece says
  whether the piece is complete, but there is one byte for every piece where the protocol asks for one
  bit; the lengths agree only when there is a single piece.\<close>

lemma own_bitfield_correct:
  assumes "list_all piece_ok ps" "length ps < 2 ^ 32"
  shows "\<exists>indexes bitfield. getPieceIndexes ps False = Inr indexes \<and> own_bitfield ps indexes = Inr bitfield
    \<and> (\<forall>i < length ps. havePiece (word_of_nat i) bitfield = Inr (piece_complete (ps ! i)))
    \<and> length bitfield = length ps
    \<and> (length bitfield = (length ps + 7) div 8 \<longleftrightarrow> length ps \<le> 1)"
proof -
  let ?js = "filter (\<lambda>i. piece_complete (ps ! i)) [0..<length ps]"
  have indexes: "getPieceIndexes ps False = Inr (map word_of_nat ?js)"
    using getPieceIndexes_loop_eq [OF assms(1), of False 0] by (simp add: getPieceIndexes_def)
  have "\<forall>i \<in> set ?js. i < 8 * length (replicate (length ps) 0 :: byte list) \<and> i < 2 ^ 32"
    using assms(2) by auto
  from set_bits_loop_eq [OF this] obtain bitfield where bits: "own_bitfield ps (map word_of_nat ?js) = Inr bitfield"
      "length bitfield = length ps"
      "\<forall>i < 8 * length ps. has_piece bitfield i \<longleftrightarrow> i \<in> set ?js \<or> has_piece (replicate (length ps) 0) i"
    unfolding own_bitfield_def length_replicate by blast
  have "havePiece (word_of_nat i) bitfield = Inr (piece_complete (ps ! i))" if "i < length ps" for i
  proof -
    have "\<not> has_piece (replicate (length ps) 0) i"
      using that by (simp add: has_piece_def)
    with bits that assms(2) havePiece_has_piece [of i bitfield] show ?thesis
      by simp
  qed
  moreover have "length ps = (length ps + 7) div 8 \<longleftrightarrow> length ps \<le> 1"
  proof (cases "length ps \<le> 1")
    case True
    then have "length ps = 0 \<or> length ps = 1"
      by linarith
    then show ?thesis
      by auto
  next
    case False
    then have "(length ps + 7) div 8 < length ps"
      by (simp add: div_less_iff_less_mult)
    with False show ?thesis
      by linarith
  qed
  ultimately show ?thesis
    using indexes bits(1,2) by auto
qed

section \<open>What a message can change\<close>

text \<open>
  \<open>light\<close>: the connections of the session and of its peers, the disk, and which pieces are on disk with
  which hashes stay as they are.
\<close>

definition piece_marks :: "session \<Rightarrow> (bool \<times> byte list \<times> u32) list" where
  "piece_marks s = map (\<lambda>p. (piece_onDisk p, piece_hash p, piece_length p)) (ss_pieces s)"

definition same_links :: "session \<Rightarrow> session \<Rightarrow> bool" where
  "same_links s s' \<longleftrightarrow> ss_connections s' = ss_connections s
     \<and> ss_trackerConnectionId s' = ss_trackerConnectionId s
     \<and> (\<forall>a. map_option ps_connections (ss_peerState s' a) = map_option ps_connections (ss_peerState s a))"

definition light :: "session \<Rightarrow> session \<Rightarrow> bool" where
  "light s s' \<longleftrightarrow> same_links s s' \<and> ss_disk s' = ss_disk s \<and> piece_marks s' = piece_marks s"

definition lightly :: "session \<Rightarrow> session run \<Rightarrow> bool" where
  "lightly s m \<longleftrightarrow> (\<forall>s'. m = Inr s' \<longrightarrow> light s s')"

lemma light_refl [simp]: "light s s"
  by (simp add: light_def same_links_def)

lemma light_trans: "light s s' \<Longrightarrow> light s' s'' \<Longrightarrow> light s s''"
  by (simp add: light_def same_links_def)

lemma same_links_trans: "same_links s s' \<Longrightarrow> same_links s' s'' \<Longrightarrow> same_links s s''"
  by (simp add: same_links_def)

lemma lightly_simps [simp]: "lightly s (Inr s') \<longleftrightarrow> light s s'" "lightly s (Inl e)"
  by (simp_all add: lightly_def)

lemma lightly_bind: "lightly s m \<Longrightarrow> (\<And>s'. light s s' \<Longrightarrow> lightly s' (f s')) \<Longrightarrow> lightly s (run_bind m f)"
  by (fastforce simp: lightly_def intro: light_trans)

lemma lightly_value: "(\<And>x. m = Inr x \<Longrightarrow> lightly s (f x)) \<Longrightarrow> lightly s (run_bind m f)"
  by (auto simp: lightly_def)

lemma lightly_weaken: "light s s' \<Longrightarrow> lightly s' m \<Longrightarrow> lightly s m"
  by (auto simp: lightly_def intro: light_trans)

lemma light_emit_event [simp]: "light s (emit_event e s)"
  by (simp add: light_def same_links_def piece_marks_def)

lemma light_send_to [simp]: "light s (send_to env id_in e s)"
  by (simp add: send_to_def)

lemma light_interested [simp]: "light s (interested env id_in b s)" "light s (choke env id_in b s)"
  by (simp_all add: interested_def choke_def)

lemma light_tell_subscriber [simp]: "light s (tell_subscriber env e s)"
  by (simp add: tell_subscriber_def)

lemma light_have_loop: "light s (have_loop env i ids s)"
  by (induction env i ids s rule: have_loop.induct) (auto intro: light_trans [OF light_emit_event])

lemma light_have_piece [simp]: "light s (have_piece env i s)"
  by (simp add: have_piece_def light_have_loop)

lemma light_set_peer:
  "ss_peerState s a = Some peer \<Longrightarrow> ps_connections peer' = ps_connections peer \<Longrightarrow> light s (set_peer a peer' s)"
  by (simp add: light_def same_links_def set_peer_def piece_marks_def)

lemma find_peer_Inr [simp]: "find_peer a s = Inr peer \<longleftrightarrow> ss_peerState s a = Some peer"
  by (auto simp: find_peer_def split: option.splits)

lemma lightly_change_status: "lightly s (change_status a f s)"
  by (auto simp: change_status_def intro!: lightly_value light_set_peer)

lemma lightly_request_and_count: "lightly s (request_and_count env draw draw_2 id_in a s)"
proof -
  have "light s s'" if "requestNextPiece env draw draw_2 id_in s = Inr (b, s')" for b s'
  proof -
    from that obtain a' peer missing_piece where run: "ss_peerState s a' = Some peer"
      "(if \<not> missing_piece
        then run_bind (change_status a' (\<lambda>st. st\<lparr>am_interested := False\<rparr>) s) (\<lambda>s. Inr (False, interested env id_in False s))
        else Inr (b, s')) = Inr (b, s') \<and> (missing_piece \<longrightarrow> (\<exists>e. s' = send_to env id_in e s))"
      by (fastforce simp: requestNextPiece_def request_piece_def Let_def split: if_splits)
    show ?thesis
    proof (cases missing_piece)
      case False
      with run lightly_change_status [of s a'] show ?thesis
        by (auto simp: lightly_def intro: light_trans [OF _ light_interested(1)])
    qed (use run in auto)
  qed
  then show ?thesis
    by (auto simp: request_and_count_def count_request_def
        intro!: lightly_value lightly_weaken [OF _ lightly_change_status])
qed

lemma lightly_notice_pieces:
  assumes "notice_pieces env id_in a peer' s = Inr (b, s')" "ss_peerState s a = Some peer"
    and "ps_connections peer' = ps_connections peer"
  shows "light s s'"
  using assms
  by (auto simp: notice_pieces_def split: if_splits intro!: light_set_peer light_trans [OF light_set_peer light_interested(1)])

lemma lightly_notify_have: "lightly s (notify_have env draw draw_2 id_in a i s)"
  unfolding notify_have_def
  by (auto simp: lightly_def dest!: lightly_notice_pieces split: if_splits
      intro: light_trans light_trans [OF _ light_emit_event]
        lightly_request_and_count [unfolded lightly_def, rule_format, THEN light_trans [rotated]])

lemma loadPiece_loop_marks:
  "loadPiece_loop env path i fs names p = Some p' \<Longrightarrow>
   piece_onDisk p' = piece_onDisk p \<and> piece_hash p' = piece_hash p \<and> piece_length p' = piece_length p"
  by (induction names) (auto split: if_splits option.splits)

lemma light_set_pieces:
  assumes "piece_onDisk p = piece_onDisk (ss_pieces s ! i) \<and> piece_hash p = piece_hash (ss_pieces s ! i)
    \<and> piece_length p = piece_length (ss_pieces s ! i)" "i < length (ss_pieces s)"
  shows "light s (s\<lparr>ss_pieces := (ss_pieces s)[i := p]\<rparr>)"
  using assms by (auto simp: light_def same_links_def piece_marks_def map_update intro!: list_update_same_conv [THEN iffD2])

lemma lightly_if: "(b \<Longrightarrow> lightly s m) \<Longrightarrow> (\<not> b \<Longrightarrow> lightly s m') \<Longrightarrow> lightly s (if b then m else m')"
  by simp

lemma lightly_send_piece: "lightly s (send_piece env id_in index begin_in length_in s)"
  unfolding send_piece_def Let_def
proof (intro lightly_value lightly_if, goal_cases)
  case (3 _ _ loaded)
  let ?p = "ss_pieces s ! unat index"
  show ?case
  proof (cases loaded)
    case (Some p)
    have "light s (s\<lparr>ss_pieces := (ss_pieces s)[unat index := p]\<rparr>)"
      using 3 Some
      by (intro light_set_pieces) (auto simp: loadPiece_def Let_def dest!: loadPiece_loop_marks split: if_splits)
    with Some show ?thesis
      by (auto intro!: lightly_value light_trans [OF _ light_send_to])
  qed simp
qed simp_all

text \<open>The other kind of change: a block completed a piece with the right hash.\<close>

definition verified :: "session_env \<Rightarrow> u32 \<Rightarrow> u32 \<Rightarrow> byte list list \<Rightarrow> session \<Rightarrow> session \<Rightarrow> bool" where
  "verified env i j blocks s s' \<longleftrightarrow> same_links s s' \<and> unat i < length (ss_pieces s)
     \<and> (let p = ss_pieces s ! unat i in
        \<not> piece_onDisk p
        \<and> (\<exists>cs. sanitizeChunks (piece_chunks p @ [\<lparr>chunk_data = blocks, chunk_offset = j\<rparr>]) = Inr cs
             \<and> length (chunks_bytes cs) = unat (piece_length p) \<and> SHA1 env (chunks_bytes cs) = piece_hash p)
        \<and> piece_marks s' = (piece_marks s)[unat i := (True, piece_hash p, piece_length p)])"

lemma savePiece_marks:
  "savePiece denv m n i p fs = Inr (True, p', fs') \<Longrightarrow>
   piece_onDisk p' \<and> piece_hash p' = piece_hash p \<and> piece_length p' = piece_length p"
  by (auto simp: savePiece_def Let_def split: if_splits option.splits prod.splits)

lemma same_links_simps [simp]:
  "same_links s (s\<lparr>ss_pieces := ps\<rparr>)" "same_links s (s\<lparr>ss_disk := fs\<rparr>)"
  "same_links s (s\<lparr>ss_pieces := ps, ss_disk := fs\<rparr>)"
  "same_links s (tell_subscriber env e s') = same_links s s'"
  "same_links s (tell_subscriber env e s'\<lparr>ss_disk := fs\<rparr>) = same_links s s'"
  by (simp_all add: same_links_def tell_subscriber_def emit_event_def)

lemma piece_marks_simps [simp]:
  "piece_marks (s\<lparr>ss_disk := fs\<rparr>) = piece_marks s" "piece_marks (tell_subscriber env e s) = piece_marks s"
  "piece_marks (s\<lparr>ss_pieces := (ss_pieces s)[i := p]\<rparr>) =
    (piece_marks s)[i := (piece_onDisk p, piece_hash p, piece_length p)]"
  by (simp_all add: piece_marks_def tell_subscriber_def emit_event_def map_update)

lemma piece_completed_marks:
  assumes "piece_completed env i p s = Inr (s', announce, complete)"
  shows "same_links s s' \<and> piece_marks s' = (piece_marks s)[unat i := (True, piece_hash p, piece_length p)]"
proof -
  from assms obtain p' fs where save: "piece_onDisk p' \<and> piece_hash p' = piece_hash p \<and> piece_length p' = piece_length p"
    "s' = tell_subscriber env (Piece_complete i) (set_piece i p' (s\<lparr>ss_disk := fs\<rparr>))
     \<or> (\<exists>fs'. s' = tell_subscriber env (Piece_complete i) (set_piece i p' (s\<lparr>ss_disk := fs\<rparr>))\<lparr>ss_disk := fs'\<rparr>)"
    by (fastforce simp: piece_completed_def Let_def ace_assert_def dest: savePiece_marks split: if_splits)
  have "same_links s (set_piece i p' (s\<lparr>ss_disk := fs\<rparr>))"
    "piece_marks (set_piece i p' (s\<lparr>ss_disk := fs\<rparr>)) = (piece_marks s)[unat i := (True, piece_hash p, piece_length p)]"
    using save(1) by (simp_all add: set_piece_def piece_marks_def map_update same_links_def)
  with save(2) show ?thesis
    by auto
qed

lemma block_received_marks:
  assumes "block_received env i j blocks s = Inr (s', announce, complete)"
  shows "light s s' \<or> verified env i j blocks s s'"
proof -
  let ?p = "ss_pieces s ! unat i"
  have i: "unat i < length (ss_pieces s)"
    using assms by (auto simp: block_received_def split: if_splits)
  have light: "light s (set_piece i (?p\<lparr>piece_chunks := cs\<rparr>) s)" for cs
    unfolding set_piece_def using i by (intro light_set_pieces) simp_all
  show ?thesis
  proof (cases "piece_onDisk ?p \<or> isPieceComplete (piece_length ?p) (piece_chunks ?p) = Inr True")
    case True
    with assms i show ?thesis
      by (auto simp: block_received_def Let_def split: if_splits)
  next
    case False
    with assms i obtain cs where cs: "sanitizeChunks (piece_chunks ?p @ [\<lparr>chunk_data = blocks, chunk_offset = j\<rparr>]) = Inr cs"
      "(\<exists>cs'. s' = set_piece i (?p\<lparr>piece_chunks := cs'\<rparr>) s)
       \<or> validatePieceHash (SHA1 env) (?p\<lparr>piece_chunks := cs\<rparr>) = Inr True
         \<and> piece_completed env i (?p\<lparr>piece_chunks := cs\<rparr>) (set_piece i (?p\<lparr>piece_chunks := cs\<rparr>) s) =
             Inr (s', announce, complete)"
      by (auto simp: block_received_def Let_def set_piece_def split: if_splits)
    then show ?thesis
    proof (elim disjE)
      assume valid: "validatePieceHash (SHA1 env) (?p\<lparr>piece_chunks := cs\<rparr>) = Inr True
         \<and> piece_completed env i (?p\<lparr>piece_chunks := cs\<rparr>) (set_piece i (?p\<lparr>piece_chunks := cs\<rparr>) s) =
             Inr (s', announce, complete)"
      then have "length (chunks_bytes cs) = unat (piece_length ?p)" "SHA1 env (chunks_bytes cs) = piece_hash ?p"
        by (auto simp: validatePieceHash_def ace_assert_def split: if_splits)
      moreover have "same_links s s' \<and> piece_marks s' = (piece_marks s)[unat i := (True, piece_hash ?p, piece_length ?p)]"
        using piece_completed_marks [OF conjunct2 [OF valid]] light [of cs]
        by (auto simp: light_def intro: same_links_trans)
      ultimately show ?thesis
        using i cs(1) False by (auto simp: verified_def Let_def)
    qed (use light in auto)
  qed
qed

lemma light_then: "light s s' \<or> verified env i j blocks s s' \<Longrightarrow> light s' s'' \<Longrightarrow>
    light s s'' \<or> verified env i j blocks s s''"
  by (auto simp: verified_def light_def Let_def intro: same_links_trans)

lemma notify_piece_marks:
  assumes "notify_piece env draw draw_2 id_in a i j blocks s = Inr s'"
  shows "light s s' \<or> verified env i j blocks s s'"
proof -
  obtain s1 announce complete where s1: "block_received env i j blocks s = Inr (s1, announce, complete)"
    using assms by (auto simp: notify_piece_def split: prod.splits)
  define s2 where "s2 = (if announce then have_piece env i s1 else s1)"
  obtain request_next where "run_bind (change_status a (\<lambda>st. st\<lparr>requesting_piece := requesting_piece st - 1\<rparr>) s2) (\<lambda>s.
     run_bind (if request_next then request_and_count env draw draw_2 id_in a s else Inr s) (\<lambda>s.
       Inr (if complete then emit_event Controller_complete (tell_subscriber env Torrent_complete s) else s))) = Inr s'"
    using assms unfolding notify_piece_def s1 s2_def by (auto simp: Let_def)
  moreover have "lightly s2 (run_bind (change_status a (\<lambda>st. st\<lparr>requesting_piece := requesting_piece st - 1\<rparr>) s2) (\<lambda>s.
     run_bind (if request_next then request_and_count env draw draw_2 id_in a s else Inr s) (\<lambda>s.
       Inr (if complete then emit_event Controller_complete (tell_subscriber env Torrent_complete s) else s))))"
    for request_next
    by (intro lightly_bind lightly_change_status)
      (auto intro: lightly_request_and_count light_trans [OF light_tell_subscriber light_emit_event])
  ultimately have "light s2 s'"
    by (auto simp: lightly_def)
  then have "light s1 s'"
    by (auto simp: s2_def intro: light_trans [OF light_have_piece] split: if_splits)
  with light_then [OF block_received_marks [OF s1]] show ?thesis
    by blast
qed

lemma notify_record_marks:
  assumes "notify_record env draw draw_2 id_in r blocks s = Inr s'"
  shows "light s s' \<or> (rec_type r = MESSAGETYPE_PIECE \<and> (\<exists>i j. read_index (rec_payload r) = Inr i
    \<and> read_begin (rec_payload r) = Inr j \<and> verified env i j blocks s s'))"
proof (cases "rec_type r = MESSAGETYPE_PIECE")
  case True
  with assms show ?thesis
    by (auto simp: notify_record_def dest: notify_piece_marks split: if_splits)
next
  case False
  have bitfield: "light s (set_peer a (peer\<lparr>ps_pieces := rec_bitfield r\<rparr>) s)"
    "notice_pieces env id_in a (peer\<lparr>ps_pieces := rec_bitfield r\<rparr>) s = Inr (b, s') \<Longrightarrow> light s s'"
    if "ss_peerState s a = Some peer" for a peer b s'
    using that by (auto intro: light_set_peer lightly_notice_pieces)
  have "lightly s (notify_record env draw draw_2 id_in r blocks s)"
    unfolding notify_record_def
    by (rule lightly_value, rule lightly_if, simp, cases "rec_type r")
      (use False in \<open>(auto simp: Let_def intro!: lightly_value lightly_bind [OF lightly_change_status]
          lightly_change_status lightly_request_and_count lightly_notify_have lightly_send_piece bitfield(1))?,
          (metis bitfield(2))?\<close>)
  with assms show ?thesis
    by (simp add: lightly_def)
qed

text \<open>C3: Nothing unverified reaches the disk, whatever a peer sends: if a message is handled without
  failure, then either the disk and the marks of all pieces are as they were, or it was a block that
  made the chunks of its piece as long as the piece and gave them the hash the torrent wants, and that
  piece alone is now marked as being on disk.\<close>

theorem only_verified_pieces_reach_disk:
  assumes "notify_record env draw draw_2 id_in r blocks s = Inr s'"
  shows "(ss_disk s' = ss_disk s \<and> piece_marks s' = piece_marks s)
    \<or> (rec_type r = MESSAGETYPE_PIECE \<and> (\<exists>i j cs. read_index (rec_payload r) = Inr i \<and> read_begin (rec_payload r) = Inr j
        \<and> unat i < length (ss_pieces s) \<and> \<not> piece_onDisk (ss_pieces s ! unat i)
        \<and> sanitizeChunks (piece_chunks (ss_pieces s ! unat i) @ [\<lparr>chunk_data = blocks, chunk_offset = j\<rparr>]) = Inr cs
        \<and> length (chunks_bytes cs) = unat (piece_length (ss_pieces s ! unat i))
        \<and> SHA1 env (chunks_bytes cs) = piece_hash (ss_pieces s ! unat i)
        \<and> piece_marks s' = (piece_marks s)
            [unat i := (True, piece_hash (ss_pieces s ! unat i), piece_length (ss_pieces s ! unat i))]))"
  using notify_record_marks [OF assms] unfolding light_def verified_def Let_def by blast

theorem only_verified_pieces_reach_disk_witness:
  "\<exists>s'. notify_record example_session_env (\<lambda>_. 0) (\<lambda>_. 0) 7 (piece_record 1 0) [[4, 6]] example_session = Inr s'
     \<and> ss_disk s' = Map.empty \<and> piece_marks s' = piece_marks example_session"
proof -
  let ?s = example_session and ?env = example_session_env
  let ?p = "\<lparr>piece_chunks = [], piece_filename = ''ghijkl'', piece_hash = [4, 5], piece_length = 2, piece_onDisk = False\<rparr>"
  have at: "ss_pieces ?s ! 1 = ?p" "ss_pieces ?s ! Suc 0 = ?p"
    by (simp_all add: example_session_def example_pieces_def)
  have one: "sanitizeChunks [\<lparr>chunk_data = [[4, 6 :: byte]], chunk_offset = 0\<rparr>] =
      Inr [\<lparr>chunk_data = [[4, 6]], chunk_offset = 0\<rparr>]"
    by (simp add: sanitizeChunks_def sort_chunks_def)
  have hash: "SHA1 ?env = (\<lambda>bytes. bytes)"
    by (simp add: example_session_env_def)
  have "block_received ?env 1 0 [[4, 6]] ?s = Inr (set_piece 1 ?p ?s, False, False)"
    by (simp add: block_received_def example_names at one hash isPieceComplete_def validatePieceHash_def
        freeChunks_def set_piece_def Let_def)
  moreover have "ss_peerState ?s 1 = Some (new_peer_state\<lparr>ps_connections := [7, 8], ps_pieces := [0xC0]\<rparr>)"
    by (simp add: example_session_def)
  moreover have "connectionIdToPeerAddress ?env 7 = Inr 1"
    by (simp add: connectionIdToPeerAddress_def example_session_env_def)
  ultimately have "\<exists>s'. notify_record ?env (\<lambda>_. 0) (\<lambda>_. 0) 7 (piece_record 1 0) [[4, 6]] ?s = Inr s'"
    by (simp add: notify_record_def piece_record_def new_record_def notify_piece_def change_status_def set_piece_def
        new_peer_state_def new_peer_status_def Let_def)
  then obtain s' where run: "notify_record ?env (\<lambda>_. 0) (\<lambda>_. 0) 7 (piece_record 1 0) [[4, 6]] ?s = Inr s'"
    by blast
  have "ss_disk ?s = Map.empty"
    by (simp add: example_session_def new_session_def)
  with only_verified_pieces_reach_disk [OF run] run at one show ?thesis
    by (auto simp: piece_record_def new_record_def hash)
qed

section \<open>Connections\<close>

text \<open>
  \<open>links_ok\<close>: the connections of the session are those to its trackers, \<open>T\<close>, and those of its peers;
  each of the latter belongs to the one peer with its address, no peer is kept without a connection.
\<close>

definition peer_links :: "session \<Rightarrow> u32 \<rightharpoonup> nat list" where
  "peer_links s a = map_option ps_connections (ss_peerState s a)"

definition links_ok :: "session_env \<Rightarrow> nat set \<Rightarrow> session \<Rightarrow> bool" where
  "links_ok env T s \<longleftrightarrow>
     sorted (ss_connections s) \<and> distinct (ss_connections s)
     \<and> T \<subseteq> set (ss_connections s) \<and> ss_trackerConnectionId s \<in> insert 0 T
     \<and> (\<forall>a ids. peer_links s a = Some ids \<longrightarrow> ids \<noteq> [] \<and> distinct ids
          \<and> (\<forall>i \<in> set ids. i \<in> set (ss_connections s) - T \<and> connectionIdToPeerAddress env i = Inr a))
     \<and> (\<forall>i \<in> set (ss_connections s) - T. \<exists>a ids. peer_links s a = Some ids \<and> i \<in> set ids)"

text \<open>
  The histories of a session: every operation of its interface that the handlers of the streams, the
  connecting threads and the controller call, each to its end and without failure. \<open>addr\<close> are the
  addresses the connection manager has for the identifiers at the time; they may change between the
  operations, but those of the open connections to peers stay. \<open>T\<close> are the open connections to
  trackers, and only such a connection is reported as closed by its handler.
\<close>

inductive session_history ::
    "session_env \<Rightarrow> fs \<Rightarrow> (nat \<Rightarrow> inet_address option) \<Rightarrow> nat set \<Rightarrow> session \<Rightarrow> bool" for env fs where
  created: "session_history env fs addr {} (new_session fs)"
| readdressed: "session_history env fs addr T s \<Longrightarrow>
    \<forall>i \<in> set (ss_connections s) - T. addr' i = addr i \<Longrightarrow> session_history env fs addr' T s"
| initialized: "session_history env fs addr T s \<Longrightarrow>
    initialize_session (env\<lparr>connection_address := addr\<rparr>) s = Inr (ok, s') \<Longrightarrow> session_history env fs addr T s'"
| connected: "session_history env fs addr T s \<Longrightarrow>
    connect_peer (env\<lparr>connection_address := addr\<rparr>) id_in s = Inr s' \<Longrightarrow> session_history env fs addr T s'"
| disconnected: "session_history env fs addr T s \<Longrightarrow>
    disconnect_peer (env\<lparr>connection_address := addr\<rparr>) id_in s = Inr s' \<Longrightarrow> session_history env fs addr T s'"
| notified: "session_history env fs addr T s \<Longrightarrow>
    notify_record (env\<lparr>connection_address := addr\<rparr>) draw draw_2 id_in r blocks s = Inr s' \<Longrightarrow>
    session_history env fs addr T s'"
| choked: "session_history env fs addr T s \<Longrightarrow>
    session_history env fs addr T (choke (env\<lparr>connection_address := addr\<rparr>) id_in choke_in s)"
| interest: "session_history env fs addr T s \<Longrightarrow>
    session_history env fs addr T (interested (env\<lparr>connection_address := addr\<rparr>) id_in interested_in s)"
| requested: "session_history env fs addr T s \<Longrightarrow>
    request_piece (env\<lparr>connection_address := addr\<rparr>) id_in index begin_in length_in s = Inr s' \<Longrightarrow>
    session_history env fs addr T s'"
| served: "session_history env fs addr T s \<Longrightarrow>
    send_piece (env\<lparr>connection_address := addr\<rparr>) id_in index begin_in length_in s = Inr s' \<Longrightarrow>
    session_history env fs addr T s'"
| announced: "session_history env fs addr T s \<Longrightarrow>
    session_history env fs addr T (have_piece (env\<lparr>connection_address := addr\<rparr>) index s)"
| tracker_connected: "session_history env fs addr T s \<Longrightarrow>
    tracker_connect (env\<lparr>connection_address := addr\<rparr>) tracker_found id_in s = Inr s' \<Longrightarrow>
    session_history env fs addr (insert id_in T) s'"
| tracker_disconnected: "session_history env fs addr T s \<Longrightarrow> id_in \<in> T \<Longrightarrow>
    tracker_disconnect (env\<lparr>connection_address := addr\<rparr>) id_in s = Inr s' \<Longrightarrow>
    session_history env fs addr (T - {id_in}) s'"
| tracker_notified: "session_history env fs addr T s \<Longrightarrow>
    notify_tracker set_ok stale_port spawned d s = Inr s' \<Longrightarrow> session_history env fs addr T s'"
| handshaken: "session_history env fs addr T s \<Longrightarrow> notify_handshake s = Inr s' \<Longrightarrow> session_history env fs addr T s'"
| redirected: "session_history env fs addr T s \<Longrightarrow> session_history env fs addr T (tracker_redirect location s)"
| failed: "session_history env fs addr T s \<Longrightarrow> session_history env fs addr T (tracker_error env s)"
| finished: "session_history env fs addr T s \<Longrightarrow> session_history env fs addr T (setup_finished s)"

lemma same_links_eq: "same_links s s' \<longleftrightarrow> ss_connections s' = ss_connections s
    \<and> ss_trackerConnectionId s' = ss_trackerConnectionId s \<and> peer_links s' = peer_links s"
  by (auto simp: same_links_def peer_links_def fun_eq_iff)

lemma links_ok_same_links: "same_links s s' \<Longrightarrow> links_ok env T s \<Longrightarrow> links_ok env T s'"
  by (simp add: same_links_eq links_ok_def)

lemma notify_record_links: "notify_record env draw draw_2 id_in r blocks s = Inr s' \<Longrightarrow> same_links s s'"
  by (auto dest!: notify_record_marks simp: light_def verified_def)

lemma populate_links: "populatePeerPiecesBitfield env a s = Inr s' \<Longrightarrow> same_links s s'"
  by (auto simp: populatePeerPiecesBitfield_def Let_def intro: light_set_peer [unfolded light_def, THEN conjunct1] split: prod.splits)

definition added :: "nat \<Rightarrow> nat list option \<Rightarrow> nat list" where
  "added i ids = (case ids of None \<Rightarrow> [i] | Some ids \<Rightarrow> ids @ [i])"

lemma connect_links:
  assumes "connect_peer env id_in s = Inr s'"
  shows "\<exists>a. id_in \<notin> set (ss_connections s) \<and> connectionIdToPeerAddress env id_in = Inr a
    \<and> ss_connections s' = insort id_in (ss_connections s) \<and> ss_trackerConnectionId s' = ss_trackerConnectionId s
    \<and> peer_links s' = (peer_links s)(a \<mapsto> added id_in (peer_links s a))"
proof -
  obtain a where a: "id_in \<notin> set (ss_connections s)" "connectionIdToPeerAddress env id_in = Inr a"
    using assms by (auto simp: connect_peer_def base_connect_def ace_assert_def split: if_splits)
  define peer where "peer = (case ss_peerState s a of None \<Rightarrow> new_peer_state | Some p \<Rightarrow> p)"
  define s1 where "s1 = set_peer a (peer\<lparr>ps_connections := ps_connections peer @ [id_in]\<rparr>)
      (s\<lparr>ss_connections := insort id_in (ss_connections s)\<rparr>)"
  have links: "ss_connections s1 = insort id_in (ss_connections s)" "ss_trackerConnectionId s1 = ss_trackerConnectionId s"
      "peer_links s1 = (peer_links s)(a \<mapsto> added id_in (peer_links s a))"
    by (auto simp: s1_def set_peer_def peer_links_def added_def peer_def fun_eq_iff new_peer_state_def split: option.splits)
  obtain s2 where s2: "(if ps_pieces peer = [] then populatePeerPiecesBitfield env a s1 else Inr s1) = Inr s2"
      "\<exists>x y. s' = s2 \<or> s' = tell_subscriber env (Peer_connected id_in) (emit_event x s2)
        \<or> s' = tell_subscriber env (Peer_connected id_in) (emit_event y (emit_event x s2))"
    using assms a unfolding s1_def peer_def
    by (auto simp: connect_peer_def base_connect_def Let_def split: if_splits)
  have "same_links s1 s2"
    using s2(1) populate_links by (auto simp: same_links_def split: if_splits)
  moreover have "same_links s2 s'"
    using s2(2) by (auto simp: same_links_def tell_subscriber_def emit_event_def)
  ultimately have "same_links s1 s'"
    by (rule same_links_trans)
  with a links show ?thesis
    by (auto simp: same_links_eq)
qed

lemma disconnect_links:
  assumes "disconnect_peer env id_in s = Inr s'"
  shows "\<exists>a ids. connectionIdToPeerAddress env id_in = Inr a \<and> peer_links s a = Some ids \<and> id_in \<in> set ids
    \<and> ss_connections s' = remove1 id_in (ss_connections s) \<and> ss_trackerConnectionId s' = ss_trackerConnectionId s
    \<and> peer_links s' = (peer_links s)(a := if remove1 id_in ids = [] then None else Some (remove1 id_in ids))"
proof -
  obtain a peer where a: "connectionIdToPeerAddress env id_in = Inr a" "ss_peerState s a = Some peer"
      "id_in \<in> set (ps_connections peer)" "id_in \<in> set (ss_connections s)"
    using assms by (auto simp: disconnect_peer_def base_disconnect_def ace_assert_def find_peer_def
        split: if_splits option.splits)
  let ?ids = "remove1 id_in (ps_connections peer)"
  define s1 where "s1 = s\<lparr>ss_connections := remove1 id_in (ss_connections s)\<rparr>"
  define s2 where "s2 = (if ?ids = [] then s1\<lparr>ss_peerState := (ss_peerState s1)(a := None)\<rparr>
      else set_peer a (peer\<lparr>ps_connections := ?ids\<rparr>) s1)"
  have s2: "ss_connections s2 = remove1 id_in (ss_connections s)" "ss_trackerConnectionId s2 = ss_trackerConnectionId s"
      "peer_links s2 = (peer_links s)(a := if ?ids = [] then None else Some ?ids)"
    by (auto simp: s2_def s1_def set_peer_def peer_links_def fun_eq_iff)
  have "s' = tell_subscriber env (Peer_disconnected id_in)
      (if ss_connections s2 = [] \<and> \<not> ss_connecting s2 then emit_event Controller_no_more_peers s2 else s2)"
    using assms a unfolding s2_def s1_def by (simp add: disconnect_peer_def base_disconnect_def Let_def)
  then have "same_links s2 s'"
    by (auto simp: same_links_def tell_subscriber_def emit_event_def)
  with a s2 show ?thesis
    by (auto simp: same_links_eq peer_links_def)
qed

lemma tell_pieces_links: "same_links s (tell_pieces env i ps s)"
  by (induction env i ps s rule: tell_pieces.induct) (simp_all add: same_links_def tell_subscriber_def emit_event_def)

lemma initialize_links:
  assumes "initialize_session env s = Inr (ok, s')"
  shows "same_links s s'"
proof -
  from assms obtain ps where "s' = s\<lparr>ss_pieces := ps\<rparr> \<or> s' = tell_pieces env 0 ps (s\<lparr>ss_pieces := ps\<rparr>)"
    by (auto simp: initialize_session_def Let_def split: if_splits)
  then show ?thesis
    using same_links_trans [OF same_links_simps(1) tell_pieces_links] by auto
qed

lemma links_okD:
  assumes "links_ok env T s"
  shows "sorted (ss_connections s)" "distinct (ss_connections s)" "T \<subseteq> set (ss_connections s)"
    "ss_trackerConnectionId s \<in> insert 0 T"
    "\<And>b js. peer_links s b = Some js \<Longrightarrow> js \<noteq> [] \<and> distinct js
        \<and> (\<forall>i \<in> set js. i \<in> set (ss_connections s) - T \<and> connectionIdToPeerAddress env i = Inr b)"
    "\<And>i. i \<in> set (ss_connections s) - T \<Longrightarrow> \<exists>b js. peer_links s b = Some js \<and> i \<in> set js"
  using assms by (simp_all add: links_ok_def)

lemma connect_keeps_links_ok:
  assumes "connect_peer env id_in s = Inr s'" "links_ok env T s"
  shows "links_ok env T s'"
proof -
  note ok = links_okD [OF assms(2)]
  obtain a where c: "id_in \<notin> set (ss_connections s)" "connectionIdToPeerAddress env id_in = Inr a"
      "ss_connections s' = insort id_in (ss_connections s)" "ss_trackerConnectionId s' = ss_trackerConnectionId s"
      "peer_links s' = (peer_links s)(a \<mapsto> added id_in (peer_links s a))"
    using connect_links [OF assms(1)] by blast
  have conns: "set (ss_connections s') - T = insert id_in (set (ss_connections s) - T)"
    using ok(3) c(1) by (auto simp: c(3) set_insort_key)
  have set_added: "set (added id_in (peer_links s a)) = insert id_in (set (case peer_links s a of None \<Rightarrow> [] | Some js \<Rightarrow> js))"
    by (auto simp: added_def split: option.splits)
  have new: "added id_in (peer_links s a) \<noteq> [] \<and> distinct (added id_in (peer_links s a))
      \<and> (\<forall>i \<in> set (added id_in (peer_links s a)). i \<in> set (ss_connections s') - T \<and> connectionIdToPeerAddress env i = Inr a)"
    using ok(5) [of a] c(1,2) unfolding conns by (auto simp: added_def split: option.splits)
  have "\<exists>b js. peer_links s' b = Some js \<and> i \<in> set js" if i: "i \<in> set (ss_connections s') - T" for i
  proof (cases "i = id_in")
    case True
    then show ?thesis
      using set_added by (auto simp: c(5))
  next
    case False
    then obtain b js where b: "peer_links s b = Some js" "i \<in> set js"
      using i ok(6) unfolding conns by blast
    then show ?thesis
      using set_added by (cases "b = a") (auto simp: c(5) intro: exI [of _ b])
  qed
  moreover have "js \<noteq> [] \<and> distinct js
      \<and> (\<forall>i \<in> set js. i \<in> set (ss_connections s') - T \<and> connectionIdToPeerAddress env i = Inr b)"
    if "peer_links s' b = Some js" for b js
    using that new ok(5) [of b js] unfolding conns by (auto simp: c(5) split: if_splits)
  ultimately show ?thesis
    using ok(1-4) c(1) unfolding links_ok_def
    by (auto simp: c(3,4) set_insort_key distinct_insort sorted_insort)
qed

lemma disconnect_keeps_links_ok:
  assumes "disconnect_peer env id_in s = Inr s'" "links_ok env T s"
  shows "links_ok env T s'"
proof -
  note ok = links_okD [OF assms(2)]
  obtain a ids where d: "connectionIdToPeerAddress env id_in = Inr a" "peer_links s a = Some ids" "id_in \<in> set ids"
    "ss_connections s' = remove1 id_in (ss_connections s)" "ss_trackerConnectionId s' = ss_trackerConnectionId s"
    "peer_links s' = (peer_links s)(a := if remove1 id_in ids = [] then None else Some (remove1 id_in ids))"
    using disconnect_links [OF assms(1)] by blast
  have rest: "set (remove1 id_in ids) = set ids - {id_in}" "set (ss_connections s') = set (ss_connections s) - {id_in}"
      "id_in \<notin> T"
    using ok(2) ok(5) [OF d(2)] d(3) by (auto simp: d(4))
  have other: "id_in \<notin> set js" if "peer_links s b = Some js" "b \<noteq> a" for b js
    using ok(5) [OF that(1)] d(1) that(2) by auto
  have "js \<noteq> [] \<and> distinct js
      \<and> (\<forall>i \<in> set js. i \<in> set (ss_connections s') - T \<and> connectionIdToPeerAddress env i = Inr b)"
    if "peer_links s' b = Some js" for b js
    using that ok(5) [of b] ok(5) [OF d(2)] other [of b] rest unfolding d(6) by (auto split: if_splits)
  moreover have "\<exists>b js. peer_links s' b = Some js \<and> i \<in> set js" if i: "i \<in> set (ss_connections s') - T" for i
  proof -
    obtain b js where b: "peer_links s b = Some js" "i \<in> set js"
      using ok(6) i rest(2) by blast
    show ?thesis
    proof (cases "b = a")
      case True
      then have "i \<in> set (remove1 id_in ids)"
        using b d(2) i rest by auto
      then show ?thesis
        unfolding d(6) by (intro exI [of _ a] exI [of _ "remove1 id_in ids"]) auto
    next
      case False
      with b show ?thesis
        unfolding d(6) by auto
    qed
  qed
  ultimately show ?thesis
    using ok(1-4) rest unfolding links_ok_def d(5) by (auto simp: d(4) sorted_remove1)
qed

text \<open>The tracker's connections do not touch the peers.\<close>

lemma tracker_connect_links:
  assumes "tracker_connect env tracker_found id_in s = Inr s'"
  shows "id_in \<notin> set (ss_connections s) \<and> ss_connections s' = insort id_in (ss_connections s)
    \<and> ss_trackerConnectionId s' = id_in \<and> peer_links s' = peer_links s"
  using assms
  by (auto simp: tracker_connect_def base_connect_def Let_def ace_assert_def tell_subscriber_def emit_event_def
      peer_links_def fun_eq_iff split: if_splits)

lemma tracker_disconnect_links:
  assumes "tracker_disconnect env id_in s = Inr s'"
  shows "id_in \<in> set (ss_connections s) \<and> ss_connections s' = remove1 id_in (ss_connections s)
    \<and> ss_trackerConnectionId s' = (if ss_trackerConnectionId s = id_in then 0 else ss_trackerConnectionId s)
    \<and> peer_links s' = peer_links s"
  using assms
  by (auto simp: tracker_disconnect_def base_disconnect_def Let_def ace_assert_def tell_subscriber_def emit_event_def
      peer_links_def fun_eq_iff split: if_splits)

lemma tracker_connect_keeps_links_ok:
  assumes "tracker_connect env tracker_found id_in s = Inr s'" "links_ok env T s"
  shows "links_ok env (insert id_in T) s'"
proof -
  note c = tracker_connect_links [OF assms(1)] and ok = links_okD [OF assms(2)]
  have "set (ss_connections s') - insert id_in T = set (ss_connections s) - T"
    using c by (auto simp: set_insort_key)
  then show ?thesis
    using c ok by (auto simp: links_ok_def set_insort_key distinct_insort sorted_insort)
qed

lemma tracker_disconnect_keeps_links_ok:
  assumes "tracker_disconnect env id_in s = Inr s'" "links_ok env T s" "id_in \<in> T"
  shows "links_ok env (T - {id_in}) s'"
proof -
  note d = tracker_disconnect_links [OF assms(1)] and ok = links_okD [OF assms(2)]
  have "set (ss_connections s') - (T - {id_in}) = set (ss_connections s) - T"
    using d ok(2) assms(3) by auto
  then show ?thesis
    using d ok by (auto simp: links_ok_def sorted_remove1)
qed

lemma notify_tracker_links: "notify_tracker set_ok stale_port spawned d s = Inr s' \<Longrightarrow> same_links s s'"
  by (auto simp: notify_tracker_def Let_def same_links_def emit_event_def split: if_splits option.splits)

lemma request_piece_links: "request_piece env id_in index begin_in length_in s = Inr s' \<Longrightarrow> same_links s s'"
  by (auto simp: request_piece_def same_links_def send_to_def emit_event_def)

lemma light_links: "light s s' \<Longrightarrow> same_links s s'"
  by (simp add: light_def)

lemma send_piece_links: "send_piece env id_in index begin_in length_in s = Inr s' \<Longrightarrow> same_links s s'"
  using lightly_send_piece [of s env id_in index begin_in length_in] by (auto simp: lightly_def light_def)

lemma tracker_links: "same_links s (tracker_redirect location s)" "same_links s (tracker_error env s)"
    "same_links s (setup_finished s)"
  by (simp_all add: tracker_redirect_def tracker_error_def setup_finished_def same_links_def tell_subscriber_def
      emit_event_def)

lemma links_ok_readdressed:
  assumes "links_ok (env\<lparr>connection_address := addr\<rparr>) T s" "\<forall>i \<in> set (ss_connections s) - T. addr' i = addr i"
  shows "links_ok (env\<lparr>connection_address := addr'\<rparr>) T s"
proof -
  have "connectionIdToPeerAddress (env\<lparr>connection_address := addr'\<rparr>) i
      = connectionIdToPeerAddress (env\<lparr>connection_address := addr\<rparr>) i" if "i \<in> set (ss_connections s) - T" for i
    using assms(2) that by (simp add: connectionIdToPeerAddress_def)
  with assms(1) show ?thesis
    unfolding links_ok_def by simp
qed

lemma history_links_ok: "session_history env fs addr T s \<Longrightarrow> links_ok (env\<lparr>connection_address := addr\<rparr>) T s"
proof (induction rule: session_history.induct)
  case (handshaken addr T s s')
  then show ?case
    using notify_handshake_same by blast
next
  case (created addr)
  then show ?case
    by (simp add: links_ok_def new_session_def peer_links_def)
next
  case (readdressed addr T s addr')
  then show ?case
    by (blast intro: links_ok_readdressed)
next
  case (choked addr T s id_in choke_in)
  then show ?case
    using links_ok_same_links [OF light_links [OF light_interested(2)]] by blast
next
  case (interest addr T s id_in interested_in)
  then show ?case
    using links_ok_same_links [OF light_links [OF light_interested(1)]] by blast
next
  case (announced addr T s index)
  then show ?case
    using links_ok_same_links [OF light_links [OF light_have_piece]] by blast
qed (auto intro: connect_keeps_links_ok disconnect_keeps_links_ok tracker_connect_keeps_links_ok
      tracker_disconnect_keeps_links_ok
      links_ok_same_links [OF notify_record_links] links_ok_same_links [OF initialize_links]
      links_ok_same_links [OF request_piece_links] links_ok_same_links [OF send_piece_links]
      links_ok_same_links [OF notify_tracker_links]
      links_ok_same_links [OF tracker_links(1)] links_ok_same_links [OF tracker_links(2)]
      links_ok_same_links [OF tracker_links(3)])

lemma disconnect_succeeds:
  assumes "links_ok env T s" "id_in \<in> set (ss_connections s) - T"
  shows "\<exists>s'. disconnect_peer env id_in s = Inr s' \<and> set (ss_connections s') = set (ss_connections s) - {id_in}"
proof -
  note ok = links_okD [OF assms(1)]
  obtain a ids where "peer_links s a = Some ids" "id_in \<in> set ids"
    using ok(6) [OF assms(2)] by blast
  then obtain peer where a: "ss_peerState s a = Some peer" "id_in \<in> set (ps_connections peer)"
      "connectionIdToPeerAddress env id_in = Inr a"
    using ok(5) by (auto simp: peer_links_def)
  then obtain s' where s': "disconnect_peer env id_in s = Inr s'"
    using assms(2) by (simp add: disconnect_peer_def base_disconnect_def Let_def)
  with disconnect_links [OF s'] ok(2) show ?thesis
    by auto
qed

text \<open>C11: The bookkeeping of connections survives every history of operations that were carried out without
  failure: initialization, connections to peers and trackers and their ends, messages, responses of the
  tracker, and the commands of the controller. The connections of the session are those to its open
  trackers and, disjoint from them, those of its peers, each once and at the one peer with its address;
  no peer without connections is kept, and the tracker's identifier is that of an open connection. So when
  a peer's connection is closed it is always found, and only it is removed. The addresses may change, but
  not those of open connections.\<close>

theorem connections_invariant:
  assumes "session_history env fs addr T s"
  shows "links_ok (env\<lparr>connection_address := addr\<rparr>) T s
    \<and> (\<forall>id_in \<in> set (ss_connections s) - T. \<exists>s'. disconnect_peer (env\<lparr>connection_address := addr\<rparr>) id_in s = Inr s'
         \<and> set (ss_connections s') = set (ss_connections s) - {id_in})"
  using history_links_ok [OF assms] disconnect_succeeds by blast

definition example_torrent :: session_env where
  "example_torrent = example_session_env
     \<lparr>metaInfo := [(''info'', BDict [(''pieces'', BString (replicate 20 CHR ''x''))])]\<rparr>"

text \<open>A tracker and a peer connect, the peer's connection ends, and its identifier is used for another peer.\<close>

theorem connections_invariant_witness:
  "\<exists>s s1 s2 addr. tracker_connect example_torrent (\<lambda>_. True) 5 (new_session Map.empty) = Inr s
     \<and> connect_peer example_torrent 7 s = Inr s1 \<and> ss_connections s1 = [5, 7]
     \<and> links_ok example_torrent {5} s1 \<and> disconnect_peer example_torrent 7 s1 = Inr s2 \<and> set (ss_connections s2) = {5}
     \<and> connection_address example_torrent 7 = Some (Inet_address 1) \<and> addr 7 = Some (Inet_address 9)
     \<and> session_history example_torrent Map.empty addr {5} s2"
proof -
  let ?addr = "connection_address example_torrent"
  have same: "example_torrent\<lparr>connection_address := ?addr\<rparr> = example_torrent"
    by simp
  have env: "piece_hashes (metaInfo example_torrent) =
      Inr ([(''pieces'', BString (replicate 20 CHR ''x''))], replicate 20 CHR ''x'')"
    by (simp add: example_torrent_def piece_hashes_def get_key_def)
  have hash: "\<exists>h. MetaInfoToInfoHash (bencode example_torrent) (SHA1_text example_torrent) (metaInfo example_torrent) = Inr h"
    by (simp add: example_torrent_def MetaInfoToInfoHash_def)
  have peer: "connectionIdToPeerAddress example_torrent 7 = Inr 1" "gets_message example_torrent 7"
      "accepts_message example_torrent 7" "?addr 7 = Some (Inet_address 1)"
    by (simp_all add: example_torrent_def example_session_env_def connectionIdToPeerAddress_def)
  obtain s where s: "tracker_connect example_torrent (\<lambda>_. True) 5 (new_session Map.empty) = Inr s" "ss_connections s = [5]"
      "ss_peerState s = Map.empty" "ss_pieces s = []"
    by (simp add: tracker_connect_def base_connect_def new_session_def tell_subscriber_def emit_event_def Let_def)
  with hash obtain s1 where s1: "connect_peer example_torrent 7 s = Inr s1" "ss_connections s1 = [5, 7]"
    using env peer
    by (auto simp: connect_peer_def base_connect_def new_peer_state_def populatePeerPiecesBitfield_def
        set_peer_def find_peer_def getPieceIndexes_def Let_def tell_subscriber_def emit_event_def)
  have "session_history example_torrent Map.empty ?addr {5} s"
    using session_history.tracker_connected [OF session_history.created,
        where env = example_torrent and addr = ?addr and id_in = 5] s(1) by simp
  then have reach: "session_history example_torrent Map.empty ?addr {5} s1"
    using session_history.connected [where env = example_torrent and addr = ?addr and s = s] s1(1) by simp
  have "{5, 7} - {7} = {5 :: nat}"
    by auto
  with connections_invariant [OF reach] s1(2) obtain s2 where s2: "links_ok example_torrent {5} s1"
      "disconnect_peer example_torrent 7 s1 = Inr s2" "set (ss_connections s2) = {5}"
    by auto
  have "session_history example_torrent Map.empty ?addr {5} s2"
    using session_history.disconnected [OF reach, where id_in = 7] s2(2) by simp
  then have "session_history example_torrent Map.empty (?addr(7 := Some (Inet_address 9))) {5} s2"
    by (rule session_history.readdressed) (simp add: s2(3))
  with s s1 s2 peer(4) show ?thesis
    by (intro exI [of _ s] exI [of _ s1] exI [of _ s2] exI [of _ "?addr(7 := Some (Inet_address 9))"]) simp
qed

section \<open>Requests of a peer, and indexes out of range\<close>

lemma loadPiece_loop_found:
  "\<forall>name \<in> set names. load_file env (in_directory env path name) fs \<noteq> None \<Longrightarrow>
   \<exists>cs. loadPiece_loop env path i fs names p = Some (p\<lparr>piece_chunks := piece_chunks p @ cs\<rparr>)
     \<and> (cs = [] \<or> (\<exists>d. cs = [loaded_chunk d]))"
  by (induction names) (auto split: option.splits intro: exI [of _ "[]"])

lemma set_std_sort: "set (std_sort lt xs) = set xs"
proof -
  have "set (insert_by lt x ys) = insert x (set ys)" for x ys
    by (induction ys) auto
  then show ?thesis
    by (induction xs) (simp_all add: std_sort_def)
qed

lemma loadPiece_chunks:
  assumes "files_env_ok env" "finite (dom fs)" "piece_onDisk p" "piece_chunks p = []"
  shows "\<exists>cs. loadPiece env m i fs p = Inr (Some (p\<lparr>piece_chunks := cs\<rparr>)) \<and> (cs = [] \<or> (\<exists>d. cs = [loaded_chunk d]))"
proof -
  let ?path = "pieces_directory env (base_name env m)"
  have "set (list_files env (selector env) ?path fs)
      = {name. sep env \<notin> set name \<and> in_directory env ?path name \<in> dom fs \<and> selector env name}"
    using assms(1,2) by (simp add: files_env_ok_def)
  then have "\<forall>name \<in> set (piece_files env ?path fs). load_file env (in_directory env ?path name) fs \<noteq> None"
    using files_env_okD(1) [OF assms(1)] by (auto simp: piece_files_def set_std_sort)
  from loadPiece_loop_found [OF this, of i p] assms(3,4) show ?thesis
    by (auto simp: loadPiece_def Let_def)
qed

lemma chunk_part_of_loaded:
  assumes "cs = [] \<or> (\<exists>d. cs = [loaded_chunk d])" "begin_in \<noteq> 0"
  shows "chunk_part cs begin_in length_in = Inl Out_of_bounds"
  using assms by (auto simp: chunk_part_def loaded_chunk_def word_gt_0)

lemma chunk_part_chunks: "chunk_part cs begin_in length_in = Inr blocks \<Longrightarrow> cs \<noteq> []"
  by (auto simp: chunk_part_def)

lemma stored_piece_requests:
  assumes "files_env_ok (disk_env env)" "finite (dom (ss_disk s))" "unat index < length (ss_pieces s)"
    and "piece_onDisk (ss_pieces s ! unat index)" "piece_chunks (ss_pieces s ! unat index) = []"
    and "\<forall>i. gets_message env i"
  shows "id_in \<noteq> 0 \<Longrightarrow> length_in \<noteq> 0 \<Longrightarrow> begin_in \<noteq> 0 \<Longrightarrow>
      send_piece env id_in index begin_in length_in s = Inl Out_of_bounds"
    and "send_piece env id_in index 0 length_in s = Inr s' \<Longrightarrow> id_in_2 \<noteq> 0 \<Longrightarrow> length_in_2 \<noteq> 0 \<Longrightarrow>
      send_piece env id_in_2 index begin_in_2 length_in_2 s' = Inl Assertion_failed"
proof -
  let ?p = "ss_pieces s ! unat index"
  obtain cs where load: "loadPiece (disk_env env) (metaInfoFileName env) index (ss_disk s) ?p =
      Inr (Some (?p\<lparr>piece_chunks := cs\<rparr>))" "cs = [] \<or> (\<exists>d. cs = [loaded_chunk d])"
    using loadPiece_chunks [OF assms(1,2,4,5)] by blast
  note start = send_piece_def Let_def assms(3,4,6) load(1)
  show "send_piece env id_in index begin_in length_in s = Inl Out_of_bounds"
    if "id_in \<noteq> 0" "length_in \<noteq> 0" "begin_in \<noteq> 0"
    using that assms(3) chunk_part_of_loaded [OF load(2) that(3)] by (simp add: start)
  show "send_piece env id_in_2 index begin_in_2 length_in_2 s' = Inl Assertion_failed"
    if run: "send_piece env id_in index 0 length_in s = Inr s'" and "id_in_2 \<noteq> 0" "length_in_2 \<noteq> 0"
  proof -
    obtain e where s': "s' = send_to env id_in e (s\<lparr>ss_pieces := (ss_pieces s)[unat index := ?p\<lparr>piece_chunks := cs\<rparr>]\<rparr>)"
        "cs \<noteq> []"
      using run by (auto simp: start dest: chunk_part_chunks split: if_splits)
    then have "ss_pieces s' = (ss_pieces s)[unat index := ?p\<lparr>piece_chunks := cs\<rparr>]"
      by (simp add: send_to_def)
    with s'(2) assms(3,4) that(2,3) show ?thesis
      by (simp add: send_piece_def Let_def assms(6) loadPiece_def)
  qed
qed

text \<open>C28: A piece that is on disk cannot be shared. A request for any block of it but the first walks off
  the end of its chunks, because the piece is loaded as a single chunk and the search for the chunk
  does not stop at the end; and once a request for the first block has been served, every further
  request for the piece fails the assertion that it is not loaded yet.\<close>

theorem stored_piece_not_served:
  assumes "files_env_ok (disk_env env)" "finite (dom (ss_disk s))" "unat index < length (ss_pieces s)"
    and "piece_onDisk (ss_pieces s ! unat index)" "piece_chunks (ss_pieces s ! unat index) = []"
    and "\<forall>i. gets_message env i" "id_in \<noteq> 0" "length_in \<noteq> 0" "id_in_2 \<noteq> 0" "length_in_2 \<noteq> 0"
  shows "(begin_in \<noteq> 0 \<longrightarrow> send_piece env id_in index begin_in length_in s = Inl Out_of_bounds)
    \<and> (send_piece env id_in index 0 length_in s = Inr s' \<longrightarrow>
         send_piece env id_in_2 index begin_in_2 length_in_2 s' = Inl Assertion_failed)"
  using stored_piece_requests [OF assms(1-6)] assms(7-10) by blast

definition served_session :: session where
  "served_session = (new_session [''d/t_pieces/0_abcdef.piece'' \<mapsto> [1, 2, 3]])\<lparr>ss_pieces :=
     [\<lparr>piece_chunks = [], piece_filename = ''abcdef'', piece_hash = [], piece_length = 3, piece_onDisk = True\<rparr>]\<rparr>"

theorem stored_piece_not_served_witness:
  "send_piece example_session_env 7 0 1 2 served_session = Inl Out_of_bounds"
proof -
  have "files_env_ok (disk_env example_session_env)" "\<forall>i. gets_message example_session_env i"
    by (simp_all add: example_session_env_def example_files_ok)
  moreover have "finite (dom (ss_disk served_session))" "unat (0 :: u32) < length (ss_pieces served_session)"
    "piece_onDisk (ss_pieces served_session ! unat (0 :: u32))"
    "piece_chunks (ss_pieces served_session ! unat (0 :: u32)) = []"
    by (simp_all add: served_session_def new_session_def)
  ultimately show ?thesis
    using stored_piece_not_served [of example_session_env served_session 0 7 2 7 2 1] by simp
qed

text \<open>C29: Indexes that a peer sends are used as they come. A block or an answered request for a piece past
  the last one, and the announcement of a piece past the end of the peer's bit field, leave the bounds of
  the containers.\<close>

theorem remote_index_out_of_bounds:
  assumes "connectionIdToPeerAddress env id_in = Inr a" "id_in \<noteq> 0" "ss_peerState s a = Some peer" "rec_length r \<noteq> 0"
    and "rec_type r = MESSAGETYPE_PIECE \<and> rec_payload r = Piece i j \<and> blocks \<noteq> [] \<and> length (ss_pieces s) \<le> unat i
      \<or> rec_type r = MESSAGETYPE_REQUEST \<and> rec_payload r = Request i j n \<and> n \<noteq> 0 \<and> length (ss_pieces s) \<le> unat i
        \<and> \<not> peer_choking (ps_status peer) \<and> gets_message env id_in
      \<or> rec_type r = MESSAGETYPE_HAVE \<and> rec_payload r = Have i \<and> 8 * length (ps_pieces peer) \<le> unat i"
  shows "notify_record env draw draw_2 id_in r blocks s = Inl Out_of_bounds"
  using assms(5)
proof (elim disjE conjE)
  assume "rec_type r = MESSAGETYPE_PIECE" "rec_payload r = Piece i j" "blocks \<noteq> []" "length (ss_pieces s) \<le> unat i"
  with assms(1,4) show ?thesis
    by (simp add: notify_record_def notify_piece_def block_received_def)
next
  assume "rec_type r = MESSAGETYPE_REQUEST" "rec_payload r = Request i j n" "n \<noteq> 0" "length (ss_pieces s) \<le> unat i"
    "\<not> peer_choking (ps_status peer)" "gets_message env id_in"
  with assms(1-4) show ?thesis
    by (simp add: notify_record_def send_piece_def find_peer_def)
next
  assume "rec_type r = MESSAGETYPE_HAVE" "rec_payload r = Have i" "8 * length (ps_pieces peer) \<le> unat i"
  moreover from this(3) have "\<not> unat i div 8 < length (ps_pieces peer)"
    by linarith
  ultimately show ?thesis
    using assms(1,3,4) by (simp add: notify_record_def notify_have_def set_have_bit_def find_peer_def Let_def unat_div)
qed

theorem remote_index_out_of_bounds_witness:
  "notify_record example_session_env (\<lambda>_. 0) (\<lambda>_. 0) 7 (piece_record 2 0) [[1]] example_session = Inl Out_of_bounds"
proof -
  have "unat (2 :: u32) = 2"
    by simp
  then show ?thesis
    by (intro remote_index_out_of_bounds [where i = 2 and j = 0])
      (auto simp: example_names piece_record_def new_record_def example_session_env_def connectionIdToPeerAddress_def
        example_session_def)
qed

end
