(* ===== verification/Http_Tools.thy ===== *)
theory Http_Tools
  imports Std_Regex "HOL-Library.Multiset"
begin

text \<open>
  The HTTP component (\<open>src/protocol/http\<close>): the enumerations of \<open>http_codes.h\<close>, the record of
  \<open>http_common.h\<close>, the operations of \<open>HTTP_Tools\<close> (\<open>http_tools.cpp\<close>) and the serialisation
  of a record by \<open>HTTP_Module_Streamer_T::handleDataMessage\<close> (\<open>http_module_streamer.inl\<close>).

  Name resolution (\<open>ACE_INET_Addr::set\<close>), the default port of ACE, the header map's notion of
  equal keys and \<open>Common_String_Tools::tolower\<close> are code outside the repository and enter as
  parameters. The headers and the form are association lists in iteration order.
\<close>

section \<open>Enumerations\<close>

datatype HTTP_Method =
    HTTP_METHOD_GET | HTTP_METHOD_POST | HTTP_METHOD_HEAD | HTTP_METHOD_M_SEARCH
  | HTTP_METHOD_NOTIFY | HTTP_METHOD_MAX | HTTP_METHOD_INVALID

datatype HTTP_Version =
    HTTP_VERSION_0_9 | HTTP_VERSION_1_0 | HTTP_VERSION_1_1 | HTTP_VERSION_2 | HTTP_VERSION_3
  | HTTP_VERSION_MAX | HTTP_VERSION_INVALID

datatype HTTP_Header =
    HTTP_HEADER_GENERAL | HTTP_HEADER_REQUEST | HTTP_HEADER_RESPONSE | HTTP_HEADER_ENTITY
  | HTTP_HEADER_MAX | HTTP_HEADER_INVALID

text \<open>A status is its numeric value, as the parser stores it.\<close>

type_synonym HTTP_Status = nat

record HTTP_Record =
  form :: "(string \<times> string) list"
  headers :: "(string \<times> string) list"
  http_method :: HTTP_Method
  http_reason :: string
  http_status :: HTTP_Status
  URI :: string
  http_version :: HTTP_Version

fun method_value :: "HTTP_Method \<Rightarrow> nat" where
  "method_value HTTP_METHOD_GET = 0"
| "method_value HTTP_METHOD_POST = 1"
| "method_value HTTP_METHOD_HEAD = 2"
| "method_value HTTP_METHOD_M_SEARCH = 3"
| "method_value HTTP_METHOD_NOTIFY = 4"
| "method_value HTTP_METHOD_MAX = 5"
| "method_value HTTP_METHOD_INVALID = 6"

definition HTTP_Record_reset :: "HTTP_Record \<Rightarrow> HTTP_Record" where
  "HTTP_Record_reset r =
     r\<lparr>form := [], headers := [], http_method := HTTP_METHOD_INVALID, http_reason := [],
       http_status := 1001, URI := [], http_version := HTTP_VERSION_INVALID\<rparr>"

section \<open>Names of the enumerators\<close>

fun MethodToString :: "HTTP_Method \<Rightarrow> string" where
  "MethodToString HTTP_METHOD_GET = ''GET''"
| "MethodToString HTTP_METHOD_POST = ''POST''"
| "MethodToString HTTP_METHOD_HEAD = ''HEAD''"
| "MethodToString HTTP_METHOD_M_SEARCH = ''M-SEARCH''"
| "MethodToString HTTP_METHOD_NOTIFY = ''NOTIFY''"
| "MethodToString _ = ''INVALID/UNKNOWN''"

fun VersionToString :: "HTTP_Version \<Rightarrow> string" where
  "VersionToString HTTP_VERSION_0_9 = ''0.9''"
| "VersionToString HTTP_VERSION_1_0 = ''1.0''"
| "VersionToString HTTP_VERSION_1_1 = ''1.1''"
| "VersionToString HTTP_VERSION_2 = ''2''"
| "VersionToString _ = ''INVALID/UNKNOWN''"

definition StatusToReason :: "HTTP_Status \<Rightarrow> string" where
  "StatusToReason status =
     (case map_of
        [(200, ''OK''), (201, ''Created''), (202, ''Accepted''), (204, ''No Content''),
         (300, ''Multiple Choices''), (301, ''Moved Permanently''), (302, ''Moved Temporarily''),
         (304, ''Not Modified''), (400, ''Bad Request''), (401, ''Unauthorized''),
         (403, ''Forbidden''), (404, ''Not Found''), (500, ''Internal Server Error''),
         (501, ''Not Implemented''), (502, ''Bad Gateway''), (503, ''Service Unavailable'')] status
      of Some reason \<Rightarrow> reason | None \<Rightarrow> ''INVALID/UNKNOWN'')"

definition MethodToType :: "string \<Rightarrow> HTTP_Method" where
  "MethodToType s =
     (if s = ''GET'' then HTTP_METHOD_GET
      else if s = ''POST'' then HTTP_METHOD_POST
      else if s = ''HEAD'' then HTTP_METHOD_HEAD
      else if s = ''M-SEARCH'' then HTTP_METHOD_M_SEARCH
      else if s = ''NOTIFY'' then HTTP_METHOD_NOTIFY
      else HTTP_METHOD_INVALID)"

definition VersionToType :: "string \<Rightarrow> HTTP_Version" where
  "VersionToType s =
     (if s = ''0.9'' then HTTP_VERSION_0_9
      else if s = ''1.0'' then HTTP_VERSION_1_0
      else if s = ''1.1'' then HTTP_VERSION_1_1
      else if s = ''2'' then HTTP_VERSION_2
      else HTTP_VERSION_INVALID)"

function isHeaderType :: "string \<Rightarrow> HTTP_Header \<Rightarrow> bool" where
  "isHeaderType f HTTP_HEADER_GENERAL = (f = ''Date'' \<or> f = ''Pragma'')"
| "isHeaderType f HTTP_HEADER_REQUEST =
     (f = ''Authorization'' \<or> f = ''From'' \<or> f = ''If-Modified-Since'' \<or> f = ''Referer''
      \<or> f = ''User-Agent'')"
| "isHeaderType f HTTP_HEADER_RESPONSE =
     (f = ''Location'' \<or> f = ''Server'' \<or> f = ''WWW-Authenticate'')"
| "isHeaderType f HTTP_HEADER_ENTITY =
     (f = ''Allow'' \<or> f = ''Content-Encoding'' \<or> f = ''Content-Length'' \<or> f = ''Content-Type''
      \<or> f = ''Expires'' \<or> f = ''Last-Modified''
      \<or> (\<not> isHeaderType f HTTP_HEADER_GENERAL \<and> \<not> isHeaderType f HTTP_HEADER_REQUEST
         \<and> \<not> isHeaderType f HTTP_HEADER_RESPONSE))"
| "isHeaderType f HTTP_HEADER_MAX = False"
| "isHeaderType f HTTP_HEADER_INVALID = False"
  by pat_completeness auto
termination by (relation "measure (\<lambda>(f, h). if h = HTTP_HEADER_ENTITY then 1 else 0)") simp_all

definition isRequest :: "HTTP_Record \<Rightarrow> bool" where
  "isRequest r \<longleftrightarrow> method_value (http_method r) < method_value HTTP_METHOD_MAX"

datatype CompressionFormat = STREAM_COMPRESSION_FORMAT_GZIP | STREAM_COMPRESSION_FORMAT_INVALID

definition EncodingToCompressionFormat :: "(string \<Rightarrow> string) \<Rightarrow> string \<Rightarrow> CompressionFormat" where
  "EncodingToCompressionFormat str_tolower encoding =
     (if str_tolower encoding = ''deflate'' \<or> str_tolower encoding = ''gzip''
      then STREAM_COMPRESSION_FORMAT_GZIP else STREAM_COMPRESSION_FORMAT_INVALID)"

section \<open>URLs\<close>

text \<open>\<open>HTTP_URL_REGEX_STRING\<close>, \<open>HTTP_ABSOLUTE_URI_REGEX_STRING\<close>, \<open>HTTP_RELATIVE_URI_REGEX_STRING\<close>
  and the expressions built inside \<open>parseURL\<close>, \<open>URLRequiresSSL\<close> and \<open>stripURI\<close>.\<close>

abbreviation slash :: char where "slash \<equiv> CHR ''/''"

definition url_scheme_re :: re where
  "url_scheme_re =
     Seq (Grp 1 (Alt (Seq (Lit ''http'') (Opt (Grp 2 (Chr CHR ''s''))))
                (Alt (Seq (Opt (Grp 3 (Chr CHR ''s''))) (Lit ''ftp''))
                     (Seq (Lit ''ws'') (Opt (Grp 4 (Chr CHR ''s'')))))))
         (Lit ''://'')"

definition url_rest_re :: re where
  "url_rest_re = Seq (Grp 5 (Star (Not_chr slash))) (Grp 6 (Star Dot))"

definition HTTP_URL_REGEX :: re where
  "HTTP_URL_REGEX = Seq (Opt url_scheme_re) url_rest_re"

definition HTTP_ABSOLUTE_URI_REGEX :: re where
  "HTTP_ABSOLUTE_URI_REGEX =
     Seq (Chr slash) (Seq (Star (Seq (Plus (Not_chr slash)) (Chr slash)))
       (Opt (Star (Not_chr slash))))"

definition HTTP_RELATIVE_URI_REGEX :: re where
  "HTTP_RELATIVE_URI_REGEX =
     Seq (Plus (Not_chr slash)) (Seq (Opt (Chr slash))
       (Seq (Star (Seq (Plus (Not_chr slash)) (Chr slash))) (Opt (Star (Not_chr slash)))))"

definition host_char :: "char \<Rightarrow> bool" where
  "host_char c \<longleftrightarrow> is_alnum c \<or> c = CHR ''.'' \<or> c = CHR ''-''"

definition hostname_port_re :: re where
  "hostname_port_re =
     Seq (Grp 1 (Plus (Cls host_char)))
         (Opt (Seq (Chr CHR '':'') (Grp 2 (Seq (Cls is_digit) (Rep_upto 4 (Cls is_digit))))))"

definition ssl_re :: re where
  "ssl_re = Seq (Opt (Seq (Lit ''http'') (Seq (Opt (Grp 1 (Chr CHR ''s''))) (Lit ''://''))))
                (Opt (Grp 2 (Plus Dot)))"

definition strip_re :: re where
  "strip_re =
     Seq (Grp 1 (Seq (Chr slash) (Seq (Star (Seq (Plus (Not_chr slash)) (Chr slash)))
                (Star (Not_chr CHR ''?'')))))
         (Opt (Seq (Chr CHR ''?'') (Grp 2 (Star Dot))))"

definition cap :: "caps \<Rightarrow> nat \<Rightarrow> string" where
  "cap c n = (case c n of Some s \<Rightarrow> s | None \<Rightarrow> [])"

definition HTTPS_DEFAULT_SERVER_PORT :: u16 where
  "HTTPS_DEFAULT_SERVER_PORT = 443"

text \<open>
  \<open>parseURL\<close> returns its result, the address and the three other reference arguments.
  \<open>default_port\<close> is \<open>ACE_DEFAULT_HTTP_PORT\<close>; \<open>set_host\<close> and \<open>set_any\<close> are the two calls of
  \<open>ACE_INET_Addr::set\<close>, \<open>None\<close> when they fail.
\<close>

record 'addr URL_parts =
  url_ok :: bool
  url_address :: "'addr option"
  url_hostName :: string
  url_URI :: string
  url_useSSL :: bool

definition parseURL ::
  "u16 \<Rightarrow> (u16 \<Rightarrow> string \<Rightarrow> 'addr option) \<Rightarrow> (u16 \<Rightarrow> 'addr option) \<Rightarrow> string \<Rightarrow> 'addr URL_parts" where
  "parseURL default_port set_host set_any URL =
     (let fail = \<lparr>url_ok = False, url_address = None, url_hostName = [], url_URI = [],
                  url_useSSL = False\<rparr> in
      case regex_match HTTP_URL_REGEX URL of None \<Rightarrow> fail
      | Some m \<Rightarrow>
        let useSSL = (cap m 2 @ cap m 3 @ cap m 4 \<noteq> []);
            host_ok = (cap m 5 = [] \<or> regex_match hostname_port_re (cap m 5) \<noteq> None);
            m2 = (case regex_match hostname_port_re (cap m 5) of Some c \<Rightarrow> c | None \<Rightarrow> Map.empty);
            hostname_no_port = (if cap m 5 = [] then [] else cap m2 1);
            hostName = (if cap m 5 = [] then []
                        else if m2 2 \<noteq> None then cap m2 1 @ '':'' @ cap m2 2 else cap m2 1);
            port = (if cap m 5 \<noteq> [] \<and> m2 2 \<noteq> None
                    then word_of_nat (extract_unsigned 16 (cap m2 2)) else 0 :: u16);
            uri = (if cap m 6 \<noteq> [] then cap m 6 else ''/'');
            eff_port = (if port \<noteq> 0 then port
                        else if useSSL then HTTPS_DEFAULT_SERVER_PORT else default_port)
        in if \<not> host_ok then fail\<lparr>url_useSSL := useSSL\<rparr>
           else if regex_match HTTP_ABSOLUTE_URI_REGEX uri = None
           then \<lparr>url_ok = False, url_address = None, url_hostName = hostName, url_URI = uri,
                 url_useSSL = useSSL\<rparr>
           else let address = (if hostname_no_port \<noteq> [] then set_host eff_port hostname_no_port
                               else set_any eff_port)
             in \<lparr>url_ok = (address \<noteq> None), url_address = address, url_hostName = hostName,
                 url_URI = uri, url_useSSL = useSSL\<rparr>)"

definition URLIsURI :: "string \<Rightarrow> bool \<Rightarrow> (bool \<times> bool) run" where
  "URLIsURI URL relative =
     run_bind (ace_assert (URL \<noteq> [])) (\<lambda>_.
       if regex_match HTTP_ABSOLUTE_URI_REGEX URL \<noteq> None then Inr (True, False)
       else if regex_match HTTP_RELATIVE_URI_REGEX URL \<noteq> None then Inr (True, True)
       else Inr (False, relative))"

definition URLRequiresSSL :: "string \<Rightarrow> bool" where
  "URLRequiresSSL URL =
     (case regex_match ssl_re URL of None \<Rightarrow> False | Some m \<Rightarrow> m 1 \<noteq> None)"

definition stripURI :: "string \<Rightarrow> string" where
  "stripURI uri = (case regex_match strip_re uri of None \<Rightarrow> [] | Some m \<Rightarrow> cap m 1)"

section \<open>Percent encoding\<close>

definition unreserved :: "char \<Rightarrow> bool" where
  "unreserved c \<longleftrightarrow> is_digit c \<or> is_alpha c \<or> c = CHR ''.'' \<or> c = CHR ''-'' \<or> c = CHR ''_''
     \<or> c = CHR ''~''"

definition URLEncode_char :: "bool \<Rightarrow> bool \<Rightarrow> char \<Rightarrow> string" where
  "URLEncode_char escapeAll upperCaseHexDigits c =
     (if escapeAll \<or> \<not> unreserved c
      then let hex = hex2 (char_code c);
               converted = (if upperCaseHexDigits then map to_upper hex else hex)
           in CHR ''%'' # (if length converted = 2 then converted else drop 2 converted)
      else [c])"

definition URLEncode :: "string \<Rightarrow> bool \<Rightarrow> bool \<Rightarrow> string" where
  "URLEncode s escapeAll upperCaseHexDigits =
     concat (map (URLEncode_char escapeAll upperCaseHexDigits) s)"

fun URLDecode :: "string \<Rightarrow> string" where
  "URLDecode [] = []"
| "URLDecode (c # s) =
     (if c = CHR ''%''
      then (case s of high # low # s' \<Rightarrow>
              if is_xdigit high \<and> is_xdigit low
              then char_at (push_bit 4 (xdigit_value high) OR xdigit_value low) # URLDecode s'
              else c # URLDecode s
            | _ \<Rightarrow> c # URLDecode s)
      else if c = CHR ''+'' then CHR '' '' # URLDecode s
      else c # URLDecode s)"

section \<open>Serialisation of a record\<close>

text \<open>
  \<open>HTTP_Module_Streamer_T::handleDataMessage\<close>: the request or status line, the three passes
  over the headers and the form content. \<open>same_key\<close> is the header map's equality of keys.
\<close>

abbreviation crlf :: string where "crlf \<equiv> [CHR 0x0D, CHR 0x0A]"

definition set_default_header ::
  "(string \<Rightarrow> string \<Rightarrow> bool) \<Rightarrow> string \<Rightarrow> string \<Rightarrow> (string \<times> string) list \<Rightarrow> (string \<times> string) list" where
  "set_default_header same_key k v hs =
     (case find (\<lambda>(k', _). same_key k' k) hs of
        None \<Rightarrow> hs @ [(k, v)]
      | Some (k', v') \<Rightarrow>
          if v' = [] then map (\<lambda>(a, b). if a = k' then (a, v) else (a, b)) hs else hs)"

definition get_form :: "(string \<times> string) list \<Rightarrow> string" where
  "get_form fs =
     (if fs = [] then []
      else ''?'' @ butlast (concat (map (\<lambda>(k, v). k @ ''='' @ v @ ''&'') fs)))"

definition post_form :: "(string \<times> string) list \<Rightarrow> string" where
  "post_form fs =
     butlast (concat (map (\<lambda>(k, v). k @ (if v \<noteq> [] then ''='' @ v else []) @ ''&'') fs))"

definition header_line :: "string \<times> string \<Rightarrow> string" where
  "header_line h = fst h @ '': '' @ snd h @ crlf"

definition header_lines :: "HTTP_Header \<Rightarrow> (string \<times> string) list \<Rightarrow> string" where
  "header_lines t hs = concat (map header_line (filter (\<lambda>h. isHeaderType (fst h) t) hs))"

definition version_suffix :: "HTTP_Record \<Rightarrow> string" where
  "version_suffix r = '' HTTP/'' @ VersionToString (http_version r)"

definition post_record :: "(string \<Rightarrow> string \<Rightarrow> bool) \<Rightarrow> HTTP_Record \<Rightarrow> HTTP_Record" where
  "post_record same_key r =
     r\<lparr>headers := set_default_header same_key ''Content-Type'' ''application/x-www-form-urlencoded''
        (set_default_header same_key ''Content-Length'' (show_dec (length (post_form (form r))))
          (headers r))\<rparr>"

text \<open>The bytes produced (head and content) and the record with the headers it has then.\<close>

definition stream_record ::
  "(string \<Rightarrow> string \<Rightarrow> bool) \<Rightarrow> HTTP_Record \<Rightarrow> string \<times> string \<times> HTTP_Record" where
  "stream_record same_key r =
     (let is_req = isRequest r;
          (start, content, r') =
            (if is_req
             then let start = MethodToString (http_method r) @ '' '' @ URI r in
               (case http_method r of
                  HTTP_METHOD_GET \<Rightarrow> (start @ get_form (form r) @ version_suffix r @ crlf, [], r)
                | HTTP_METHOD_POST \<Rightarrow>
                    if form r = [] then (start @ version_suffix r @ crlf, [], r)
                    else (start @ version_suffix r @ crlf, post_form (form r), post_record same_key r)
                | _ \<Rightarrow> (start @ crlf, [], r))
             else (''HTTP/'' @ VersionToString (http_version r) @ '' '' @ show_dec (http_status r)
                   @ '' '' @ StatusToReason (http_status r) @ crlf, [], r))
      in (start @ header_lines HTTP_HEADER_GENERAL (headers r')
           @ header_lines (if is_req then HTTP_HEADER_REQUEST else HTTP_HEADER_RESPONSE) (headers r')
           @ header_lines HTTP_HEADER_ENTITY (headers r') @ crlf,
          content, r'))"

text \<open>
  The whole handler on an empty message block with \<open>space\<close> free bytes: the bytes the block holds
  afterwards, or \<open>None\<close> when the message is released and not passed on.
\<close>

definition handleDataMessage ::
  "(string \<Rightarrow> string \<Rightarrow> bool) \<Rightarrow> nat \<Rightarrow> nat \<Rightarrow> HTTP_Record \<Rightarrow> (string option \<times> HTTP_Record) run" where
  "handleDataMessage same_key len space r =
     run_bind (ace_assert (len = 0)) (\<lambda>_.
       let (buffer, content_buffer, r') = stream_record same_key r in
       Inr (if space < length buffer then None
            else if content_buffer = [] then Some buffer
            else if space - length buffer < length content_buffer then None
            else Some (buffer @ content_buffer), r'))"

text \<open>\<open>HTTP_Tools::dump\<close>.\<close>

abbreviation nl :: string where "nl \<equiv> [CHR 0x0A]"
abbreviation quote :: string where "quote \<equiv> [CHR 0x22]"

definition dump_headers :: "HTTP_Header \<Rightarrow> (string \<times> string) list \<Rightarrow> string" where
  "dump_headers t hs =
     concat (map (\<lambda>(k, v). k @ '': '' @ quote @ v @ quote @ nl)
       (filter (\<lambda>h. isHeaderType (fst h) t) hs))"

definition dump :: "HTTP_Record \<Rightarrow> string" where
  "dump r =
     (if isRequest r
      then ''Method: '' @ MethodToString (http_method r) @ nl @ ''Request-URI: '' @ URI r @ nl
           @ ''Version: '' @ VersionToString (http_version r) @ nl
      else ''Version: '' @ VersionToString (http_version r) @ nl @ ''Status: ''
           @ show_dec (http_status r) @ nl @ ''Reason: '' @ quote @ StatusToReason (http_status r)
           @ quote @ nl)
     @ ''Headers ('' @ show_dec (length (headers r)) @ ''):'' @ nl
     @ dump_headers HTTP_HEADER_GENERAL (headers r)
     @ ''-------------------------------'' @ nl
     @ dump_headers (if isRequest r then HTTP_HEADER_REQUEST else HTTP_HEADER_RESPONSE) (headers r)
     @ ''-------------------------------'' @ nl
     @ dump_headers HTTP_HEADER_ENTITY (headers r)
     @ ''Headers /END'' @ nl
     @ (if form r = [] then []
        else ''Form ('' @ show_dec (length (form r)) @ ''):'' @ nl
          @ concat (map (\<lambda>(k, v). quote @ k @ quote @ ''='' @ quote @ v @ quote @ nl) (form r))
          @ ''Form /END'' @ nl)"

section \<open>Names: round trips\<close>

interpretation method_names: name_codec MethodToString MethodToType
  "\<lambda>m. method_value m < method_value HTTP_METHOD_MAX"
proof
  show "MethodToType (MethodToString m) = m" if "method_value m < method_value HTTP_METHOD_MAX" for m
    using that by (cases m) (simp_all add: MethodToType_def)
  show "MethodToString (MethodToType s) = s"
    if "method_value (MethodToType s) < method_value HTTP_METHOD_MAX" for s
    using that by (auto simp: MethodToType_def split: if_splits)
qed

interpretation version_names: name_codec VersionToString VersionToType
  "\<lambda>v. v \<in> {HTTP_VERSION_0_9, HTTP_VERSION_1_0, HTTP_VERSION_1_1, HTTP_VERSION_2}"
proof
  show "VersionToType (VersionToString v) = v"
    if "v \<in> {HTTP_VERSION_0_9, HTTP_VERSION_1_0, HTTP_VERSION_1_1, HTTP_VERSION_2}" for v
    using that by (auto simp: VersionToType_def)
  show "VersionToString (VersionToType s) = s"
    if "VersionToType s \<in> {HTTP_VERSION_0_9, HTTP_VERSION_1_0, HTTP_VERSION_1_1, HTTP_VERSION_2}" for s
    using that by (auto simp: VersionToType_def split: if_splits)
qed

section \<open>Percent encoding: round trip\<close>

lemma push_bit_4_or: "l < 16 \<Longrightarrow> push_bit 4 (h :: nat) OR l = 16 * h + l"
proof -
  assume l: "l < 16"
  have "\<not> bit l n" if "4 \<le> n" for n
  proof -
    have "l < 2 ^ n" using l power_increasing [OF that, of "2 :: nat"] by simp
    then show ?thesis by (simp add: bit_iff_odd)
  qed
  then have "push_bit 4 h + l = push_bit 4 h OR l"
    by (intro disjunctive_add) (auto simp: bit_push_bit_iff)
  then show ?thesis by (simp add: push_bit_eq_mult)
qed

lemma length_hex2 [simp]: "length (hex2 n) = 2"
  by (simp add: hex2_def)

lemma decode_hex2:
  assumes "n < 256"
  shows "URLDecode (CHR ''%'' # hex2 n @ s) = char_at n # URLDecode s"
    and "URLDecode (CHR ''%'' # map to_upper (hex2 n) @ s) = char_at n # URLDecode s"
  using assms by (simp_all add: hex2_def push_bit_4_or)

lemma decode_encode_char:
  "URLDecode (URLEncode_char escapeAll upper c @ s) = c # URLDecode s"
proof (cases "escapeAll \<or> \<not> unreserved c")
  case True
  then show ?thesis
    by (cases upper) (simp_all add: URLEncode_char_def Let_def decode_hex2 del: URLDecode.simps)
next
  case False
  then have "c \<noteq> CHR ''%''" "c \<noteq> CHR ''+''"
    by (auto simp: unreserved_def char_class_defs char_code_def)
  with False show ?thesis by (simp add: URLEncode_char_def)
qed

section \<open>Paths\<close>

definition no_double_slash :: "string \<Rightarrow> bool" where
  "no_double_slash s \<longleftrightarrow> \<not> (\<exists>a b. s = a @ ''//'' @ b)"

inductive segments :: "string \<Rightarrow> bool" where
  seg_none: "segments []"
| seg_more: "u \<noteq> [] \<Longrightarrow> slash \<notin> set u \<Longrightarrow> segments v \<Longrightarrow> segments (u @ slash # v)"

lemma list_all_not_slash: "list_all (\<lambda>x. x \<noteq> slash) w \<longleftrightarrow> slash \<notin> set w"
  by (induction w) auto

lemma derives_segment:
  "derives (Seq (Plus (Not_chr slash)) (Chr slash)) st st' \<longleftrightarrow>
     (\<exists>u. u \<noteq> [] \<and> slash \<notin> set u \<and> fst st = u @ slash # fst st') \<and> snd st' = snd st"
proof -
  have "derives (Seq (Plus (Not_chr slash)) (Chr slash)) st st' \<longleftrightarrow>
      (\<exists>st1. derives (Plus (Not_chr slash)) st st1 \<and> derives (Chr slash) st1 st')"
    by (simp only: derives_Seq [of _ "Chr slash"] split_paired_Ex)
  also have "\<dots> \<longleftrightarrow> (\<exists>u. u \<noteq> [] \<and> slash \<notin> set u \<and> fst st = u @ slash # fst st') \<and> snd st' = snd st"
    unfolding derives_Plus_Cls derives_Cls list_all_not_slash by (cases st') auto
  finally show ?thesis .
qed

lemma derives_segments:
  "derives (Star (Seq (Plus (Not_chr slash)) (Chr slash))) st st' \<longleftrightarrow>
     (\<exists>w. segments w \<and> fst st = w @ fst st') \<and> snd st' = snd st"
proof
  assume "derives (Star (Seq (Plus (Not_chr slash)) (Chr slash))) st st'"
  then show "(\<exists>w. segments w \<and> fst st = w @ fst st') \<and> snd st' = snd st"
  proof (induction "Star (Seq (Plus (Not_chr slash)) (Chr slash))" st st' rule: derives.induct)
    case (star_none st)
    then show ?case by (auto intro: segments.seg_none)
  next
    case (star_more st st1 st2)
    then obtain u w where "u \<noteq> []" "slash \<notin> set u" "fst st = u @ slash # fst st1"
        "segments w" "fst st1 = w @ fst st2" "snd st1 = snd st" "snd st2 = snd st1"
      unfolding derives_segment by auto
    then show ?case
      by (auto intro!: exI [of _ "u @ slash # w"] intro: segments.seg_more)
  qed
next
  assume "(\<exists>w. segments w \<and> fst st = w @ fst st') \<and> snd st' = snd st"
  then obtain w where "segments w" "fst st = w @ fst st'" "snd st' = snd st" by blast
  then show "derives (Star (Seq (Plus (Not_chr slash)) (Chr slash))) st st'"
  proof (induction w arbitrary: st rule: segments.induct)
    case seg_none
    then have "st' = st" by (simp add: prod_eq_iff)
    then show ?case by (simp add: derives.star_none)
  next
    case (seg_more u v)
    let ?st = "(v @ fst st', snd st)"
    have "derives (Seq (Plus (Not_chr slash)) (Chr slash)) st ?st"
      unfolding derives_segment using seg_more by auto
    moreover have "derives (Star (Seq (Plus (Not_chr slash)) (Chr slash))) ?st st'"
      using seg_more by simp
    ultimately show ?case using derives.star_more seg_more.prems(1) by fastforce
  qed
qed

lemma no_double_slash_Cons:
  "no_double_slash (slash # s) \<longleftrightarrow> no_double_slash s \<and> (s = [] \<or> hd s \<noteq> slash)"
  by (cases s) (auto simp: no_double_slash_def Cons_eq_append_conv)

lemma no_double_slash_append:
  "slash \<notin> set u \<Longrightarrow> no_double_slash (u @ s) \<longleftrightarrow> no_double_slash s"
proof (induction u)
  case (Cons x u)
  have "no_double_slash (x # u @ s) \<longleftrightarrow> no_double_slash (u @ s)"
    using Cons.prems by (auto simp: no_double_slash_def Cons_eq_append_conv)
  with Cons show ?case by simp
qed simp

lemma segments_no_double_slash:
  "segments w \<Longrightarrow> slash \<notin> set v \<Longrightarrow> no_double_slash (slash # w @ v)"
proof (induction rule: segments.induct)
  case seg_none
  have "no_double_slash []" by (simp add: no_double_slash_def)
  with seg_none have "no_double_slash v" using no_double_slash_append [of v "[]"] by simp
  with seg_none show ?case unfolding no_double_slash_Cons by (cases v) auto
next
  case (seg_more u w)
  then show ?case
    by (cases u) (auto simp: no_double_slash_Cons no_double_slash_append [of "_ # _", simplified])
qed

lemma no_double_slash_segments:
  "no_double_slash (slash # t) \<Longrightarrow> \<exists>w v. t = w @ v \<and> segments w \<and> slash \<notin> set v"
proof (induction "length t" arbitrary: t rule: less_induct)
  case less
  show ?case
  proof (cases "slash \<in> set t")
    case False
    then show ?thesis by (intro exI [of _ "[]"] exI [of _ t]) (simp add: segments.seg_none)
  next
    case True
    then obtain u t' where t: "t = u @ slash # t'" "slash \<notin> set u"
      by (meson split_list_first)
    with less.prems have "u \<noteq> []" "no_double_slash (slash # t')"
      by (auto simp: no_double_slash_Cons no_double_slash_append)
    with less.hyps [of t'] t obtain w v where "t' = w @ v" "segments w" "slash \<notin> set v"
      by auto
    with t \<open>u \<noteq> []\<close> show ?thesis
      by (intro exI [of _ "u @ slash # w"] exI [of _ v]) (simp add: segments.seg_more)
  qed
qed

lemma absolute_uri_iff:
  "regex_match HTTP_ABSOLUTE_URI_REGEX s \<noteq> None \<longleftrightarrow> (\<exists>t. s = slash # t) \<and> no_double_slash s"
proof -
  have "regex_match HTTP_ABSOLUTE_URI_REGEX s \<noteq> None \<longleftrightarrow>
      (\<exists>t w v. s = slash # t \<and> t = w @ v \<and> segments w \<and> slash \<notin> set v)"
    unfolding regex_match_None_iff HTTP_ABSOLUTE_URI_REGEX_def
      derives_Seq [of "Chr slash"] derives_Seq [of "Star _"] derives_Cls derives_Alt derives_Eps
      derives_segments derives_Star_Cls list_all_not_slash
    by fastforce
  also have "\<dots> \<longleftrightarrow> (\<exists>t. s = slash # t) \<and> no_double_slash s"
    by (auto intro: segments_no_double_slash no_double_slash_segments)
  finally show ?thesis .
qed

section \<open>Parsing URLs\<close>

lemma url_rest_first:
  assumes "list_all (\<lambda>x. \<not> line_terminator x) (dropWhile (\<lambda>x. x \<noteq> slash) t)"
  shows "\<exists>rest. full_matches url_rest_re (t, c) =
    ([], c(5 \<mapsto> takeWhile (\<lambda>x. x \<noteq> slash) t, 6 \<mapsto> dropWhile (\<lambda>x. x \<noteq> slash) t)) # rest"
proof -
  let ?n = "length (takeWhile (\<lambda>x. x \<noteq> slash) t)"
  have "takeWhile (\<lambda>x. x \<noteq> slash) t = take ?n t" "dropWhile (\<lambda>x. x \<noteq> slash) t = drop ?n t"
    by (simp_all add: takeWhile_eq_take [symmetric] dropWhile_eq_drop)
  moreover have "?n \<le> length t" by (rule length_takeWhile_le)
  ultimately show ?thesis
    using assms
    by (simp add: url_rest_re_def full_matches_Seq full_matches_Grp full_matches_Star_Cls
        matches_Star_Cls comp_def)
qed

lemma scheme_matches:
  "matches url_scheme_re (''http://'' @ t, Map.empty) = [(t, [1 \<mapsto> ''http''])]"
  "matches url_scheme_re (''https://'' @ t, Map.empty) = [(t, [2 \<mapsto> ''s'', 1 \<mapsto> ''https''])]"
  by (simp_all add: url_scheme_re_def)

lemma url_match_http:
  assumes "list_all (\<lambda>x. \<not> line_terminator x) (dropWhile (\<lambda>x. x \<noteq> slash) t)"
  shows "regex_match HTTP_URL_REGEX (''http://'' @ t) =
      Some [1 \<mapsto> ''http'', 5 \<mapsto> takeWhile (\<lambda>x. x \<noteq> slash) t, 6 \<mapsto> dropWhile (\<lambda>x. x \<noteq> slash) t]"
    and "regex_match HTTP_URL_REGEX (''https://'' @ t) =
      Some [2 \<mapsto> ''s'', 1 \<mapsto> ''https'', 5 \<mapsto> takeWhile (\<lambda>x. x \<noteq> slash) t,
        6 \<mapsto> dropWhile (\<lambda>x. x \<noteq> slash) t]"
proof -
  have "\<exists>rest. full_matches HTTP_URL_REGEX (u, Map.empty) =
      ([], c(5 \<mapsto> takeWhile (\<lambda>x. x \<noteq> slash) t, 6 \<mapsto> dropWhile (\<lambda>x. x \<noteq> slash) t)) # rest"
    if "matches url_scheme_re (u, Map.empty) = [(t, c)]" for u c
    using url_rest_first [OF assms, of c]
    by (auto simp: HTTP_URL_REGEX_def full_matches_Seq that)
  from this [OF scheme_matches(1)] this [OF scheme_matches(2)]
  show "regex_match HTTP_URL_REGEX (''http://'' @ t) =
      Some [1 \<mapsto> ''http'', 5 \<mapsto> takeWhile (\<lambda>x. x \<noteq> slash) t, 6 \<mapsto> dropWhile (\<lambda>x. x \<noteq> slash) t]"
    and "regex_match HTTP_URL_REGEX (''https://'' @ t) =
      Some [2 \<mapsto> ''s'', 1 \<mapsto> ''https'', 5 \<mapsto> takeWhile (\<lambda>x. x \<noteq> slash) t,
        6 \<mapsto> dropWhile (\<lambda>x. x \<noteq> slash) t]"
    unfolding regex_match_full by auto
qed

lemma derives_digits:
  "derives (Seq (Cls p) (Rep_upto k (Cls p))) st st' \<longleftrightarrow>
     (\<exists>w. w \<noteq> [] \<and> length w \<le> Suc k \<and> list_all p w \<and> fst st = w @ fst st') \<and> snd st' = snd st"
proof -
  have "derives (Seq (Cls p) (Rep_upto k (Cls p))) st st' \<longleftrightarrow>
      (\<exists>x w. p x \<and> length w \<le> k \<and> list_all p w \<and> fst st = (x # w) @ fst st') \<and> snd st' = snd st"
    unfolding derives_Seq derives_Cls derives_Rep_upto_Cls by (cases st) auto
  also have "(\<exists>x w. p x \<and> length w \<le> k \<and> list_all p w \<and> fst st = (x # w) @ fst st') \<longleftrightarrow>
      (\<exists>w. w \<noteq> [] \<and> length w \<le> Suc k \<and> list_all p w \<and> fst st = w @ fst st')" (is "?l \<longleftrightarrow> ?r")
  proof
    assume ?l
    then obtain x w where "p x \<and> length w \<le> k \<and> list_all p w \<and> fst st = (x # w) @ fst st'" by blast
    then show ?r by (intro exI [of _ "x # w"]) simp
  next
    assume ?r
    then obtain w where w: "w \<noteq> []" "length w \<le> Suc k" "list_all p w" "fst st = w @ fst st'" by blast
    then show ?l by (cases w) auto
  qed
  finally show ?thesis .
qed

lemma derives_hostname_port:
  "derives hostname_port_re (s, Map.empty) ([], c) \<longleftrightarrow>
     (\<exists>h. h \<noteq> [] \<and> list_all host_char h \<and>
        (s = h \<and> c = [1 \<mapsto> h] \<or>
         (\<exists>ds. ds \<noteq> [] \<and> length ds \<le> 5 \<and> list_all is_digit ds \<and> s = h @ CHR '':'' # ds \<and>
            c = [1 \<mapsto> h, 2 \<mapsto> ds])))"
proof -
  have grp1: "derives (Grp 1 (Plus (Cls host_char))) (s, Map.empty) st1 \<longleftrightarrow>
      (\<exists>h. h \<noteq> [] \<and> list_all host_char h \<and> s = h @ fst st1 \<and> snd st1 = [1 \<mapsto> h])" for st1
    unfolding derives_Grp derives_Plus_Cls by (cases st1) auto
  have grp2: "derives (Grp 2 (Seq (Cls is_digit) (Rep_upto 4 (Cls is_digit)))) st1 ([], c) \<longleftrightarrow>
      fst st1 \<noteq> [] \<and> length (fst st1) \<le> 5 \<and> list_all is_digit (fst st1) \<and>
      c = (snd st1)(2 \<mapsto> fst st1)" for st1
    unfolding derives_Grp derives_digits by auto
  have "derives (Opt (Seq (Chr CHR '':'') (Grp 2 (Seq (Cls is_digit) (Rep_upto 4 (Cls is_digit))))))
      st1 ([], c) \<longleftrightarrow>
      (\<exists>ds. fst st1 = CHR '':'' # ds \<and> ds \<noteq> [] \<and> length ds \<le> 5 \<and> list_all is_digit ds \<and>
        c = (snd st1)(2 \<mapsto> ds)) \<or> st1 = ([], c)" for st1
    unfolding derives_Alt derives_Seq [of "Chr CHR '':''"] derives_Cls derives_Eps grp2
    by (cases st1) auto
  then show ?thesis
    unfolding hostname_port_re_def derives_Seq [of "Grp 1 _"] grp1 by fastforce
qed

lemma not_host_char_colon [simp]: "\<not> host_char CHR '':''"
  by (simp add: host_char_def char_class_defs char_code_def)

lemma not_host_char_slash [simp]: "\<not> host_char slash"
  by (simp add: host_char_def char_class_defs char_code_def)

lemma host_chars_no_colon: "list_all host_char h \<Longrightarrow> CHR '':'' \<notin> set h"
  by (auto simp: list_all_iff)

lemma hostname_match:
  assumes "h \<noteq> []" and "list_all host_char h"
  shows "regex_match hostname_port_re h = Some [1 \<mapsto> h]"
    and "ds \<noteq> [] \<Longrightarrow> length ds \<le> 5 \<Longrightarrow> list_all is_digit ds \<Longrightarrow>
      regex_match hostname_port_re (h @ CHR '':'' # ds) = Some [1 \<mapsto> h, 2 \<mapsto> ds]"
proof -
  show "regex_match hostname_port_re h = Some [1 \<mapsto> h]"
    using assms host_chars_no_colon
    by (intro regex_match_unique) (fastforce simp: derives_hostname_port)+
  assume ds: "ds \<noteq> []" "length ds \<le> 5" "list_all is_digit ds"
  have "h' = h \<and> ds' = ds" if "h @ CHR '':'' # ds = h' @ CHR '':'' # ds'" "list_all host_char h'"
    for h' ds'
    using that host_chars_no_colon [OF assms(2)] host_chars_no_colon [of h']
    by (simp add: append_sep_eq)
  moreover have "h @ CHR '':'' # ds \<noteq> h'" if "list_all host_char h'" for h'
    using that by auto
  ultimately show "regex_match hostname_port_re (h @ CHR '':'' # ds) = Some [1 \<mapsto> h, 2 \<mapsto> ds]"
    using assms ds by (intro regex_match_unique) (auto simp: derives_hostname_port)
qed

section \<open>Stripping the query\<close>

lemma derives_strip:
  "derives strip_re (s, Map.empty) ([], c) \<longleftrightarrow>
     (\<exists>u v. segments u \<and> CHR ''?'' \<notin> set v \<and>
        (s = slash # u @ v \<and> c = [1 \<mapsto> slash # u @ v] \<or>
         (\<exists>q. list_all (\<lambda>x. \<not> line_terminator x) q \<and> s = slash # u @ v @ CHR ''?'' # q \<and>
            c = [1 \<mapsto> slash # u @ v, 2 \<mapsto> q])))"
proof -
  have not_q: "list_all (\<lambda>x. x \<noteq> CHR ''?'') v \<longleftrightarrow> CHR ''?'' \<notin> set v" for v
    by (induction v) auto
  have grp1: "derives (Grp 1 (Seq (Chr slash) (Seq (Star (Seq (Plus (Not_chr slash)) (Chr slash)))
        (Star (Not_chr CHR ''?''))))) (s, Map.empty) st1 \<longleftrightarrow>
      (\<exists>u v. segments u \<and> CHR ''?'' \<notin> set v \<and> s = slash # u @ v @ fst st1 \<and>
        snd st1 = [1 \<mapsto> slash # u @ v])" for st1
    unfolding derives_Grp derives_Seq [of "Chr slash"] derives_Seq [of "Star _"] derives_Cls
      derives_segments derives_Star_Cls not_q
    by (cases st1) (fastforce simp: take_Cons')
  have "derives (Opt (Seq (Chr CHR ''?'') (Grp 2 (Star Dot)))) st1 ([], c) \<longleftrightarrow>
      (\<exists>q. fst st1 = CHR ''?'' # q \<and> list_all (\<lambda>x. \<not> line_terminator x) q \<and>
        c = (snd st1)(2 \<mapsto> q)) \<or> st1 = ([], c)" for st1
    unfolding derives_Alt derives_Seq derives_Cls derives_Eps derives_Grp derives_Star_Cls
    by (cases st1) auto
  then show ?thesis
    unfolding strip_re_def derives_Seq [of "Grp 1 _"] grp1 by fastforce
qed

lemma segments_split_query:
  assumes "segments u" and "CHR ''?'' \<notin> set p" and "slash \<notin> set q"
    and "u @ r = p @ CHR ''?'' # q"
  shows "CHR ''?'' \<notin> set u"
proof
  assume "CHR ''?'' \<in> set u"
  have "u = [] \<or> last u = slash"
    using assms(1) by (induction rule: segments.induct) auto
  with \<open>CHR ''?'' \<in> set u\<close> have last: "u \<noteq> []" "last u = slash" by auto
  from \<open>CHR ''?'' \<in> set u\<close> obtain a b where u: "u = a @ CHR ''?'' # b" "CHR ''?'' \<notin> set a"
    by (meson split_list_first)
  with assms(2,4) have "b @ r = q" using append_sep_eq [of "CHR ''?''" a p "b @ r" q] by simp
  moreover have "slash \<in> set b" using u last by (cases b rule: rev_cases) auto
  ultimately show False using assms(3) by auto
qed

section \<open>Header classes\<close>

lemma header_classes:
  "isHeaderType f HTTP_HEADER_ENTITY \<longleftrightarrow> \<not> isHeaderType f HTTP_HEADER_GENERAL \<and>
     \<not> isHeaderType f HTTP_HEADER_REQUEST \<and> \<not> isHeaderType f HTTP_HEADER_RESPONSE"
  "isHeaderType f HTTP_HEADER_REQUEST \<Longrightarrow> \<not> isHeaderType f HTTP_HEADER_GENERAL"
  "isHeaderType f HTTP_HEADER_RESPONSE \<Longrightarrow>
     \<not> isHeaderType f HTTP_HEADER_GENERAL \<and> \<not> isHeaderType f HTTP_HEADER_REQUEST"
  by auto

lemma header_lines_partition:
  "\<exists>hs'. header_lines HTTP_HEADER_GENERAL hs
       @ header_lines (if is_req then HTTP_HEADER_REQUEST else HTTP_HEADER_RESPONSE) hs
       @ header_lines HTTP_HEADER_ENTITY hs = concat (map header_line hs') \<and>
     mset hs' = mset (filter (\<lambda>h. \<not> isHeaderType (fst h)
       (if is_req then HTTP_HEADER_RESPONSE else HTTP_HEADER_REQUEST)) hs)"
proof -
  let ?t = "if is_req then HTTP_HEADER_REQUEST else HTTP_HEADER_RESPONSE"
  let ?f = "\<lambda>t. filter (\<lambda>h. isHeaderType (fst h) t) hs"
  have "mset (?f HTTP_HEADER_GENERAL @ ?f ?t @ ?f HTTP_HEADER_ENTITY) =
      mset (filter (\<lambda>h. \<not> isHeaderType (fst h)
        (if is_req then HTTP_HEADER_RESPONSE else HTTP_HEADER_REQUEST)) hs)"
    by (induction hs) (use header_classes in \<open>auto simp del: isHeaderType.simps\<close>)
  then show ?thesis
    by (intro exI [of _ "?f HTTP_HEADER_GENERAL @ ?f ?t @ ?f HTTP_HEADER_ENTITY"])
       (simp add: header_lines_def)
qed

text \<open>The handler passes the whole message on, or nothing.\<close>

lemma handleDataMessage_0:
  "stream_record same_key r = (buffer, content, r') \<Longrightarrow>
     handleDataMessage same_key 0 space r =
       Inr (if length buffer + length content \<le> space then Some (buffer @ content) else None, r')"
  by (auto simp: handleDataMessage_def)

section \<open>Properties\<close>

text \<open>C25: Percent encoding is loss-free: whatever the two options, decoding the encoded string
  gives the string back, for every byte string.\<close>

theorem URLDecode_URLEncode: "URLDecode (URLEncode s escapeAll upperCaseHexDigits) = s"
proof (induction s)
  case Nil
  then show ?case by (simp add: URLEncode_def)
next
  case (Cons c s)
  then show ?case
    using decode_encode_char [of escapeAll upperCaseHexDigits c "URLEncode s escapeAll upperCaseHexDigits"]
    by (simp add: URLEncode_def)
qed

definition port_text :: "nat option \<Rightarrow> string" where
  "port_text port = (case port of None \<Rightarrow> [] | Some n \<Rightarrow> CHR '':'' # show_dec n)"

definition port_or_default :: "u16 \<Rightarrow> bool \<Rightarrow> nat option \<Rightarrow> u16" where
  "port_or_default default_port ssl port =
     (case port of None \<Rightarrow> if ssl then 443 else default_port | Some n \<Rightarrow> word_of_nat n)"

text \<open>For an absolute http or https URL with a host name, an optional port and a path without
  empty segments, \<open>parseURL\<close> finds exactly these parts: the scheme decides about TLS, the
  address is resolved for the host without the port, with the port given or the default port of
  the scheme, and the path is the URI.\<close>

lemma parseURL_absolute:
  assumes "host \<noteq> []" and "list_all host_char host"
    and "no_double_slash (slash # path)" and "list_all (\<lambda>x. \<not> line_terminator x) path"
    and "\<And>n. port = Some n \<Longrightarrow> 0 < n \<and> n < 65536"
  shows "parseURL default_port set_host set_any
      ((if ssl then ''https://'' else ''http://'') @ host @ port_text port @ slash # path) =
    (let address = set_host (port_or_default default_port ssl port) host in
     \<lparr>url_ok = (address \<noteq> None), url_address = address, url_hostName = host @ port_text port,
      url_URI = slash # path, url_useSSL = ssl\<rparr>)"
proof -
  let ?t = "host @ port_text port @ slash # path"
  have digits: "list_all is_digit (show_dec n)" for n by (simp add: list_all_iff show_dec_digits)
  have "slash \<notin> set host" using assms(2) by (auto simp: list_all_iff)
  moreover have "\<not> is_digit slash" by (simp add: is_digit_def char_code_def)
  then have "slash \<notin> set (port_text port)"
    using show_dec_digits by (auto simp: port_text_def split: option.splits)
  ultimately have "slash \<notin> set (host @ port_text port)" by simp
  then have split: "takeWhile (\<lambda>x. x \<noteq> slash) ?t = host @ port_text port"
      "dropWhile (\<lambda>x. x \<noteq> slash) ?t = slash # path"
    by (simp_all add: takeWhile_append dropWhile_append)
  have "list_all (\<lambda>x. \<not> line_terminator x) (slash # path)"
    using assms(4) by (simp add: line_terminator_def)
  then have url: "regex_match HTTP_URL_REGEX ((if ssl then ''https://'' else ''http://'') @ ?t) =
      Some ((if ssl then [2 \<mapsto> ''s'', 1 \<mapsto> ''https''] else [1 \<mapsto> ''http''])
        (5 \<mapsto> host @ port_text port, 6 \<mapsto> slash # path))"
    using url_match_http [of ?t] by (cases ssl) (simp_all only: split if_True if_False)
  obtain m where uri: "regex_match HTTP_ABSOLUTE_URI_REGEX (slash # path) = Some m"
    using assms(3) absolute_uri_iff [of "slash # path"] by auto
  have port: "regex_match hostname_port_re (host @ CHR '':'' # show_dec n) =
        Some [1 \<mapsto> host, 2 \<mapsto> show_dec n]"
      "extract_unsigned 16 (show_dec n) = n" "(word_of_nat n :: u16) \<noteq> 0" if "port = Some n" for n
    using assms(5) [OF that] extract_show_dec [of n 16 "[]"] digits length_show_dec [of n 4]
      hostname_match(2) [OF assms(1,2), of "show_dec n"]
    by (simp_all add: word_of_nat_eq_0_iff nat_dvd_not_less)
  show ?thesis
    unfolding parseURL_def url option.case
    using assms(1) uri hostname_match [OF assms(1,2)] port
    by (cases port; cases ssl)
       (simp_all add: cap_def Let_def port_or_default_def port_text_def
          HTTPS_DEFAULT_SERVER_PORT_def)
qed

text \<open>\<open>URLIsURI\<close> classifies a string as an absolute path exactly when it starts with a slash
  and has no two adjacent slashes.\<close>

lemma URLIsURI_absolute:
  assumes "s \<noteq> []"
  shows "URLIsURI s rel = Inr (True, False) \<longleftrightarrow> hd s = slash \<and> no_double_slash s"
proof -
  have "(\<exists>t. s = slash # t) \<longleftrightarrow> hd s = slash" using assms by (cases s) auto
  then show ?thesis
    using assms absolute_uri_iff [of s] by (auto simp: URLIsURI_def)
qed

text \<open>When neither the path contains a question mark nor the query a slash, \<open>stripURI\<close> returns
  the path without the query.\<close>

lemma stripURI_removes_query:
  assumes "CHR ''?'' \<notin> set p" and "slash \<notin> set q" and "list_all (\<lambda>x. \<not> line_terminator x) q"
  shows "stripURI (slash # p @ CHR ''?'' # q) = slash # p"
proof -
  have "regex_match strip_re (slash # p @ CHR ''?'' # q) = Some [1 \<mapsto> slash # p, 2 \<mapsto> q]"
  proof (rule regex_match_unique)
    show "derives strip_re (slash # p @ CHR ''?'' # q, Map.empty) ([], [1 \<mapsto> slash # p, 2 \<mapsto> q])"
      unfolding derives_strip using assms segments.seg_none
      by (intro exI [of _ "[]"] exI [of _ p]) auto
  next
    fix c
    assume "derives strip_re (slash # p @ CHR ''?'' # q, Map.empty) ([], c)"
    then obtain u v where uv: "segments u" "CHR ''?'' \<notin> set v"
        "p @ CHR ''?'' # q = u @ v \<or>
         (\<exists>q'. p @ CHR ''?'' # q = u @ v @ CHR ''?'' # q' \<and> c = [1 \<mapsto> slash # u @ v, 2 \<mapsto> q'])"
      unfolding derives_strip by auto
    then have "CHR ''?'' \<notin> set u"
      using segments_split_query [OF _ assms(1,2)] by metis
    with uv(2,3) have no_q: "CHR ''?'' \<notin> set (u @ v)" by simp
    then have "p @ CHR ''?'' # q \<noteq> u @ v" by (metis in_set_conv_decomp)
    with uv(3) obtain q' where "p @ CHR ''?'' # q = (u @ v) @ CHR ''?'' # q'"
        "c = [1 \<mapsto> slash # u @ v, 2 \<mapsto> q']" by auto
    then show "c = [1 \<mapsto> slash # p, 2 \<mapsto> q]"
      using append_sep_eq [OF assms(1) no_q] by simp
  qed
  then show ?thesis by (simp add: stripURI_def cap_def)
qed

text \<open>A slash inside the query defeats \<open>stripURI\<close>: the path part of the expression admits
  question marks in its segments, so the query is kept.\<close>

lemma stripURI_keeps_query_with_slash: "stripURI ''/s?u=/x'' = ''/s?u=/x''"
  by (simp add: stripURI_def regex_match_def strip_re_def matches.simps(5) cap_def)

text \<open>The streamer writes, after the start line, every header of the record exactly once, in
  the order general, request or response, entity; only the headers of the opposite kind of
  message (response headers of a request and vice versa) are left out.\<close>

lemma stream_record_headers:
  "\<exists>start hs. fst (stream_record same_key r) = start @ concat (map header_line hs) @ crlf \<and>
     mset hs = mset (filter (\<lambda>h. \<not> isHeaderType (fst h)
        (if isRequest r then HTTP_HEADER_RESPONSE else HTTP_HEADER_REQUEST))
        (headers (snd (snd (stream_record same_key r)))))"
proof -
  obtain start content r' where s: "stream_record same_key r =
      (start @ header_lines HTTP_HEADER_GENERAL (headers r')
           @ header_lines (if isRequest r then HTTP_HEADER_REQUEST else HTTP_HEADER_RESPONSE)
               (headers r')
           @ header_lines HTTP_HEADER_ENTITY (headers r') @ crlf, content, r')"
    unfolding stream_record_def Let_def by (simp only: split_beta)
  with header_lines_partition [of "headers r'" "isRequest r"] show ?thesis
    by (metis append.assoc fst_conv snd_conv)
qed

text \<open>A POST request with form data carries its form as content and, unless the caller set
  the header, a content length that is the number of bytes of that content.\<close>

lemma stream_post_content_length:
  assumes "http_method r = HTTP_METHOD_POST" and "form r \<noteq> []"
    and "\<And>h. h \<in> set (headers r) \<Longrightarrow> \<not> same_key (fst h) ''Content-Length''"
    and "\<not> same_key ''Content-Length'' ''Content-Type''"
  shows "(''Content-Length'', show_dec (length (fst (snd (stream_record same_key r)))))
     \<in> set (headers (snd (snd (stream_record same_key r))))"
proof -
  let ?n = "show_dec (length (post_form (form r)))"
  have "find (\<lambda>(k', _). same_key k' ''Content-Length'') (headers r) = None"
    using assms(3) by (auto simp: find_None_iff)
  then have hs: "set_default_header same_key ''Content-Length'' ?n (headers r) =
      headers r @ [(''Content-Length'', ?n)]"
    by (simp add: set_default_header_def)
  have keep: "(k, v) \<in> set (set_default_header same_key k' v' hs)"
    if "(k, v) \<in> set hs" "v \<noteq> []" "\<not> same_key k k'" for k v k' v' hs
  proof (cases "find (\<lambda>(x, _). same_key x k') hs")
    case (Some y)
    moreover obtain x w where y: "y = (x, w)" by force
    ultimately have "same_key x k'" by (auto simp: find_Some_iff)
    then have "k \<noteq> x" using that(3) by auto
    then show ?thesis using that(1) Some y by (force simp: set_default_header_def)
  qed (use that in \<open>simp add: set_default_header_def\<close>)
  have "isRequest r" using assms(1) by (simp add: isRequest_def)
  then have "fst (snd (stream_record same_key r)) = post_form (form r)"
      "snd (snd (stream_record same_key r)) = post_record same_key r"
    using assms(1,2) by (simp_all add: stream_record_def Let_def)
  moreover have "(''Content-Length'', ?n) \<in> set (headers (post_record same_key r))"
    using assms(4) by (simp add: post_record_def hs keep)
  ultimately show ?thesis by simp
qed

text \<open>Requests other than GET and POST leave the streamer without the protocol version: the
  request line of a HEAD request is the method and the URI only.\<close>

lemma stream_head_without_version:
  assumes "http_method r = HTTP_METHOD_HEAD" and "headers r = []"
  shows "fst (stream_record same_key r) = ''HEAD '' @ URI r @ crlf @ crlf"
  using assms by (simp add: stream_record_def isRequest_def header_lines_def)

end
