(* ===== verification/Net_Byte_Order.thy ===== *)
theory Net_Byte_Order
  imports Net_Prelude
begin

text \<open>
  Values in network byte order. \<open>be_octets\<close> and \<open>be_value\<close> are the reference: the octets of a number,
  most significant first, and the number octets stand for. \<open>native_word\<close> and \<open>native_octets\<close> are what
  the code does, which reads and writes words through a pointer in the byte order of the machine and
  swaps the octets where it is little endian; \<open>swap_octets\<close> is an implementation of the swapping macros.
  \<open>machine\<close> is the parameter for both, and the last section has the steps by which the streamer modules
  fill a message block.
\<close>

definition native_word :: "bool \<Rightarrow> byte list \<Rightarrow> 'a::len word" where
  "native_word le bs = foldr (\<lambda>b v. ucast b + 256 * v) (if le then bs else rev bs) 0"

definition be_value :: "byte list \<Rightarrow> nat" where
  "be_value bs = foldl (\<lambda>n b. 256 * n + unat b) 0 bs"

fun be_octets :: "nat \<Rightarrow> nat \<Rightarrow> byte list" where
  "be_octets 0 n = []"
| "be_octets (Suc k) n = be_octets k (n div 256) @ [word_of_nat n]"

lemma length_be_octets [simp]: "length (be_octets k n) = k"
  by (induction k arbitrary: n) auto

lemma be_octets_4:
  "be_octets 4 n = [word_of_nat (n div 2 ^ 24), word_of_nat (n div 2 ^ 16), word_of_nat (n div 2 ^ 8), word_of_nat n]"
proof -
  have "(4 :: nat) = Suc (Suc (Suc (Suc 0)))"
    by simp
  then show ?thesis
    by (simp only: be_octets.simps div_mult2_eq [symmetric]) simp
qed

lemma be_value_Nil [simp]: "be_value [] = 0"
  by (simp add: be_value_def)

lemma be_value_snoc [simp]: "be_value (bs @ [b]) = 256 * be_value bs + unat b"
  by (simp add: be_value_def)

lemma be_value_octets: "be_value (be_octets k n) = n mod 256 ^ k"
proof (induction k arbitrary: n)
  case (Suc k)
  have "n mod (256 * 256 ^ k) = 256 * (n div 256 mod 256 ^ k) + n mod 256"
    by (rule mod_mult2_eq)
  then show ?case
    by (simp add: Suc unat_of_nat)
qed (simp add: be_value_def)

lemma native_word_be: "(native_word False bs :: 'a::len word) = word_of_nat (be_value bs)"
proof (induction bs rule: rev_induct)
  case (snoc b bs)
  then show ?case
    by (simp add: native_word_def)
qed (simp add: native_word_def)

lemma native_word_rev: "native_word True (rev bs) = native_word False bs"
  by (simp add: native_word_def)

definition swap_octets :: "nat \<Rightarrow> 'a::len word \<Rightarrow> 'a word" where
  "swap_octets k v = native_word True (be_octets k (unat v))"

lemma unat_byte_less: "unat (b :: byte) < 256"
  using unsigned_less [of b] by simp

lemma be_value_less: "be_value bs < 256 ^ length bs"
proof (induction bs rule: rev_induct)
  case (snoc b bs)
  with unat_byte_less [of b] show ?case
    by simp
qed simp

lemma be_octets_value: "be_octets (length bs) (be_value bs) = bs"
proof (induction bs rule: rev_induct)
  case (snoc b bs)
  have "(word_of_nat (256 * be_value bs) :: byte) = 0"
  proof -
    have "(256 :: byte) = 0"
      by simp
    then show ?thesis
      by (simp only: of_nat_mult of_nat_numeral mult_zero_left)
  qed
  with snoc unat_byte_less [of b] show ?case
    by simp
qed simp

lemma swap_octets_native:
  assumes "256 ^ length bs = (2 :: nat) ^ LENGTH('a::len)"
  shows "swap_octets (length bs) (native_word True bs :: 'a word) = native_word True (rev bs)"
proof -
  have "(native_word True bs :: 'a word) = word_of_nat (be_value (rev bs))"
    using native_word_rev [of "rev bs"] by (simp add: native_word_be)
  moreover have "be_value (rev bs) < 2 ^ LENGTH('a)"
    using be_value_less [of "rev bs"] assms by simp
  ultimately have "unat (native_word True bs :: 'a word) = be_value (rev bs)"
    by (simp add: unat_of_nat)
  then show ?thesis
    using be_octets_value [of "rev bs"] by (simp add: swap_octets_def)
qed

definition native_octets :: "bool \<Rightarrow> nat \<Rightarrow> 'a::len word \<Rightarrow> byte list" where
  "native_octets le k v = (if le then rev (be_octets k (unat v)) else be_octets k (unat v))"

lemma length_native_octets [simp]: "length (native_octets le k v) = k"
  by (simp add: native_octets_def)

lemma native_octets_word:
  assumes "256 ^ length bs = (2 :: nat) ^ LENGTH('a::len)"
  shows "native_octets le (length bs) (native_word le bs :: 'a word) = bs"
proof -
  have "unat (native_word le bs :: 'a word) = be_value (if le then rev bs else bs)"
    using be_value_less [of bs] be_value_less [of "rev bs"] assms native_word_rev [of "rev bs", where 'a = 'a]
    by (auto simp: native_word_be unat_of_nat)
  then show ?thesis
    using be_octets_value [of bs] be_octets_value [of "rev bs"] by (auto simp: native_octets_def)
qed

lemma native_word_octets:
  assumes "256 ^ k = (2 :: nat) ^ LENGTH('a::len)"
  shows "native_word le (native_octets le k (v :: 'a word)) = v"
proof -
  have "(word_of_nat (be_value (be_octets k (unat v))) :: 'a word) = v"
    by (simp add: be_value_octets assms)
  then show ?thesis
    by (simp add: native_octets_def native_word_rev flip: native_word_be)
qed

text \<open>What reading and writing through a swap macro amounts to, on either kind of machine.\<close>

definition swaps_octets :: "nat \<Rightarrow> ('a::len word \<Rightarrow> 'a word) \<Rightarrow> bool" where
  "swaps_octets k swap \<longleftrightarrow>
     (\<forall>bs. length bs = k \<longrightarrow> swap (native_word True bs) = native_word True (rev bs))"

lemma swaps_octets_swap: "256 ^ k = (2 :: nat) ^ LENGTH('a::len) \<Longrightarrow> swaps_octets k (swap_octets k :: 'a word \<Rightarrow> 'a word)"
  using swap_octets_native [where 'a = 'a] by (auto simp: swaps_octets_def)

lemma swapped_word:
  "swaps_octets k swap \<Longrightarrow> length bs = k \<Longrightarrow>
     (if le then swap (native_word le bs) else native_word le bs) = word_of_nat (be_value bs)"
  by (simp add: swaps_octets_def native_word_rev flip: native_word_be)

lemma swapped_word_little:
  "swaps_octets k swap \<Longrightarrow> length bs = k \<Longrightarrow> swap (native_word True bs) = word_of_nat (be_value bs)"
  by (simp add: swaps_octets_def native_word_rev flip: native_word_be)

lemma swapped_octets:
  assumes "256 ^ k = (2 :: nat) ^ LENGTH('a::len)" "swaps_octets k swap"
  shows "native_octets le k (if le then swap v else v :: 'a word) = be_octets k (unat v)"
proof (cases le)
  case True
  have "swap (native_word True (native_octets True k v)) = native_word True (be_octets k (unat v))"
    using assms(2) by (simp add: swaps_octets_def native_octets_def)
  then show ?thesis
    using True assms(1) native_word_octets [OF assms(1)] native_octets_word [of "be_octets k (unat v)" True, where 'a = 'a]
    by simp
qed (simp add: native_octets_def)

lemma be_value_zeros: "be_value (replicate j 0 @ bs) = be_value bs"
proof -
  have "be_value (replicate j 0) = 0"
    by (induction j) (simp_all flip: replicate_append_same)
  then show ?thesis
    by (simp add: be_value_def)
qed

lemma be_octets_zeros: "n < 256 ^ k \<Longrightarrow> be_octets (j + k) n = replicate j 0 @ be_octets k n"
  using be_octets_value [of "replicate j 0 @ be_octets k n"] by (simp add: be_value_zeros be_value_octets)

lemma be_value_single [simp]: "be_value [b] = unat b"
  using be_value_snoc [of "[]" b] by simp

lemma be_value_octets_word: "256 ^ k = (2 :: nat) ^ LENGTH('a) \<Longrightarrow> be_value (be_octets k (unat (v :: 'a::len word))) = unat v"
  by (simp add: be_value_octets)

text \<open>A field of a message: \<open>n\<close> octets at position \<open>k\<close>.\<close>

definition octets_at :: "nat \<Rightarrow> nat \<Rightarrow> byte list \<Rightarrow> byte list" where
  "octets_at k n bs = take n (drop k bs)"

abbreviation number :: "nat \<Rightarrow> nat \<Rightarrow> byte list \<Rightarrow> nat" where
  "number k n bs \<equiv> be_value (octets_at k n bs)"

section \<open>Machines\<close>

text \<open>The byte order of a machine, and the swapping macros of ACE.\<close>

record machine =
  lsb_first :: bool
  swap_word :: "u16 \<Rightarrow> u16"
  swap_long :: "u32 \<Rightarrow> u32"
  swap_long_long :: "u64 \<Rightarrow> u64"

definition machine_ok :: "'a machine_scheme \<Rightarrow> bool" where
  "machine_ok lib \<longleftrightarrow>
     swaps_octets 2 (swap_word lib) \<and> swaps_octets 4 (swap_long lib) \<and> swaps_octets 8 (swap_long_long lib)"

definition network_16 :: "'a machine_scheme \<Rightarrow> u16 \<Rightarrow> byte list" where
  "network_16 lib v =
     native_octets (lsb_first lib) 2 (if lsb_first lib then swap_word lib v else v)"

definition network_32 :: "'a machine_scheme \<Rightarrow> u32 \<Rightarrow> byte list" where
  "network_32 lib v =
     native_octets (lsb_first lib) 4 (if lsb_first lib then swap_long lib v else v)"

definition network_64 :: "'a machine_scheme \<Rightarrow> u64 \<Rightarrow> byte list" where
  "network_64 lib v =
     native_octets (lsb_first lib) 8 (if lsb_first lib then swap_long_long lib v else v)"

text \<open>The octet at the address of an enumeration's variable.\<close>

definition first_octet :: "'a machine_scheme \<Rightarrow> u32 \<Rightarrow> byte list" where
  "first_octet lib v = take 1 (native_octets (lsb_first lib) 4 v)"

lemma network_octets:
  assumes "machine_ok lib"
  shows "network_16 lib v = be_octets 2 (unat v)"
    and "network_32 lib w = be_octets 4 (unat w)"
    and "network_64 lib x = be_octets 8 (unat x)"
  using assms
  by (simp_all add: network_16_def network_32_def network_64_def machine_ok_def swapped_octets)

section \<open>Internet addresses\<close>

text \<open>An \<open>ACE_INET_Addr\<close> holds an IPv4 address and a port, both in host byte order.\<close>

record inet_addr =
  addr_ip :: u32
  addr_port :: u16

definition any_address :: inet_addr where
  "any_address = \<lparr>addr_ip = 0, addr_port = 0\<rparr>"

section \<open>Message blocks\<close>

text \<open>
  One call of \<open>ACE_Message_Block::copy\<close>, given the room left in the message: the octets it appends,
  or \<open>None\<close> for a call that fails, after which the code jumps to the label \<open>error\<close>.
\<close>

type_synonym part = "nat \<Rightarrow> byte list option run"

definition copy_bytes :: "byte list \<Rightarrow> part" where
  "copy_bytes bs space = Inr (if length bs \<le> space then Some bs else None)"

definition goto_error :: part where
  "goto_error space = Inr None"

fun copy_all :: "part list \<Rightarrow> nat \<Rightarrow> byte list \<Rightarrow> (byte list \<times> bool) run" where
  "copy_all [] space out = Inr (out, True)"
| "copy_all (part # parts) space out =
     run_bind (part space) (\<lambda>res. case res of
       None \<Rightarrow> Inr (out, False)
     | Some bs \<Rightarrow> copy_all parts (space - length bs) (out @ bs))"

end
