(* ===== verification/Web_Socket.thy ===== *)
theory Web_Socket
  imports Http_Tools Net_Byte_Order
begin

text \<open>
  The WebSocket component (\<open>src/protocol/ws\<close>): names and handshake key of \<open>WebSocket_Tools\<close>
  (\<open>ws_tools.cpp\<close>), the frame \<open>WebSocket_Module_Streamer_T::handleDataMessage\<close> writes, the rules of
  the scanner (\<open>ws_scanner.cpp\<close>, generated from \<open>scripts/scanner.l\<close>), the action of the grammar
  (\<open>ws_parser.cpp\<close>), the parser driver (\<open>ws_parser_driver.inl\<close>) and the parser module, which cuts the
  frames out of the received buffers (\<open>ws_module_parser.inl\<close>).

  Parameters (\<open>ws_library\<close>): the byte order and the byte swapping macros of ACE, the masking key's
  random number, \<open>Common_Tools::max\<close> and \<open>Stream_Tools::get\<close>; \<open>ws_library_ok\<close> is what the code relies
  on. A chain of message blocks is the list of their contents.
\<close>

unbundle bit_operations_syntax

section \<open>Data\<close>

text \<open>
  Both enumerations have a fixed underlying type, so that a variable of the type holds every value
  of it, as it does after the scanner's cast.
\<close>

type_synonym WebSocket_OpCode = byte
type_synonym WebSocket_Status = u16

abbreviation OPCODE_TEXT :: WebSocket_OpCode where "OPCODE_TEXT \<equiv> 1"
abbreviation OPCODE_INVALID :: WebSocket_OpCode where "OPCODE_INVALID \<equiv> 16"
abbreviation STATUS_INVALID :: WebSocket_Status where "STATUS_INVALID \<equiv> 5000"

record WebSocket_Record = HTTP_Record +
  ws_final :: bool
  ws_opcode :: WebSocket_OpCode
  ws_payload :: "byte list option"
  ws_payloadSize :: u64
  ws_reason :: string
  ws_status :: WebSocket_Status

definition new_WebSocket_Record :: WebSocket_Record where
  "new_WebSocket_Record =
     \<lparr>form = [], headers = [], http_method = HTTP_METHOD_INVALID, http_reason = [],
      http_status = 1001, URI = [], http_version = HTTP_VERSION_INVALID, ws_final = True,
      ws_opcode = OPCODE_INVALID, ws_payload = None, ws_payloadSize = 0, ws_reason = [],
      ws_status = STATUS_INVALID\<rparr>"

definition WebSocket_Record_reset :: "WebSocket_Record \<Rightarrow> WebSocket_Record" where
  "WebSocket_Record_reset r =
     HTTP_Record.extend (HTTP_Record_reset (HTTP_Record.truncate r))
       (WebSocket_Record.fields True OPCODE_INVALID None 0 [] STATUS_INVALID)"

definition OpCodeToString :: "WebSocket_OpCode \<Rightarrow> string" where
  "OpCodeToString opcode =
     (case map_of [(0, ''CONTINUATION''), (1, ''TEXT''), (2, ''BINARY''), (8, ''CLOSE''), (9, ''PING''),
                   (10, ''PONG'')] opcode of
        Some result \<Rightarrow> result
      | None \<Rightarrow> ''INVALID/UNKNOWN'')"

definition WebSocket_StatusToString :: "WebSocket_Status \<Rightarrow> string" where
  "WebSocket_StatusToString status =
     (case map_of [(1000, ''OK''), (1001, ''GOING_AWAY''), (1002, ''PROTOCOL_ERROR''),
                   (1003, ''UNSUPPORTED_DATA''), (1005, ''NO_CODE_RECEIVED''),
                   (1006, ''CONNECTION_CLOSED''), (1007, ''INVALID_PAYLOAD_DATA''),
                   (1008, ''POLICY_VIOLATED''), (1009, ''MESSAGE_TOO_BIG''),
                   (1010, ''UNSUPPORTED_EXTENSION''), (1011, ''INTERNAL_SERVER_ERROR''),
                   (1015, ''TLS_HANDSHAKE_FAILURE'')] status of
        Some result \<Rightarrow> result
      | None \<Rightarrow> ''INVALID/UNKNOWN'')"

text \<open>The octets of a 64-bit value as both the handshake key and the frame header push them.\<close>

definition push_u64 :: "u64 \<Rightarrow> byte list" where
  "push_u64 v =
     [ucast (drop_bit 56 (v AND 0xFF00000000000000)), ucast (drop_bit 48 (v AND 0x00FF000000000000)),
      ucast (drop_bit 40 (v AND 0x0000FF0000000000)), ucast (drop_bit 32 (v AND 0x000000FF00000000)),
      ucast (drop_bit 24 (v AND 0x00000000FF000000)), ucast (drop_bit 16 (v AND 0x0000000000FF0000)),
      ucast (drop_bit 8 (v AND 0x000000000000FF00)), ucast (v AND 0x00000000000000FF)]"

definition generateSecHeaderKey :: "(byte list \<Rightarrow> string) \<Rightarrow> u64 \<Rightarrow> u64 \<Rightarrow> string" where
  "generateSecHeaderKey encodeBase64 value_i value_2 = encodeBase64 (push_u64 value_i @ push_u64 value_2)"

section \<open>Code of other libraries\<close>

record ws_library =
  lib_little_endian :: bool
  ACE_SWAP_WORD :: "u16 \<Rightarrow> u16"
  ACE_SWAP_LONG_LONG :: "u64 \<Rightarrow> u64"
  Common_max_2 :: u64
  Stream_get :: "nat \<Rightarrow> byte list list \<Rightarrow> byte list list \<times> byte list list"
  parser_block :: bool
  use_scan_buffer :: bool

definition blocks :: "byte list list \<Rightarrow> byte list list" where
  "blocks chain = filter (\<lambda>b. b \<noteq> []) chain"

text \<open>
  \<open>Stream_Tools::get\<close> cuts a chain behind the given number of bytes. Only the case of a cut between
  two blocks is used here, where it leaves the blocks as they are, empty ones aside.
\<close>

definition ws_library_ok :: "ws_library \<Rightarrow> bool" where
  "ws_library_ok lib \<longleftrightarrow>
     (\<forall>bs. length bs = 2 \<longrightarrow> ACE_SWAP_WORD lib (native_word True bs) = native_word True (rev bs))
     \<and> (\<forall>bs. length bs = 8 \<longrightarrow> ACE_SWAP_LONG_LONG lib (native_word True bs) = native_word True (rev bs))
     \<and> Common_max_2 lib = 0xFFFF
     \<and> (\<forall>xs ys. concat ys \<noteq> [] \<longrightarrow>
          (case Stream_get lib (length (concat xs)) (xs @ ys) of
             (m, rest) \<Rightarrow> blocks m = blocks xs \<and> blocks rest = blocks ys))"

definition from_network_16 :: "ws_library \<Rightarrow> byte list \<Rightarrow> u16" where
  "from_network_16 lib bs =
     (let v = native_word (lib_little_endian lib) bs in
      if lib_little_endian lib then ACE_SWAP_WORD lib v else v)"

definition from_network_64 :: "ws_library \<Rightarrow> byte list \<Rightarrow> u64" where
  "from_network_64 lib bs =
     (let v = native_word (lib_little_endian lib) bs in
      if lib_little_endian lib then ACE_SWAP_LONG_LONG lib v else v)"

section \<open>Writing frames\<close>

definition frame_header :: "ws_library \<Rightarrow> WebSocket_Record \<Rightarrow> byte list" where
  "frame_header lib r =
     (let n = ws_payloadSize r; first = 0x80 OR (ws_opcode r AND 0x0F) in
      if n \<le> 125 then [first, 0x80 OR ucast (n AND 0x7F)]
      else if n \<le> Common_max_2 lib
      then let payload_size_i = (ucast n :: u16) in
           [first, 0x80 OR 0x7E, ucast (drop_bit 8 (payload_size_i AND 0xFF00)),
            ucast (payload_size_i AND 0x00FF)]
      else [first, 0x80 OR 0x7F] @ push_u64 n)"

definition push_u32 :: "u32 \<Rightarrow> byte list" where
  "push_u32 v =
     [ucast (drop_bit 24 (v AND 0xFF000000)), ucast (drop_bit 16 (v AND 0x00FF0000)),
      ucast (drop_bit 8 (v AND 0x0000FF00)), ucast (v AND 0x000000FF)]"

text \<open>The loop over the payload; \<open>key\<close> holds four octets, \<open>data\<close> the bytes allocated at \<open>data_p\<close>.\<close>

fun mask_loop :: "byte list \<Rightarrow> nat \<Rightarrow> nat \<Rightarrow> byte list \<Rightarrow> byte list run" where
  "mask_loop key i 0 data = Inr []"
| "mask_loop key i (Suc n) [] = Inl Out_of_bounds"
| "mask_loop key i (Suc n) (d # data) =
     run_bind (mask_loop key (i + 1) n data) (\<lambda>buffer. Inr ((d XOR key ! (i mod 4)) # buffer))"

text \<open>
  The handler: \<open>handshakeComplete\<close> is the member of the module, \<open>len\<close> and \<open>space\<close> the bytes in the
  message block and the room behind them. It returns the new value of the member, the bytes of
  the block (\<open>None\<close>: an error, the message is released and not passed on) and the record.
\<close>

definition ws_handleDataMessage ::
    "ws_library \<Rightarrow> (string \<Rightarrow> string \<Rightarrow> bool) \<Rightarrow> u32 \<Rightarrow> bool \<Rightarrow> nat \<Rightarrow> nat \<Rightarrow> WebSocket_Record
     \<Rightarrow> (bool \<times> byte list option \<times> WebSocket_Record) run" where
  "ws_handleDataMessage lib same_key masking_key handshakeComplete len space r =
     (if \<not> handshakeComplete
      then run_bind (handleDataMessage same_key len space (HTTP_Record.truncate r)) (\<lambda>(bytes, h).
        Inr (True, map_option (map byte_of_char) bytes,
             HTTP_Record.extend h (WebSocket_Record.fields (ws_final r) (ws_opcode r) (ws_payload r)
               (ws_payloadSize r) (ws_reason r) (ws_status r))))
      else run_bind (ace_assert (len = 0)) (\<lambda>_.
        let key = push_u32 masking_key; buffer = frame_header lib r @ key in
        if space < length buffer then Inr (True, None, r)
        else if ws_payloadSize r = 0 then Inr (True, Some buffer, r)
        else case ws_payload r of
          None \<Rightarrow> Inl Assertion_failed
        | Some data_p \<Rightarrow>
            run_bind (mask_loop key 0 (unat (ws_payloadSize r)) data_p) (\<lambda>payload_buffer.
              Inr (True,
                   if space - length buffer < length payload_buffer then None
                   else Some (buffer @ payload_buffer), r))))"

section \<open>The frame of RFC 6455\<close>

text \<open>
  The reference: base framing of section 5.2 without extensions. A decoder of one frame in front of
  other data; the length has to be encoded in the minimal number of octets.
\<close>

record rfc_frame =
  rfc_fin :: bool
  rfc_opcode :: byte
  rfc_masked :: bool
  rfc_payload :: "byte list"

definition rfc_mask :: "byte list \<Rightarrow> byte list \<Rightarrow> byte list" where
  "rfc_mask key bs = map (\<lambda>(i, b). b XOR key ! (i mod 4)) (enumerate 0 bs)"

definition rfc_length :: "byte \<Rightarrow> byte list \<Rightarrow> (nat \<times> byte list) option" where
  "rfc_length b1 inp =
     (let l = unat (b1 AND 0x7F) in
      if l \<le> 125 then Some (l, inp)
      else if l = 126
      then let n = be_value (take 2 inp) in
           if 2 \<le> length inp \<and> 125 < n then Some (n, drop 2 inp) else None
      else let n = be_value (take 8 inp) in
           if 8 \<le> length inp \<and> 0xFFFF < n \<and> n < 2 ^ 63 then Some (n, drop 8 inp) else None)"

fun rfc_decode :: "byte list \<Rightarrow> (rfc_frame \<times> byte list) option" where
  "rfc_decode (b0 # b1 # inp) =
     (if b0 AND 0x70 \<noteq> 0 then None
      else case rfc_length b1 inp of
        None \<Rightarrow> None
      | Some (n, inp) \<Rightarrow>
          let masked = bit b1 7; key = take 4 inp; inp = (if masked then drop 4 inp else inp) in
          if (masked \<longrightarrow> length key = 4) \<and> n \<le> length inp
          then Some (\<lparr>rfc_fin = bit b0 7, rfc_opcode = b0 AND 0x0F, rfc_masked = masked,
                      rfc_payload = (if masked then rfc_mask key else id) (take n inp)\<rparr>, drop n inp)
          else None)"
| "rfc_decode _ = None"

lemma rfc_mask_involution: "rfc_mask key (rfc_mask key bs) = bs"
  by (rule nth_equalityI) (auto simp: rfc_mask_def nth_enumerate_eq xor.assoc)

lemma length_rfc_mask [simp]: "length (rfc_mask key bs) = length bs"
  by (simp add: rfc_mask_def)


section \<open>Streamed frames decode\<close>

lemma octet_at:
  assumes "m = push_bit k 0xFF"
  shows "(ucast (drop_bit k ((v :: 'a::len word) AND m)) :: byte) = word_of_nat (unat v div 2 ^ k)"
proof -
  have "unat v div 2 ^ k = unat (drop_bit k v)"
    by (simp add: unat_drop_bit_eq) (simp add: drop_bit_eq_div)
  then have "(word_of_nat (unat v div 2 ^ k) :: byte) = ucast (drop_bit k v)"
    by simp
  also have "\<dots> = ucast (drop_bit k (v AND m))"
  proof (rule bit_word_eqI)
    fix n assume "n < LENGTH(8)"
    then have "n = 0 \<or> n = 1 \<or> n = 2 \<or> n = 3 \<or> n = 4 \<or> n = 5 \<or> n = 6 \<or> n = 7"
      by auto
    moreover have "bit v (k + n) \<Longrightarrow> k + n < LENGTH('a)"
      by (rule bit_imp_le_length)
    ultimately show "bit (ucast (drop_bit k v) :: byte) n = bit (ucast (drop_bit k (v AND m)) :: byte) n"
      by (auto simp: assms bit_simps)
  qed
  finally show ?thesis
    by simp
qed

lemma octet_0: "(ucast ((v :: 'a::len word) AND 0xFF) :: byte) = word_of_nat (unat v)"
  using octet_at [of "0xFF" 0 v] by simp

lemma be_octets_numeral:
  "be_octets (numeral k) n = be_octets (pred_numeral k) (n div 256) @ [word_of_nat n]"
  unfolding numeral_eq_Suc [of k] by (rule be_octets.simps)

lemma octet_masks:
  "(0xFF00000000000000 :: u64) = push_bit 56 0xFF" "(0x00FF000000000000 :: u64) = push_bit 48 0xFF"
  "(0x0000FF0000000000 :: u64) = push_bit 40 0xFF" "(0x000000FF00000000 :: u64) = push_bit 32 0xFF"
  "(0x00000000FF000000 :: u64) = push_bit 24 0xFF" "(0x0000000000FF0000 :: u64) = push_bit 16 0xFF"
  "(0x000000000000FF00 :: u64) = push_bit 8 0xFF" "(0xFF00 :: u16) = push_bit 8 0xFF"
  "(0xFF000000 :: u32) = push_bit 24 0xFF" "(0x00FF0000 :: u32) = push_bit 16 0xFF"
  "(0x0000FF00 :: u32) = push_bit 8 0xFF"
  by simp_all

lemma push_u64_octets: "push_u64 v = be_octets 8 (unat v)"
  unfolding push_u64_def octet_masks [THEN octet_at] octet_0
  by (simp add: be_octets_numeral div_mult2_eq [symmetric])

lemma push_u16_octets:
  "[ucast (drop_bit 8 (v AND 0xFF00)), ucast (v AND 0x00FF)] = be_octets 2 (unat (v :: u16))"
  unfolding octet_masks [THEN octet_at] octet_0 by (simp add: be_octets_numeral)

lemma byte_cases: "n < LENGTH(8) \<Longrightarrow> n \<in> {0, 1, 2, 3, 4, 5, 6, 7}"
  by auto

lemma byte_eqI: "(\<And>n. n \<in> {0, 1, 2, 3, 4, 5, 6, 7} \<Longrightarrow> bit a n = bit b n) \<Longrightarrow> a = (b :: byte)"
  by (rule bit_word_eqI) (use byte_cases in blast)

lemma first_octet [simp]:
  fixes op :: byte
  shows "(0x80 OR (op AND 0x0F)) AND 0x70 = 0" "(0x80 OR (op AND 0x0F)) AND 0x0F = op AND 0x0F"
    "bit (0x80 OR (op AND 0x0F)) 7"
  by (auto intro!: byte_eqI simp: bit_simps)

lemma second_octet:
  assumes "(n :: u64) \<le> 125"
  shows "unat ((0x80 OR (ucast (n AND 0x7F) :: byte)) AND 0x7F) = unat n"
    and "bit (0x80 OR (ucast (n AND 0x7F) :: byte)) 7"
proof -
  have n: "unat n \<le> 125"
    using assms by (simp add: word_le_nat_alt)
  have "(0x80 OR (ucast (n AND 0x7F) :: byte)) AND 0x7F = ucast (n AND 0x7F)"
    by (auto intro!: byte_eqI simp: bit_simps)
  moreover have "unat (n AND 0x7F) = unat n"
  proof -
    have "unat (n AND 0x7F) = take_bit 7 (unat n)"
      by (simp add: unsigned_and_eq take_bit_eq_mask mask_eq_exp_minus_1)
    with n show ?thesis
      by (simp add: take_bit_nat_eq_self)
  qed
  ultimately show "unat ((0x80 OR (ucast (n AND 0x7F) :: byte)) AND 0x7F) = unat n"
    using n by (simp add: unsigned_ucast_eq take_bit_nat_eq_self)
  show "bit (0x80 OR (ucast (n AND 0x7F) :: byte)) 7"
    by (simp add: bit_simps)
qed

lemma rfc_length_octets:
  "k = 2 \<and> b1 AND 0x7F = 0x7E \<and> 125 < n \<and> n < 256 ^ 2
   \<or> k = 8 \<and> b1 AND 0x7F = 0x7F \<and> 0xFFFF < n \<and> n < 2 ^ 63
   \<Longrightarrow> rfc_length b1 (be_octets k n @ rest) = Some (n, rest)"
  by (auto simp: rfc_length_def Let_def be_value_octets)

lemma frame_header_length:
  assumes "ws_library_ok lib" "unat (ws_payloadSize r) < 2 ^ 63"
  obtains b1 field where "frame_header lib r = (0x80 OR (ws_opcode r AND 0x0F)) # b1 # field"
    and "bit b1 7" and "\<And>rest. rfc_length b1 (field @ rest) = Some (unat (ws_payloadSize r), rest)"
    and "length field \<le> 8"
proof -
  let ?n = "ws_payloadSize r"
  have max: "Common_max_2 lib = 0xFFFF"
    using assms by (simp add: ws_library_ok_def)
  consider "?n \<le> 125" | "\<not> ?n \<le> 125" "?n \<le> 0xFFFF" | "\<not> ?n \<le> 125" "\<not> ?n \<le> 0xFFFF"
    by blast
  then show thesis
  proof cases
    case 1
    with that [of "0x80 OR ucast (?n AND 0x7F)" "[]"] show thesis
      by (simp add: frame_header_def second_octet rfc_length_def word_le_nat_alt)
  next
    case 2
    then have n: "125 < unat ?n" "unat ?n < 2 ^ 16"
      by (auto simp: word_le_nat_alt)
    then have "unat (ucast ?n :: u16) = unat ?n"
      by (simp add: unsigned_ucast_eq take_bit_nat_eq_self)
    with 2 max push_u16_octets [of "ucast ?n"]
    have "frame_header lib r = (0x80 OR (ws_opcode r AND 0x0F)) # 0xFE # be_octets 2 (unat ?n)"
      by (simp add: frame_header_def Let_def del: be_octets.simps)
    with n that [of "0xFE" "be_octets 2 (unat ?n)"] show thesis
      by (simp add: rfc_length_octets)
  next
    case 3
    with max assms(2) that [of "0xFF" "be_octets 8 (unat ?n)"] show thesis
      by (simp add: frame_header_def push_u64_octets rfc_length_octets word_le_nat_alt)
  qed
qed

lemma mask_loop_enumerate:
  "n \<le> length data \<Longrightarrow>
   mask_loop key i n data = Inr (map (\<lambda>(i, b). b XOR key ! (i mod 4)) (enumerate i (take n data)))"
  by (induction key i n data rule: mask_loop.induct) auto

lemma mask_loop_mask: "mask_loop key 0 (length data) data = Inr (rfc_mask key data)"
  by (simp add: mask_loop_enumerate rfc_mask_def)

lemma length_push_u32 [simp]: "length (push_u32 v) = 4"
  by (simp add: push_u32_def)

text \<open>C14: Whatever the opcode, the masking key and the size of the payload, the streamer turns a
  record into one final, masked frame of RFC 6455: the reference decoder gets opcode and payload
  back and leaves the data behind the frame alone. Fourteen octets of header always suffice.\<close>

theorem streamed_frame_decodes:
  assumes "ws_library_ok lib" "ws_payload r = Some data" "unat (ws_payloadSize r) = length data"
    and "length data < 2 ^ 63" "14 + length data \<le> space"
  shows "\<exists>bytes. ws_handleDataMessage lib same_key key True 0 space r = Inr (True, Some bytes, r)
    \<and> (\<forall>rest. rfc_decode (bytes @ rest) =
         Some (\<lparr>rfc_fin = True, rfc_opcode = ws_opcode r AND 0x0F, rfc_masked = True,
                rfc_payload = data\<rparr>, rest))"
proof -
  obtain b1 field where header: "frame_header lib r = (0x80 OR (ws_opcode r AND 0x0F)) # b1 # field"
    and b1: "bit b1 7" "\<And>rest. rfc_length b1 (field @ rest) = Some (length data, rest)" "length field \<le> 8"
    using frame_header_length [OF assms(1), of r] assms(3,4) by metis
  let ?bytes = "frame_header lib r @ push_u32 key @ rfc_mask (push_u32 key) data"
  have "ws_handleDataMessage lib same_key key True 0 space r = Inr (True, Some ?bytes, r)"
  proof (cases "ws_payloadSize r = 0")
    case True
    with assms(3) have "data = []"
      by simp
    with True assms(5) header b1(3) show ?thesis
      by (simp add: ws_handleDataMessage_def Let_def rfc_mask_def)
  next
    case False
    with assms header b1(3) show ?thesis
      by (simp add: ws_handleDataMessage_def Let_def mask_loop_mask)
  qed
  moreover have "rfc_decode (?bytes @ rest) =
      Some (\<lparr>rfc_fin = True, rfc_opcode = ws_opcode r AND 0x0F, rfc_masked = True,
             rfc_payload = data\<rparr>, rest)" for rest
    by (simp add: header b1 Let_def rfc_mask_involution)
  ultimately show ?thesis
    by blast
qed

fun cut_chain :: "nat \<Rightarrow> byte list list \<Rightarrow> byte list list \<times> byte list list" where
  "cut_chain n [] = ([], [])"
| "cut_chain n (b # bs) =
     (if length b \<le> n then (case cut_chain (n - length b) bs of (m, rest) \<Rightarrow> (b # m, rest))
      else if n = 0 then ([[]], b # bs) else ([take n b], drop n b # bs))"

definition example_library :: ws_library where
  "example_library = \<lparr>lib_little_endian = True, ACE_SWAP_WORD = swap_octets 2,
     ACE_SWAP_LONG_LONG = swap_octets 8, Common_max_2 = 0xFFFF, Stream_get = cut_chain,
     parser_block = True, use_scan_buffer = False\<rparr>"

lemma cut_chain_blocks:
  "cut_chain (length (concat xs)) (xs @ ys) = (m, rest) \<Longrightarrow> blocks m = blocks xs \<and> blocks rest = blocks ys"
proof (induction xs arbitrary: m)
  case Nil
  then show ?case
    by (induction ys arbitrary: m) (auto simp: blocks_def split: prod.splits if_splits)
next
  case (Cons b bs)
  then show ?case
    by (auto simp: blocks_def split: prod.splits if_splits)
qed

lemma example_library_ok: "ws_library_ok example_library"
proof -
  have "swap_octets 2 (native_word True bs :: u16) = native_word True (rev bs)" if "length bs = 2" for bs
    using swap_octets_native [of bs, where 'a = 16] that by simp
  moreover have "swap_octets 8 (native_word True bs :: u64) = native_word True (rev bs)"
    if "length bs = 8" for bs
    using swap_octets_native [of bs, where 'a = 64] that by simp
  ultimately show ?thesis
    by (auto simp: ws_library_ok_def example_library_def dest: cut_chain_blocks)
qed

definition example_record :: WebSocket_Record where
  "example_record = new_WebSocket_Record\<lparr>ws_opcode := OPCODE_TEXT,
     ws_payload := Some [0x48, 0x69], ws_payloadSize := 2\<rparr>"

theorem streamed_frame_decodes_witness:
  "\<exists>bytes. ws_handleDataMessage example_library (=) 0x01020304 True 0 64 example_record
       = Inr (True, Some bytes, example_record)
     \<and> (\<forall>rest. rfc_decode (bytes @ rest) =
         Some (\<lparr>rfc_fin = True, rfc_opcode = 1, rfc_masked = True, rfc_payload = [0x48, 0x69]\<rparr>, rest))"
  using streamed_frame_decodes [where r = example_record and data = "[0x48, 0x69]" and space = 64
      and same_key = "(=)" and key = "0x01020304", OF example_library_ok]
  by (simp add: example_record_def)

section \<open>Reading frames\<close>

datatype ws_start = WS_INITIAL | mask_payload_size_first | payload_size_16 | payload_size_64
  | state_payload | state_data

text \<open>
  The scanner's start condition and the members of the driver and the module it changes.
\<close>

record ws_driver =
  start_condition :: ws_start
  drv_finished :: bool
  drv_offset :: nat
  drv_record :: WebSocket_Record
  dataSize :: u64
  dataBytesToSkip :: u64

definition set_dataSize :: "u64 \<Rightarrow> ws_driver \<Rightarrow> ws_driver" where
  "set_dataSize size_in d = d\<lparr>dataSize := size_in, dataBytesToSkip := size_in\<rparr>"

definition dataBytesSkipped :: "u64 \<Rightarrow> ws_driver \<Rightarrow> ws_driver" where
  "dataBytesSkipped n d = d\<lparr>dataBytesToSkip := dataBytesToSkip d - n\<rparr>"

definition add_offset :: "nat \<Rightarrow> ws_driver \<Rightarrow> ws_driver" where
  "add_offset n d = d\<lparr>drv_offset := drv_offset d + n\<rparr>"

definition set_payloadSize :: "u64 \<Rightarrow> ws_driver \<Rightarrow> ws_driver" where
  "set_payloadSize n d = d\<lparr>drv_record := (drv_record d)\<lparr>ws_payloadSize := n\<rparr>\<rparr>"

text \<open>
  \<open>WS_NEED_DATA\<close>: the thread waits in \<open>waitBuffer\<close>. At the end of a buffer \<open>WebSocket_Scanner_wrap\<close>
  goes on with the next one of the chain. The rule \<open><*>{OCTET}\<close> is reached when an extended length
  does not end in the buffer it begins in; there the model stops with \<open>WS_NEED_DATA\<close>.

  The scanner returns with a token, the driver, the octets behind the last match in its buffer and the
  blocks of the chain behind that buffer.
\<close>

datatype ws_token = FRAME u64 | WS_END | WS_NEED_DATA

text \<open>
  The 64-bit rule matches four octets and reads eight: the zero that flex puts behind the match,
  three octets of the buffer and, at its end, the two zeros of the buffer boundary.
\<close>

definition read_quad_word :: "byte list \<Rightarrow> byte list run" where
  "read_quad_word inp =
     (let memory = (inp @ [0, 0])[4 := 0] in
      if 8 \<le> length memory then Inr (take 8 memory) else Inl Out_of_bounds)"

function (sequential) ws_lex ::
    "ws_library \<Rightarrow> ws_driver \<Rightarrow> ws_start \<Rightarrow> byte list \<Rightarrow> byte list list
     \<Rightarrow> (ws_token \<times> ws_driver \<times> byte list \<times> byte list list) run" where
  "ws_lex lib d st [] frags =
     (if \<not> parser_block lib \<or> drv_finished d then Inr (WS_END, d\<lparr>start_condition := st\<rparr>, [], frags)
      else case frags of
        [] \<Rightarrow> Inr (WS_NEED_DATA, d\<lparr>start_condition := st\<rparr>, [], [])
      | f # frags \<Rightarrow> ws_lex lib d st f frags)"
| "ws_lex lib d WS_INITIAL (b # inp) frags =
     (let d = add_offset 1 d;
          d = d\<lparr>drv_record := (drv_record d)\<lparr>ws_final := (b AND 0x80 \<noteq> 0), ws_opcode := b AND 0x0F\<rparr>\<rparr> in
      ws_lex lib d mask_payload_size_first inp frags)"
| "ws_lex lib d mask_payload_size_first (b # inp) frags =
     (let d = add_offset 1 d in
      run_bind (ace_assert (b AND 0x80 = 0)) (\<lambda>_.
        let n = ucast (b AND 0x7F); d = set_payloadSize n d in
        if n \<le> 125
        then let d = set_dataSize n d in
             if n = 0 then Inr (FRAME 0, d\<lparr>start_condition := WS_INITIAL\<rparr>, inp, frags)
             else ws_lex lib d state_payload inp frags
        else if n = 126 then ws_lex lib d payload_size_16 inp frags
        else ws_lex lib d payload_size_64 inp frags))"
| "ws_lex lib d payload_size_16 inp frags =
     (if 2 \<le> length inp
      then let n = ucast (from_network_16 lib (take 2 inp)) in
           ws_lex lib (set_dataSize n (set_payloadSize n (add_offset 2 d))) state_payload
             (drop 2 inp) frags
      else Inr (if parser_block lib then WS_NEED_DATA else WS_END,
                d\<lparr>start_condition := payload_size_16\<rparr>, tl inp, frags))"
| "ws_lex lib d payload_size_64 inp frags =
     (if 4 \<le> length inp
      then run_bind (read_quad_word inp) (\<lambda>octets.
        let n = from_network_64 lib octets; d = set_payloadSize n (add_offset 4 d) in
        run_bind (ace_assert (n AND 0x8000000000000000 = 0)) (\<lambda>_.
          ws_lex lib (set_dataSize n d) state_payload (drop 4 inp) frags))
      else Inr (if parser_block lib then WS_NEED_DATA else WS_END,
                d\<lparr>start_condition := payload_size_64\<rparr>, tl inp, frags))"
| "ws_lex lib d state_payload (b # inp) frags =
     (if dataBytesToSkip d = 0 then Inr (FRAME 1, d\<lparr>start_condition := WS_INITIAL\<rparr>, inp, frags)
      else ws_lex lib (dataBytesSkipped 1 d) state_data inp frags)"
| "ws_lex lib d state_data (b # inp) frags =
     (let d = dataBytesSkipped 1 d in
      if dataBytesToSkip d = 0
      then Inr (FRAME (dataSize d), d\<lparr>drv_finished := True, start_condition := WS_INITIAL\<rparr>, inp, frags)
      else ws_lex lib d state_data inp frags)"
  by pat_completeness auto
termination
  by (relation "measure (\<lambda>(lib, d, st, inp, frags). length inp + length frags + length (concat frags))")
    auto

text \<open>
  Before an action, flex puts a zero behind the match, which it takes back when it goes on, but not when
  the action returns. The zero is left in the message itself if the scanner works in place
  (\<open>useYYScanBuffer\<close>), else in the scanner's own copy. At the end of a block it falls on the zeros of the
  buffer boundary.
\<close>

definition leave_zero :: "byte list \<Rightarrow> byte list list \<Rightarrow> byte list list \<Rightarrow> byte list list" where
  "leave_zero inp frags chain =
     (let i = length chain - Suc (length frags) in
      chain[i := (chain ! i)[length (chain ! i) - length inp := 0]])"

text \<open>
  \<open>parse\<close>: the members are reset, then the grammar takes one frame and accepts. The chain begins
  with the block handed to \<open>parse\<close>; its contents afterwards are returned. \<open>None\<close>: the thread waits for
  data inside the scanner. Where the scanner gives up it has put the octet behind the match back.
\<close>

definition ws_parse ::
    "ws_library \<Rightarrow> ws_driver \<Rightarrow> byte list list \<Rightarrow> (bool option \<times> ws_driver \<times> byte list list) run" where
  "ws_parse lib d chain =
     run_bind (ace_assert (chain \<noteq> [])) (\<lambda>_.
       let d = d\<lparr>drv_finished := False, drv_offset := 0,
                 drv_record := WebSocket_Record_reset (drv_record d)\<rparr> in
       run_bind (ws_lex lib d (start_condition d) (hd chain) (tl chain)) (\<lambda>(tok, d, inp, frags).
         let memory = (if use_scan_buffer lib then leave_zero inp frags chain else chain) in
         case tok of
           FRAME _ \<Rightarrow> Inr (Some True, d\<lparr>drv_finished := True\<rparr>, memory)
         | WS_END \<Rightarrow> Inr (Some False, d, chain)
         | WS_NEED_DATA \<Rightarrow> Inr (None, d, memory)))"

text \<open>The two loops of \<open>WebSocket_Module_Parser_T::record\<close>.\<close>

fun skip_offset :: "nat \<Rightarrow> byte list list \<Rightarrow> (byte list list \<times> byte list list) run" where
  "skip_offset bytes_to_skip [] = Inl Assertion_failed"
| "skip_offset bytes_to_skip (b # bs) =
     (if bytes_to_skip \<le> length b then Inr ([], drop bytes_to_skip b # bs)
      else run_bind (skip_offset (bytes_to_skip - length b) bs) (\<lambda>(pre, rest). Inr ([] # pre, rest)))"

fun frame_payload :: "nat \<Rightarrow> byte list list \<Rightarrow> byte list list run" where
  "frame_payload bytes_to_skip [] = Inl Assertion_failed"
| "frame_payload bytes_to_skip (b # bs) =
     (if bytes_to_skip \<le> length b
      then Inr (if bytes_to_skip < length b then take bytes_to_skip b # drop bytes_to_skip b # bs
                else b # bs)
      else run_bind (frame_payload (bytes_to_skip - length b) bs) (\<lambda>rest. Inr (b # rest)))"

definition ws_record :: "ws_driver \<Rightarrow> byte list list \<Rightarrow> byte list list run" where
  "ws_record d chain =
     run_bind (ace_assert (chain \<noteq> [])) (\<lambda>_.
     run_bind (skip_offset (drv_offset d) chain) (\<lambda>(pre, chain).
     run_bind (frame_payload (unat (ws_payloadSize (drv_record d))) chain) (\<lambda>chain.
       Inr (pre @ chain))))"

text \<open>
  \<open>dispatch_2\<close> from the label \<open>parse\<close> on. The empty chain is the null pointer; \<open>delivered\<close> collects
  what \<open>put_next\<close> passes on, the record with the bytes of its chain. Without blocking, \<open>switchBuffer\<close>
  gives up when there is no next block; when there is one, it leaves a scanner buffer behind, and the
  assertion in \<open>begin\<close> fails when \<open>parse\<close> is called next.
\<close>

type_synonym ws_deliveries = "(WebSocket_Record \<times> byte list) list"
type_synonym ws_dispatched = "(ws_deliveries \<times> ws_driver \<times> byte list list) run"

definition dispatch_step ::
    "ws_library \<Rightarrow> ws_driver \<Rightarrow> byte list list \<Rightarrow> ws_deliveries
     \<Rightarrow> ws_dispatched + ws_driver \<times> byte list list \<times> ws_deliveries" where
  "dispatch_step lib d chain delivered =
     (case ws_parse lib d chain of
        Inl e \<Rightarrow> Inl (Inl e)
      | Inr (None, d, chain) \<Rightarrow> Inl (Inr (delivered, d, chain))
      | Inr (Some finished, d, chain) \<Rightarrow>
          if \<not> finished
          then Inl (if tl chain = [] then Inr (delivered, d, chain) else Inl Assertion_failed)
          else (case ws_record d chain of
             Inl e \<Rightarrow> Inl (Inl e)
           | Inr chain \<Rightarrow>
               let payload_length = unat (ws_payloadSize (drv_record d)) in
               if length (concat chain) \<le> payload_length
               then Inl (Inr (delivered @ [(drv_record d, concat chain)], d, []))
               else let (m, rest) = Stream_get lib payload_length chain;
                        delivered = delivered @ [(drv_record d, concat m)] in
                    if m = [] then Inl (Inl Assertion_failed)
                    else if rest = [] then Inl (Inr (delivered, d, [])) else Inr (d, rest, delivered)))"

partial_function (option) dispatch_loop ::
    "ws_library \<Rightarrow> ws_driver \<Rightarrow> byte list list \<Rightarrow> ws_deliveries \<Rightarrow> ws_dispatched option" where
  "dispatch_loop lib d chain delivered =
     (case dispatch_step lib d chain delivered of
        Inl result \<Rightarrow> Some result
      | Inr (d, chain, delivered) \<Rightarrow> dispatch_loop lib d chain delivered)"

definition dispatch_2 ::
    "ws_library \<Rightarrow> ws_driver \<Rightarrow> byte list list \<Rightarrow> byte list \<Rightarrow> ws_dispatched option" where
  "dispatch_2 lib d headFragment message_in = dispatch_loop lib d (headFragment @ [message_in]) []"

section \<open>What the scanner makes of a frame\<close>

lemmas driver_defs = set_dataSize_def dataBytesSkipped_def add_offset_def set_payloadSize_def

lemma ws_lex_data:
  "unat (dataBytesToSkip d) = length data \<Longrightarrow> data \<noteq> [] \<Longrightarrow>
   ws_lex lib d state_data (data @ rest) frags =
     Inr (FRAME (dataSize d), d\<lparr>dataBytesToSkip := 0, drv_finished := True, start_condition := WS_INITIAL\<rparr>, rest, frags)"
proof (induction data arbitrary: d)
  case (Cons b data)
  note step = word_countdown [of "dataBytesToSkip d" "length data"]
  show ?case
    using Cons.IH [of "dataBytesSkipped 1 d"] Cons.prems step
    by (cases "data = []") (auto simp: Let_def driver_defs)
qed simp

lemma blocks_simps [simp]:
  "blocks [] = []" "blocks ([] # bs) = blocks bs" "blocks ((x # b) # bs) = (x # b) # blocks bs"
  by (simp_all add: blocks_def)

lemma concat_blocks [simp]: "concat (blocks chain) = concat chain"
  by (induction chain) (auto simp: blocks_def)

lemma blocks_Nil: "blocks chain = [] \<longleftrightarrow> concat chain = []"
  by (auto simp: blocks_def filter_empty_conv)

text \<open>A block among empty ones is found by the scanner.\<close>

lemma single_block:
  assumes "blocks chain = blocks [b]" "b \<noteq> []"
  obtains pre post where "chain = pre @ b # post" "concat pre = []" "concat post = []"
  using assms
proof (induction chain arbitrary: thesis)
  case (Cons c chain)
  show ?case
  proof (cases c)
    case Nil
    with Cons.prems(2) have "blocks chain = blocks [b]"
      by simp
    then obtain pre post where "chain = pre @ b # post" "concat pre = []" "concat post = []"
      using Cons.IH Cons.prems(3) by blast
    with Nil Cons.prems(1) [of "c # pre" post] show ?thesis
      by simp
  next
    case (Cons x c')
    with Cons.prems(2,3) have "c = b" "blocks chain = []"
      by (cases b; simp)+
    with Cons.prems(1) [of "[]" chain] show ?thesis
      by (simp add: blocks_Nil)
  qed
qed (simp add: blocks_def)

lemma ws_lex_skip_empty:
  "parser_block lib \<Longrightarrow> \<not> drv_finished d \<Longrightarrow> concat pre = [] \<Longrightarrow>
   ws_lex lib d st (hd (pre @ b # post)) (tl (pre @ b # post)) = ws_lex lib d st b post"
proof (induction pre)
  case (Cons c pre)
  then have "ws_lex lib d st [] (pre @ b # post) = ws_lex lib d st b post"
    by (cases "pre @ b # post") auto
  with Cons.prems show ?case
    by simp
qed simp

lemma ws_lex_payload:
  assumes "unat (dataBytesToSkip d) = length data" "1 < length data"
  shows "ws_lex lib d state_payload (data @ rest) frags =
    Inr (FRAME (dataSize d), d\<lparr>dataBytesToSkip := 0, drv_finished := True, start_condition := WS_INITIAL\<rparr>, rest, frags)"
proof -
  obtain c data' where data: "data = c # data'" "data' \<noteq> []"
    using assms(2) by (cases data) auto
  moreover note word_countdown [of "dataBytesToSkip d" "length data'"]
  ultimately show ?thesis
    using assms ws_lex_data [of "dataBytesSkipped 1 d" data' lib rest frags]
    by (auto simp: driver_defs)
qed

lemma and_0x80: "(b :: byte) AND 0x80 = 0 \<longleftrightarrow> \<not> bit b 7"
  using and_exp_eq_0_iff_not_bit [of b 7] by simp

lemma from_network_16_be:
  "ws_library_ok lib \<Longrightarrow> length bs = 2 \<Longrightarrow> from_network_16 lib bs = word_of_nat (be_value bs)"
  by (simp add: from_network_16_def ws_library_ok_def native_word_rev Let_def flip: native_word_be)

lemma from_network_64_be:
  "ws_library_ok lib \<Longrightarrow> length bs = 8 \<Longrightarrow> from_network_64 lib bs = word_of_nat (be_value bs)"
  by (simp add: from_network_64_def ws_library_ok_def native_word_rev Let_def flip: native_word_be)

text \<open>The octets of an unmasked frame.\<close>

definition unmasked_octets :: "rfc_frame \<Rightarrow> byte \<Rightarrow> byte \<Rightarrow> byte list \<Rightarrow> bool" where
  "unmasked_octets f b0 b1 field \<longleftrightarrow>
     b0 AND 0x70 = 0 \<and> rfc_fin f = bit b0 7 \<and> rfc_opcode f = b0 AND 0x0F \<and> \<not> bit b1 7
     \<and> (field = [] \<and> unat (b1 AND 0x7F) = length (rfc_payload f) \<and> length (rfc_payload f) \<le> 125
        \<or> length field = 2 \<and> unat (b1 AND 0x7F) = 126 \<and> be_value field = length (rfc_payload f)
          \<and> 125 < length (rfc_payload f)
        \<or> length field = 8 \<and> unat (b1 AND 0x7F) = 127 \<and> be_value field = length (rfc_payload f)
          \<and> 0xFFFF < length (rfc_payload f) \<and> length (rfc_payload f) < 2 ^ 63)"

lemma and_0x7F_less: "unat ((b :: byte) AND 0x7F) < 128"
proof -
  have "unat (b AND 0x7F) = take_bit 7 (unat b)"
    by (simp add: unsigned_and_eq take_bit_eq_mask mask_eq_exp_minus_1)
  then show ?thesis
    using take_bit_nat_less_exp [of 7 "unat b"] by simp
qed

lemma rfc_length_cases:
  "rfc_length b1 inp = Some (n, inp') \<Longrightarrow>
   \<exists>field. inp = field @ inp' \<and>
     (field = [] \<and> unat (b1 AND 0x7F) = n \<and> n \<le> 125
      \<or> length field = 2 \<and> unat (b1 AND 0x7F) = 126 \<and> be_value field = n \<and> 125 < n
      \<or> length field = 8 \<and> unat (b1 AND 0x7F) = 127 \<and> be_value field = n \<and> 0xFFFF < n \<and> n < 2 ^ 63)"
  using and_0x7F_less [of b1]
  by (auto simp: rfc_length_def Let_def split: if_splits
      intro: exI [of _ "take 2 inp"] exI [of _ "take 8 inp"])

lemma rfc_decode_unmasked:
  assumes "rfc_decode inp = Some (f, rest)" "\<not> rfc_masked f"
  obtains b0 b1 field where "inp = b0 # b1 # field @ rfc_payload f @ rest" "unmasked_octets f b0 b1 field"
proof -
  obtain b0 b1 body n body' where inp: "inp = b0 # b1 # body" and b0: "b0 AND 0x70 = 0"
    and len: "rfc_length b1 body = Some (n, body')"
    using assms(1) by (cases inp rule: rfc_decode.cases) (auto split: if_splits option.splits)
  then have f: "\<not> bit b1 7" "n \<le> length body'" "rest = drop n body'" "rfc_payload f = take n body'"
    "rfc_fin f = bit b0 7" "rfc_opcode f = b0 AND 0x0F"
    using assms by (auto simp: Let_def split: if_splits)
  obtain field where "body = field @ body'"
    and "field = [] \<and> unat (b1 AND 0x7F) = n \<and> n \<le> 125
      \<or> length field = 2 \<and> unat (b1 AND 0x7F) = 126 \<and> be_value field = n \<and> 125 < n
      \<or> length field = 8 \<and> unat (b1 AND 0x7F) = 127 \<and> be_value field = n \<and> 0xFFFF < n \<and> n < 2 ^ 63"
    using rfc_length_cases [OF len] by blast
  with f inp b0 that [of b0 b1 field] show thesis
    by (simp add: unmasked_octets_def)
qed

definition delivered_record :: "rfc_frame \<Rightarrow> WebSocket_Record" where
  "delivered_record f = new_WebSocket_Record\<lparr>ws_final := rfc_fin f, ws_opcode := rfc_opcode f,
     ws_payloadSize := word_of_nat (length (rfc_payload f))\<rparr>"

lemma WebSocket_Record_reset_new: "WebSocket_Record_reset r = new_WebSocket_Record"
  by (cases r) (simp add: WebSocket_Record_reset_def new_WebSocket_Record_def HTTP_Record_reset_def
      HTTP_Record.defs WebSocket_Record.defs)

lemma second_octet_size:
  "unat (b1 AND 0x7F :: byte) = n \<Longrightarrow> (ucast (b1 AND 0x7F) :: u64) = word_of_nat n"
  by (metis of_nat_unat)

lemma ws_lex_frame:
  assumes lib: "ws_library_ok lib" and d: "\<not> drv_finished d" "drv_offset d = 0"
    and frame: "unmasked_octets f b0 b1 field" "length (rfc_payload f) \<noteq> 1"
      "length (rfc_payload f) \<le> 0xFFFF"
  shows "\<exists>tok d'. ws_lex lib d WS_INITIAL (b0 # b1 # field @ rfc_payload f @ rest) frags =
      Inr (FRAME tok, d', rest, frags)
    \<and> start_condition d' = WS_INITIAL \<and> drv_offset d' = 2 + length field
    \<and> drv_record d' = (drv_record d)\<lparr>ws_final := rfc_fin f, ws_opcode := rfc_opcode f,
         ws_payloadSize := word_of_nat (length (rfc_payload f))\<rparr>"
proof -
  let ?n = "length (rfc_payload f)"
  have small: "unat (word_of_nat ?n :: u64) = ?n"
    using frame(3) by (simp add: unat_of_nat)
  have octets: "rfc_fin f = bit b0 7" "rfc_opcode f = b0 AND 0x0F" "\<not> bit b1 7"
    using frame(1) by (auto simp: unmasked_octets_def)
  consider "field = []" "unat (b1 AND 0x7F) = ?n" "?n \<le> 125"
    | "length field = 2" "unat (b1 AND 0x7F) = 126" "be_value field = ?n" "125 < ?n"
    using frame by (auto simp: unmasked_octets_def)
  then show ?thesis
  proof cases
    case 1
    note size1 = second_octet_size [OF 1(2)]
    show ?thesis
    proof (cases "?n = 0")
      case True
      with 1 size1 octets d show ?thesis
        by (auto simp: Let_def and_0x80 driver_defs)
    next
      case False
      with frame(2) have "1 < ?n"
        by linarith
      with 1 size1 octets small d lib False show ?thesis
        by (auto simp: Let_def and_0x80 driver_defs word_le_nat_alt ws_lex_payload [where data = "rfc_payload f"])
    qed
  next
    case 2
    have "(ucast (word_of_nat ?n :: u16) :: u64) = word_of_nat ?n"
      using frame(3) by (simp add: unsigned_of_nat take_bit_nat_eq_self)
    moreover obtain x y where "field = [x, y]"
      using 2(1) by (auto simp: length_Suc_conv numeral_eq_Suc)
    ultimately show ?thesis
      using 2 second_octet_size [OF 2(2)] octets small d lib
      by (auto simp: Let_def and_0x80 driver_defs from_network_16_be ws_lex_payload [where data = "rfc_payload f"])
  qed
qed

section \<open>Frames in a buffer\<close>

lemma blocks_single_cases:
  assumes "blocks (c # cs) = blocks [b]"
  obtains "c = []" "blocks cs = blocks [b]" | "c = b" "blocks cs = []"
  using assms by (cases c; cases b) auto

lemma skip_offset_single:
  "chain \<noteq> [] \<Longrightarrow> blocks chain = blocks [b] \<Longrightarrow> n \<le> length b \<Longrightarrow>
   \<exists>pre rest. skip_offset n chain = Inr (pre, rest) \<and> concat pre = [] \<and> rest \<noteq> []
     \<and> blocks rest = blocks [drop n b]"
proof (induction n chain rule: skip_offset.induct)
  case (2 n c cs)
  from "2.prems"(2) show ?case
  proof (cases rule: blocks_single_cases)
    case 1
    show ?thesis
    proof (cases "n = 0")
      case True
      with 1 show ?thesis
        by auto
    next
      case False
      with "2.prems"(3) have "b \<noteq> []"
        by auto
      with 1 have "cs \<noteq> []"
        by (cases b) auto
      with "2.IH" 1 False "2.prems"(3) show ?thesis
        by fastforce
    qed
  next
    case 2
    then have "blocks (drop n b # cs) = blocks [drop n b]"
      by (cases "drop n b") auto
    with 2 "2.prems"(3) show ?thesis
      by auto
  qed
qed simp

lemma frame_payload_single:
  "chain \<noteq> [] \<Longrightarrow> blocks chain = blocks [b] \<Longrightarrow> n \<le> length b \<Longrightarrow>
   \<exists>xs ys. frame_payload n chain = Inr (xs @ ys) \<and> concat xs = take n b
     \<and> blocks ys = blocks [drop n b]"
proof (induction n chain rule: frame_payload.induct)
  case (2 n c cs)
  from "2.prems"(2) show ?case
  proof (cases rule: blocks_single_cases)
    case 1
    show ?thesis
    proof (cases "n = 0")
      case True
      with 1 show ?thesis
        by (auto intro: exI [of _ "[]"])
    next
      case False
      with "2.prems"(3) have "b \<noteq> []"
        by auto
      with 1 have "cs \<noteq> []"
        by (cases b) auto
      with "2.IH" 1 False "2.prems"(3) obtain xs ys
        where "frame_payload n cs = Inr (xs @ ys)" "concat xs = take n b" "blocks ys = blocks [drop n b]"
        by auto
      with 1 False show ?thesis
        by - (rule exI [of _ "[] # xs"], rule exI [of _ ys], simp)
    qed
  next
    case 2
    then have "blocks (drop n b # cs) = blocks [drop n b]"
      by (cases "drop n b") auto
    with 2 "2.prems"(3) show ?thesis
      by - (rule exI [of _ "[take n b]"],
          rule exI [of _ "if n < length b then drop n b # cs else cs"], auto)
  qed
qed simp

lemma ws_record_single:
  assumes "chain \<noteq> []" "blocks chain = blocks [h @ p @ rest]" "drv_offset d = length h"
    "unat (ws_payloadSize (drv_record d)) = length p"
  obtains xs ys where "ws_record d chain = Inr (xs @ ys)" "concat xs = p" "blocks ys = blocks [rest]"
proof -
  obtain pre chain' where "skip_offset (length h) chain = Inr (pre, chain')" "concat pre = []"
    and chain': "chain' \<noteq> []" "blocks chain' = blocks [p @ rest]"
    using skip_offset_single [OF assms(1,2), of "length h"] by auto
  moreover obtain xs ys where "frame_payload (length p) chain' = Inr (xs @ ys)" "concat xs = p"
    "blocks ys = blocks [rest]"
    using frame_payload_single [OF chain', of "length p"] by auto
  ultimately show thesis
    using that [of "pre @ xs" ys] assms by (simp add: ws_record_def)
qed

lemma ws_library_get:
  assumes "ws_library_ok lib" "concat ys \<noteq> []" "Stream_get lib (length (concat xs)) (xs @ ys) = (m, rest)"
  shows "blocks m = blocks xs \<and> blocks rest = blocks ys"
proof -
  have "concat ys \<noteq> [] \<longrightarrow> (case Stream_get lib (length (concat xs)) (xs @ ys) of
      (m, rest) \<Rightarrow> blocks m = blocks xs \<and> blocks rest = blocks ys)"
    using assms(1) unfolding ws_library_ok_def by (elim conjE) (erule allE [of _ xs], erule allE [of _ ys])
  with assms(2,3) show ?thesis
    by simp
qed

definition readable :: "rfc_frame \<Rightarrow> bool" where
  "readable f \<longleftrightarrow> \<not> rfc_masked f \<and> length (rfc_payload f) \<noteq> 1 \<and> length (rfc_payload f) \<le> 0xFFFF"

lemma leave_zero_behind: "leave_zero rest post (pre @ (used @ rest) # post) = pre @ (used @ rest[0 := 0]) # post"
  by (simp add: leave_zero_def list_update_append)

text \<open>What the scanner leaves of the octets behind a frame.\<close>

definition left_behind :: "ws_library \<Rightarrow> byte list \<Rightarrow> byte list" where
  "left_behind lib rest = (if use_scan_buffer lib then rest[0 := 0] else rest)"

lemma list_update_behind [simp]: "xs[length xs := x] = xs"
  by (simp add: list_update_beyond)

lemma left_behind_simps [simp]:
  "length (left_behind lib rest) = length rest" "left_behind lib rest = [] \<longleftrightarrow> rest = []"
  by (simp_all add: left_behind_def)

lemma ws_parse_frame:
  assumes "ws_library_ok lib" "parser_block lib" "start_condition d = WS_INITIAL"
    and "blocks chain = blocks [b0 # b1 # field @ rfc_payload f @ rest]"
    and "unmasked_octets f b0 b1 field" "readable f"
  obtains d' chain' where "ws_parse lib d chain = Inr (Some True, d', chain')" "start_condition d' = WS_INITIAL"
    "drv_offset d' = 2 + length field" "drv_record d' = delivered_record f"
    "blocks chain' = blocks [b0 # b1 # field @ rfc_payload f @ left_behind lib rest]"
proof -
  let ?used = "b0 # b1 # field @ rfc_payload f"
  let ?d = "d\<lparr>drv_finished := False, drv_offset := 0, drv_record := new_WebSocket_Record\<rparr>"
  obtain pre post where chain: "chain = pre @ (?used @ rest) # post" "concat pre = []" "concat post = []"
    using single_block [of chain "?used @ rest"] assms(4) by (metis append_Cons append_assoc list.distinct(1))
  obtain tok d' where frame: "ws_lex lib ?d WS_INITIAL (?used @ rest) post = Inr (FRAME tok, d', rest, post)"
    "start_condition d' = WS_INITIAL" "drv_offset d' = 2 + length field"
    "drv_record d' = delivered_record f"
    using ws_lex_frame [OF assms(1), of ?d f b0 b1 field rest post] assms(5,6)
    by (auto simp: readable_def delivered_record_def)
  have "ws_lex lib ?d WS_INITIAL (hd chain) (tl chain) = ws_lex lib ?d WS_INITIAL (?used @ rest) post"
    unfolding chain(1) by (rule ws_lex_skip_empty [OF assms(2) _ chain(2)]) simp
  then have lex: "ws_lex lib ?d WS_INITIAL (hd chain) (tl chain) = Inr (FRAME tok, d', rest, post)"
    using frame(1) by (rule trans)
  define chain' where "chain' = pre @ (?used @ left_behind lib rest) # post"
  have "(if use_scan_buffer lib then leave_zero rest post chain else chain) = chain'"
    using leave_zero_behind [of rest post pre ?used] by (simp only: chain(1) chain'_def left_behind_def split: if_split) simp
  moreover have "chain \<noteq> []"
    by (simp add: chain(1))
  ultimately have "ws_parse lib d chain = Inr (Some True, d'\<lparr>drv_finished := True\<rparr>, chain')"
    using lex assms(3) by (simp add: ws_parse_def WebSocket_Record_reset_new del: ws_lex.simps)
  moreover have "blocks pre = []" "blocks post = []"
    using chain(2,3) by (simp_all only: blocks_Nil)
  then have "blocks chain' = blocks [?used @ left_behind lib rest]"
    by (simp add: chain'_def blocks_def)
  ultimately show thesis
    using that [of "d'\<lparr>drv_finished := True\<rparr>" chain'] frame(2-4) by simp
qed

text \<open>\<open>Stream_Tools::get\<close> returns a message even if nothing is asked for.\<close>

definition gets_a_message :: "ws_library \<Rightarrow> bool" where
  "gets_a_message lib \<longleftrightarrow> (\<forall>n chain. concat chain \<noteq> [] \<longrightarrow> fst (Stream_get lib n chain) \<noteq> [])"

lemma dispatch_step_frame:
  assumes "ws_library_ok lib" "gets_a_message lib" "parser_block lib" "start_condition d = WS_INITIAL"
    and "blocks chain = blocks [inp]" "rfc_decode inp = Some (f, rest)" "readable f"
  obtains d' chain' where "start_condition d' = WS_INITIAL" "blocks chain' = blocks [left_behind lib rest]"
    "dispatch_step lib d chain acc =
       (if rest = [] then Inl (Inr (acc @ [(delivered_record f, rfc_payload f)], d', []))
        else Inr (d', chain', acc @ [(delivered_record f, rfc_payload f)]))"
proof -
  let ?rest = "left_behind lib rest"
  obtain b0 b1 field where inp: "inp = (b0 # b1 # field) @ rfc_payload f @ rest"
    and octets: "unmasked_octets f b0 b1 field"
    using rfc_decode_unmasked [OF assms(6)] assms(7) by (auto simp: readable_def)
  obtain d' memory where d': "ws_parse lib d chain = Inr (Some True, d', memory)" "start_condition d' = WS_INITIAL"
    "drv_offset d' = 2 + length field" "drv_record d' = delivered_record f"
    and memory: "blocks memory = blocks [(b0 # b1 # field) @ rfc_payload f @ ?rest]"
    using ws_parse_frame [OF assms(1,3,4) _ octets assms(7), of chain rest] assms(5) inp by auto
  have size: "unat (ws_payloadSize (drv_record d')) = length (rfc_payload f)"
    using assms(7) d'(4) by (simp add: delivered_record_def readable_def unat_of_nat)
  have "memory \<noteq> []"
    using memory by auto
  then obtain xs ys where chain: "ws_record d' memory = Inr (xs @ ys)" "concat xs = rfc_payload f"
    and ys: "blocks ys = blocks [?rest]"
    using ws_record_single [OF _ memory, of d'] d'(3) size by auto
  have concat_ys: "concat ys = ?rest"
    using ys concat_blocks [of ys] concat_blocks [of "[?rest]"] by simp
  show thesis
  proof (cases "rest = []")
    case True
    with that [of d' ys] d' chain ys size concat_ys show thesis
      by (simp add: dispatch_step_def)
  next
    case False
    obtain m chain' where get: "Stream_get lib (length (concat xs)) (xs @ ys) = (m, chain')"
      by fastforce
    with assms(1) False concat_ys have m: "blocks m = blocks xs" "blocks chain' = blocks [?rest]"
      using ws_library_get [of lib ys xs m chain'] ys by simp_all
    have "m \<noteq> []"
      using assms(2) get concat_ys False unfolding gets_a_message_def
      by (metis append_is_Nil_conv concat_append fst_conv left_behind_simps(2))
    moreover have "concat m = rfc_payload f" "chain' \<noteq> []"
      using m concat_blocks [of m] concat_blocks [of xs] chain(2) False by (auto simp: blocks_def)
    ultimately show thesis
      using that [of d' chain'] m d' chain size concat_ys get False by (simp add: dispatch_step_def Let_def)
  qed
qed

lemma rfc_decode_shrinks: "rfc_decode inp = Some (f, rest) \<Longrightarrow> length rest < length inp"
proof (induction inp rule: rfc_decode.induct)
  case (1 b0 b1 inp)
  have "rfc_length b1 inp = Some (n, inp') \<Longrightarrow> length inp' \<le> length inp" for n inp'
    by (auto dest!: rfc_length_cases)
  with 1 show ?case
    by (fastforce simp: Let_def split: if_splits option.splits)
qed auto

text \<open>A buffer as a sequence of frames.\<close>

function rfc_frames :: "byte list \<Rightarrow> rfc_frame list option" where
  "rfc_frames inp =
     (if inp = [] then Some []
      else case rfc_decode inp of
        None \<Rightarrow> None
      | Some (f, rest) \<Rightarrow> map_option ((#) f) (rfc_frames rest))"
  by pat_completeness auto
termination
  by (relation "measure length") (auto dest: rfc_decode_shrinks)

declare rfc_frames.simps [simp del]

text \<open>
  What is made of the frames of a buffer: scanned in place (\<open>True\<close>), every frame but the first has lost
  its first octet, and with it the final bit and the operation code.
\<close>

definition first_octet_lost :: "rfc_frame \<Rightarrow> rfc_frame" where
  "first_octet_lost f = f\<lparr>rfc_fin := False, rfc_opcode := 0\<rparr>"

fun as_read :: "bool \<Rightarrow> rfc_frame list \<Rightarrow> rfc_frame list" where
  "as_read False fs = fs"
| "as_read True [] = []"
| "as_read True (f # fs) = f # map first_octet_lost fs"

lemma first_octet_lost_simps [simp]:
  "rfc_payload (first_octet_lost f) = rfc_payload f" "rfc_masked (first_octet_lost f) = rfc_masked f"
  "readable (first_octet_lost f) = readable f"
  by (simp_all add: first_octet_lost_def readable_def)

lemma rfc_decode_first_lost:
  assumes "rfc_decode inp = Some (f, rest)"
  shows "rfc_decode (inp[0 := 0]) = Some (first_octet_lost f, rest)"
proof -
  obtain b0 b1 body where "inp = b0 # b1 # body"
    using assms by (cases inp rule: rfc_decode.cases) auto
  with assms show ?thesis
    by (auto simp: Let_def first_octet_lost_def split: if_splits option.splits)
qed

lemma rfc_frames_first_lost:
  assumes "rfc_frames inp = Some (f # fs)"
  shows "rfc_frames (inp[0 := 0]) = Some (first_octet_lost f # fs)"
proof -
  obtain rest where "inp \<noteq> []" "rfc_decode inp = Some (f, rest)" "rfc_frames rest = Some fs"
    using assms by (subst (asm) rfc_frames.simps) (auto split: if_splits option.splits)
  with rfc_decode_first_lost [of inp f rest] show ?thesis
    by (subst rfc_frames.simps) simp
qed

lemma rfc_frames_left_behind:
  assumes "rfc_frames rest = Some fs"
  obtains gs where "rfc_frames (left_behind lib rest) = Some gs"
    "\<And>f. as_read (use_scan_buffer lib) (f # fs) = f # as_read (use_scan_buffer lib) gs"
    "(\<forall>f \<in> set fs. readable f) \<Longrightarrow> (\<forall>f \<in> set gs. readable f)"
proof (cases "use_scan_buffer lib \<and> fs \<noteq> []")
  case True
  then obtain g fs' where "fs = g # fs'"
    by (cases fs) auto
  with that [of "first_octet_lost g # fs'"] True rfc_frames_first_lost [of rest g fs'] assms show ?thesis
    by (simp add: left_behind_def)
next
  case False
  have "rest[0 := 0] = rest" if "fs = []"
    using assms that by (subst (asm) rfc_frames.simps) (auto split: if_splits option.splits)
  with False assms that [of fs] show ?thesis
    by (cases "use_scan_buffer lib") (auto simp: left_behind_def)
qed

lemma dispatch_loop_frames:
  assumes "ws_library_ok lib" "gets_a_message lib" "parser_block lib"
  shows "inp \<noteq> [] \<Longrightarrow> rfc_frames inp = Some fs \<Longrightarrow> (\<forall>f \<in> set fs. readable f) \<Longrightarrow>
    start_condition d = WS_INITIAL \<Longrightarrow> blocks chain = blocks [inp] \<Longrightarrow>
    \<exists>d'. dispatch_loop lib d chain acc =
        Some (Inr (acc @ map (\<lambda>f. (delivered_record f, rfc_payload f)) (as_read (use_scan_buffer lib) fs), d', []))
      \<and> start_condition d' = WS_INITIAL"
proof (induction inp arbitrary: fs d chain acc rule: length_induct)
  case (1 inp)
  from "1.prems"(1,2) obtain f rest fs'
    where f: "rfc_decode inp = Some (f, rest)" "rfc_frames rest = Some fs'" "fs = f # fs'"
    by (subst (asm) rfc_frames.simps) (auto split: option.splits)
  obtain gs where gs: "rfc_frames (left_behind lib rest) = Some gs"
    "as_read (use_scan_buffer lib) fs = f # as_read (use_scan_buffer lib) gs" "\<forall>f \<in> set gs. readable f"
    using rfc_frames_left_behind [OF f(2), of lib] "1.prems"(3) f(3) by (metis list.set_intros(2))
  obtain d' chain' where step: "start_condition d' = WS_INITIAL" "blocks chain' = blocks [left_behind lib rest]"
    "dispatch_step lib d chain acc =
       (if rest = [] then Inl (Inr (acc @ [(delivered_record f, rfc_payload f)], d', []))
        else Inr (d', chain', acc @ [(delivered_record f, rfc_payload f)]))"
    using dispatch_step_frame [OF assms "1.prems"(4,5) f(1), of acc] "1.prems"(3) f(3) by auto
  show ?case
  proof (cases "rest = []")
    case True
    then have "left_behind lib rest = []"
      by simp
    with gs(1) have "gs = []"
      by (simp add: rfc_frames.simps)
    with True step(1,3) gs(2) show ?thesis
      by (cases "use_scan_buffer lib") (simp_all add: dispatch_loop.simps [of lib d])
  next
    case False
    have "length (left_behind lib rest) < length inp"
      using rfc_decode_shrinks [OF f(1)] by simp
    from "1.IH" [rule_format, OF this _ gs(1) _ step(1,2), of "acc @ [(delivered_record f, rfc_payload f)]"]
    show ?thesis
      using False gs(2,3) step(3) by (simp add: dispatch_loop.simps [of lib d])
  qed
qed

text \<open>C10: A received buffer that is a sequence of unmasked frames of RFC 6455, each without payload
  or with 2 to 65535 bytes of it, is taken apart by the parser module: every frame is passed on, in
  order, with its own record and payload, nothing remains, and the scanner is ready for the next frame.
  When the scanner works on a copy of the buffer, the frames are exactly those of the reference decoder.
  When it works in place (\<open>useYYScanBuffer\<close>), payloads and boundaries are still right, but the zero that flex
  leaves behind a frame is read as the first octet of the next: every frame but the first is passed on
  as a continuation that is not final. The parser blocks for more data (\<open>block\<close>), the buffer has room for
  the two zeros of flex, and \<open>Stream_Tools::get\<close> is relied on to return a message for each frame that is not
  the last, empty ones included.\<close>

theorem dispatch_delivers_frames:
  assumes "ws_library_ok lib" "gets_a_message lib" "parser_block lib" "start_condition d = WS_INITIAL"
    and "inp \<noteq> []" "rfc_frames inp = Some fs" "\<forall>f \<in> set fs. readable f"
  shows "\<exists>d'. dispatch_2 lib d [] inp =
      Some (Inr (map (\<lambda>f. (delivered_record f, rfc_payload f)) (as_read (use_scan_buffer lib) fs), d', []))
    \<and> start_condition d' = WS_INITIAL"
  using dispatch_loop_frames [OF assms(1-3,5-7,4), of "[inp]" "[]"] by (simp add: dispatch_2_def)

definition example_driver :: ws_driver where
  "example_driver = \<lparr>start_condition = WS_INITIAL, drv_finished = False, drv_offset = 0,
     drv_record = new_WebSocket_Record, dataSize = 0, dataBytesToSkip = 0\<rparr>"

lemma example_frames:
  "rfc_frames [0x81, 2, 0x48, 0x69, 0x8A, 0] =
     Some [\<lparr>rfc_fin = True, rfc_opcode = 1, rfc_masked = False, rfc_payload = [0x48, 0x69]\<rparr>,
           \<lparr>rfc_fin = True, rfc_opcode = 10, rfc_masked = False, rfc_payload = []\<rparr>]"
  by (simp add: rfc_frames.simps rfc_length_def Let_def)

text \<open>The same buffer scanned in a copy and in place.\<close>

lemma example_library_gets: "gets_a_message (example_library\<lparr>use_scan_buffer := b\<rparr>)"
proof -
  have "concat chain \<noteq> [] \<Longrightarrow> fst (cut_chain n chain) \<noteq> []" for n chain
    by (cases chain) (auto split: prod.splits)
  then show ?thesis
    by (simp add: gets_a_message_def example_library_def)
qed

lemma scan_buffer_library_ok: "ws_library_ok (example_library\<lparr>use_scan_buffer := b\<rparr>)"
  using example_library_ok by (simp add: ws_library_ok_def)

theorem dispatch_delivers_frames_witness:
  "(\<exists>d'. dispatch_2 (example_library\<lparr>use_scan_buffer := False\<rparr>) example_driver [] [0x81, 2, 0x48, 0x69, 0x8A, 0] =
     Some (Inr ([(new_WebSocket_Record\<lparr>ws_final := True, ws_opcode := 1, ws_payloadSize := 2\<rparr>, [0x48, 0x69]),
                 (new_WebSocket_Record\<lparr>ws_final := True, ws_opcode := 10, ws_payloadSize := 0\<rparr>, [])], d', [])))
   \<and> (\<exists>d'. dispatch_2 (example_library\<lparr>use_scan_buffer := True\<rparr>) example_driver [] [0x81, 2, 0x48, 0x69, 0x8A, 0] =
     Some (Inr ([(new_WebSocket_Record\<lparr>ws_final := True, ws_opcode := 1, ws_payloadSize := 2\<rparr>, [0x48, 0x69]),
                 (new_WebSocket_Record\<lparr>ws_final := False, ws_opcode := 0, ws_payloadSize := 0\<rparr>, [])], d', [])))"
proof -
  have "\<exists>d'. dispatch_2 (example_library\<lparr>use_scan_buffer := b\<rparr>) example_driver [] [0x81, 2, 0x48, 0x69, 0x8A, 0] =
     Some (Inr ([(new_WebSocket_Record\<lparr>ws_final := True, ws_opcode := 1, ws_payloadSize := 2\<rparr>, [0x48, 0x69]),
                 (new_WebSocket_Record\<lparr>ws_final := \<not> b, ws_opcode := if b then 0 else 10, ws_payloadSize := 0\<rparr>, [])],
                d', []))" for b
    using dispatch_delivers_frames [OF scan_buffer_library_ok example_library_gets _ _ _ example_frames,
        of b example_driver]
    by (cases b) (auto simp: example_library_def example_driver_def readable_def delivered_record_def first_octet_lost_def)
  from this [of False] this [of True] show ?thesis
    by simp
qed

section \<open>Frames the scanner misreads\<close>

lemma ws_lex_data_short:
  "parser_block lib \<Longrightarrow> \<not> drv_finished d \<Longrightarrow> length inp \<le> unat (dataBytesToSkip d - 1) \<Longrightarrow>
   ws_lex lib d state_data inp [] =
     Inr (WS_NEED_DATA, d\<lparr>dataBytesToSkip := dataBytesToSkip d - word_of_nat (length inp),
                           start_condition := state_data\<rparr>, [], [])"
proof (induction inp arbitrary: d)
  case (Cons b inp)
  then obtain n where "unat (dataBytesToSkip d - 1) = Suc n"
    by (cases "unat (dataBytesToSkip d - 1)") auto
  with Cons.IH [of "dataBytesSkipped 1 d"] Cons.prems word_countdown [of "dataBytesToSkip d - 1" n]
  show ?case
    by (auto simp: Let_def driver_defs algebra_simps)
qed simp

text \<open>C38: A frame with a payload of one byte never ends: the scanner has skipped the payload when it
  enters the state \<open>data\<close>, where the counter of missing bytes wraps around at the next byte.
  Whatever follows the frame is swallowed and nothing is passed on.\<close>

theorem one_byte_frame_never_ends:
  assumes "ws_library_ok lib" "parser_block lib" "start_condition d = WS_INITIAL"
    and "rfc_decode inp = Some (f, rest)" "\<not> rfc_masked f" "length (rfc_payload f) = 1"
    and "length rest < 2 ^ 64"
  shows "\<exists>d'. dispatch_2 lib d [] inp = Some (Inr ([], d', [inp])) \<and> start_condition d' = state_data"
proof -
  let ?d = "d\<lparr>drv_finished := False, drv_offset := 0, drv_record := new_WebSocket_Record\<rparr>"
  obtain b0 b1 c where inp: "inp = b0 # b1 # c # rest" and b1: "unat (b1 AND 0x7F) = 1" "\<not> bit b1 7"
    by (rule rfc_decode_unmasked [OF assms(4,5)])
      (use assms(6) in \<open>auto simp: unmasked_octets_def length_Suc_conv\<close>)
  have "length rest \<le> unat (- 1 :: u64)"
    using assms(7) by (simp add: unsigned_minus_1_eq_mask mask_eq_exp_minus_1)
  then have "\<exists>d'. ws_lex lib ?d WS_INITIAL inp [] = Inr (WS_NEED_DATA, d', [], []) \<and> start_condition d' = state_data"
    using second_octet_size [OF b1(1)] b1(2) assms(2)
    by (simp add: inp Let_def and_0x80 driver_defs ws_lex_data_short)
  then show ?thesis
    using assms(3) inp
    by (auto simp: dispatch_2_def dispatch_loop.simps dispatch_step_def ws_parse_def leave_zero_def
        WebSocket_Record_reset_new)
qed

theorem one_byte_frame_never_ends_witness:
  "\<exists>d'. dispatch_2 example_library example_driver [] [0x81, 1, 0x48, 0x8A, 0]
     = Some (Inr ([], d', [[0x81, 1, 0x48, 0x8A, 0]])) \<and> start_condition d' = state_data"
  using one_byte_frame_never_ends [OF example_library_ok, of example_driver "[0x81, 1, 0x48, 0x8A, 0]"]
  by (simp add: example_library_def example_driver_def rfc_length_def Let_def)

lemma be_octets_leading:
  "n < 256 ^ 3 \<Longrightarrow> be_octets 8 n = [0, 0, 0, 0] @ [0] @ be_octets 3 n"
  by (simp add: be_octets_numeral div_mult2_eq [symmetric])

lemma take_drop_append: "take n xs @ drop n xs @ ys = xs @ ys"
  by (metis append_assoc append_take_drop_id)

lemma ws_lex_long_frame:
  assumes "ws_library_ok lib" "drv_offset d = 0"
    and "unmasked_octets f b0 b1 field" "0xFFFF < length (rfc_payload f)" "length (rfc_payload f) < 2 ^ 24"
  shows "\<exists>tok d' left. ws_lex lib d WS_INITIAL (b0 # b1 # field @ rfc_payload f @ rest) [] = Inr (FRAME tok, d', left, [])
    \<and> drv_offset d' = 6
    \<and> drv_record d' = (drv_record d)\<lparr>ws_final := rfc_fin f, ws_opcode := rfc_opcode f,
         ws_payloadSize := word_of_nat (length (rfc_payload f))\<rparr>"
proof -
  let ?n = "length (rfc_payload f)"
  have octets: "rfc_fin f = bit b0 7" "rfc_opcode f = b0 AND 0x0F" "\<not> bit b1 7"
    "unat (b1 AND 0x7F) = 127" "length field = 8" "be_value field = ?n"
    using assms(3,4) be_value_less [of field] by (auto simp: unmasked_octets_def)
  have field: "field = [0, 0, 0, 0] @ [0] @ be_octets 3 ?n" "be_value ([0, 0, 0, 0] @ [0] @ be_octets 3 ?n) = ?n"
    using octets(5,6) be_octets_value [of field] be_octets_leading [of ?n] assms(5) by auto
  let ?data = "take ?n ([0] @ be_octets 3 ?n @ rfc_payload f @ rest)"
  let ?rest = "drop ?n ([0] @ be_octets 3 ?n @ rfc_payload f @ rest)"
  have small: "unat (word_of_nat ?n :: u64) = length ?data" "1 < length ?data"
    using assms(4,5) by (simp_all add: unat_of_nat)
  have "\<not> bit (unat (word_of_nat ?n :: u64)) 63"
    using assms(5) by (simp add: unat_of_nat bit_iff_odd)
  then have msb: "(word_of_nat ?n :: u64) AND 0x8000000000000000 = 0"
    using and_exp_eq_0_iff_not_bit [of "word_of_nat ?n :: u64" 63] by (simp add: bit_unsigned_iff)
  define d' where "d' = d\<lparr>drv_offset := 6, drv_record := (drv_record d)\<lparr>ws_final := rfc_fin f,
    ws_opcode := rfc_opcode f, ws_payloadSize := word_of_nat ?n\<rparr>, dataSize := word_of_nat ?n,
    dataBytesToSkip := word_of_nat ?n\<rparr>"
  have "ws_lex lib d WS_INITIAL (b0 # b1 # field @ rfc_payload f @ rest) [] =
      ws_lex lib d' state_payload (?data @ ?rest) []"
    using octets second_octet_size [OF octets(4)] assms(1,2) msb field(2)
    by (simp add: Let_def and_0x80 driver_defs from_network_64_be field(1) read_quad_word_def d'_def
        del: ws_lex.simps(6))
  moreover have "ws_lex lib d' state_payload (?data @ ?rest) [] =
      Inr (FRAME (dataSize d'), d'\<lparr>dataBytesToSkip := 0, drv_finished := True, start_condition := WS_INITIAL\<rparr>, ?rest, [])"
    by (rule ws_lex_payload) (use small in \<open>simp_all add: d'_def\<close>)
  ultimately show ?thesis
    by (simp add: d'_def)
qed

text \<open>A frame whose length needs the 64-bit field is cut in the wrong place: the rule takes four
  of the eight octets of the field. The payload passed on begins with the other four and lacks the
  last four bytes, which are read as the header of the next frame.\<close>

lemma long_frame_misframed:
  assumes "ws_library_ok lib" "\<not> use_scan_buffer lib" "start_condition d = WS_INITIAL"
    and "rfc_decode inp = Some (f, rest)" "\<not> rfc_masked f"
    and "0xFFFF < length (rfc_payload f)" "length (rfc_payload f) < 2 ^ 24"
  shows "\<exists>d' chain. dispatch_step lib d [inp] [] =
      Inr (d', chain, [(delivered_record f, drop 4 (be_octets 8 (length (rfc_payload f)))
             @ take (length (rfc_payload f) - 4) (rfc_payload f))])
    \<and> concat chain = drop (length (rfc_payload f) - 4) (rfc_payload f) @ rest"
proof -
  let ?n = "length (rfc_payload f)"
  let ?d = "d\<lparr>drv_finished := False, drv_offset := 0, drv_record := new_WebSocket_Record\<rparr>"
  obtain b0 b1 field where inp: "inp = b0 # b1 # field @ rfc_payload f @ rest"
    and octets: "unmasked_octets f b0 b1 field"
    using rfc_decode_unmasked [OF assms(4,5)] by metis
  have field: "field = be_octets 8 ?n"
    using octets assms(6) be_octets_value [of field] be_value_less [of field]
    by (auto simp: unmasked_octets_def)
  obtain d' where d': "ws_parse lib d [inp] = Inr (Some True, d', [inp])" "drv_offset d' = 6"
    "drv_record d' = delivered_record f"
    using ws_lex_long_frame [OF assms(1) _ octets assms(6,7), of ?d rest] inp assms(2,3)
    by (auto simp: ws_parse_def WebSocket_Record_reset_new delivered_record_def)
  have size: "unat (ws_payloadSize (drv_record d')) = ?n"
    using assms(7) d'(3) by (simp add: delivered_record_def unat_of_nat)
  let ?p = "drop 4 field @ take (?n - 4) (rfc_payload f)"
  let ?rest = "drop (?n - 4) (rfc_payload f) @ rest"
  have split: "inp = (b0 # b1 # take 4 field) @ ?p @ ?rest" "length ?p = ?n" "?rest \<noteq> []"
    using assms(6) by (auto simp: inp field take_drop_append)
  obtain xs ys where chain: "ws_record d' [inp] = Inr (xs @ ys)" "concat xs = ?p"
    and ys: "blocks ys = blocks [?rest]"
    using ws_record_single [of "[inp]" "b0 # b1 # take 4 field" ?p ?rest d'] split size d'(2)
    by (auto simp: field)
  have concat_ys: "concat ys = ?rest"
    using ys concat_blocks [of ys] concat_blocks [of "[?rest]"] by simp
  obtain m chain' where get: "Stream_get lib (length (concat xs)) (xs @ ys) = (m, chain')"
    by fastforce
  have m: "blocks m = blocks xs" "blocks chain' = blocks ys"
    using ws_library_get [OF assms(1) _ get] split(3) concat_ys by auto
  have get_m: "concat m = ?p" "concat chain' = ?rest"
    using m concat_blocks [of m] concat_blocks [of xs] concat_blocks [of chain'] concat_blocks [of ys]
      chain(2) concat_ys by simp_all
  moreover have "chain' \<noteq> []" "m \<noteq> []"
    using get_m split(2,3) assms(6) by auto
  moreover have "length (concat (xs @ ys)) = ?n + length ?rest"
    using chain(2) concat_ys split(2) by simp
  ultimately show ?thesis
    using d' chain size get split by (simp add: dispatch_step_def Let_def field)
qed

lemma rfc_decode_long:
  assumes "0xFFFF < length p" "length p < 2 ^ 63"
  shows "rfc_decode ([0x82, 0x7F] @ be_octets 8 (length p) @ p) =
    Some (\<lparr>rfc_fin = True, rfc_opcode = 2, rfc_masked = False, rfc_payload = p\<rparr>, [])"
  using assms by (simp add: rfc_length_octets Let_def)

end
