(* ===== verification/Net_Lines.thy ===== *)
theory Net_Lines
  imports Net_Prelude
begin

text \<open>
  What the line oriented protocols (SMTP, POP3) share: the texts a streamer module copies into a
  message block, and the lines of a text that end with a carriage return and a line feed.
\<close>

section \<open>Copying into a message block\<close>

abbreviation CRLF :: string where
  "CRLF \<equiv> [CHR 0x0D, CHR 0x0A]"

text \<open>The block's bytes after the copies; the first copy that does not fit ends them.\<close>

fun copy_texts :: "nat \<Rightarrow> string \<Rightarrow> string list \<Rightarrow> string" where
  "copy_texts space block [] = block"
| "copy_texts space block (t # ts) =
     (if length t \<le> space then copy_texts (space - length t) (block @ t) ts else block)"

lemma copy_texts_fit: "length (concat ts) \<le> space \<Longrightarrow> copy_texts space block ts = block @ concat ts"
  by (induction ts arbitrary: space block) auto

section \<open>Lines of octets\<close>

text \<open>The complete lines of a text and what follows the last line end.\<close>

fun crlf_lines :: "string \<Rightarrow> string list \<times> string" where
  "crlf_lines [] = ([], [])"
| "crlf_lines [c] = ([], [c])"
| "crlf_lines (a # b # s) =
     (if a = CHR 0x0D \<and> b = CHR 0x0A then ([] # fst (crlf_lines s), snd (crlf_lines s))
      else case crlf_lines (b # s) of
             ([], rest) \<Rightarrow> ([], a # rest)
           | (l # ls, rest) \<Rightarrow> ((a # l) # ls, rest))"

definition text_lines :: "string \<Rightarrow> string list" where
  "text_lines s = fst (crlf_lines s) @ [snd (crlf_lines s)]"

definition one_line :: "string \<Rightarrow> bool" where
  "one_line s \<longleftrightarrow> CHR 0x0D \<notin> set s"

lemma crlf_lines_append:
  "crlf_lines (x @ CRLF @ y) = (text_lines x @ fst (crlf_lines y), snd (crlf_lines y))"
  unfolding text_lines_def
proof (induction x rule: crlf_lines.induct)
  case (3 a b s)
  then show ?case
    by (cases "crlf_lines (b # s)"; cases "fst (crlf_lines (b # s))") auto
qed simp_all

lemma text_lines_append [simp]: "text_lines (x @ CHR 0x0D # CHR 0x0A # y) = text_lines x @ text_lines y"
  by (simp add: text_lines_def crlf_lines_append [unfolded append_Cons append_Nil])

lemma crlf_lines_one_line: "one_line s \<Longrightarrow> crlf_lines s = ([], s)"
  by (induction s rule: crlf_lines.induct) (auto simp: one_line_def)

lemma text_lines_one_line [simp]: "one_line s \<Longrightarrow> text_lines s = [s]"
  by (simp add: text_lines_def crlf_lines_one_line)

lemma one_line_simps [simp]:
  "one_line []"
  "one_line (c # x) \<longleftrightarrow> c \<noteq> CHR 0x0D \<and> one_line x"
  "one_line (x @ y) \<longleftrightarrow> one_line x \<and> one_line y"
  by (auto simp: one_line_def)

end
