(* ===== verification/Smtp_Dialogue.thy ===== *)
theory Smtp_Dialogue
  imports Net_Addresses Net_Lines
begin

text \<open>
  The SMTP client (\<open>protocol/smtp\<close>): the names of \<open>SMTP_Tools\<close>, the module that answers every reply
  of the server with the next command (\<open>smtp_module_send.inl\<close>) and the module that writes the
  commands (\<open>smtp_module_streamer.inl\<close>), followed by a reference server after RFC 5321 that reads
  octets, so that the dialogue of both can be run.

  Parameters: the address type and its conversions, \<open>encodeBase64\<close>, \<open>strftime\<close> of the current time
  and whether the allocations and the \<open>reply\<close> of a call succeed. The reference count of the
  connection and the replies' scanner are left out: a reply is the record the scanner produces.
\<close>

section \<open>Commands, codes and states\<close>

datatype SMTP_CommandType =
    SMTP_COMMAND_EHLO | SMTP_COMMAND_MAIL | SMTP_COMMAND_RCPT | SMTP_COMMAND_DATA | SMTP_COMMAND_QUIT
  | SMTP_COMMAND_AUTH | SMTP_COMMAND_STARTTLS | SMTP_COMMAND_DATA_2 | SMTP_COMMAND_MAX
  | SMTP_COMMAND_INVALID

type_synonym SMTP_Code = nat

definition SMTP_CODE_SERVER_CHALLENGE :: SMTP_Code where [net_simps]: "SMTP_CODE_SERVER_CHALLENGE = 334"
definition SMTP_CODE_START_MAIL_INPUT :: SMTP_Code where [net_simps]: "SMTP_CODE_START_MAIL_INPUT = 354"
definition SMTP_CODE_INVALID :: SMTP_Code where [net_simps]: "SMTP_CODE_INVALID = 556"

datatype SMTP_ProtocolState =
    SMTP_STATE_GREETING_RECEIVED | SMTP_STATE_EHLO_SENT | SMTP_STATE_STARTTLS_SENT
  | SMTP_STATE_AUTH_SENT | SMTP_STATE_AUTH_LOGIN_USER_SENT | SMTP_STATE_AUTH_LOGIN_PASSWORD_SENT
  | SMTP_STATE_AUTH_COMPLETE | SMTP_STATE_MAIL_SENT | SMTP_STATE_RCPT_SENT | SMTP_STATE_RCPTS_SENT
  | SMTP_STATE_DATA_SENT | SMTP_STATE_DATA_2_SENT | SMTP_STATE_QUIT_SENT
  | SMTP_STATE_MAX | SMTP_STATE_INVALID

fun smtp_increment :: "SMTP_ProtocolState \<Rightarrow> SMTP_ProtocolState run" where
  "smtp_increment SMTP_STATE_MAX = Inl Assertion_failed"
| "smtp_increment SMTP_STATE_INVALID = Inr SMTP_STATE_GREETING_RECEIVED"
| "smtp_increment SMTP_STATE_GREETING_RECEIVED = Inr SMTP_STATE_EHLO_SENT"
| "smtp_increment SMTP_STATE_EHLO_SENT = Inr SMTP_STATE_STARTTLS_SENT"
| "smtp_increment SMTP_STATE_STARTTLS_SENT = Inr SMTP_STATE_AUTH_SENT"
| "smtp_increment SMTP_STATE_AUTH_SENT = Inr SMTP_STATE_AUTH_LOGIN_USER_SENT"
| "smtp_increment SMTP_STATE_AUTH_LOGIN_USER_SENT = Inr SMTP_STATE_AUTH_LOGIN_PASSWORD_SENT"
| "smtp_increment SMTP_STATE_AUTH_LOGIN_PASSWORD_SENT = Inr SMTP_STATE_AUTH_COMPLETE"
| "smtp_increment SMTP_STATE_AUTH_COMPLETE = Inr SMTP_STATE_MAIL_SENT"
| "smtp_increment SMTP_STATE_MAIL_SENT = Inr SMTP_STATE_RCPT_SENT"
| "smtp_increment SMTP_STATE_RCPT_SENT = Inr SMTP_STATE_RCPTS_SENT"
| "smtp_increment SMTP_STATE_RCPTS_SENT = Inr SMTP_STATE_DATA_SENT"
| "smtp_increment SMTP_STATE_DATA_SENT = Inr SMTP_STATE_DATA_2_SENT"
| "smtp_increment SMTP_STATE_DATA_2_SENT = Inr SMTP_STATE_QUIT_SENT"
| "smtp_increment SMTP_STATE_QUIT_SENT = Inr SMTP_STATE_GREETING_RECEIVED"

fun smtp_decrement :: "SMTP_ProtocolState \<Rightarrow> SMTP_ProtocolState run" where
  "smtp_decrement SMTP_STATE_GREETING_RECEIVED = Inl Assertion_failed"
| "smtp_decrement SMTP_STATE_MAX = Inl Assertion_failed"
| "smtp_decrement SMTP_STATE_INVALID = Inl Assertion_failed"
| "smtp_decrement SMTP_STATE_EHLO_SENT = Inr SMTP_STATE_GREETING_RECEIVED"
| "smtp_decrement SMTP_STATE_STARTTLS_SENT = Inr SMTP_STATE_EHLO_SENT"
| "smtp_decrement SMTP_STATE_AUTH_SENT = Inr SMTP_STATE_STARTTLS_SENT"
| "smtp_decrement SMTP_STATE_AUTH_LOGIN_USER_SENT = Inr SMTP_STATE_AUTH_SENT"
| "smtp_decrement SMTP_STATE_AUTH_LOGIN_PASSWORD_SENT = Inr SMTP_STATE_AUTH_LOGIN_USER_SENT"
| "smtp_decrement SMTP_STATE_AUTH_COMPLETE = Inr SMTP_STATE_AUTH_LOGIN_PASSWORD_SENT"
| "smtp_decrement SMTP_STATE_MAIL_SENT = Inr SMTP_STATE_AUTH_COMPLETE"
| "smtp_decrement SMTP_STATE_RCPT_SENT = Inr SMTP_STATE_MAIL_SENT"
| "smtp_decrement SMTP_STATE_RCPTS_SENT = Inr SMTP_STATE_RCPT_SENT"
| "smtp_decrement SMTP_STATE_DATA_SENT = Inr SMTP_STATE_RCPTS_SENT"
| "smtp_decrement SMTP_STATE_DATA_2_SENT = Inr SMTP_STATE_DATA_SENT"
| "smtp_decrement SMTP_STATE_QUIT_SENT = Inr SMTP_STATE_DATA_2_SENT"

definition smtp_isSuccess :: "SMTP_Code \<Rightarrow> bool" where
  "smtp_isSuccess code \<longleftrightarrow> 200 \<le> code \<and> code < 300"

definition smtp_CodeToString :: "SMTP_Code \<Rightarrow> string" where
  "smtp_CodeToString code =
     (case map_of
        [(211, ''SYSTEM_STATUS_HELP_REPLY''), (214, ''HELP_MESSAGE''), (220, ''SERVICE_READY''),
         (221, ''SERVICE_CLOSING_CHANNEL''), (235, ''AUTHENTICATION_SUCCEEDED''),
         (250, ''MAIL_COMPLETE''), (251, ''USER_NOT_LOCAL_WILL_FORWARD''),
         (252, ''CANNOT_VRFY_USER_WILL_CONTINUE''), (334, ''SERVER_CHALLENGE''),
         (354, ''START_MAIL_INPUT''), (421, ''SERVICE_NOT_AVAILABLE_CLOSING_CHANNEL''),
         (432, ''PASSWORD_TRANSITION_NEEDED''), (450, ''MAILBOX_NOT_AVAILABLE''),
         (451, ''PROCESSING_ERROR_ABORTED''), (452, ''PROCESSING_ERROR_SYSTEM_STORAGE''),
         (454, ''TEMPORARY_AUTHENTICATION_FAILURE''), (500, ''SYNTAX_COMMAND''),
         (501, ''SYNTAX_ARGUMENT''), (502, ''COMMAND_NOT_IMPLEMENTED''),
         (503, ''COMMAND_BAD_SEQUENCE''), (504, ''COMMAND_ARGUMENT_NOT_IMPLEMENTED''),
         (521, ''HOST_DOES_NOT_ACCEPT_MAIL''), (530, ''AUTHENTICATION_REQUIRED''),
         (534, ''AUTHENTICATION_MECHANISM_TOO_WEAK''), (535, ''AUTHENTICATION_CREDENTIALS_INVALID''),
         (538, ''ENCRYPTION_REQUIRED_FOR_AUTHENTICATION_MECHANISM''), (550, ''MAILBOX_UNAVAILABLE''),
         (551, ''USER_NOT_LOCAL_TRY_FORWARD''), (552, ''EXCEEDED_SYSTEM_STORAGE''),
         (553, ''MAILBOX_NAME_NOT_ALLOWED''), (554, ''TRANSACTION_FAILED'')] code of
        Some result \<Rightarrow> result
      | None \<Rightarrow> ''INVALID/UNKNOWN'')"

fun smtp_CommandToString :: "SMTP_CommandType \<Rightarrow> string" where
  "smtp_CommandToString SMTP_COMMAND_EHLO = ''EHLO''"
| "smtp_CommandToString SMTP_COMMAND_MAIL = ''MAIL''"
| "smtp_CommandToString SMTP_COMMAND_RCPT = ''RCPT''"
| "smtp_CommandToString SMTP_COMMAND_DATA = ''DATA''"
| "smtp_CommandToString SMTP_COMMAND_QUIT = ''QUIT''"
| "smtp_CommandToString SMTP_COMMAND_AUTH = ''AUTH''"
| "smtp_CommandToString SMTP_COMMAND_STARTTLS = ''STARTTLS''"
| "smtp_CommandToString SMTP_COMMAND_DATA_2 = ''DATA_2''"
| "smtp_CommandToString _ = ''INVALID/UNKNOWN''"

fun smtp_StateToString :: "SMTP_ProtocolState \<Rightarrow> string" where
  "smtp_StateToString SMTP_STATE_GREETING_RECEIVED = ''GREETING_RECEIVED''"
| "smtp_StateToString SMTP_STATE_EHLO_SENT = ''EHLO_SENT''"
| "smtp_StateToString SMTP_STATE_AUTH_SENT = ''AUTH_SENT''"
| "smtp_StateToString SMTP_STATE_AUTH_LOGIN_USER_SENT = ''AUTH_LOGIN_USER_SENT''"
| "smtp_StateToString SMTP_STATE_AUTH_LOGIN_PASSWORD_SENT = ''AUTH_LOGIN_PASSWORD_SENT''"
| "smtp_StateToString SMTP_STATE_AUTH_COMPLETE = ''AUTH_COMPLETE''"
| "smtp_StateToString SMTP_STATE_MAIL_SENT = ''MAIL_SENT''"
| "smtp_StateToString SMTP_STATE_RCPT_SENT = ''RCPT_SENT''"
| "smtp_StateToString SMTP_STATE_RCPTS_SENT = ''RCPTS_SENT''"
| "smtp_StateToString SMTP_STATE_DATA_SENT = ''DATA_SENT''"
| "smtp_StateToString SMTP_STATE_DATA_2_SENT = ''DATA_2_SENT''"
| "smtp_StateToString SMTP_STATE_QUIT_SENT = ''QUIT_SENT''"
| "smtp_StateToString _ = ''INVALID/UNKNOWN''"

section \<open>Records\<close>

record 'addr SMTP_Request =
  req_command :: SMTP_CommandType
  req_domain :: 'addr
  req_useSTARTTLS :: bool
  req_from :: string
  req_parameters :: "string list"
  req_to :: "string list"
  req_subject :: string
  req_data :: string

record 'addr SMTP_Record =
  smtp_request :: "'addr SMTP_Request"
  smtp_code :: SMTP_Code
  smtp_text :: "string list"

record 'addr SMTP_ProtocolConfiguration =
  conf_domain :: 'addr
  conf_username :: string
  conf_password :: string

record 'addr smtp_env =
  ACE_LOCALHOST :: 'addr
  addr_text :: "'addr \<Rightarrow> bool \<Rightarrow> string option"
  addr_is_ipv6 :: "'addr \<Rightarrow> bool"
  encodeBase64 :: "string \<Rightarrow> string"
  strftime :: "string \<Rightarrow> string option"

definition smtp_dump :: "'addr SMTP_Record \<Rightarrow> string" where
  "smtp_dump r =
     ''code: '' @ [CHR 0x09] @ smtp_CodeToString (smtp_code r) @ '' ('' @ show_dec (smtp_code r) @ '')'' @ [CHR 0x0A]
     @ ''text: ('' @ show_dec (length (smtp_text r)) @ ''):'' @ [CHR 0x0A]
     @ concat (map (\<lambda>l. l @ [CHR 0x0A]) (smtp_text r)) @ ''text /END''"

definition new_SMTP_Request :: "'addr smtp_env \<Rightarrow> 'addr SMTP_Request" where
  "new_SMTP_Request env =
     \<lparr>req_command = SMTP_COMMAND_INVALID, req_domain = ACE_LOCALHOST env, req_useSTARTTLS = False,
      req_from = [], req_parameters = [], req_to = [], req_subject = [], req_data = []\<rparr>"

definition new_SMTP_Record :: "'addr smtp_env \<Rightarrow> 'addr SMTP_Record" where
  "new_SMTP_Record env =
     \<lparr>smtp_request = new_SMTP_Request env, smtp_code = SMTP_CODE_INVALID, smtp_text = []\<rparr>"

definition getHeaderDateString :: "'addr smtp_env \<Rightarrow> string" where
  "getHeaderDateString env =
     (case strftime env ''%a, %d %b %Y %H:%M:%S %z'' of None \<Rightarrow> [] | Some buffer \<Rightarrow> buffer)"

section \<open>The send module\<close>

text \<open>
  The state of the module: the protocol state of the connection, the recipients still to be
  announced, whether \<open>STARTTLS\<close> was sent, and whether a connection is set.
\<close>

record SMTP_Module_Send =
  protocolState :: SMTP_ProtocolState
  recipients :: "string list"
  STARTTLSSent :: bool
  has_connection :: bool

definition new_SMTP_Module_Send :: SMTP_Module_Send where
  "new_SMTP_Module_Send =
     \<lparr>protocolState = SMTP_STATE_INVALID, recipients = [], STARTTLSSent = False, has_connection = False\<rparr>"

definition smtp_initialize :: "bool \<Rightarrow> SMTP_Module_Send \<Rightarrow> SMTP_Module_Send" where
  "smtp_initialize isInitialized s =
     (if isInitialized then s\<lparr>has_connection := False, recipients := [], STARTTLSSent := False\<rparr> else s)"

datatype smtp_session_message =
    SESSION_MESSAGE_ABORT | SESSION_MESSAGE_CONNECT (session_connection: bool) | SESSION_MESSAGE_DISCONNECT
  | SESSION_MESSAGE_BEGIN | SESSION_MESSAGE_END | SESSION_MESSAGE_OTHER

fun smtp_handleSessionMessage :: "smtp_session_message \<Rightarrow> SMTP_Module_Send \<Rightarrow> SMTP_Module_Send run" where
  "smtp_handleSessionMessage (SESSION_MESSAGE_CONNECT connection) s =
     run_bind (ace_assert connection) (\<lambda>_.
     run_bind (ace_assert (\<not> has_connection s)) (\<lambda>_. Inr (s\<lparr>has_connection := True\<rparr>)))"
| "smtp_handleSessionMessage SESSION_MESSAGE_END s = Inr (s\<lparr>has_connection := False\<rparr>)"
| "smtp_handleSessionMessage _ s = Inr s"

text \<open>The \<open>std::getline\<close> loop: the fields of a text separated by \<open>d\<close>, empty ones included.\<close>

function getlines :: "char \<Rightarrow> string \<Rightarrow> string list" where
  "getlines d s =
     (case dropWhile (\<lambda>c. c \<noteq> d) s of
        [] \<Rightarrow> [takeWhile (\<lambda>c. c \<noteq> d) s]
      | _ # rest \<Rightarrow> takeWhile (\<lambda>c. c \<noteq> d) s # getlines d rest)"
  by pat_completeness auto
termination
proof (relation "measure (\<lambda>(d, s). length s)")
  fix d c :: char and s rest
  assume "dropWhile (\<lambda>c. c \<noteq> d) s = c # rest"
  then show "((d, rest), d, s) \<in> measure (\<lambda>(d, s). length s)"
    using length_dropWhile_le [of "\<lambda>c. c \<noteq> d" s] by simp
qed simp

fun authentication_mechanisms :: "string list \<Rightarrow> string list" where
  "authentication_mechanisms [] = []"
| "authentication_mechanisms (l # ls) =
     (if find_from ''AUTH '' l 0 \<noteq> Some 0 then authentication_mechanisms ls
      else getlines CHR '' '' (drop 5 l))"

datatype 'r smtp_action = Send 'r | Protocol_error | Return

definition expect ::
    "bool \<Rightarrow> SMTP_Module_Send \<Rightarrow> ('r smtp_action \<times> SMTP_Module_Send) run
     \<Rightarrow> ('r smtp_action \<times> SMTP_Module_Send) run" where
  "expect ok s m = (if ok then m else Inr (Protocol_error, s))"

definition advance ::
    "SMTP_Module_Send \<Rightarrow> (SMTP_Module_Send \<Rightarrow> ('r smtp_action \<times> SMTP_Module_Send) run)
     \<Rightarrow> ('r smtp_action \<times> SMTP_Module_Send) run" where
  "advance s f = run_bind (smtp_increment (protocolState s)) (\<lambda>st. f (s\<lparr>protocolState := st\<rparr>))"

definition send_ehlo :: "'addr SMTP_ProtocolConfiguration \<Rightarrow> 'addr SMTP_Request \<Rightarrow> 'addr SMTP_Request" where
  "send_ehlo conf d = d\<lparr>req_command := SMTP_COMMAND_EHLO, req_domain := conf_domain conf\<rparr>"

definition send_mail :: "'addr SMTP_Request \<Rightarrow> 'addr SMTP_Request \<Rightarrow> 'addr SMTP_Request" where
  "send_mail request d =
     d\<lparr>req_command := SMTP_COMMAND_MAIL, req_from := req_from request,
       req_parameters := req_parameters request\<rparr>"

definition send_rcpt :: "'addr SMTP_Request \<Rightarrow> string \<Rightarrow> 'addr SMTP_Request \<Rightarrow> 'addr SMTP_Request" where
  "send_rcpt request recipient d =
     d\<lparr>req_command := SMTP_COMMAND_RCPT, req_to := req_to d @ [recipient],
       req_parameters := req_parameters request\<rparr>"

definition smtp_rcpts_sent ::
    "'addr SMTP_Request \<Rightarrow> SMTP_Module_Send \<Rightarrow> ('addr SMTP_Request smtp_action \<times> SMTP_Module_Send) run" where
  "smtp_rcpts_sent d s = advance s (\<lambda>s. Inr (Send (d\<lparr>req_command := SMTP_COMMAND_DATA\<rparr>), s))"

definition smtp_switch ::
    "'addr smtp_env \<Rightarrow> 'addr SMTP_ProtocolConfiguration \<Rightarrow> 'addr SMTP_Request \<Rightarrow> SMTP_Code \<Rightarrow> string list
     \<Rightarrow> SMTP_Module_Send \<Rightarrow> ('addr SMTP_Request smtp_action \<times> SMTP_Module_Send) run" where
  "smtp_switch env conf request code reply_text s =
     (let d = new_SMTP_Request env; greeting =
          expect (smtp_isSuccess code) s
            (advance (s\<lparr>protocolState := SMTP_STATE_GREETING_RECEIVED\<rparr>) (\<lambda>s. Inr (Send (send_ehlo conf d), s))) in
      case protocolState s of
        SMTP_STATE_INVALID \<Rightarrow> greeting
      | SMTP_STATE_GREETING_RECEIVED \<Rightarrow> greeting
      | SMTP_STATE_EHLO_SENT \<Rightarrow>
          expect (smtp_isSuccess code) s (advance s (\<lambda>s.
            if req_useSTARTTLS request \<and> \<not> STARTTLSSent s
            then Inr (Send (d\<lparr>req_command := SMTP_COMMAND_STARTTLS\<rparr>), s\<lparr>STARTTLSSent := True\<rparr>)
            else advance s (\<lambda>s.
              let mechanisms = authentication_mechanisms reply_text in
              if mechanisms \<noteq> [] \<and> ''LOGIN'' \<in> set mechanisms
              then Inr (Send (d\<lparr>req_command := SMTP_COMMAND_AUTH\<rparr>), s)
              else Inr (Send (send_mail request d), s\<lparr>protocolState := SMTP_STATE_MAIL_SENT\<rparr>))))
      | SMTP_STATE_STARTTLS_SENT \<Rightarrow>
          expect (smtp_isSuccess code) s
            (Inr (Send (send_ehlo conf d), s\<lparr>protocolState := SMTP_STATE_EHLO_SENT\<rparr>))
      | SMTP_STATE_AUTH_SENT \<Rightarrow>
          expect (code = SMTP_CODE_SERVER_CHALLENGE) s (advance s (\<lambda>s.
            Inr (Send (d\<lparr>req_command := SMTP_COMMAND_AUTH,
                         req_parameters := [encodeBase64 env (conf_username conf)]\<rparr>), s)))
      | SMTP_STATE_AUTH_LOGIN_USER_SENT \<Rightarrow>
          expect (code = SMTP_CODE_SERVER_CHALLENGE) s (advance s (\<lambda>s.
            Inr (Send (d\<lparr>req_command := SMTP_COMMAND_AUTH,
                         req_parameters := [encodeBase64 env (conf_password conf)]\<rparr>), s)))
      | SMTP_STATE_AUTH_LOGIN_PASSWORD_SENT \<Rightarrow>
          expect (smtp_isSuccess code) s (advance s (\<lambda>s. advance s (\<lambda>s.
            Inr (Send (send_mail request d), s))))
      | SMTP_STATE_MAIL_SENT \<Rightarrow>
          expect (smtp_isSuccess code) s (advance s (\<lambda>s.
            case req_to request of
              [] \<Rightarrow> Inl Assertion_failed
            | r # rs \<Rightarrow> Inr (Send (send_rcpt request r d), s\<lparr>recipients := rs\<rparr>)))
      | SMTP_STATE_RCPT_SENT \<Rightarrow>
          expect (smtp_isSuccess code) s
            (case recipients s of
               [] \<Rightarrow> advance s (smtp_rcpts_sent d)
             | r # rs \<Rightarrow> Inr (Send (send_rcpt request r d), s\<lparr>recipients := rs\<rparr>))
      | SMTP_STATE_RCPTS_SENT \<Rightarrow> smtp_rcpts_sent d s
      | SMTP_STATE_DATA_SENT \<Rightarrow>
          expect (code = SMTP_CODE_START_MAIL_INPUT) s (advance s (\<lambda>s.
            Inr (Send (d\<lparr>req_command := SMTP_COMMAND_DATA_2, req_from := req_from request,
                         req_to := req_to request, req_data := req_data request\<rparr>), s)))
      | SMTP_STATE_DATA_2_SENT \<Rightarrow>
          expect (smtp_isSuccess code) s (advance s (\<lambda>s.
            Inr (Send (d\<lparr>req_command := SMTP_COMMAND_QUIT\<rparr>), s)))
      | SMTP_STATE_QUIT_SENT \<Rightarrow>
          expect (smtp_isSuccess code) s (Inr (Return, s\<lparr>protocolState := SMTP_STATE_INVALID\<rparr>))
      | _ \<Rightarrow> Inr (Return, s))"

text \<open>What can fail in a call: the allocations of the record, the message and its container, and \<open>reply\<close>.\<close>

record smtp_resources =
  got_record :: bool
  got_message :: bool
  got_container :: bool
  replied :: bool

definition plentiful :: smtp_resources where
  "plentiful = \<lparr>got_record = True, got_message = True, got_container = True, replied = True\<rparr>"

definition smtp_send ::
    "'addr smtp_env \<Rightarrow> smtp_resources \<Rightarrow> 'addr SMTP_Request \<Rightarrow> SMTP_Module_Send
     \<Rightarrow> ('addr SMTP_Record option \<times> SMTP_Module_Send) run" where
  "smtp_send env res d s =
     (if got_message res \<and> got_container res \<and> replied res
      then Inr (Some ((new_SMTP_Record env)\<lparr>smtp_request := d\<rparr>), s)
      else run_bind (smtp_decrement (protocolState s)) (\<lambda>st. Inr (None, s\<lparr>protocolState := st\<rparr>)))"

definition smtp_handleDataMessage ::
    "'addr smtp_env \<Rightarrow> smtp_resources \<Rightarrow> 'addr SMTP_ProtocolConfiguration \<Rightarrow> 'addr SMTP_Request
     \<Rightarrow> 'addr SMTP_Record \<Rightarrow> SMTP_Module_Send \<Rightarrow> ('addr SMTP_Record option \<times> SMTP_Module_Send) run" where
  "smtp_handleDataMessage env res conf request r s =
     run_bind (ace_assert (has_connection s)) (\<lambda>_.
       if \<not> got_record res then Inr (None, s)
       else run_bind (smtp_switch env conf request (smtp_code r) (smtp_text r) s) (\<lambda>(action, s).
         case action of
           Send d \<Rightarrow> smtp_send env res d s
         | Protocol_error \<Rightarrow> smtp_send env res ((new_SMTP_Request env)\<lparr>req_command := SMTP_COMMAND_QUIT\<rparr>) s
         | Return \<Rightarrow> Inr (None, s)))"

section \<open>The streamer module\<close>

definition npos :: nat where "npos = 0xFFFFFFFFFFFFFFFF"

definition end_sequence :: string where "end_sequence = CRLF @ ''.'' @ CRLF"

definition message_header :: "'addr smtp_env \<Rightarrow> 'addr SMTP_Request \<Rightarrow> string run" where
  "message_header env d =
     (case req_to d of
        [] \<Rightarrow> Inl Out_of_bounds
      | to # _ \<Rightarrow> Inr
          (''From: \"\" <'' @ req_from d @ ''>'' @ CRLF @ ''To: \"\" <'' @ to @ ''>'' @ CRLF
           @ ''Date: '' @ getHeaderDateString env @ CRLF
           @ (if req_subject d \<noteq> [] then ''Subject: '' @ req_subject d @ CRLF else []) @ CRLF))"

definition crop_data :: "string \<Rightarrow> string" where
  "crop_data data =
     (case find_from end_sequence data npos of None \<Rightarrow> data | Some position \<Rightarrow> take position data)"

definition smtp_texts :: "'addr smtp_env \<Rightarrow> 'addr SMTP_Request \<Rightarrow> string list run" where
  "smtp_texts env d =
     (case req_command d of
        SMTP_COMMAND_EHLO \<Rightarrow>
          run_bind (IPAddressToString (addr_text env) (addr_is_ipv6 env) (req_domain d) True False) (\<lambda>a.
            Inr [''EHLO ['' @ a @ '']'' @ CRLF])
      | SMTP_COMMAND_STARTTLS \<Rightarrow> Inr [''STARTTLS'' @ CRLF]
      | SMTP_COMMAND_MAIL \<Rightarrow> Inr [''MAIL FROM:<'' @ req_from d @ ''>'' @ CRLF]
      | SMTP_COMMAND_RCPT \<Rightarrow>
          (case req_to d of
             [] \<Rightarrow> Inl Assertion_failed
           | to # _ \<Rightarrow> Inr [''RCPT TO:<'' @ to @ ''>'' @ CRLF])
      | SMTP_COMMAND_DATA \<Rightarrow> Inr [''DATA'' @ CRLF]
      | SMTP_COMMAND_QUIT \<Rightarrow> Inr [''QUIT'' @ CRLF]
      | SMTP_COMMAND_AUTH \<Rightarrow>
          (case req_parameters d of [] \<Rightarrow> Inr [''AUTH LOGIN'' @ CRLF] | p # _ \<Rightarrow> Inr [p, CRLF])
      | SMTP_COMMAND_DATA_2 \<Rightarrow>
          run_bind (message_header env d) (\<lambda>h. Inr [h @ crop_data (req_data d) @ end_sequence])
      | _ \<Rightarrow> Inr [])"

definition smtp_stream :: "'addr smtp_env \<Rightarrow> nat \<Rightarrow> string \<Rightarrow> 'addr SMTP_Record \<Rightarrow> string run" where
  "smtp_stream env space block r =
     run_bind (smtp_texts env (smtp_request r)) (\<lambda>ts. Inr (copy_texts space block ts))"

section \<open>A reference server\<close>

text \<open>
  The receiving side of RFC 5321, with the \<open>LOGIN\<close> mechanism of RFC 4954: a server that reads octets,
  answers each command line and collects the lines of a message up to the line that is a single
  dot; of other lines that start with a dot the dot is removed. It accepts every sender, recipient
  and credential, and refuses commands that are unknown or out of order.
\<close>

datatype server_phase = Commands | Username | Password | Mail_data

type_synonym smtp_reply = "SMTP_Code \<times> string list"

record smtp_server =
  sv_extensions :: "string list"
  sv_buffer :: string
  sv_phase :: server_phase
  sv_tls :: bool
  sv_credentials :: "string list"
  sv_from :: "string option"
  sv_to :: "string list"
  sv_lines :: "string list"
  sv_mailbox :: "(string \<times> string list \<times> string list) list"

definition new_server :: "string list \<Rightarrow> smtp_server" where
  "new_server extensions =
     \<lparr>sv_extensions = extensions, sv_buffer = [], sv_phase = Commands, sv_tls = False, sv_credentials = [],
      sv_from = None, sv_to = [], sv_lines = [], sv_mailbox = []\<rparr>"

definition path_argument :: "string \<Rightarrow> string \<Rightarrow> string option" where
  "path_argument keyword l =
     (if take (length keyword) l = keyword \<and> l \<noteq> [] \<and> last l = CHR ''>''
      then Some (butlast (drop (length keyword) l)) else None)"

definition serve_command :: "string \<Rightarrow> smtp_server \<Rightarrow> smtp_reply \<times> smtp_server" where
  "serve_command l sv =
     (if take 5 l = ''EHLO '' then ((250, sv_extensions sv), sv\<lparr>sv_from := None, sv_to := []\<rparr>)
      else if l = ''STARTTLS'' then ((220, []), sv\<lparr>sv_tls := True\<rparr>)
      else if l = ''AUTH LOGIN'' then ((334, []), sv\<lparr>sv_phase := Username\<rparr>)
      else if l = ''QUIT'' then ((221, []), sv)
      else if l = ''DATA''
      then if sv_from sv \<noteq> None \<and> sv_to sv \<noteq> [] then ((354, []), sv\<lparr>sv_phase := Mail_data, sv_lines := []\<rparr>)
           else ((503, []), sv)
      else case path_argument ''MAIL FROM:<'' l of
        Some p \<Rightarrow> ((250, []), sv\<lparr>sv_from := Some p, sv_to := []\<rparr>)
      | None \<Rightarrow>
          (case path_argument ''RCPT TO:<'' l of
             Some p \<Rightarrow> if sv_from sv \<noteq> None then ((250, []), sv\<lparr>sv_to := sv_to sv @ [p]\<rparr>) else ((503, []), sv)
           | None \<Rightarrow> ((500, []), sv)))"

definition serve_line :: "string \<Rightarrow> smtp_server \<Rightarrow> smtp_reply list \<times> smtp_server" where
  "serve_line l sv =
     (case sv_phase sv of
        Commands \<Rightarrow> (let (r, sv') = serve_command l sv in ([r], sv'))
      | Username \<Rightarrow> ([(334, [])], sv\<lparr>sv_phase := Password, sv_credentials := [l]\<rparr>)
      | Password \<Rightarrow> ([(235, [])], sv\<lparr>sv_phase := Commands, sv_credentials := sv_credentials sv @ [l]\<rparr>)
      | Mail_data \<Rightarrow>
          if l = ''.''
          then ([(250, [])], sv\<lparr>sv_phase := Commands, sv_from := None, sv_to := [], sv_lines := [],
                               sv_mailbox := sv_mailbox sv @ [(the (sv_from sv), sv_to sv, sv_lines sv)]\<rparr>)
          else ([], sv\<lparr>sv_lines := sv_lines sv @ [if take 1 l = ''.'' then drop 1 l else l]\<rparr>))"

fun serve_lines :: "string list \<Rightarrow> smtp_server \<Rightarrow> smtp_reply list \<times> smtp_server" where
  "serve_lines [] sv = ([], sv)"
| "serve_lines (l # ls) sv =
     (let (rs, sv') = serve_line l sv; (rs', sv'') = serve_lines ls sv' in (rs @ rs', sv''))"

definition serve :: "string \<Rightarrow> smtp_server \<Rightarrow> smtp_reply list \<times> smtp_server" where
  "serve octets sv =
     (let (ls, rest) = crlf_lines (sv_buffer sv @ octets) in serve_lines ls (sv\<lparr>sv_buffer := rest\<rparr>))"

text \<open>
  One turn of the dialogue: the client takes the next reply; the server reads what the client's
  modules write for it. Without a reply nothing happens.
\<close>

type_synonym smtp_talk = "smtp_reply list \<times> SMTP_Module_Send \<times> smtp_server"

fun turn ::
    "'addr smtp_env \<Rightarrow> nat \<Rightarrow> 'addr SMTP_ProtocolConfiguration \<Rightarrow> 'addr SMTP_Request \<Rightarrow> smtp_talk \<Rightarrow> smtp_talk run" where
  "turn env space conf request ([], c, sv) = Inr ([], c, sv)"
| "turn env space conf request ((code, reply_text) # rs, c, sv) =
     run_bind (smtp_handleDataMessage env plentiful conf request
                 ((new_SMTP_Record env)\<lparr>smtp_code := code, smtp_text := reply_text\<rparr>) c) (\<lambda>(m, c').
       case m of
         None \<Rightarrow> Inr (rs, c', sv)
       | Some r \<Rightarrow>
           run_bind (smtp_stream env space [] r) (\<lambda>octets.
             let (rs', sv') = serve octets sv in Inr (rs @ rs', c', sv')))"

fun dialogue ::
    "'addr smtp_env \<Rightarrow> nat \<Rightarrow> 'addr SMTP_ProtocolConfiguration \<Rightarrow> 'addr SMTP_Request \<Rightarrow> nat \<Rightarrow> smtp_talk \<Rightarrow> smtp_talk run" where
  "dialogue env space conf request 0 t = Inr t"
| "dialogue env space conf request (Suc n) t =
     run_bind (turn env space conf request t) (dialogue env space conf request n)"

declare turn.simps [simp del]

section \<open>Turns of an undisturbed dialogue\<close>

text \<open>
  What a mail needs to pass undisturbed: a sender, recipients, an address text and credentials that
  fit on a line, no line of the message starting with a dot, and message blocks with enough room.
\<close>

definition smtp_mail_ok ::
    "'addr smtp_env \<Rightarrow> nat \<Rightarrow> string \<Rightarrow> 'addr SMTP_ProtocolConfiguration \<Rightarrow> 'addr SMTP_Request \<Rightarrow> bool" where
  "smtp_mail_ok env space a conf request \<longleftrightarrow>
     IPAddressToString (addr_text env) (addr_is_ipv6 env) (conf_domain conf) True False = Inr a
     \<and> req_to request \<noteq> []
     \<and> (\<forall>l \<in> set ([a, req_from request, getHeaderDateString env, encodeBase64 env (conf_username conf),
                   encodeBase64 env (conf_password conf)] @ req_to request).
          one_line l \<and> length l + 14 \<le> space)
     \<and> (\<forall>l \<in> set (text_lines (req_data request)). take 1 l \<noteq> ''.'')
     \<and> length (req_data request) < npos
     \<and> length (req_from request) + length (hd (req_to request)) + length (getHeaderDateString env)
         + length (req_data request) + 40 \<le> space"

lemma smtp_mail_okD:
  assumes "smtp_mail_ok env space a conf request"
  shows "IPAddressToString (addr_text env) (addr_is_ipv6 env) (conf_domain conf) True False = Inr a"
    and "req_to request \<noteq> []"
    and "one_line a" "one_line (req_from request)" "one_line (getHeaderDateString env)"
      "one_line (encodeBase64 env (conf_username conf))" "one_line (encodeBase64 env (conf_password conf))"
    and "length a + 14 \<le> space" "length (req_from request) + 14 \<le> space"
      "length (encodeBase64 env (conf_username conf)) + 14 \<le> space"
      "length (encodeBase64 env (conf_password conf)) + 14 \<le> space"
    and "\<And>r. r \<in> set (req_to request) \<Longrightarrow> one_line r \<and> length r + 14 \<le> space"
  using assms by (simp_all add: smtp_mail_ok_def)

lemmas smtp_client_defs =
  smtp_handleDataMessage_def smtp_switch_def smtp_send_def plentiful_def new_SMTP_Request_def
  new_SMTP_Record_def expect_def advance_def send_ehlo_def send_mail_def send_rcpt_def smtp_rcpts_sent_def
  smtp_isSuccess_def

lemma serve_octets:
  "one_line l \<Longrightarrow> sv_buffer sv = [] \<Longrightarrow> serve (l @ CRLF) sv = serve_line l sv"
  using crlf_lines_append [of l "[]"] by (cases sv) (simp add: serve_def split: prod.splits)

lemma turn_line:
  assumes "smtp_handleDataMessage env plentiful conf request
             ((new_SMTP_Record env)\<lparr>smtp_code := code, smtp_text := reply_text\<rparr>) c = Inr (Some r, c')"
    and "smtp_texts env (smtp_request r) = Inr ts" and "concat ts = l @ CRLF"
    and "length l + 2 \<le> space" and "one_line l" and "sv_buffer sv = []"
  shows "turn env space conf request ([(code, reply_text)], c, sv)
           = Inr (fst (serve_line l sv), c', snd (serve_line l sv))"
  using assms by (simp add: turn.simps smtp_stream_def copy_texts_fit serve_octets split: prod.splits)

text \<open>A command line that the client writes in answer to a reply.\<close>

definition answers ::
    "'addr smtp_env \<Rightarrow> nat \<Rightarrow> 'addr SMTP_ProtocolConfiguration \<Rightarrow> 'addr SMTP_Request \<Rightarrow> smtp_reply
     \<Rightarrow> SMTP_Module_Send \<Rightarrow> string \<Rightarrow> SMTP_Module_Send \<Rightarrow> bool" where
  "answers env space conf request reply c l c' \<longleftrightarrow>
     one_line l \<and> length l + 2 \<le> space
     \<and> (\<exists>r ts. smtp_handleDataMessage env plentiful conf request
                 ((new_SMTP_Record env)\<lparr>smtp_code := fst reply, smtp_text := snd reply\<rparr>) c = Inr (Some r, c')
               \<and> smtp_texts env (smtp_request r) = Inr ts \<and> concat ts = l @ CRLF)"

lemma turn_answer:
  "answers env space conf request reply c l c' \<Longrightarrow> sv_buffer sv = [] \<Longrightarrow>
   turn env space conf request ([reply], c, sv) = Inr (fst (serve_line l sv), c', snd (serve_line l sv))"
  by (cases reply) (auto simp: answers_def intro: turn_line)

lemma answer_greeting:
  assumes "smtp_mail_ok env space a conf request" "has_connection c"
    and "protocolState c \<in> {SMTP_STATE_INVALID, SMTP_STATE_STARTTLS_SENT}"
  shows "answers env space conf request (220, t) c (''EHLO ['' @ a @ '']'') (c\<lparr>protocolState := SMTP_STATE_EHLO_SENT\<rparr>)"
  using assms(2-) smtp_mail_okD [OF assms(1)]
  by (auto simp: answers_def smtp_client_defs smtp_texts_def)

lemma answer_starttls:
  assumes "smtp_mail_ok env space a conf request" "has_connection c" "protocolState c = SMTP_STATE_EHLO_SENT"
    and "req_useSTARTTLS request" "\<not> STARTTLSSent c"
  shows "answers env space conf request (250, t) c ''STARTTLS''
           (c\<lparr>protocolState := SMTP_STATE_STARTTLS_SENT, STARTTLSSent := True\<rparr>)"
  using assms(2-) smtp_mail_okD [OF assms(1)]
  by (auto simp: answers_def smtp_client_defs smtp_texts_def)

lemma answer_ehlo:
  assumes "smtp_mail_ok env space a conf request" "has_connection c" "protocolState c = SMTP_STATE_EHLO_SENT"
    and "STARTTLSSent c = req_useSTARTTLS request"
  shows "''LOGIN'' \<in> set (authentication_mechanisms t) \<Longrightarrow>
      answers env space conf request (250, t) c ''AUTH LOGIN'' (c\<lparr>protocolState := SMTP_STATE_AUTH_SENT\<rparr>)"
    and "''LOGIN'' \<notin> set (authentication_mechanisms t) \<Longrightarrow>
      answers env space conf request (250, t) c (''MAIL FROM:<'' @ req_from request @ ''>'')
        (c\<lparr>protocolState := SMTP_STATE_MAIL_SENT\<rparr>)"
proof -
  assume login: "''LOGIN'' \<in> set (authentication_mechanisms t)"
  then have "authentication_mechanisms t \<noteq> []" by auto
  with login show "answers env space conf request (250, t) c ''AUTH LOGIN'' (c\<lparr>protocolState := SMTP_STATE_AUTH_SENT\<rparr>)"
    using assms(2-) smtp_mail_okD [OF assms(1)]
    by (auto simp: answers_def smtp_client_defs smtp_texts_def)
qed (use assms(2-) smtp_mail_okD [OF assms(1)] in \<open>auto simp: answers_def smtp_client_defs smtp_texts_def\<close>)

lemma answer_auth:
  assumes "smtp_mail_ok env space a conf request" "has_connection c"
  shows "protocolState c = SMTP_STATE_AUTH_SENT \<Longrightarrow>
      answers env space conf request (334, t) c (encodeBase64 env (conf_username conf))
        (c\<lparr>protocolState := SMTP_STATE_AUTH_LOGIN_USER_SENT\<rparr>)"
    and "protocolState c = SMTP_STATE_AUTH_LOGIN_USER_SENT \<Longrightarrow>
      answers env space conf request (334, t) c (encodeBase64 env (conf_password conf))
        (c\<lparr>protocolState := SMTP_STATE_AUTH_LOGIN_PASSWORD_SENT\<rparr>)"
    and "protocolState c = SMTP_STATE_AUTH_LOGIN_PASSWORD_SENT \<Longrightarrow>
      answers env space conf request (235, t) c (''MAIL FROM:<'' @ req_from request @ ''>'')
        (c\<lparr>protocolState := SMTP_STATE_MAIL_SENT\<rparr>)"
  using assms(2-) smtp_mail_okD [OF assms(1)]
  by (auto simp: answers_def smtp_client_defs smtp_texts_def net_simps)

lemma answer_mail:
  assumes "smtp_mail_ok env space a conf request" "has_connection c"
    and "protocolState c = SMTP_STATE_MAIL_SENT" "req_to request = r # rs"
  shows "answers env space conf request (250, t) c (''RCPT TO:<'' @ r @ ''>'')
           (c\<lparr>protocolState := SMTP_STATE_RCPT_SENT, recipients := rs\<rparr>)"
  using assms(2-) smtp_mail_okD(12) [OF assms(1), of r]
  by (auto simp: answers_def smtp_client_defs smtp_texts_def)

lemma answer_rcpt:
  assumes "smtp_mail_ok env space a conf request" "has_connection c"
    and "protocolState c = SMTP_STATE_RCPT_SENT" "set (recipients c) \<subseteq> set (req_to request)"
  shows "case recipients c of
      [] \<Rightarrow> answers env space conf request (250, t) c ''DATA'' (c\<lparr>protocolState := SMTP_STATE_DATA_SENT\<rparr>)
    | r # rs \<Rightarrow> answers env space conf request (250, t) c (''RCPT TO:<'' @ r @ ''>'') (c\<lparr>recipients := rs\<rparr>)"
proof (cases "recipients c")
  case Nil
  then show ?thesis
    using assms(2-) smtp_mail_okD(8) [OF assms(1)] by (auto simp: answers_def smtp_client_defs smtp_texts_def)
next
  case (Cons r rs)
  then show ?thesis
    using assms(2-) smtp_mail_okD(12) [OF assms(1), of r] by (auto simp: answers_def smtp_client_defs smtp_texts_def)
qed

lemma answer_message:
  assumes "smtp_mail_ok env space a conf request" "has_connection c" "protocolState c = SMTP_STATE_DATA_2_SENT"
  shows "answers env space conf request (250, t) c ''QUIT'' (c\<lparr>protocolState := SMTP_STATE_QUIT_SENT\<rparr>)"
  using assms(2-) smtp_mail_okD(8) [OF assms(1)]
  by (auto simp: answers_def smtp_client_defs smtp_texts_def)
lemma find_from_beyond: "length s < pos \<Longrightarrow> find_from pat s pos = None"
  using find_from_SomeD [of pat s pos] by (cases "find_from pat s pos") fastforce+

lemma crop_data_id: "length data < npos \<Longrightarrow> crop_data data = data"
  by (simp add: crop_data_def find_from_beyond)

definition delivered :: "string list \<Rightarrow> smtp_server \<Rightarrow> smtp_server" where
  "delivered ls sv =
     sv\<lparr>sv_phase := Commands, sv_from := None, sv_to := [], sv_lines := [],
        sv_mailbox := sv_mailbox sv @ [(the (sv_from sv), sv_to sv, sv_lines sv @ ls)]\<rparr>"

lemma delivered_buffer [simp]:
  "sv_buffer (delivered ls sv) = sv_buffer sv"
  "delivered ls (sv\<lparr>sv_buffer := b\<rparr>) = (delivered ls sv)\<lparr>sv_buffer := b\<rparr>"
  by (simp_all add: delivered_def)

lemma serve_lines_data:
  "sv_phase sv = Mail_data \<Longrightarrow> \<forall>l \<in> set ls. take 1 l \<noteq> ''.'' \<Longrightarrow>
   serve_lines (ls @ ''.'' # rest) sv = (let (rs, sv') = serve_lines rest (delivered ls sv) in ((250, []) # rs, sv'))"
proof (induction ls arbitrary: sv)
  case Nil
  then show ?case by (simp add: serve_line_def delivered_def)
next
  case (Cons l ls)
  then have "serve_line l sv = ([], sv\<lparr>sv_lines := sv_lines sv @ [l]\<rparr>)"
    by (auto simp: serve_line_def)
  with Cons show ?case by (simp add: delivered_def)
qed

text \<open>
  A message up to the first end sequence is delivered; whatever follows is read as commands.
\<close>

lemma serve_message:
  assumes "sv_phase sv = Mail_data" "sv_buffer sv = []" "\<forall>l \<in> set (text_lines x). take 1 l \<noteq> ''.''"
  shows "serve (x @ end_sequence @ y) sv = (let (rs, sv') = serve y (delivered (text_lines x) sv) in ((250, []) # rs, sv'))"
proof -
  have "crlf_lines (x @ end_sequence @ y) = (text_lines x @ ''.'' # fst (crlf_lines y), snd (crlf_lines y))"
    using crlf_lines_append [of x "''.'' @ CRLF @ y"] crlf_lines_append [of "''.''" y]
    by (simp add: end_sequence_def)
  then show ?thesis
    using assms serve_lines_data [of "sv\<lparr>sv_buffer := snd (crlf_lines y)\<rparr>" "text_lines x" "fst (crlf_lines y)"]
    by (simp add: serve_def case_prod_beta)
qed

definition header_lines :: "'addr smtp_env \<Rightarrow> 'addr SMTP_Request \<Rightarrow> string list" where
  "header_lines env request =
     [''From: \"\" <'' @ req_from request @ ''>'', ''To: \"\" <'' @ hd (req_to request) @ ''>'',
      ''Date: '' @ getHeaderDateString env, []]"

definition header_text :: "'addr smtp_env \<Rightarrow> 'addr SMTP_Request \<Rightarrow> string" where
  "header_text env request = concat (map (\<lambda>l. l @ CRLF) (header_lines env request))"

lemma text_lines_header:
  assumes "smtp_mail_ok env space a conf request"
  shows "text_lines (header_text env request @ x) = header_lines env request @ text_lines x"
proof -
  have "one_line (hd (req_to request))"
    using smtp_mail_okD(2,12) [OF assms] by auto
  then show ?thesis
    using smtp_mail_okD(3-5) [OF assms]
      text_lines_append [of "[]"] text_lines_append [of "''From: \"\" <'' @ req_from request @ ''>''"]
      text_lines_append [of "''To: \"\" <'' @ hd (req_to request) @ ''>''"]
      text_lines_append [of "''Date: '' @ getHeaderDateString env"]
    by (simp add: header_text_def header_lines_def)
qed

lemma streamed_message:
  assumes ok: "smtp_mail_ok env space a conf request" and c: "has_connection c" "protocolState c = SMTP_STATE_DATA_SENT"
  shows "\<exists>r. smtp_handleDataMessage env plentiful conf request
                ((new_SMTP_Record env)\<lparr>smtp_code := 354, smtp_text := t\<rparr>) c
              = Inr (Some r, c\<lparr>protocolState := SMTP_STATE_DATA_2_SENT\<rparr>)
            \<and> smtp_stream env space [] r = Inr (header_text env request @ req_data request @ end_sequence)"
proof -
  obtain to rs where to: "req_to request = to # rs"
    using smtp_mail_okD(2) [OF ok] by (cases "req_to request") auto
  have "crop_data (req_data request) = req_data request"
    using ok by (simp add: smtp_mail_ok_def crop_data_id)
  moreover have "length (header_text env request @ req_data request @ end_sequence) \<le> space"
    using ok to by (simp add: smtp_mail_ok_def header_text_def header_lines_def end_sequence_def)
  ultimately show ?thesis
    using c to
    by (simp add: smtp_client_defs smtp_stream_def smtp_texts_def message_header_def header_text_def
        header_lines_def copy_texts_fit net_simps)
qed

lemma turn_message:
  assumes ok: "smtp_mail_ok env space a conf request" and c: "has_connection c" "protocolState c = SMTP_STATE_DATA_SENT"
    and sv: "sv_phase sv = Mail_data" "sv_buffer sv = []"
  shows "turn env space conf request ([(354, t)], c, sv)
           = Inr ([(250, [])], c\<lparr>protocolState := SMTP_STATE_DATA_2_SENT\<rparr>,
                  delivered (header_lines env request @ text_lines (req_data request)) sv)"
proof -
  have "\<forall>l \<in> set (text_lines (header_text env request @ req_data request)). take 1 l \<noteq> ''.''"
    using ok by (auto simp: text_lines_header [OF ok] smtp_mail_ok_def header_lines_def)
  then have "serve (header_text env request @ req_data request @ end_sequence) sv
      = ([(250, [])], delivered (header_lines env request @ text_lines (req_data request)) sv)"
    using serve_message [OF sv, of "header_text env request @ req_data request" "[]"] sv
    by (simp add: text_lines_header [OF ok] serve_def delivered_def split: prod.splits)
  then show ?thesis using streamed_message [OF ok c, of t] by (auto simp: turn.simps)
qed
section \<open>The whole dialogue\<close>

lemma dialogue_add:
  "dialogue env space conf request (m + n) t
     = run_bind (dialogue env space conf request m t) (dialogue env space conf request n)"
  by (induction m arbitrary: t) (auto simp: run_bind_def split: sum.splits)

lemma dialogue_trans:
  "dialogue env space conf request m t = Inr t' \<Longrightarrow> dialogue env space conf request n t' = Inr t'' \<Longrightarrow>
   dialogue env space conf request (m + n) t = Inr t''"
  by (simp add: dialogue_add)

lemma dialogue_more:
  assumes "dialogue env space conf request n t = Inr ([], c, sv)" and "n \<le> m"
  shows "dialogue env space conf request m t = Inr ([], c, sv)"
proof -
  have "dialogue env space conf request k ([], c, sv) = Inr ([], c, sv)" for k
    by (induction k) (simp_all add: turn.simps)
  with assms show ?thesis
    using dialogue_add [of env space conf request n "m - n" t] by simp
qed

lemma serve_line_commands:
  assumes "sv_phase sv = Commands"
  shows "serve_line (''EHLO ['' @ x) sv = ([(250, sv_extensions sv)], sv\<lparr>sv_from := None, sv_to := []\<rparr>)"
    and "serve_line ''STARTTLS'' sv = ([(220, [])], sv\<lparr>sv_tls := True\<rparr>)"
    and "serve_line ''AUTH LOGIN'' sv = ([(334, [])], sv\<lparr>sv_phase := Username\<rparr>)"
    and "serve_line ''QUIT'' sv = ([(221, [])], sv)"
    and "serve_line (''MAIL FROM:<'' @ x @ ''>'') sv = ([(250, [])], sv\<lparr>sv_from := Some x, sv_to := []\<rparr>)"
    and "sv_from sv \<noteq> None \<Longrightarrow>
           serve_line (''RCPT TO:<'' @ x @ ''>'') sv = ([(250, [])], sv\<lparr>sv_to := sv_to sv @ [x]\<rparr>)"
    and "sv_from sv \<noteq> None \<Longrightarrow> sv_to sv \<noteq> [] \<Longrightarrow>
           serve_line ''DATA'' sv = ([(354, [])], sv\<lparr>sv_phase := Mail_data, sv_lines := []\<rparr>)"
  using assms by (auto simp: serve_line_def serve_command_def path_argument_def butlast_append)

lemma serve_line_credentials:
  "sv_phase sv = Username \<Longrightarrow> serve_line x sv = ([(334, [])], sv\<lparr>sv_phase := Password, sv_credentials := [x]\<rparr>)"
  "sv_phase sv = Password \<Longrightarrow>
     serve_line x sv = ([(235, [])], sv\<lparr>sv_phase := Commands, sv_credentials := sv_credentials sv @ [x]\<rparr>)"
  by (simp_all add: serve_line_def)

lemmas serve_line_simps =
  serve_line_commands [unfolded append_Cons append_Nil] serve_line_credentials

lemma dialogue_hello:
  assumes ok: "smtp_mail_ok env space a conf request"
    and c: "protocolState c = SMTP_STATE_INVALID" "has_connection c" "\<not> STARTTLSSent c"
    and sv: "sv_phase sv = Commands" "sv_buffer sv = []" "\<not> sv_tls sv"
  shows "\<exists>n \<le> 3. dialogue env space conf request n ([(220, [])], c, sv)
     = Inr ([(250, sv_extensions sv)],
            c\<lparr>protocolState := SMTP_STATE_EHLO_SENT, STARTTLSSent := req_useSTARTTLS request\<rparr>,
            sv\<lparr>sv_from := None, sv_to := [], sv_tls := req_useSTARTTLS request\<rparr>)"
proof -
  let ?c1 = "c\<lparr>protocolState := SMTP_STATE_EHLO_SENT\<rparr>" and ?sv1 = "sv\<lparr>sv_from := None, sv_to := []\<rparr>"
  have 1: "turn env space conf request ([(220, [])], c, sv) = Inr ([(250, sv_extensions sv)], ?c1, ?sv1)"
    using turn_answer [OF answer_greeting [OF ok, of c "[]"], of sv] c sv by (simp add: serve_line_simps)
  show ?thesis
  proof (cases "req_useSTARTTLS request")
    case False
    with 1 c sv have "dialogue env space conf request 1 ([(220, [])], c, sv)
        = Inr ([(250, sv_extensions sv)], ?c1\<lparr>STARTTLSSent := False\<rparr>, ?sv1\<lparr>sv_tls := False\<rparr>)"
      by simp
    with False show ?thesis by (intro exI [of _ 1]) simp
  next
    case True
    let ?c2 = "?c1\<lparr>protocolState := SMTP_STATE_STARTTLS_SENT, STARTTLSSent := True\<rparr>"
    have 2: "turn env space conf request ([(250, sv_extensions sv)], ?c1, ?sv1)
        = Inr ([(220, [])], ?c2, ?sv1\<lparr>sv_tls := True\<rparr>)"
      using turn_answer [OF answer_starttls [OF ok, of ?c1 "sv_extensions sv"], of ?sv1] True c sv
      by (simp add: serve_line_simps)
    have "turn env space conf request ([(220, [])], ?c2, ?sv1\<lparr>sv_tls := True\<rparr>)
        = Inr ([(250, sv_extensions sv)], ?c2\<lparr>protocolState := SMTP_STATE_EHLO_SENT\<rparr>, ?sv1\<lparr>sv_tls := True\<rparr>)"
      using turn_answer [OF answer_greeting [OF ok, of ?c2 "[]"], of "?sv1\<lparr>sv_tls := True\<rparr>"] c sv
      by (simp add: serve_line_simps)
    with 1 2 True show ?thesis by (intro exI [of _ 3]) (simp add: numeral_3_eq_3)
  qed
qed

lemma dialogue_login:
  assumes ok: "smtp_mail_ok env space a conf request"
    and c: "protocolState c = SMTP_STATE_EHLO_SENT" "has_connection c" "STARTTLSSent c = req_useSTARTTLS request"
    and sv: "sv_phase sv = Commands" "sv_buffer sv = []" "sv_credentials sv = []"
  shows "\<exists>n \<le> 4. dialogue env space conf request n ([(250, t)], c, sv)
     = Inr ([(250, [])], c\<lparr>protocolState := SMTP_STATE_MAIL_SENT\<rparr>,
            sv\<lparr>sv_credentials := if ''LOGIN'' \<in> set (authentication_mechanisms t)
                 then [encodeBase64 env (conf_username conf), encodeBase64 env (conf_password conf)] else [],
               sv_from := Some (req_from request), sv_to := []\<rparr>)"
proof (cases "''LOGIN'' \<in> set (authentication_mechanisms t)")
  case False
  then have "turn env space conf request ([(250, t)], c, sv)
      = Inr ([(250, [])], c\<lparr>protocolState := SMTP_STATE_MAIL_SENT\<rparr>,
             sv\<lparr>sv_credentials := [], sv_from := Some (req_from request), sv_to := []\<rparr>)"
    using turn_answer [OF answer_ehlo(2) [OF ok, of c t], of sv] c sv by (simp add: serve_line_simps)
  with False show ?thesis by (intro exI [of _ 1]) simp
next
  case True
  let ?c1 = "c\<lparr>protocolState := SMTP_STATE_AUTH_SENT\<rparr>" and ?sv1 = "sv\<lparr>sv_phase := Username\<rparr>"
  let ?c2 = "?c1\<lparr>protocolState := SMTP_STATE_AUTH_LOGIN_USER_SENT\<rparr>"
  let ?sv2 = "?sv1\<lparr>sv_phase := Password, sv_credentials := [encodeBase64 env (conf_username conf)]\<rparr>"
  let ?c3 = "?c2\<lparr>protocolState := SMTP_STATE_AUTH_LOGIN_PASSWORD_SENT\<rparr>"
  let ?sv3 = "?sv2\<lparr>sv_phase := Commands, sv_credentials := sv_credentials ?sv2 @ [encodeBase64 env (conf_password conf)]\<rparr>"
  have 1: "turn env space conf request ([(250, t)], c, sv) = Inr ([(334, [])], ?c1, ?sv1)"
    using turn_answer [OF answer_ehlo(1) [OF ok, of c t], of sv] True c sv by (simp add: serve_line_simps)
  have 2: "turn env space conf request ([(334, [])], ?c1, ?sv1) = Inr ([(334, [])], ?c2, ?sv2)"
    using turn_answer [OF answer_auth(1) [OF ok, of ?c1 "[]"], of ?sv1] c sv by (simp add: serve_line_simps)
  have 3: "turn env space conf request ([(334, [])], ?c2, ?sv2) = Inr ([(235, [])], ?c3, ?sv3)"
    using turn_answer [OF answer_auth(2) [OF ok, of ?c2 "[]"], of ?sv2] c sv by (simp add: serve_line_simps)
  have "turn env space conf request ([(235, [])], ?c3, ?sv3)
      = Inr ([(250, [])], ?c3\<lparr>protocolState := SMTP_STATE_MAIL_SENT\<rparr>,
             ?sv3\<lparr>sv_from := Some (req_from request), sv_to := []\<rparr>)"
    using turn_answer [OF answer_auth(3) [OF ok, of ?c3 "[]"], of ?sv3] c sv by (simp add: serve_line_simps)
  with 1 2 3 True sv show ?thesis by (intro exI [of _ 4]) (cases sv, simp add: eval_nat_numeral)
qed

lemma dialogue_recipients:
  assumes ok: "smtp_mail_ok env space a conf request" and "set rs \<subseteq> set (req_to request)"
    and "protocolState c = SMTP_STATE_RCPT_SENT" "has_connection c" "recipients c = rs"
    and "sv_phase sv = Commands" "sv_buffer sv = []" "sv_from sv \<noteq> None" "sv_to sv \<noteq> []"
  shows "dialogue env space conf request (Suc (length rs)) ([(250, [])], c, sv)
     = Inr ([(354, [])], c\<lparr>protocolState := SMTP_STATE_DATA_SENT, recipients := []\<rparr>,
            sv\<lparr>sv_phase := Mail_data, sv_lines := [], sv_to := sv_to sv @ rs\<rparr>)"
  using assms(2-)
proof (induction rs arbitrary: c sv)
  case Nil
  then have "turn env space conf request ([(250, [])], c, sv)
      = Inr ([(354, [])], c\<lparr>protocolState := SMTP_STATE_DATA_SENT\<rparr>, sv\<lparr>sv_phase := Mail_data, sv_lines := []\<rparr>)"
    using turn_answer [of env space conf request "(250, [])" c "''DATA''"] answer_rcpt [OF ok, of c "[]"]
    by (simp add: serve_line_simps)
  with Nil show ?case by (cases c, cases sv) simp
next
  case (Cons r rs)
  then have "turn env space conf request ([(250, [])], c, sv)
      = Inr ([(250, [])], c\<lparr>recipients := rs\<rparr>, sv\<lparr>sv_to := sv_to sv @ [r]\<rparr>)"
    using turn_answer [of env space conf request "(250, [])" c "''RCPT TO:<'' @ r @ ''>''"] answer_rcpt [OF ok, of c "[]"]
    by (simp add: serve_line_simps)
  with Cons Cons.IH [of "c\<lparr>recipients := rs\<rparr>" "sv\<lparr>sv_to := sv_to sv @ [r]\<rparr>"] show ?case
    by simp
qed

lemma dialogue_close:
  assumes ok: "smtp_mail_ok env space a conf request"
    and c: "protocolState c = SMTP_STATE_DATA_SENT" "has_connection c"
    and sv: "sv_phase sv = Mail_data" "sv_buffer sv = []"
  shows "dialogue env space conf request 3 ([(354, [])], c, sv)
     = Inr ([], c\<lparr>protocolState := SMTP_STATE_INVALID\<rparr>,
            delivered (header_lines env request @ text_lines (req_data request)) sv)"
proof -
  let ?c1 = "c\<lparr>protocolState := SMTP_STATE_DATA_2_SENT\<rparr>" and ?c2 = "c\<lparr>protocolState := SMTP_STATE_QUIT_SENT\<rparr>"
  let ?sv = "delivered (header_lines env request @ text_lines (req_data request)) sv"
  have phase: "sv_phase ?sv = Commands" by (simp add: delivered_def)
  have 1: "turn env space conf request ([(354, [])], c, sv) = Inr ([(250, [])], ?c1, ?sv)"
    by (rule turn_message [OF ok c(2,1) sv])
  have 2: "turn env space conf request ([(250, [])], ?c1, ?sv) = Inr ([(221, [])], ?c2, ?sv)"
    using turn_answer [OF answer_message [OF ok, of ?c1 "[]"], of ?sv] c sv phase by (simp add: serve_line_simps)
  have "turn env space conf request ([(221, [])], ?c2, ?sv) = Inr ([], c\<lparr>protocolState := SMTP_STATE_INVALID\<rparr>, ?sv)"
    using c by (simp add: smtp_client_defs turn.simps)
  with 1 2 show ?thesis by (simp add: numeral_3_eq_3)
qed

section \<open>Any sequence of replies\<close>

text \<open>The requests the module sends in answer to a sequence of replies, none of the allocations failing.\<close>

fun smtp_answers ::
    "'addr smtp_env \<Rightarrow> 'addr SMTP_ProtocolConfiguration \<Rightarrow> 'addr SMTP_Request \<Rightarrow> smtp_reply list
     \<Rightarrow> SMTP_Module_Send \<Rightarrow> ('addr SMTP_Request list \<times> SMTP_Module_Send) run" where
  "smtp_answers env conf request [] s = Inr ([], s)"
| "smtp_answers env conf request (reply # replies) s =
     run_bind (smtp_handleDataMessage env plentiful conf request
                 ((new_SMTP_Record env)\<lparr>smtp_code := fst reply, smtp_text := snd reply\<rparr>) s) (\<lambda>(m, s').
     run_bind (smtp_answers env conf request replies s') (\<lambda>(ds, s'').
       Inr (case m of None \<Rightarrow> ds | Some r \<Rightarrow> smtp_request r # ds, s'')))"

definition without_quit :: "'addr SMTP_Request list \<Rightarrow> 'addr SMTP_Request list" where
  "without_quit ds = filter (\<lambda>d. req_command d \<noteq> SMTP_COMMAND_QUIT) ds"

definition tls_requested :: "'addr SMTP_Request \<Rightarrow> 'addr SMTP_Request list \<Rightarrow> bool" where
  "tls_requested request ds \<longleftrightarrow> (req_useSTARTTLS request \<longrightarrow> SMTP_COMMAND_STARTTLS \<in> req_command ` set ds)"

definition transaction :: "'addr smtp_env \<Rightarrow> 'addr SMTP_Request \<Rightarrow> string list \<Rightarrow> 'addr SMTP_Request list" where
  "transaction env request rs =
     send_mail request (new_SMTP_Request env) # map (\<lambda>r. send_rcpt request r (new_SMTP_Request env)) rs"

definition log_ends :: "'addr SMTP_Request \<Rightarrow> 'addr SMTP_Request list \<Rightarrow> 'addr SMTP_Request list \<Rightarrow> bool" where
  "log_ends request log ds \<longleftrightarrow> (\<exists>ws. log = ws @ ds \<and> tls_requested request ws)"

definition data_request :: "'addr smtp_env \<Rightarrow> 'addr SMTP_Request" where
  "data_request env = (new_SMTP_Request env)\<lparr>req_command := SMTP_COMMAND_DATA\<rparr>"

text \<open>What the module's state says of the commands it has sent so far.\<close>

definition smtp_log_inv ::
    "'addr smtp_env \<Rightarrow> 'addr SMTP_Request \<Rightarrow> 'addr SMTP_Request list \<Rightarrow> SMTP_Module_Send \<Rightarrow> bool" where
  "smtp_log_inv env request log s \<longleftrightarrow>
     has_connection s
     \<and> (STARTTLSSent s \<longrightarrow> SMTP_COMMAND_STARTTLS \<in> req_command ` set log)
     \<and> (case protocolState s of
          SMTP_STATE_AUTH_SENT \<Rightarrow> tls_requested request log
        | SMTP_STATE_AUTH_LOGIN_USER_SENT \<Rightarrow> tls_requested request log
        | SMTP_STATE_AUTH_LOGIN_PASSWORD_SENT \<Rightarrow> tls_requested request log
        | SMTP_STATE_MAIL_SENT \<Rightarrow> log_ends request log (transaction env request [])
        | SMTP_STATE_RCPT_SENT \<Rightarrow>
            \<exists>rs. rs @ recipients s = req_to request \<and> log_ends request log (transaction env request rs)
        | SMTP_STATE_DATA_SENT \<Rightarrow>
            log_ends request log (transaction env request (req_to request) @ [data_request env])
        | SMTP_STATE_AUTH_COMPLETE \<Rightarrow> False | SMTP_STATE_RCPTS_SENT \<Rightarrow> False | SMTP_STATE_MAX \<Rightarrow> False
        | _ \<Rightarrow> True)"

definition log_of :: "'addr SMTP_Record option \<Rightarrow> 'addr SMTP_Request list" where
  "log_of m = (case m of None \<Rightarrow> [] | Some r \<Rightarrow> without_quit [smtp_request r])"

lemma log_ends_append: "log_ends request log ds \<Longrightarrow> log_ends request (log @ es) (ds @ es)"
  by (auto simp: log_ends_def)

lemma log_ends_here: "tls_requested request log \<Longrightarrow> log_ends request (log @ ds) ds"
  by (auto simp: log_ends_def)

lemma transaction_snoc:
  "transaction env request rs @ [send_rcpt request r (new_SMTP_Request env)] = transaction env request (rs @ [r])"
  by (simp add: transaction_def)

lemmas smtp_step_defs =
  smtp_handleDataMessage_def smtp_switch_def expect_def advance_def smtp_send_def plentiful_def
  smtp_rcpts_sent_def new_SMTP_Record_def smtp_log_inv_def log_of_def without_quit_def

lemma request_commands [simp]:
  "req_command (send_ehlo conf d) = SMTP_COMMAND_EHLO"
  "req_command (send_mail request d) = SMTP_COMMAND_MAIL"
  "req_command (send_rcpt request r d) = SMTP_COMMAND_RCPT"
  by (simp_all add: send_ehlo_def send_mail_def send_rcpt_def)

lemma smtp_step:
  assumes "smtp_log_inv env request log s" "req_to request \<noteq> []"
  shows "\<exists>m s'. smtp_handleDataMessage env plentiful conf request
                 ((new_SMTP_Record env)\<lparr>smtp_code := code, smtp_text := t\<rparr>) s = Inr (m, s')
           \<and> smtp_log_inv env request (log @ log_of m) s'
           \<and> (\<forall>r. m = Some r \<longrightarrow> req_command (smtp_request r) = SMTP_COMMAND_DATA_2 \<longrightarrow>
                log_ends request log (transaction env request (req_to request) @ [data_request env]))"
proof (cases "protocolState s")
  case SMTP_STATE_EHLO_SENT
  with assms show ?thesis
    by (cases "smtp_isSuccess code"; cases "req_useSTARTTLS request \<and> \<not> STARTTLSSent s";
        cases "''LOGIN'' \<in> set (authentication_mechanisms t)")
       (auto simp: smtp_step_defs transaction_def tls_requested_def Let_def intro!: log_ends_here)
next
  case SMTP_STATE_AUTH_LOGIN_PASSWORD_SENT
  with assms show ?thesis
    by (cases "smtp_isSuccess code") (auto simp: smtp_step_defs transaction_def intro!: log_ends_here)
next
  case SMTP_STATE_MAIL_SENT
  with assms obtain r rs where "req_to request = r # rs"
    by (cases "req_to request") auto
  with assms SMTP_STATE_MAIL_SENT show ?thesis
    using log_ends_append [of request log "transaction env request []" "[send_rcpt request r (new_SMTP_Request env)]"]
      transaction_snoc [of env request "[]" r]
    by (cases "smtp_isSuccess code") (auto simp: smtp_step_defs intro!: exI [of _ "[r]"])
next
  case SMTP_STATE_RCPT_SENT
  with assms obtain rs where rs: "rs @ recipients s = req_to request" "log_ends request log (transaction env request rs)"
    by (auto simp: smtp_log_inv_def)
  show ?thesis
  proof (cases "recipients s")
    case Nil
    with assms rs SMTP_STATE_RCPT_SENT show ?thesis
      using log_ends_append [OF rs(2), of "[data_request env]"]
      by (cases "smtp_isSuccess code") (auto simp: smtp_step_defs data_request_def)
  next
    case (Cons r rs')
    with assms rs SMTP_STATE_RCPT_SENT show ?thesis
      using log_ends_append [OF rs(2), of "[send_rcpt request r (new_SMTP_Request env)]"]
      by (cases "smtp_isSuccess code") (auto simp: smtp_step_defs transaction_snoc intro!: exI [of _ "rs @ [r]"])
  qed
qed (use assms in \<open>auto simp: smtp_step_defs tls_requested_def\<close>)

lemma smtp_answers_log:
  assumes "smtp_log_inv env request log s" "req_to request \<noteq> []"
  shows "\<exists>ds s'. smtp_answers env conf request replies s = Inr (ds, s')
    \<and> (\<forall>us d vs. ds = us @ d # vs \<longrightarrow> req_command d = SMTP_COMMAND_DATA_2 \<longrightarrow>
          log_ends request (log @ without_quit us)
            (transaction env request (req_to request) @ [data_request env]))"
  using assms(1)
proof (induction replies arbitrary: log s)
  case (Cons reply replies)
  obtain code t where reply: "reply = (code, t)" by force
  obtain m s' where step: "smtp_handleDataMessage env plentiful conf request
        ((new_SMTP_Record env)\<lparr>smtp_code := code, smtp_text := t\<rparr>) s = Inr (m, s')"
      "smtp_log_inv env request (log @ log_of m) s'"
      "\<forall>r. m = Some r \<longrightarrow> req_command (smtp_request r) = SMTP_COMMAND_DATA_2 \<longrightarrow>
         log_ends request log (transaction env request (req_to request) @ [data_request env])"
    using smtp_step [OF Cons.prems assms(2), where conf = conf and code = code and t = t] by blast
  show ?case
  proof (cases m)
    case None
    with Cons.IH [OF step(2)] step(1) reply show ?thesis by (auto simp: log_of_def)
  next
    case (Some r)
    with Cons.IH [OF step(2)] step reply show ?thesis
      by (auto simp: log_of_def without_quit_def Cons_eq_append_conv)
  qed
qed simp

section \<open>Properties\<close>

definition connected_client :: SMTP_Module_Send where
  "connected_client = new_SMTP_Module_Send\<lparr>has_connection := True\<rparr>"

lemma dialogue_mail:
  assumes ok: "smtp_mail_ok env space a conf request"
    and c: "protocolState c = SMTP_STATE_MAIL_SENT" "has_connection c"
    and sv: "sv_phase sv = Commands" "sv_buffer sv = []" "sv_from sv = Some p" "sv_to sv = []"
  shows "dialogue env space conf request (4 + length (req_to request)) ([(250, [])], c, sv)
     = Inr ([], c\<lparr>protocolState := SMTP_STATE_INVALID, recipients := []\<rparr>,
            delivered (header_lines env request @ text_lines (req_data request))
              (sv\<lparr>sv_phase := Mail_data, sv_lines := [], sv_to := req_to request\<rparr>))"
proof -
  obtain r rs where to: "req_to request = r # rs"
    using smtp_mail_okD(2) [OF ok] by (cases "req_to request") auto
  let ?c1 = "c\<lparr>protocolState := SMTP_STATE_RCPT_SENT, recipients := rs\<rparr>" and ?sv1 = "sv\<lparr>sv_to := [r]\<rparr>"
  let ?c2 = "?c1\<lparr>protocolState := SMTP_STATE_DATA_SENT, recipients := []\<rparr>"
  let ?sv2 = "?sv1\<lparr>sv_phase := Mail_data, sv_lines := [], sv_to := sv_to ?sv1 @ rs\<rparr>"
  have 1: "dialogue env space conf request 1 ([(250, [])], c, sv) = Inr ([(250, [])], ?c1, ?sv1)"
    using turn_answer [OF answer_mail [OF ok c(2,1) to, of "[]"], of sv] sv by (simp add: serve_line_simps)
  have 2: "dialogue env space conf request (Suc (length rs)) ([(250, [])], ?c1, ?sv1) = Inr ([(354, [])], ?c2, ?sv2)"
    by (rule dialogue_recipients [OF ok]) (use c sv to in auto)
  have "dialogue env space conf request 3 ([(354, [])], ?c2, ?sv2)
      = Inr ([], ?c2\<lparr>protocolState := SMTP_STATE_INVALID\<rparr>,
             delivered (header_lines env request @ text_lines (req_data request)) ?sv2)"
    by (rule dialogue_close [OF ok]) (use c sv in auto)
  note all = dialogue_trans [OF 1 dialogue_trans [OF 2 this]]
  have "1 + (Suc (length rs) + 3) = 4 + length (req_to request)" by (simp add: to)
  with all sv show ?thesis by (simp only:) (simp add: to)
qed

lemma dialogue_delivers:
  assumes ok: "smtp_mail_ok env space a conf request"
    and c: "protocolState c = SMTP_STATE_INVALID" "has_connection c" "\<not> STARTTLSSent c"
  shows "\<exists>n c' sv. n \<le> 11 + length (req_to request)
     \<and> dialogue env space conf request n ([(220, [])], c, new_server extensions) = Inr ([], c', sv)
     \<and> protocolState c' = SMTP_STATE_INVALID \<and> sv_tls sv = req_useSTARTTLS request
     \<and> sv_credentials sv = (if ''LOGIN'' \<in> set (authentication_mechanisms extensions)
          then [encodeBase64 env (conf_username conf), encodeBase64 env (conf_password conf)] else [])
     \<and> sv_mailbox sv = [(req_from request, req_to request, header_lines env request @ text_lines (req_data request))]"
proof -
  let ?sv = "new_server extensions"
  let ?c1 = "c\<lparr>protocolState := SMTP_STATE_EHLO_SENT, STARTTLSSent := req_useSTARTTLS request\<rparr>"
  let ?sv1 = "?sv\<lparr>sv_from := None, sv_to := [], sv_tls := req_useSTARTTLS request\<rparr>"
  have sv: "sv_phase ?sv = Commands" "sv_buffer ?sv = []" "\<not> sv_tls ?sv" "sv_credentials ?sv = []"
      "sv_extensions ?sv = extensions" "sv_mailbox ?sv = []"
    by (simp_all add: new_server_def)
  obtain n1 where 1: "n1 \<le> 3" "dialogue env space conf request n1 ([(220, [])], c, ?sv) = Inr ([(250, extensions)], ?c1, ?sv1)"
    using dialogue_hello [OF ok c sv(1-3)] sv by auto
  let ?c2 = "?c1\<lparr>protocolState := SMTP_STATE_MAIL_SENT\<rparr>"
  let ?sv2 = "?sv1\<lparr>sv_credentials := if ''LOGIN'' \<in> set (authentication_mechanisms extensions)
      then [encodeBase64 env (conf_username conf), encodeBase64 env (conf_password conf)] else [],
      sv_from := Some (req_from request), sv_to := []\<rparr>"
  have "\<exists>n \<le> 4. dialogue env space conf request n ([(250, extensions)], ?c1, ?sv1) = Inr ([(250, [])], ?c2, ?sv2)"
    by (rule dialogue_login [OF ok]) (use c sv in simp_all)
  then obtain n2 where 2: "n2 \<le> 4" "dialogue env space conf request n2 ([(250, extensions)], ?c1, ?sv1) = Inr ([(250, [])], ?c2, ?sv2)"
    by blast
  have 3: "dialogue env space conf request (4 + length (req_to request)) ([(250, [])], ?c2, ?sv2)
      = Inr ([], ?c2\<lparr>protocolState := SMTP_STATE_INVALID, recipients := []\<rparr>,
            delivered (header_lines env request @ text_lines (req_data request))
              (?sv2\<lparr>sv_phase := Mail_data, sv_lines := [], sv_to := req_to request\<rparr>))"
    by (rule dialogue_mail [OF ok, where p = "req_from request"]) (use c sv in simp_all)
  note all = dialogue_trans [OF 1(2) dialogue_trans [OF 2(2) 3]]
  show ?thesis
    by (rule exI, rule exI, rule exI, rule conjI [OF _ conjI [OF all]])
       (use 1(1) 2(1) sv in \<open>simp_all add: delivered_def\<close>)
qed

text \<open>C6: The SMTP client delivers its mail. Against the reference server, whatever extensions
  that announces, a dialogue that starts with the server's greeting ends with the client back in
  its initial state and nothing left to answer: the server was asked for TLS exactly when the
  request says so, was given the credentials exactly when it offers \<open>LOGIN\<close>, and its mailbox holds
  one mail with the requested sender, all recipients in order, and the header (without the subject,
  and with the first recipient only) followed by the lines of the data.\<close>

theorem smtp_mail_is_delivered:
  assumes "smtp_mail_ok env space a conf request" and "11 + length (req_to request) \<le> n"
  shows "\<exists>c sv. dialogue env space conf request n ([(220, [])], connected_client, new_server extensions) = Inr ([], c, sv)
     \<and> protocolState c = SMTP_STATE_INVALID \<and> sv_tls sv = req_useSTARTTLS request
     \<and> sv_credentials sv = (if ''LOGIN'' \<in> set (authentication_mechanisms extensions)
          then [encodeBase64 env (conf_username conf), encodeBase64 env (conf_password conf)] else [])
     \<and> sv_mailbox sv = [(req_from request, req_to request, header_lines env request @ text_lines (req_data request))]"
proof -
  have "protocolState connected_client = SMTP_STATE_INVALID" "has_connection connected_client"
      "\<not> STARTTLSSent connected_client"
    by (simp_all add: connected_client_def new_SMTP_Module_Send_def)
  from dialogue_delivers [OF assms(1) this, of extensions] show ?thesis
    using dialogue_more order_trans [OF _ assms(2)] by blast
qed

definition witness_env :: "nat smtp_env" where
  "witness_env = \<lparr>ACE_LOCALHOST = 0, addr_text = (\<lambda>_ _. Some ''10.0.0.1:0''), addr_is_ipv6 = (\<lambda>_. False),
     encodeBase64 = (\<lambda>s. if s = ''me'' then ''bWU='' else ''cHc=''), strftime = (\<lambda>_. Some ''Mon'')\<rparr>"

definition witness_conf :: "nat SMTP_ProtocolConfiguration" where
  "witness_conf = \<lparr>conf_domain = 1, conf_username = ''me'', conf_password = ''pw''\<rparr>"

definition witness_request :: "nat SMTP_Request" where
  "witness_request = \<lparr>req_command = SMTP_COMMAND_INVALID, req_domain = 0, req_useSTARTTLS = True, req_from = ''a@b'',
     req_parameters = [], req_to = [''c@d'', ''e@f''], req_subject = ''s'', req_data = ''hi''\<rparr>"

lemmas smtp_witness_defs = witness_env_def witness_conf_def witness_request_def

lemma witness_mail_ok: "smtp_mail_ok witness_env 100 ''10.0.0.1'' witness_conf witness_request"
  by (simp add: smtp_mail_ok_def smtp_witness_defs IPAddressToString_def cut_last_colon_def
      getHeaderDateString_def text_lines_def npos_def)

theorem smtp_mail_is_delivered_witness:
  "\<exists>c sv. dialogue witness_env 100 witness_conf witness_request 13
             ([(220, [])], connected_client, new_server [''mx'', ''AUTH LOGIN'']) = Inr ([], c, sv)
     \<and> protocolState c = SMTP_STATE_INVALID \<and> sv_tls sv
     \<and> sv_credentials sv = [''bWU='', ''cHc='']
     \<and> map (\<lambda>(p, to, ls). (p, to, last ls)) (sv_mailbox sv) = [(''a@b'', [''c@d'', ''e@f''], ''hi'')]"
proof -
  have "length (req_to witness_request) = 2" by (simp add: smtp_witness_defs)
  then obtain c sv where "dialogue witness_env 100 witness_conf witness_request 13
             ([(220, [])], connected_client, new_server [''mx'', ''AUTH LOGIN'']) = Inr ([], c, sv)"
    and "protocolState c = SMTP_STATE_INVALID" "sv_tls sv = req_useSTARTTLS witness_request"
    and "sv_credentials sv = (if ''LOGIN'' \<in> set (authentication_mechanisms [''mx'', ''AUTH LOGIN''])
          then [encodeBase64 witness_env (conf_username witness_conf), encodeBase64 witness_env (conf_password witness_conf)] else [])"
    and "sv_mailbox sv = [(req_from witness_request, req_to witness_request,
          header_lines witness_env witness_request @ text_lines (req_data witness_request))]"
    using smtp_mail_is_delivered [OF witness_mail_ok, of 13 "[''mx'', ''AUTH LOGIN'']"] by auto
  then show ?thesis
    by (simp add: smtp_witness_defs text_lines_def del: dialogue.simps)
qed

text \<open>C13: The order of a mail transaction, for any replies of any server. The send module never fails
  an assertion when there is a recipient, and whenever it sends the message, the commands it sent
  before, \<open>QUIT\<close> aside, end with \<open>MAIL\<close>, one \<open>RCPT\<close> for every recipient in order, and \<open>DATA\<close>; if TLS
  is requested, \<open>STARTTLS\<close> was sent before that.\<close>

theorem smtp_transaction_order:
  assumes "req_to request \<noteq> []"
  shows "\<exists>ds s. smtp_answers env conf request replies connected_client = Inr (ds, s)
    \<and> (\<forall>us d vs. ds = us @ d # vs \<longrightarrow> req_command d = SMTP_COMMAND_DATA_2 \<longrightarrow>
         (\<exists>ws. without_quit us = ws @ transaction env request (req_to request) @ [data_request env]
               \<and> tls_requested request ws))"
proof -
  have "smtp_log_inv env request [] connected_client"
    by (simp add: smtp_log_inv_def connected_client_def new_SMTP_Module_Send_def)
  from smtp_answers_log [OF this assms, of conf replies] show ?thesis
    by (simp add: log_ends_def)
qed

theorem smtp_transaction_order_witness:
  "\<exists>ds s. smtp_answers witness_env witness_conf witness_request
            [(220, []), (250, []), (220, []), (250, []), (250, []), (550, []), (250, []), (250, []), (354, [])] connected_client
          = Inr (ds, s)
    \<and> (\<exists>ws. without_quit (butlast ds) = ws @ transaction witness_env witness_request [''c@d'', ''e@f''] @ [data_request witness_env]
            \<and> SMTP_COMMAND_STARTTLS \<in> req_command ` set ws)"
proof -
  let ?replies = "[(220, []), (250, []), (220, []), (250, []), (250, []), (550, []), (250, []), (250, []), (354, [])]"
  have to: "req_to witness_request = [''c@d'', ''e@f'']" and tls: "req_useSTARTTLS witness_request"
    by (simp_all add: smtp_witness_defs)
  obtain ds s where ds: "smtp_answers witness_env witness_conf witness_request ?replies connected_client = Inr (ds, s)"
    and order: "\<forall>us d vs. ds = us @ d # vs \<longrightarrow> req_command d = SMTP_COMMAND_DATA_2 \<longrightarrow>
         (\<exists>ws. without_quit us = ws @ transaction witness_env witness_request (req_to witness_request) @ [data_request witness_env]
               \<and> tls_requested witness_request ws)"
    using smtp_transaction_order [of witness_request witness_env witness_conf ?replies] to by auto
  then have "ds \<noteq> []" "req_command (last ds) = SMTP_COMMAND_DATA_2"
    by (auto simp: smtp_client_defs smtp_witness_defs connected_client_def new_SMTP_Module_Send_def net_simps)
  then have "ds = butlast ds @ last ds # []" by simp
  with order \<open>req_command (last ds) = SMTP_COMMAND_DATA_2\<close> ds to tls show ?thesis
    unfolding tls_requested_def by (metis (no_types, lifting))
qed

text \<open>A rejected command. When the server answers \<open>EHLO\<close>, \<open>STARTTLS\<close>, the password, \<open>MAIL\<close>, \<open>RCPT\<close>
  or the message with an error, the module sends \<open>QUIT\<close> and keeps its state; so it takes the server's
  answer 221 to \<open>QUIT\<close> for the acceptance of the rejected command and goes on exactly as after
  250.\<close>

lemma rejected_command_goes_on:
  assumes "has_connection s" "\<not> smtp_isSuccess code"
    and "protocolState s \<in> {SMTP_STATE_EHLO_SENT, SMTP_STATE_STARTTLS_SENT, SMTP_STATE_AUTH_LOGIN_PASSWORD_SENT,
           SMTP_STATE_MAIL_SENT, SMTP_STATE_RCPT_SENT, SMTP_STATE_DATA_2_SENT}"
  shows "smtp_handleDataMessage env plentiful conf request
           ((new_SMTP_Record env)\<lparr>smtp_code := code, smtp_text := t\<rparr>) s
         = Inr (Some ((new_SMTP_Record env)\<lparr>smtp_request := (new_SMTP_Request env)\<lparr>req_command := SMTP_COMMAND_QUIT\<rparr>\<rparr>), s)
     \<and> smtp_handleDataMessage env plentiful conf request
           ((new_SMTP_Record env)\<lparr>smtp_code := 221, smtp_text := t'\<rparr>) s
         = smtp_handleDataMessage env plentiful conf request
           ((new_SMTP_Record env)\<lparr>smtp_code := 250, smtp_text := t'\<rparr>) s"
  using assms
  by (auto simp: smtp_handleDataMessage_def smtp_switch_def expect_def smtp_send_def plentiful_def
      new_SMTP_Record_def smtp_isSuccess_def [of 221] smtp_isSuccess_def [of 250])

text \<open>C36: A lost \<open>STARTTLS\<close>. When the message with the \<open>STARTTLS\<close> command cannot be allocated or sent, the
  state goes back to where it was but the command stays marked as sent; at the next positive reply the
  module skips it and authenticates or announces the mail without TLS.\<close>

theorem lost_starttls_is_skipped:
  assumes "has_connection s" "protocolState s = SMTP_STATE_EHLO_SENT" "req_useSTARTTLS request" "\<not> STARTTLSSent s"
    and "smtp_isSuccess code" "smtp_isSuccess code'"
    and "got_record res" "\<not> (got_message res \<and> got_container res \<and> replied res)"
  shows "\<exists>r s'. smtp_handleDataMessage env res conf request
             ((new_SMTP_Record env)\<lparr>smtp_code := code, smtp_text := t\<rparr>) s = Inr (None, s\<lparr>STARTTLSSent := True\<rparr>)
     \<and> smtp_handleDataMessage env plentiful conf request
             ((new_SMTP_Record env)\<lparr>smtp_code := code', smtp_text := t'\<rparr>) (s\<lparr>STARTTLSSent := True\<rparr>) = Inr (Some r, s')
     \<and> req_command (smtp_request r) \<in> {SMTP_COMMAND_AUTH, SMTP_COMMAND_MAIL}"
proof -
  have "\<exists>d s'. smtp_switch env conf request code' t' (s\<lparr>STARTTLSSent := True\<rparr>) = Inr (Send d, s')
      \<and> req_command d \<in> {SMTP_COMMAND_AUTH, SMTP_COMMAND_MAIL}"
    using assms(2-6) by (simp add: smtp_switch_def expect_def advance_def Let_def)
  with assms show ?thesis
    by (cases s) (auto simp: smtp_handleDataMessage_def smtp_switch_def [of _ _ _ code] expect_def advance_def
        smtp_send_def plentiful_def new_SMTP_Record_def)
qed

theorem lost_starttls_is_skipped_witness:
  "\<exists>r s'. smtp_handleDataMessage witness_env plentiful witness_conf witness_request
             ((new_SMTP_Record witness_env)\<lparr>smtp_code := 250, smtp_text := [''AUTH LOGIN'']\<rparr>)
             (connected_client\<lparr>protocolState := SMTP_STATE_EHLO_SENT, STARTTLSSent := True\<rparr>) = Inr (Some r, s')
          \<and> req_command (smtp_request r) \<in> {SMTP_COMMAND_AUTH, SMTP_COMMAND_MAIL}"
  using lost_starttls_is_skipped [of "connected_client\<lparr>protocolState := SMTP_STATE_EHLO_SENT\<rparr>" witness_request 250 250
      "plentiful\<lparr>replied := False\<rparr>" witness_env witness_conf "[]" "[''AUTH LOGIN'']"]
  by (auto simp: smtp_isSuccess_def plentiful_def connected_client_def new_SMTP_Module_Send_def witness_request_def)

text \<open>
  Going back by one state is not the state before: a lost \<open>MAIL\<close> command leaves the module in a state
  in which it ignores every reply.
\<close>

lemma lost_mail_is_stuck:
  assumes "has_connection s" "protocolState s = SMTP_STATE_EHLO_SENT" "STARTTLSSent s = req_useSTARTTLS request"
    and "smtp_isSuccess code" "''LOGIN'' \<notin> set (authentication_mechanisms t)"
    and "got_record res" "\<not> replied res"
  shows "smtp_handleDataMessage env res conf request ((new_SMTP_Record env)\<lparr>smtp_code := code, smtp_text := t\<rparr>) s
         = Inr (None, s\<lparr>protocolState := SMTP_STATE_AUTH_COMPLETE\<rparr>)
     \<and> smtp_handleDataMessage env res' conf request reply (s\<lparr>protocolState := SMTP_STATE_AUTH_COMPLETE\<rparr>)
         = Inr (None, s\<lparr>protocolState := SMTP_STATE_AUTH_COMPLETE\<rparr>)"
  using assms by (auto simp: smtp_handleDataMessage_def smtp_switch_def expect_def advance_def smtp_send_def
      new_SMTP_Record_def Let_def)

text \<open>C35: The end sequence inside a message. The search for it starts behind the end of the data, so the
  data is never cropped: what the streamer writes for data that contains a line with a single dot ends the
  message there, and the server takes the rest of the data for commands.\<close>

theorem end_sequence_smuggles_commands:
  assumes "req_command d = SMTP_COMMAND_DATA_2" "req_to d \<noteq> []" "req_data d = x @ end_sequence @ y" "length (req_data d) < npos"
    and "message_header env d = Inr h" and "length h + length (req_data d) + 5 \<le> space"
    and "sv_phase sv = Mail_data" "sv_buffer sv = []" "\<forall>l \<in> set (text_lines (h @ x)). take 1 l \<noteq> ''.''"
  shows "\<exists>octets. smtp_stream env space [] ((new_SMTP_Record env)\<lparr>smtp_request := d\<rparr>) = Inr octets
     \<and> serve octets sv = (let (rs, sv') = serve (y @ end_sequence) (delivered (text_lines (h @ x)) sv) in ((250, []) # rs, sv'))"
proof -
  have "smtp_stream env space [] ((new_SMTP_Record env)\<lparr>smtp_request := d\<rparr>) = Inr (h @ req_data d @ end_sequence)"
    using assms(1-6) by (simp add: smtp_stream_def smtp_texts_def crop_data_id copy_texts_fit end_sequence_def [symmetric])
       (simp add: end_sequence_def)
  with assms serve_message [OF assms(7-9), of "y @ end_sequence"] show ?thesis by simp
qed

definition smuggling_request :: "nat SMTP_Request" where
  "smuggling_request = witness_request\<lparr>req_command := SMTP_COMMAND_DATA_2, req_subject := [],
     req_data := ''a'' @ end_sequence @ ''MAIL FROM:<x>'' @ CRLF @ ''RCPT TO:<y>'' @ CRLF @ ''DATA'' @ CRLF @ ''b''\<rparr>"

theorem end_sequence_smuggles_commands_witness:
  "\<exists>octets. smtp_stream witness_env 200 [] ((new_SMTP_Record witness_env)\<lparr>smtp_request := smuggling_request\<rparr>) = Inr octets
     \<and> map (\<lambda>(p, to, ls). (p, to, last ls))
         (sv_mailbox (snd (serve octets ((new_server [])\<lparr>sv_phase := Mail_data, sv_from := Some ''a@b'', sv_to := [''c@d'']\<rparr>))))
       = [(''a@b'', [''c@d''], ''a''), (''x'', [''y''], ''b'')]"
proof -
  let ?h = "header_text witness_env smuggling_request"
  let ?y = "''MAIL FROM:<x>'' @ CRLF @ ''RCPT TO:<y>'' @ CRLF @ ''DATA'' @ CRLF @ ''b''"
  let ?sv = "(new_server [])\<lparr>sv_phase := Mail_data, sv_from := Some ''a@b'', sv_to := [''c@d'']\<rparr>"
  note defs = smuggling_request_def smtp_witness_defs header_text_def header_lines_def getHeaderDateString_def
  have header: "message_header witness_env smuggling_request = Inr ?h"
    by (simp add: defs message_header_def)
  have lines: "\<forall>l \<in> set (text_lines (?h @ ''a'')). take 1 l \<noteq> ''.''" "last (text_lines (?h @ ''a'')) = ''a''"
    by (simp_all add: defs text_lines_def)
  have size: "length (req_data smuggling_request) < npos" "length ?h + length (req_data smuggling_request) + 5 \<le> 200"
    by (simp_all add: defs end_sequence_def npos_def)
  have rest: "snd (serve (?y @ end_sequence) sv) = delivered [''b'']
      (sv\<lparr>sv_from := Some ''x'', sv_to := [''y''], sv_phase := Mail_data, sv_lines := []\<rparr>)"
    if "sv_phase sv = Commands" "sv_buffer sv = []" for sv
    using that by (cases sv) (simp add: serve_def end_sequence_def serve_line_def serve_command_def path_argument_def delivered_def)
  obtain octets where "smtp_stream witness_env 200 [] ((new_SMTP_Record witness_env)\<lparr>smtp_request := smuggling_request\<rparr>) = Inr octets"
    and "serve octets ?sv = (let (rs, sv') = serve (?y @ end_sequence) (delivered (text_lines (?h @ ''a'')) ?sv) in ((250, []) # rs, sv'))"
    using end_sequence_smuggles_commands [of smuggling_request "''a''" ?y witness_env ?h 200 ?sv] header lines(1) size
    by (auto simp: smuggling_request_def witness_request_def new_server_def)
  moreover have "sv_phase (delivered ls ?sv) = Commands" "sv_buffer (delivered ls ?sv) = []" for ls
    by (simp_all add: delivered_def new_server_def)
  ultimately show ?thesis
    using rest lines(2) by (simp add: case_prod_beta delivered_def new_server_def)
qed

end
