(* ===== verification/Irc_Numerics.thy ===== *)
theory Irc_Numerics
  imports Net_Prelude
begin

text \<open>
  The numeric replies of the IRC protocol (\<open>IRC_Codes::RFC1459Numeric\<close>, \<open>irc_codes.h\<close>) and
  \<open>IRC_Tools::CommandToString\<close> for them (\<open>irc_tools.cpp\<close>). A numeric is its value; the cases of
  the \<open>switch\<close> are tables of value and name, in the order of the source.
\<close>

definition numerics_001_235 :: "(nat \<times> string) list" where
  "numerics_001_235 =
    [(1, ''RPL_WELCOME''), (2, ''RPL_YOURHOST''), (3, ''RPL_CREATED''), (4, ''RPL_MYINFO''),
     (5, ''RPL_PROTOCTL''), (6, ''RPL_MAPMORE''), (7, ''RPL_MAPEND''), (8, ''RPL_SNOMASK''),
     (9, ''RPL_STATMEMTOT''), (10, ''RPL_STATMEM''), (14, ''RPL_YOURCOOKIE''),
     (20, ''RPL_YOURID''), (43, ''RPL_SAVENICK''), (50, ''RPL_ATTEMPTINGJUNC''),
     (51, ''RPL_ATTEMPTINGREROUTE''), (200, ''RPL_TRACELINK''), (201, ''RPL_TRACECONNECTING''),
     (202, ''RPL_TRACEHANDSHAKE''), (203, ''RPL_TRACEUNKNOWN''), (204, ''RPL_TRACEOPERATOR''),
     (205, ''RPL_TRACEUSER''), (206, ''RPL_TRACESERVER''), (207, ''RPL_TRACESERVICE''),
     (208, ''RPL_TRACENEWTYPE''), (209, ''RPL_TRACECLASS''), (210, ''RPL_TRACERECONNECT''),
     (211, ''RPL_STATSLINKINFO''), (212, ''RPL_STATSCOMMANDS''), (213, ''RPL_STATSCLINE''),
     (214, ''RPL_STATSNLINE''), (215, ''RPL_STATSILINE''), (216, ''RPL_STATSKLINE''),
     (217, ''RPL_STATSQLINE''), (218, ''RPL_STATSYLINE''), (219, ''RPL_ENDOFSTATS''),
     (220, ''RPL_STATSPLINE''), (221, ''RPL_UMODEIS''), (222, ''RPL_SQLINE_NICK''),
     (223, ''RPL_STATSELINE''), (224, ''RPL_STATSFLINE''), (225, ''RPL_STATSGLINE''),
     (226, ''RPL_STATSCOUNT''), (231, ''RPL_SERVICEINFO''), (232, ''RPL_ENDOFSERVICES''),
     (233, ''RPL_SERVICE''), (234, ''RPL_SERVLIST''), (235, ''RPL_SERVLISTEND'')]"

definition numerics_236_299 :: "(nat \<times> string) list" where
  "numerics_236_299 =
    [(236, ''RPL_STATSVERBOSE''), (237, ''RPL_STATSENGINE''), (239, ''RPL_STATSIAUTH''),
     (240, ''RPL_STATSVLINE''), (241, ''RPL_STATSLLINE''), (242, ''RPL_STATSUPTIME''),
     (243, ''RPL_STATSOLINE''), (244, ''RPL_STATSHLINE''), (245, ''RPL_STATSSLINE''),
     (246, ''RPL_STATSPING''), (247, ''RPL_STATSBLINE''), (248, ''RPL_STATSDEFINE''),
     (249, ''RPL_STATSDEBUG''), (250, ''RPL_STATSDLINE''), (251, ''RPL_LUSERCLIENT''),
     (252, ''RPL_LUSEROP''), (253, ''RPL_LUSERUNKNOWN''), (254, ''RPL_LUSERCHANNELS''),
     (255, ''RPL_LUSERME''), (256, ''RPL_ADMINME''), (257, ''RPL_ADMINLOC1''),
     (258, ''RPL_ADMINLOCTo''), (259, ''RPL_ADMINEMAIL''), (261, ''RPL_TRACELOG''),
     (262, ''RPL_TRACEEND''), (263, ''RPL_TRYAGAIN''), (265, ''RPL_LOCALUSERS''),
     (266, ''RPL_GLOBALUSERS''), (267, ''RPL_START_NETSTAT''), (268, ''RPL_NETSTAT''),
     (269, ''RPL_END_NETSTAT''), (270, ''RPL_PRIVS''), (271, ''RPL_SILELIST''),
     (272, ''RPL_ENDOFSILELIST''), (273, ''RPL_NOTIFY''), (274, ''RPL_STATSDELTA''),
     (276, ''RPL_VCHANEXIST''), (277, ''RPL_VCHANLIST''), (278, ''RPL_VCHANHELP''),
     (280, ''RPL_GLIST''), (281, ''RPL_ENDOFGLIST''), (282, ''RPL_ENDOFACCEPT''),
     (283, ''RPL_ALIST''), (284, ''RPL_ENDOFALIST''), (285, ''RPL_GLIST_HASH''),
     (286, ''RPL_CHANINFO_USERS''), (287, ''RPL_CHANINFO_CHOPS''),
     (288, ''RPL_CHANINFO_VOICES''), (289, ''RPL_CHANINFO_AWAY''), (290, ''RPL_HELPHDR''),
     (291, ''RPL_HELPOP''), (292, ''RPL_HELPTLR''), (293, ''RPL_HELPHLP''),
     (294, ''RPL_HELPFWD''), (295, ''RPL_HELPIGN''), (296, ''RPL_CHANINFO_KICKS''),
     (299, ''RPL_END_CHANINFO'')]"

definition numerics_300_381 :: "(nat \<times> string) list" where
  "numerics_300_381 =
    [(300, ''RPL_NONE''), (301, ''RPL_AWAY''), (302, ''RPL_USERHOST''), (303, ''RPL_ISON''),
     (304, ''RPL_TEXT''), (305, ''RPL_UNAWAY''), (306, ''RPL_NOWAWAY''), (307, ''RPL_USERIP''),
     (308, ''RPL_WHOISADMIN''), (309, ''RPL_WHOISSADMIN''), (310, ''RPL_WHOISHELPOP''),
     (311, ''RPL_WHOISUSER''), (312, ''RPL_WHOISSERVER''), (313, ''RPL_WHOISOPERATOR''),
     (314, ''RPL_WHOWASUSER''), (315, ''RPL_ENDOFWHO''), (316, ''RPL_WHOISCHANOP''),
     (317, ''RPL_WHOISIDLE''), (318, ''RPL_ENDOFWHOIS''), (319, ''RPL_WHOISCHANNELS''),
     (320, ''RPL_WHOISVIRT''), (321, ''RPL_LISTSTART''), (322, ''RPL_LIST''),
     (323, ''RPL_LISTEND''), (324, ''RPL_CHANNELMODEIS''), (325, ''RPL_UNIQOPIS''),
     (326, ''RPL_NOCHANPASS''), (327, ''RPL_CHPASSUNKNOWN''), (328, ''RPL_CHANNEL_URL''),
     (329, ''RPL_CREATIONTIME''), (330, ''RPL_WHOWAS_TIME''), (331, ''RPL_NOTOPIC''),
     (332, ''RPL_TOPIC''), (333, ''RPL_TOPICWHOTIME''), (334, ''RPL_LISTUSAGE''),
     (335, ''RPL_WHOISBOT''), (338, ''RPL_CHANPASSOK''), (339, ''RPL_BADCHANPASS''),
     (341, ''RPL_INVITING''), (342, ''RPL_SUMMONING''), (345, ''RPL_INVITED''),
     (346, ''RPL_INVITELIST''), (347, ''RPL_ENDOFINVITELIST''), (348, ''RPL_EXCEPTLIST''),
     (349, ''RPL_ENDOFEXCEPTLIST''), (351, ''RPL_VERSION''), (352, ''RPL_WHOREPLY''),
     (353, ''RPL_NAMREPLY''), (354, ''RPL_WHOSPCRPL''), (355, ''RPL_NAMREPLY_''),
     (361, ''RPL_KILLDONE''), (362, ''RPL_CLOSING''), (363, ''RPL_CLOSEEND''),
     (364, ''RPL_LINKS''), (365, ''RPL_ENDOFLINKS''), (366, ''RPL_ENDOFNAMES''),
     (367, ''RPL_BANLIST''), (368, ''RPL_ENDOFBANLIST''), (369, ''RPL_ENDOFWHOWAS''),
     (371, ''RPL_INFO''), (372, ''RPL_MOTD''), (373, ''RPL_INFOSTART''),
     (374, ''RPL_ENDOFINFO''), (375, ''RPL_MOTDSTART''), (376, ''RPL_ENDOFMOTD''),
     (377, ''RPL_FORCE_MOTD''), (378, ''RPL_BANEXPIRED''), (379, ''RPL_KICKLINKED''),
     (380, ''RPL_BANLINKED''), (381, ''RPL_YOUREOPER'')]"

definition numerics_382_441 :: "(nat \<times> string) list" where
  "numerics_382_441 =
    [(382, ''RPL_REHASHING''), (383, ''RPL_YOURESERVICE''), (384, ''RPL_MYPORTIS''),
     (385, ''RPL_NOTOPERANYMORE''), (386, ''RPL_QLIST''), (387, ''RPL_ENDOFQLIST''),
     (391, ''RPL_TIME''), (392, ''RPL_USERSSTART''), (393, ''RPL_USERS''),
     (394, ''RPL_ENDOFUSERS''), (395, ''RPL_NOUSERS''), (396, ''RPL_HOSTHIDDEN''),
     (400, ''ERR_UNKNOWNERROR''), (401, ''ERR_NOSUCHNICK''), (402, ''ERR_NOSUCHSERVER''),
     (403, ''ERR_NOSUCHCHANNEL''), (404, ''ERR_CANNOTSENDTOCHAN''),
     (405, ''ERR_TOOMANYCHANNELS''), (406, ''ERR_WASNOSUCHNICK''), (407, ''ERR_TOOMANYTARGETS''),
     (408, ''ERR_NOSUCHSERVICE''), (409, ''ERR_NOORIGIN''), (411, ''ERR_NORECIPIENT''),
     (412, ''ERR_NOTEXTTOSEND''), (413, ''ERR_NOTOPLEVEL''), (414, ''ERR_WILDTOPLEVEL''),
     (415, ''ERR_BADMASK''), (416, ''ERR_TOOMANYMATCHES''), (419, ''ERR_LENGTHTRUNCATED''),
     (421, ''ERR_UNKNOWNCOMMAND''), (422, ''ERR_NOMOTD''), (423, ''ERR_NOADMININFO''),
     (424, ''ERR_FILEERROR''), (425, ''ERR_NOOPERMOTD''), (429, ''ERR_TOOMANYAWAY''),
     (430, ''ERR_EVENTNICKCHANGE''), (431, ''ERR_NONICKNAMEGIVEN''),
     (432, ''ERR_ERRONEUSNICKNAME''), (433, ''ERR_NICKNAMEINUSE''),
     (434, ''ERR_SERVICENAMEINUSE''), (435, ''ERR_SERVICECONFUSED''),
     (436, ''ERR_NICKCOLLISION''), (437, ''ERR_UNAVAILRESOURCE''), (438, ''ERR_NICKTOOFAST''),
     (439, ''ERR_TARGETTOOFAST''), (440, ''ERR_SERVICESDOWN''), (441, ''ERR_USERNOTINCHANNEL'')]"

definition numerics_442_499 :: "(nat \<times> string) list" where
  "numerics_442_499 =
    [(442, ''ERR_NOTONCHANNEL''), (443, ''ERR_USERONCHANNEL''), (444, ''ERR_NOLOGIN''),
     (445, ''ERR_SUMMONDISABLED''), (446, ''ERR_USERSDISABLED''), (447, ''ERR_NONICKCHANGE''),
     (449, ''ERR_NOTIMPLEMENTED''), (451, ''ERR_NOTREGISTERED''), (452, ''ERR_IDCOLLISION''),
     (453, ''ERR_NICKLOST''), (455, ''ERR_HOSTILENAME''), (456, ''ERR_ACCEPTFULL''),
     (457, ''ERR_ACCEPTEXIST''), (458, ''ERR_ACCEPTNOT''), (459, ''ERR_NOHIDING''),
     (460, ''ERR_NOTFORHALFOPS''), (461, ''ERR_NEEDMOREPARAMS''),
     (462, ''ERR_ALREADYREGISTRED''), (463, ''ERR_NOPERMFORHOST''),
     (464, ''ERR_PASSWDMISMATCH''), (465, ''ERR_YOUREBANNEDCREEP''),
     (466, ''ERR_YOUWILLBEBANNED''), (467, ''ERR_KEYSET''), (468, ''ERR_ONLYSERVERSCANCHANGE''),
     (469, ''ERR_LINKSET''), (470, ''ERR_LINKCHANNEL''), (471, ''ERR_CHANNELISFULL''),
     (472, ''ERR_UNKNOWNMODE''), (473, ''ERR_INVITEONLYCHAN''), (474, ''ERR_BANNEDFROMCHAN''),
     (475, ''ERR_BADCHANNELKEY''), (476, ''ERR_BADCHANMASK''), (477, ''ERR_NOCHANMODES''),
     (478, ''ERR_BANLISTFULL''), (479, ''ERR_BADCHANNAME''), (480, ''ERR_CANNOTKNOCK''),
     (481, ''ERR_NOPRIVILEGES''), (482, ''ERR_CHANOPRIVSNEEDED''), (483, ''ERR_CANTKILLSERVER''),
     (484, ''ERR_RESTRICTED''), (485, ''ERR_UNIQOPPRIVSNEEDED''), (486, ''ERR_NONONREG''),
     (487, ''ERR_CHANTOORECENT''), (488, ''ERR_TSLESSCHAN''), (489, ''ERR_VOICENEEDED''),
     (491, ''ERR_NOOPERHOST''), (492, ''ERR_NOSERVICEHOST''), (493, ''ERR_NOFEATURE''),
     (494, ''ERR_BADFEATURE''), (495, ''ERR_BADLOGTYPE''), (496, ''ERR_BADLOGSYS''),
     (497, ''ERR_BADLOGVALUE''), (498, ''ERR_ISOPERLCHAN''), (499, ''ERR_CHANOWNPRIVNEEDED'')]"

definition numerics_501_625 :: "(nat \<times> string) list" where
  "numerics_501_625 =
    [(501, ''ERR_UMODEUNKNOWNFLAG''), (502, ''ERR_USERSDONTMATCH''),
     (503, ''ERR_GHOSTEDCLIENT''), (504, ''ERR_USERNOTONSERV''), (511, ''ERR_SILELISTFULL''),
     (512, ''ERR_NOSUCHGLINE''), (513, ''ERR_BADPING''), (514, ''ERR_INVALID_ERR''),
     (515, ''ERR_BADEXPIRE''), (516, ''ERR_DONTCHEAT''), (517, ''ERR_DISABLED''),
     (518, ''ERR_NOINVITE''), (519, ''ERR_ADMONLY''), (520, ''ERR_OPERONLY''),
     (521, ''ERR_LISTSYNTAX''), (522, ''ERR_WHOSYNTAX''), (523, ''ERR_WHOLIMEXCEED''),
     (524, ''ERR_OPERSPVERIFY''), (525, ''ERR_REMOTEPFX''), (526, ''ERR_PFXUNROUTABLE''),
     (550, ''ERR_BADHOSTMASK''), (551, ''ERR_HOSTUNAVAIL''), (552, ''ERR_USINGSLINE''),
     (553, ''ERR_STATSSLINE''), (600, ''RPL_LOGON''), (601, ''RPL_LOGOFF''),
     (602, ''RPL_WATCHOFF''), (603, ''RPL_WATCHSTAT''), (604, ''RPL_NOWON''),
     (605, ''RPL_NOWOFF''), (606, ''RPL_WATCHLIST''), (607, ''RPL_ENDOFWATCHLIST''),
     (608, ''RPL_WATCHCLEAR''), (610, ''RPL_ISOPER''), (611, ''RPL_ISLOCOP''),
     (612, ''RPL_ISNOTOPER''), (613, ''RPL_ENDOFISOPER''), (615, ''RPL_WHOISMODES''),
     (616, ''RPL_WHOISHOST''), (617, ''RPL_DCCSTATUS''), (618, ''RPL_DCCLIST''),
     (619, ''RPL_WHOWASHOST''), (620, ''RPL_RULESSTART''), (621, ''RPL_RULES''),
     (622, ''RPL_ENDOFRULES''), (624, ''RPL_OMOTDSTART''), (625, ''RPL_OMOTD'')]"

definition numerics_626_726 :: "(nat \<times> string) list" where
  "numerics_626_726 =
    [(626, ''RPL_ENDOFO''), (630, ''RPL_SETTINGS''), (631, ''RPL_ENDOFSETTINGS''),
     (640, ''RPL_DUMPING''), (641, ''RPL_DUMPRPL''), (642, ''RPL_EODUMP''),
     (660, ''RPL_TRACEROUTE_HOP''), (661, ''RPL_TRACEROUTE_START''),
     (662, ''RPL_MODECHANGEWARN''), (663, ''RPL_CHANREDIR''), (664, ''RPL_SERVMODEIS''),
     (665, ''RPL_OTHERUMODEIS''), (666, ''RPL_ENDOF_GENERIC''), (670, ''RPL_WHOWASDETAILS''),
     (671, ''RPL_WHOISSECURE''), (672, ''RPL_UNKNOWNMODES''), (673, ''RPL_CANNOTSETMODES''),
     (678, ''RPL_LUSERSTAFF''), (679, ''RPL_TIMEONSERVERIS''), (682, ''RPL_NETWORKS''),
     (687, ''RPL_YOURLANGUAGEIS''), (688, ''RPL_LANGUAGE''), (689, ''RPL_WHOISSTAFF''),
     (690, ''RPL_WHOISLANGUAGE''), (702, ''RPL_MODLIST''), (703, ''RPL_ENDOFMODLIST''),
     (704, ''RPL_HELPSTART''), (705, ''RPL_HELPTXT''), (706, ''RPL_ENDOFHELP''),
     (708, ''RPL_ETRACEFULL''), (709, ''RPL_ETRACE''), (710, ''RPL_KNOCK''),
     (711, ''RPL_KNOCKDLVR''), (712, ''RPL_TOOMANYKNOCK''), (713, ''RPL_CHANOPEN''),
     (714, ''RPL_KNOCKONCHAN''), (715, ''RPL_KNOCKDISABLED''), (716, ''RPL_TARGUMODEG''),
     (717, ''RPL_TARGNOTIFY''), (718, ''RPL_UMODEGMSG''), (722, ''RPL_ENDOFOMOTD''),
     (723, ''RPL_NOPRIVS''), (724, ''RPL_TESTMARK''), (725, ''RPL_TESTLINE''),
     (726, ''RPL_NOTESTLINE'')]"

definition numerics_771_999 :: "(nat \<times> string) list" where
  "numerics_771_999 =
    [(771, ''RPL_XINFO''), (773, ''RPL_XINFOSTART''), (774, ''RPL_XINFOEND''),
     (972, ''ERR_CANNOTDOCOMMAND''), (973, ''ERR_CANNOTCHANGEUMODE''),
     (974, ''ERR_CANNOTCHANGECHANMODE''), (975, ''ERR_CANNOTCHANGESERVERMODE''),
     (976, ''ERR_CANNOTSENDTONICK''), (977, ''ERR_UNKNOWNSERVERMODE''),
     (979, ''ERR_SERVERMODELOCK''), (980, ''ERR_BADCHARENCODING''),
     (981, ''ERR_TOOMANYLANGUAGES''), (982, ''ERR_NOLANGUAGE''), (983, ''ERR_TEXTTOOSHORT''),
     (999, ''ERR_NUMERIC_ERR'')]"

definition numerics :: "(nat \<times> string) list" where
  "numerics = numerics_001_235 @ numerics_236_299 @ numerics_300_381 @ numerics_382_441
     @ numerics_442_499 @ numerics_501_625 @ numerics_626_726 @ numerics_771_999"

definition NumericToString :: "nat \<Rightarrow> string" where
  "NumericToString numeric =
     (case map_of numerics numeric of Some name \<Rightarrow> name | None \<Rightarrow> ''INVALID/UNKNOWN'')"

section \<open>Well-formedness of the tables\<close>

text \<open>The codes of a table lie in its range and increase; every name has one of two prefixes.\<close>

definition table_ok :: "nat \<Rightarrow> nat \<Rightarrow> (nat \<times> string) list \<Rightarrow> bool" where
  "table_ok lo hi t \<longleftrightarrow> sorted_wrt (<) (map fst t) \<and> list_all (\<lambda>(n, s). lo \<le> n \<and> n \<le> hi
     \<and> (take 4 s = ''RPL_'' \<or> take 4 s = ''ERR_'')) t"

lemma table_ok_append:
  "table_ok lo mid s \<Longrightarrow> table_ok mid' hi t \<Longrightarrow> mid < mid' \<Longrightarrow> lo \<le> mid \<Longrightarrow> mid' \<le> hi \<Longrightarrow>
     table_ok lo hi (s @ t)"
  by (fastforce simp: table_ok_def sorted_wrt_append list_all_iff)

lemma sorted_wrt_less_Cons2:
  "sorted_wrt (<) (x # y # zs :: nat list) \<longleftrightarrow> x < y \<and> sorted_wrt (<) (y # zs)"
  by auto

lemma table_ok_Cons2:
  "table_ok lo hi ((n, s) # (m, u) # t) \<longleftrightarrow> lo \<le> n \<and> n < m \<and> n \<le> hi
     \<and> (take 4 s = ''RPL_'' \<or> take 4 s = ''ERR_'') \<and> table_ok lo hi ((m, u) # t)"
  unfolding table_ok_def list.map sorted_wrt_less_Cons2 by auto

lemma table_ok_single:
  "table_ok lo hi [(n, s)] \<longleftrightarrow>
     lo \<le> n \<and> n \<le> hi \<and> (take 4 s = ''RPL_'' \<or> take 4 s = ''ERR_'')"
  by (simp add: table_ok_def)

lemmas table_ok_simps = table_ok_Cons2 table_ok_single

lemma numerics_001_235_ok: "table_ok 1 235 numerics_001_235"
  by (simp add: numerics_001_235_def table_ok_simps)

lemma numerics_236_299_ok: "table_ok 236 299 numerics_236_299"
  by (simp add: numerics_236_299_def table_ok_simps)

lemma numerics_300_381_ok: "table_ok 300 381 numerics_300_381"
  by (simp add: numerics_300_381_def table_ok_simps)

lemma numerics_382_441_ok: "table_ok 382 441 numerics_382_441"
  by (simp add: numerics_382_441_def table_ok_simps)

lemma numerics_442_499_ok: "table_ok 442 499 numerics_442_499"
  by (simp add: numerics_442_499_def table_ok_simps)

lemma numerics_501_625_ok: "table_ok 501 625 numerics_501_625"
  by (simp add: numerics_501_625_def table_ok_simps)

lemma numerics_626_726_ok: "table_ok 626 726 numerics_626_726"
  by (simp add: numerics_626_726_def table_ok_simps)

lemma numerics_771_999_ok: "table_ok 771 999 numerics_771_999"
  by (simp add: numerics_771_999_def table_ok_simps)

lemma numerics_ok: "table_ok 1 999 numerics"
  unfolding numerics_def
  by (rule table_ok_append [OF numerics_001_235_ok
    table_ok_append [OF numerics_236_299_ok
    table_ok_append [OF numerics_300_381_ok
    table_ok_append [OF numerics_382_441_ok
    table_ok_append [OF numerics_442_499_ok
    table_ok_append [OF numerics_501_625_ok
    table_ok_append [OF numerics_626_726_ok numerics_771_999_ok]]]]]]]) simp_all

lemma distinct_numerics: "distinct (map fst numerics)"
  using numerics_ok by (simp add: table_ok_def strict_sorted_iff)

lemma NumericToString_mem: "(n, s) \<in> set numerics \<Longrightarrow> NumericToString n = s"
  by (simp add: NumericToString_def distinct_numerics)

lemma numerics_range: "(n, s) \<in> set numerics \<Longrightarrow> 1 \<le> n \<and> n \<le> 999"
  using numerics_ok by (auto simp: table_ok_def list_all_iff)

lemma numerics_prefix:
  "(n, s) \<in> set numerics \<Longrightarrow> take 4 s = ''RPL_'' \<or> take 4 s = ''ERR_''"
  using numerics_ok by (auto simp: table_ok_def list_all_iff)

lemma NumericToString_unknown: "n \<notin> fst ` set numerics \<Longrightarrow> NumericToString n = ''INVALID/UNKNOWN''"
  by (simp add: NumericToString_def map_of_eq_None_iff [THEN iffD2])

end
