(* ===== verification/Irc_Tools.thy ===== *)
theory Irc_Tools
  imports Irc_Numerics Std_Regex
begin

text \<open>
  The IRC component (\<open>src/protocol/irc\<close>): the record of \<open>irc_record.h\<close>, the modes of
  \<open>irc_common.h\<close>, the operations of \<open>IRC_Tools\<close> (\<open>irc_tools.cpp\<close>) and the command of an
  \<open>IRC_Message\<close> (\<open>irc_message.cpp\<close>).

  The bit sets of modes are sets of enumerators. The \<open>union\<close> of a command with its
  discriminator is a datatype; the string alternative is a pointer and may be null. The
  overloads of \<open>CommandToString\<close> and \<open>dump\<close> have a suffix each.
\<close>

section \<open>Commands\<close>

datatype IRC_CommandType =
    PASS | NICK | USER | SERVER | OPER | QUIT | SQUIT | JOIN | PART | MODE | TOPIC | NAMES
  | LIST | INVITE | KICK | SVERSION | STATS | LINKS | TIME | CONNECT | TRACE | ADMIN | INFO
  | PRIVMSG | NOTICE | WHO | WHOIS | WHOWAS | KILL | PING | PONG | ERROR | AWAY | REHASH
  | RESTART | SUMMON | USERS | WALLOPS | USERHOST | ISON | KNOCK | IRC_COMMANDTYPE_MAX
  | IRC_COMMANDTYPE_INVALID

fun command_value :: "IRC_CommandType \<Rightarrow> nat" where
  "command_value PASS = 1000"
| "command_value NICK = 1001"
| "command_value USER = 1002"
| "command_value SERVER = 1003"
| "command_value OPER = 1004"
| "command_value QUIT = 1005"
| "command_value SQUIT = 1006"
| "command_value JOIN = 1007"
| "command_value PART = 1008"
| "command_value MODE = 1009"
| "command_value TOPIC = 1010"
| "command_value NAMES = 1011"
| "command_value LIST = 1012"
| "command_value INVITE = 1013"
| "command_value KICK = 1014"
| "command_value SVERSION = 1015"
| "command_value STATS = 1016"
| "command_value LINKS = 1017"
| "command_value TIME = 1018"
| "command_value CONNECT = 1019"
| "command_value TRACE = 1020"
| "command_value ADMIN = 1021"
| "command_value INFO = 1022"
| "command_value PRIVMSG = 1023"
| "command_value NOTICE = 1024"
| "command_value WHO = 1025"
| "command_value WHOIS = 1026"
| "command_value WHOWAS = 1027"
| "command_value KILL = 1028"
| "command_value PING = 1029"
| "command_value PONG = 1030"
| "command_value ERROR = 1031"
| "command_value AWAY = 1032"
| "command_value REHASH = 1033"
| "command_value RESTART = 1034"
| "command_value SUMMON = 1035"
| "command_value USERS = 1036"
| "command_value WALLOPS = 1037"
| "command_value USERHOST = 1038"
| "command_value ISON = 1039"
| "command_value KNOCK = 1040"
| "command_value IRC_COMMANDTYPE_MAX = 1041"
| "command_value IRC_COMMANDTYPE_INVALID = 1042"

fun CommandToString :: "IRC_CommandType \<Rightarrow> string" where
  "CommandToString PASS = ''PASS''"
| "CommandToString NICK = ''NICK''"
| "CommandToString USER = ''USER''"
| "CommandToString SERVER = ''SERVER''"
| "CommandToString OPER = ''OPER''"
| "CommandToString QUIT = ''QUIT''"
| "CommandToString SQUIT = ''SQUIT''"
| "CommandToString JOIN = ''JOIN''"
| "CommandToString PART = ''PART''"
| "CommandToString MODE = ''MODE''"
| "CommandToString TOPIC = ''TOPIC''"
| "CommandToString NAMES = ''NAMES''"
| "CommandToString LIST = ''LIST''"
| "CommandToString INVITE = ''INVITE''"
| "CommandToString KICK = ''KICK''"
| "CommandToString SVERSION = ''VERSION''"
| "CommandToString STATS = ''STATS''"
| "CommandToString LINKS = ''LINKS''"
| "CommandToString TIME = ''TIME''"
| "CommandToString CONNECT = ''CONNECT''"
| "CommandToString TRACE = ''TRACE''"
| "CommandToString ADMIN = ''ADMIN''"
| "CommandToString INFO = ''INFO''"
| "CommandToString PRIVMSG = ''PRIVMSG''"
| "CommandToString NOTICE = ''NOTICE''"
| "CommandToString WHO = ''WHO''"
| "CommandToString WHOIS = ''WHOIS''"
| "CommandToString WHOWAS = ''WHOWAS''"
| "CommandToString KILL = ''KILL''"
| "CommandToString PING = ''PING''"
| "CommandToString PONG = ''PONG''"
| "CommandToString ERROR = ''ERROR''"
| "CommandToString AWAY = ''AWAY''"
| "CommandToString REHASH = ''REHASH''"
| "CommandToString RESTART = ''RESTART''"
| "CommandToString SUMMON = ''SUMMON''"
| "CommandToString USERS = ''USERS''"
| "CommandToString WALLOPS = ''WALLOPS''"
| "CommandToString USERHOST = ''USERHOST''"
| "CommandToString ISON = ''ISON''"
| "CommandToString KNOCK = []"
| "CommandToString IRC_COMMANDTYPE_MAX = []"
| "CommandToString IRC_COMMANDTYPE_INVALID = []"

definition CommandToType :: "string \<Rightarrow> IRC_CommandType" where
  "CommandToType s =
     (if s = ''PASS'' then PASS
      else if s = ''NICK'' then NICK
      else if s = ''USER'' then USER
      else if s = ''SERVER'' then SERVER
      else if s = ''OPER'' then OPER
      else if s = ''QUIT'' then QUIT
      else if s = ''SQUIT'' then SQUIT
      else if s = ''JOIN'' then JOIN
      else if s = ''PART'' then PART
      else if s = ''MODE'' then MODE
      else if s = ''TOPIC'' then TOPIC
      else if s = ''NAMES'' then NAMES
      else if s = ''LIST'' then LIST
      else if s = ''INVITE'' then INVITE
      else if s = ''KICK'' then KICK
      else if s = ''VERSION'' then SVERSION
      else if s = ''STATS'' then STATS
      else if s = ''LINKS'' then LINKS
      else if s = ''TIME'' then TIME
      else if s = ''CONNECT'' then CONNECT
      else if s = ''TRACE'' then TRACE
      else if s = ''ADMIN'' then ADMIN
      else if s = ''INFO'' then INFO
      else if s = ''PRIVMSG'' then PRIVMSG
      else if s = ''NOTICE'' then NOTICE
      else if s = ''WHO'' then WHO
      else if s = ''WHOIS'' then WHOIS
      else if s = ''WHOWAS'' then WHOWAS
      else if s = ''KILL'' then KILL
      else if s = ''PING'' then PING
      else if s = ''PONG'' then PONG
      else if s = ''ERROR'' then ERROR
      else if s = ''AWAY'' then AWAY
      else if s = ''REHASH'' then REHASH
      else if s = ''RESTART'' then RESTART
      else if s = ''SUMMON'' then SUMMON
      else if s = ''USERS'' then USERS
      else if s = ''WALLOPS'' then WALLOPS
      else if s = ''USERHOST'' then USERHOST
      else if s = ''ISON'' then ISON
      else IRC_COMMANDTYPE_INVALID)"

definition CharToCommand :: "char \<Rightarrow> IRC_CommandType" where
  "CharToCommand c =
     (if c = CHR ''a'' then AWAY
      else if c = CHR ''c'' then KNOCK
      else if c = CHR ''e'' then NAMES
      else if c = CHR ''h'' then USERHOST
      else if c = CHR ''i'' then INVITE
      else if c = CHR ''j'' then JOIN
      else if c = CHR ''k'' then KICK
      else if c = CHR ''l'' then LIST
      else if c = CHR ''m'' then PRIVMSG
      else if c = CHR ''n'' then NICK
      else if c = CHR ''o'' then MODE
      else if c = CHR ''p'' then PART
      else if c = CHR ''q'' then QUIT
      else if c = CHR ''s'' then PASS
      else if c = CHR ''t'' then TOPIC
      else if c = CHR ''u'' then USER
      else if c = CHR ''w'' then WHO
      else IRC_COMMANDTYPE_INVALID)"

section \<open>Modes\<close>

datatype IRC_ChannelMode =
    CHANNELMODE_ANONYMOUS | CHANNELMODE_BAN | CHANNELMODE_INVITEONLY | CHANNELMODE_PASSWORD
  | CHANNELMODE_USERLIMIT | CHANNELMODE_MODERATED | CHANNELMODE_BLOCKFOREIGNMSGS
  | CHANNELMODE_OPERATOR | CHANNELMODE_PRIVATE | CHANNELMODE_QUIET | CHANNELMODE_REOP
  | CHANNELMODE_SECRET | CHANNELMODE_RESTRICTEDTOPIC | CHANNELMODE_VOICE | CHANNELMODE_MAX
  | CHANNELMODE_INVALID

datatype IRC_UserMode =
    USERMODE_AWAY | USERMODE_HIDE_OPER | USERMODE_INVISIBLE | USERMODE_OPERATOR
  | USERMODE_LOCALOPERATOR | USERMODE_RESTRICTEDCONN | USERMODE_RECVNOTICES
  | USERMODE_RECVWALLOPS | USERMODE_HOSTHIDING | USERMODE_MAX | USERMODE_INVALID

definition channel_modes :: "IRC_ChannelMode list" where
  "channel_modes =
     [CHANNELMODE_ANONYMOUS, CHANNELMODE_BAN, CHANNELMODE_INVITEONLY, CHANNELMODE_PASSWORD,
      CHANNELMODE_USERLIMIT, CHANNELMODE_MODERATED, CHANNELMODE_BLOCKFOREIGNMSGS,
      CHANNELMODE_OPERATOR, CHANNELMODE_PRIVATE, CHANNELMODE_QUIET, CHANNELMODE_REOP,
      CHANNELMODE_SECRET, CHANNELMODE_RESTRICTEDTOPIC, CHANNELMODE_VOICE]"

definition user_modes :: "IRC_UserMode list" where
  "user_modes =
     [USERMODE_AWAY, USERMODE_HIDE_OPER, USERMODE_INVISIBLE, USERMODE_OPERATOR,
      USERMODE_LOCALOPERATOR, USERMODE_RESTRICTEDCONN, USERMODE_RECVNOTICES,
      USERMODE_RECVWALLOPS, USERMODE_HOSTHIDING]"

fun ChannelModeToChar :: "IRC_ChannelMode \<Rightarrow> char" where
  "ChannelModeToChar CHANNELMODE_PASSWORD = CHR ''k''"
| "ChannelModeToChar CHANNELMODE_VOICE = CHR ''v''"
| "ChannelModeToChar CHANNELMODE_BAN = CHR ''b''"
| "ChannelModeToChar CHANNELMODE_USERLIMIT = CHR ''l''"
| "ChannelModeToChar CHANNELMODE_MODERATED = CHR ''m''"
| "ChannelModeToChar CHANNELMODE_BLOCKFOREIGNMSGS = CHR ''n''"
| "ChannelModeToChar CHANNELMODE_RESTRICTEDTOPIC = CHR ''t''"
| "ChannelModeToChar CHANNELMODE_INVITEONLY = CHR ''i''"
| "ChannelModeToChar CHANNELMODE_SECRET = CHR ''s''"
| "ChannelModeToChar CHANNELMODE_PRIVATE = CHR ''p''"
| "ChannelModeToChar CHANNELMODE_OPERATOR = CHR ''o''"
| "ChannelModeToChar _ = CHR '' ''"

fun UserModeToChar :: "IRC_UserMode \<Rightarrow> char" where
  "UserModeToChar USERMODE_AWAY = CHR ''a''"
| "UserModeToChar USERMODE_HIDE_OPER = CHR ''H''"
| "UserModeToChar USERMODE_INVISIBLE = CHR ''i''"
| "UserModeToChar USERMODE_OPERATOR = CHR ''o''"
| "UserModeToChar USERMODE_LOCALOPERATOR = CHR ''O''"
| "UserModeToChar USERMODE_RESTRICTEDCONN = CHR ''r''"
| "UserModeToChar USERMODE_RECVNOTICES = CHR ''s''"
| "UserModeToChar USERMODE_RECVWALLOPS = CHR ''w''"
| "UserModeToChar USERMODE_HOSTHIDING = CHR ''x''"
| "UserModeToChar _ = CHR '' ''"

definition CharToChannelMode :: "char \<Rightarrow> IRC_ChannelMode" where
  "CharToChannelMode c =
     (if c = CHR ''a'' then CHANNELMODE_ANONYMOUS
      else if c = CHR ''b'' then CHANNELMODE_BAN
      else if c = CHR ''i'' then CHANNELMODE_INVITEONLY
      else if c = CHR ''k'' then CHANNELMODE_PASSWORD
      else if c = CHR ''l'' then CHANNELMODE_USERLIMIT
      else if c = CHR ''m'' then CHANNELMODE_MODERATED
      else if c = CHR ''n'' then CHANNELMODE_BLOCKFOREIGNMSGS
      else if c = CHR ''o'' then CHANNELMODE_OPERATOR
      else if c = CHR ''p'' then CHANNELMODE_PRIVATE
      else if c = CHR ''q'' then CHANNELMODE_QUIET
      else if c = CHR ''r'' then CHANNELMODE_REOP
      else if c = CHR ''s'' then CHANNELMODE_SECRET
      else if c = CHR ''t'' then CHANNELMODE_RESTRICTEDTOPIC
      else if c = CHR ''v'' then CHANNELMODE_VOICE
      else CHANNELMODE_INVALID)"

definition CharToUserMode :: "char \<Rightarrow> IRC_UserMode" where
  "CharToUserMode c =
     (if c = CHR ''a'' then USERMODE_AWAY
      else if c = CHR ''H'' then USERMODE_HIDE_OPER
      else if c = CHR ''i'' then USERMODE_INVISIBLE
      else if c = CHR ''o'' then USERMODE_OPERATOR
      else if c = CHR ''O'' then USERMODE_LOCALOPERATOR
      else if c = CHR ''r'' then USERMODE_RESTRICTEDCONN
      else if c = CHR ''s'' then USERMODE_RECVNOTICES
      else if c = CHR ''w'' then USERMODE_RECVWALLOPS
      else if c = CHR ''x'' then USERMODE_HOSTHIDING
      else USERMODE_INVALID)"

fun ChannelModeToString :: "IRC_ChannelMode \<Rightarrow> string" where
  "ChannelModeToString CHANNELMODE_ANONYMOUS = ''CHANNELMODE_ANONYMOUS''"
| "ChannelModeToString CHANNELMODE_BAN = ''CHANNELMODE_BAN''"
| "ChannelModeToString CHANNELMODE_INVITEONLY = ''CHANNELMODE_INVITEONLY''"
| "ChannelModeToString CHANNELMODE_PASSWORD = ''CHANNELMODE_PASSWORD''"
| "ChannelModeToString CHANNELMODE_USERLIMIT = ''CHANNELMODE_USERLIMIT''"
| "ChannelModeToString CHANNELMODE_MODERATED = ''CHANNELMODE_MODERATED''"
| "ChannelModeToString CHANNELMODE_BLOCKFOREIGNMSGS = ''CHANNELMODE_BLOCKFOREIGNMSGS''"
| "ChannelModeToString CHANNELMODE_OPERATOR = ''CHANNELMODE_OPERATOR''"
| "ChannelModeToString CHANNELMODE_PRIVATE = ''CHANNELMODE_PRIVATE''"
| "ChannelModeToString CHANNELMODE_QUIET = ''CHANNELMODE_QUIET''"
| "ChannelModeToString CHANNELMODE_REOP = ''CHANNELMODE_REOP''"
| "ChannelModeToString CHANNELMODE_SECRET = ''CHANNELMODE_SECRET''"
| "ChannelModeToString CHANNELMODE_RESTRICTEDTOPIC = ''CHANNELMODE_RESTRICTEDTOPIC''"
| "ChannelModeToString CHANNELMODE_VOICE = ''CHANNELMODE_VOICE''"
| "ChannelModeToString _ = []"

fun UserModeToString :: "IRC_UserMode \<Rightarrow> string" where
  "UserModeToString USERMODE_AWAY = ''AWAY''"
| "UserModeToString USERMODE_HIDE_OPER = ''HIDE_OPER''"
| "UserModeToString USERMODE_INVISIBLE = ''INVISIBLE''"
| "UserModeToString USERMODE_OPERATOR = ''OPERATOR''"
| "UserModeToString USERMODE_LOCALOPERATOR = ''LOCAL_OPERATOR''"
| "UserModeToString USERMODE_RESTRICTEDCONN = ''RESTRICTED_CONNECTION''"
| "UserModeToString USERMODE_RECVNOTICES = ''RECEIVE_NOTICES''"
| "UserModeToString USERMODE_RECVWALLOPS = ''RECEIVE_WALLOPS''"
| "UserModeToString _ = []"

text \<open>
  \<open>IRC_Tools::merge\<close> for user and for channel modes: the first character selects between
  setting and clearing, every further one is a mode letter; letters that are not known are
  skipped. The result is the number of modes that changed. Advancing the iterator of an empty
  string past its end is out of bounds.
\<close>

fun merge_modes ::
  "(char \<Rightarrow> 'm) \<Rightarrow> ('m \<Rightarrow> bool) \<Rightarrow> bool \<Rightarrow> string \<Rightarrow> 'm set \<Rightarrow> nat \<Rightarrow> nat \<times> 'm set" where
  "merge_modes from_char is_mode assign [] modes result = (result, modes)"
| "merge_modes from_char is_mode assign (c # cs) modes result =
     (let mode = from_char c in
      if \<not> is_mode mode then merge_modes from_char is_mode assign cs modes result
      else let toggled = (mode \<in> modes \<and> \<not> assign) \<or> (mode \<notin> modes \<and> assign);
               modes' = (if assign then insert mode modes else modes - {mode})
           in merge_modes from_char is_mode assign cs modes'
                (if toggled then result + 1 else result))"

definition is_user_mode :: "IRC_UserMode \<Rightarrow> bool" where
  "is_user_mode mode \<longleftrightarrow> mode \<noteq> USERMODE_MAX \<and> mode \<noteq> USERMODE_INVALID"

definition is_channel_mode :: "IRC_ChannelMode \<Rightarrow> bool" where
  "is_channel_mode mode \<longleftrightarrow> mode \<noteq> CHANNELMODE_MAX \<and> mode \<noteq> CHANNELMODE_INVALID"

definition merge_user :: "string \<Rightarrow> IRC_UserMode set \<Rightarrow> (nat \<times> IRC_UserMode set) run" where
  "merge_user modes_in modes =
     (case modes_in of [] \<Rightarrow> Inl Out_of_bounds
      | c # cs \<Rightarrow> Inr (merge_modes CharToUserMode is_user_mode (c = CHR ''+'') cs modes 0))"

definition merge_channel :: "string \<Rightarrow> IRC_ChannelMode set \<Rightarrow> (nat \<times> IRC_ChannelMode set) run" where
  "merge_channel modes_in modes =
     (case modes_in of [] \<Rightarrow> Inl Out_of_bounds
      | c # cs \<Rightarrow> Inr (merge_modes CharToChannelMode is_channel_mode (c = CHR ''+'') cs modes 0))"

definition dump_user_modes :: "IRC_UserMode set \<Rightarrow> string" where
  "dump_user_modes modes = ''+'' @ map UserModeToChar (filter (\<lambda>m. m \<in> modes) user_modes)"

definition dump_channel_modes :: "IRC_ChannelMode set \<Rightarrow> string" where
  "dump_channel_modes modes =
     ''+'' @ map ChannelModeToChar (filter (\<lambda>m. m \<in> modes) channel_modes)"

definition UserModesToString :: "IRC_UserMode set \<Rightarrow> string" where
  "UserModesToString modes =
     (if modes = {} then []
      else ''+'' @ map UserModeToChar (filter (\<lambda>m. m \<in> modes) user_modes))"

definition ChannelModesToString :: "IRC_ChannelMode set \<Rightarrow> string" where
  "ChannelModesToString modes =
     (if modes = {} then []
      else ''+'' @ map ChannelModeToChar (filter (\<lambda>m. m \<in> modes) channel_modes))"

section \<open>Records\<close>

record IRC_Prefix =
  origin :: string
  user :: string
  host :: string

datatype IRC_Command = Command_NUMERIC nat | Command_STRING "string option" | Command_INVALID

record IRC_Record =
  prefix :: IRC_Prefix
  command :: IRC_Command
  parameters :: "string list"
  parameterRanges :: "(nat \<times> nat) list"

definition IRC_Record_new :: IRC_Record where
  "IRC_Record_new =
     \<lparr>prefix = \<lparr>origin = [], user = [], host = []\<rparr>, command = Command_INVALID, parameters = [],
      parameterRanges = []\<rparr>"

text \<open>
  \<open>IRC_Record::operator=\<close>: the string of the command is copied, a null string is
  dereferenced for it. \<open>alloc\<close> tells whether the allocation of the copy succeeds.
\<close>

definition IRC_Record_assign :: "bool \<Rightarrow> IRC_Record \<Rightarrow> IRC_Record \<Rightarrow> IRC_Record run" where
  "IRC_Record_assign alloc this lhs =
     run_bind
       (case command lhs of
          Command_STRING s \<Rightarrow>
            (if \<not> alloc then Inr (Command_STRING None)
             else case s of None \<Rightarrow> Inl Null_dereference | Some t \<Rightarrow> Inr (Command_STRING (Some t)))
        | c \<Rightarrow> Inr c)
       (\<lambda>c. Inr (this\<lparr>prefix := prefix lhs, command := c, parameters := parameters lhs,
                   parameterRanges := parameterRanges lhs\<rparr>))"

definition stringify :: "string list \<Rightarrow> int \<Rightarrow> string run" where
  "stringify ps index =
     (if ps = [] \<or> index > int (length ps) - 1 then Inr []
      else if index = - 1 then Inr (last ps)
      else if index < 0 then Inl Out_of_bounds
      else let result = concat (map (\<lambda>p. p @ '' '') (drop (nat index) ps))
           in Inr (if index < int (length ps) - 1 then butlast result else result))"

definition isValidChannelName :: "string \<Rightarrow> bool" where
  "isValidChannelName s \<longleftrightarrow> find_from ''#'' s 0 = Some 0 \<or> find_from ''&'' s 0 = Some 0"

abbreviation dquote :: string where "dquote \<equiv> [CHR 0x22]"
abbreviation newline :: string where "newline \<equiv> [CHR 0x0A]"

fun dump_parameters :: "nat \<Rightarrow> string list \<Rightarrow> string" where
  "dump_parameters i [] = []"
| "dump_parameters i (p # ps) =
     ''#'' @ show_dec i @ '' : '' @ dquote @ p @ dquote @ newline @ dump_parameters (i + 1) ps"

text \<open>
  \<open>IRC_Tools::dump\<close> of a record. The string alternative streams the pointer itself;
  \<open>pointer_text\<close> is the text the standard library prints for its address.
\<close>

definition dump_prefix :: "IRC_Prefix \<Rightarrow> string" where
  "dump_prefix p =
     (if origin p = [] then []
      else ''PREFIX [origin: '' @ dquote @ origin p @ dquote @ '']''
         @ (if user p \<noteq> [] then '', [user: '' @ dquote @ user p @ dquote @ '']'' else [])
         @ (if host p \<noteq> [] then '', [host: '' @ dquote @ host p @ dquote @ '']'' else [])
         @ '' '' @ [CHR 0x5C] @ ''PREFIX'' @ newline)"

definition dump_record :: "string \<Rightarrow> IRC_Record \<Rightarrow> string" where
  "dump_record pointer_text r =
     dump_prefix (prefix r) @ ''COMMAND [''
     @ (case command r of
          Command_STRING _ \<Rightarrow> pointer_text
        | Command_NUMERIC n \<Rightarrow>
            dquote @ NumericToString n @ dquote @ '' ['' @ show_dec n @ '']''
        | Command_INVALID \<Rightarrow> dquote @ ''INVALID'' @ dquote)
     @ ''] '' @ [CHR 0x5C] @ ''COMMAND'' @ newline
     @ (if parameters r = [] then []
        else ''PARAMS'' @ newline @ dump_parameters 1 (parameters r)
           @ [CHR 0x5C] @ ''PARAMS'' @ newline)"

text \<open>\<open>IRC_Tools::RecordToString\<close>: a line of text for the user.\<close>

definition list_back :: "'a list \<Rightarrow> 'a run" where
  "list_back xs = (if xs = [] then Inl Out_of_bounds else Inr (last xs))"

definition user_at_host :: "IRC_Record \<Rightarrow> string" where
  "user_at_host r =
     dquote @ origin (prefix r) @ dquote @ '' ('' @ user (prefix r) @ ''@'' @ host (prefix r)"

definition StringCommandToString :: "IRC_Record \<Rightarrow> IRC_CommandType \<Rightarrow> string run" where
  "StringCommandToString r c =
     (if c = NICK then
        run_bind (list_back (parameters r)) (\<lambda>p. Inr (origin (prefix r) @ '' --> '' @ p))
      else if c = QUIT then
        run_bind (list_back (parameters r)) (\<lambda>p.
          Inr (origin (prefix r) @ '' has QUIT IRC (reason: '' @ dquote @ p @ dquote @ '')''))
      else if c = JOIN then
        run_bind (list_back (parameters r)) (\<lambda>p.
          Inr (user_at_host r @ '') has joined channel '' @ dquote @ p @ dquote))
      else if c = PART then
        (case parameters r of
           [] \<Rightarrow> Inl Out_of_bounds
         | [p] \<Rightarrow> Inr (user_at_host r @ '') has left channel '' @ dquote @ p @ dquote)
         | p # q # _ \<Rightarrow> Inr (user_at_host r @ '') has left channel '' @ dquote @ p @ dquote
             @ '' (reason: '' @ dquote @ q @ dquote @ '')''))
      else if c = NOTICE then stringify (parameters r) 1
      else if c \<in> {MODE, TOPIC, INVITE, KICK, ERROR, AWAY, USERS, USERHOST}
      then stringify (parameters r) 0
      else Inr [])"

definition NumericReplyToString :: "IRC_Record \<Rightarrow> nat \<Rightarrow> string run" where
  "NumericReplyToString r n =
     (if n \<in> {1, 2, 3, 251, 255, 263, 265, 266, 305, 306, 368, 372, 375, 376, 396, 422, 462, 465,
             474, 482}
      then stringify (parameters r) (- 1)
      else if n = 367 then stringify (parameters r) 0
      else if n \<in> {4, 5, 8, 20, 250, 252, 253, 254, 302, 321, 322, 323, 341, 401, 432, 433, 451,
                   461, 479, 501}
      then stringify (parameters r) 1
      else if n = 315 then stringify (parameters r) 2
      else if n = 352 then stringify (parameters r) 5
      else Inr [])"

definition RecordToString :: "IRC_Record \<Rightarrow> string run" where
  "RecordToString r =
     (case command r of
        Command_STRING None \<Rightarrow> Inl Null_dereference
      | Command_STRING (Some s) \<Rightarrow> StringCommandToString r (CommandToType s)
      | Command_NUMERIC n \<Rightarrow> NumericReplyToString r n
      | Command_INVALID \<Rightarrow> Inr [])"

section \<open>Server extensions\<close>

definition extension_re :: re where
  "extension_re =
     Alt (Seq (Grp 1 (Plus (Not_chr CHR ''=''))) (Seq (Grp 2 (Chr CHR ''='')) (Grp 3 (Star Dot))))
         (Grp 4 (Star Dot))"

definition flag_re :: re where
  "flag_re = Grp 1 (Plus (Cls is_upper))"

definition submatch :: "caps \<Rightarrow> nat \<Rightarrow> string" where
  "submatch m n = (case m n of Some s \<Rightarrow> s | None \<Rightarrow> [])"

text \<open>\<open>std::map::insert\<close> keeps the value of a key that is present.\<close>

definition map_insert :: "'k \<Rightarrow> 'v \<Rightarrow> ('k \<rightharpoonup> 'v) \<Rightarrow> ('k \<rightharpoonup> 'v)" where
  "map_insert k v m = (case m k of None \<Rightarrow> m(k \<mapsto> v) | Some _ \<Rightarrow> m)"

fun parse_extensions :: "string list \<Rightarrow> (string \<rightharpoonup> string) \<Rightarrow> bool \<times> (string \<rightharpoonup> string)" where
  "parse_extensions [] extensions = (True, extensions)"
| "parse_extensions (p # ps) extensions =
     (case regex_match extension_re p of
        None \<Rightarrow> (False, extensions)
      | Some m \<Rightarrow>
          if m 2 = None
          then parse_extensions ps
                 (if regex_match flag_re (submatch m 4) \<noteq> None
                  then map_insert (submatch m 4) [] extensions else extensions)
          else parse_extensions ps (map_insert (submatch m 1) (submatch m 3) extensions))"

section \<open>Messages\<close>

text \<open>\<open>IRC_Message::command\<close> returns an enumerator or a numeric cast to the enumeration.\<close>

definition message_command :: "bool \<Rightarrow> IRC_Record \<Rightarrow> nat run" where
  "message_command isInitialized r =
     (if \<not> isInitialized then Inr (command_value IRC_COMMANDTYPE_INVALID)
      else case command r of
        Command_STRING None \<Rightarrow> Inl Null_dereference
      | Command_STRING (Some s) \<Rightarrow> Inr (command_value (CommandToType s))
      | Command_NUMERIC n \<Rightarrow> Inr n
      | Command_INVALID \<Rightarrow> Inr (command_value IRC_COMMANDTYPE_INVALID))"

definition CommandTypeToString :: "nat \<Rightarrow> string" where
  "CommandTypeToString commandType =
     (case map_of
         [(1000, ''PASS''), (1001, ''NICK''), (1002, ''USER''), (1003, ''SERVER''),
          (1004, ''OPER''), (1005, ''QUIT''), (1006, ''SQUIT''), (1007, ''JOIN''),
          (1008, ''PART''), (1009, ''MODE''), (1010, ''TOPIC''), (1011, ''NAMES''),
          (1012, ''LIST''), (1013, ''INVITE''), (1014, ''KICK''), (1015, ''VERSION''),
          (1016, ''STATS''), (1017, ''LINKS''), (1018, ''TIME''), (1019, ''CONNECT''),
          (1020, ''TRACE''), (1021, ''ADMIN''), (1022, ''INFO''), (1023, ''PRIVMSG''),
          (1024, ''NOTICE''), (1025, ''WHO''), (1026, ''WHOIS''), (1027, ''WHOWAS''),
          (1028, ''KILL''), (1029, ''PING''), (1030, ''PONG''), (1031, ''ERROR''),
          (1032, ''AWAY''), (1033, ''REHASH''), (1034, ''RESTART''), (1035, ''SUMMON''),
          (1036, ''USERS''), (1037, ''WALLOPS''), (1038, ''USERHOST''), (1039, ''ISON''),
          (1040, ''KNOCK'')] commandType
      of Some name \<Rightarrow> name | None \<Rightarrow> NumericToString commandType)"

section \<open>Commands and their names\<close>

definition named_command :: "IRC_CommandType \<Rightarrow> bool" where
  "named_command c \<longleftrightarrow> c \<noteq> KNOCK \<and> c \<noteq> IRC_COMMANDTYPE_MAX \<and> c \<noteq> IRC_COMMANDTYPE_INVALID"

lemma CommandToType_CommandToString: "named_command c \<Longrightarrow> CommandToType (CommandToString c) = c"
  by (cases c) (simp_all add: CommandToType_def named_command_def)

lemma CommandToString_CommandToType:
  "named_command (CommandToType s) \<Longrightarrow> CommandToString (CommandToType s) = s"
  unfolding CommandToType_def by (simp add: named_command_def split: if_splits)

interpretation command_names: name_codec CommandToString CommandToType named_command
  by unfold_locales (simp_all add: CommandToType_CommandToString CommandToString_CommandToType)

lemma named_command_value: "named_command c \<Longrightarrow> CommandTypeToString (command_value c) = CommandToString c"
  by (cases c) (simp_all add: CommandTypeToString_def named_command_def)

lemma command_value_bounds: "1000 \<le> command_value c \<and> command_value c \<le> 1042"
  by (cases c) simp_all

lemma CommandTypeToString_numeric: "n < 1000 \<Longrightarrow> CommandTypeToString n = NumericToString n"
  by (simp add: CommandTypeToString_def)

section \<open>Merging modes\<close>

lemma card_insert_new:
  "finite S \<Longrightarrow> card (insert x S - M) = card (S - insert x M) + (if x \<in> M then 0 else 1)"
proof (cases "x \<in> M")
  case False
  assume "finite S"
  have "insert x S - M = insert x (S - insert x M)" using False by auto
  with \<open>finite S\<close> False show ?thesis by simp
qed (simp add: insert_absorb)

lemma card_insert_old:
  "finite S \<Longrightarrow> card (insert x S \<inter> M) = card (S \<inter> (M - {x})) + (if x \<in> M then 1 else 0)"
proof (cases "x \<in> M")
  case True
  assume "finite S"
  have "insert x S \<inter> M = insert x (S \<inter> (M - {x}))" using True by auto
  with \<open>finite S\<close> True show ?thesis by simp
qed simp

lemma merge_modes_eq:
  "merge_modes from_char is_mode assign cs modes n =
     (n + card (if assign then {m \<in> from_char ` set cs. is_mode m} - modes
                else {m \<in> from_char ` set cs. is_mode m} \<inter> modes),
      if assign then modes \<union> {m \<in> from_char ` set cs. is_mode m}
      else modes - {m \<in> from_char ` set cs. is_mode m})"
proof (induction cs arbitrary: modes n assign)
  case (Cons c cs)
  let ?S = "{m \<in> from_char ` set cs. is_mode m}"
  have "{m \<in> from_char ` set (c # cs). is_mode m} =
      (if is_mode (from_char c) then insert (from_char c) ?S else ?S)"
    by auto
  then show ?case
    using card_insert_new [of ?S "from_char c" modes] card_insert_old [of ?S "from_char c" modes]
    by (cases "is_mode (from_char c)"; cases assign) (auto simp: Cons.IH Let_def)
qed simp

text \<open>
  What a mode alphabet promises: a mode's letter stands for that mode or for none. Merging the
  letters of a set then gives back the modes of the set that have a letter.
\<close>

locale mode_letters =
  fixes to_char :: "'m \<Rightarrow> char"
    and from_char :: "char \<Rightarrow> 'm"
    and is_mode :: "'m \<Rightarrow> bool"
    and modes_list :: "'m list"
  assumes modes_list: "set modes_list = {m. is_mode m}"
    and letter: "is_mode m \<Longrightarrow> from_char (to_char m) = m \<or> \<not> is_mode (from_char (to_char m))"
begin

lemma merge_dump:
  "snd (merge_modes from_char is_mode True (map to_char (filter (\<lambda>m. m \<in> modes) modes_list)) {} 0) =
     {m \<in> modes. is_mode m \<and> from_char (to_char m) = m}"
proof -
  have "is_mode (from_char (to_char m)) \<longleftrightarrow> from_char (to_char m) = m" if "is_mode m" for m
    using letter that by metis
  then have "{m \<in> from_char ` to_char ` {m \<in> modes. is_mode m}. is_mode m} =
      {m \<in> modes. is_mode m \<and> from_char (to_char m) = m}"
    by (force simp: image_iff)
  then show ?thesis by (simp add: merge_modes_eq modes_list Int_def conj_commute)
qed

end

lemma user_letters [simp]: "is_user_mode m \<Longrightarrow> CharToUserMode (UserModeToChar m) = m"
  by (cases m) (simp_all add: CharToUserMode_def is_user_mode_def)

lemma channel_letters:
  "is_channel_mode m \<Longrightarrow> CharToChannelMode (ChannelModeToChar m) =
     (if m \<in> {CHANNELMODE_ANONYMOUS, CHANNELMODE_QUIET, CHANNELMODE_REOP} then CHANNELMODE_INVALID
      else m)"
  by (cases m) (simp_all add: CharToChannelMode_def is_channel_mode_def)

interpretation user: mode_letters UserModeToChar CharToUserMode is_user_mode user_modes
proof
  show "set user_modes = {m. is_user_mode m}"
    unfolding set_eq_iff
  proof
    fix m
    show "m \<in> set user_modes \<longleftrightarrow> m \<in> {m. is_user_mode m}"
      by (cases m) (simp_all add: user_modes_def is_user_mode_def)
  qed
qed simp

interpretation channel: mode_letters ChannelModeToChar CharToChannelMode is_channel_mode channel_modes
proof
  show "set channel_modes = {m. is_channel_mode m}"
    unfolding set_eq_iff
  proof
    fix m
    show "m \<in> set channel_modes \<longleftrightarrow> m \<in> {m. is_channel_mode m}"
      by (cases m) (simp_all add: channel_modes_def is_channel_mode_def)
  qed
qed (simp add: channel_letters is_channel_mode_def)

section \<open>Lists of parameters\<close>

fun join_words :: "string list \<Rightarrow> string" where
  "join_words [] = []"
| "join_words [w] = w"
| "join_words (w # ws) = w @ '' '' @ join_words ws"

lemma concat_words: "ws \<noteq> [] \<Longrightarrow> concat (map (\<lambda>p. p @ '' '') ws) = join_words ws @ '' ''"
  by (induction ws rule: join_words.induct) simp_all

section \<open>Extensions\<close>

lemma extension_with_value:
  assumes "k \<noteq> []" and "CHR ''='' \<notin> set k" and "list_all (\<lambda>x. \<not> line_terminator x) v"
  shows "regex_match extension_re (k @ CHR ''='' # v) = Some [1 \<mapsto> k, 2 \<mapsto> ''='', 3 \<mapsto> v]"
proof -
  have "regex_match (Seq (Grp 1 (Plus (Not_chr CHR ''='')))
          (Seq (Grp 2 (Chr CHR ''='')) (Grp 3 (Star Dot)))) (k @ CHR ''='' # v) =
        Some [1 \<mapsto> k, 2 \<mapsto> ''='', 3 \<mapsto> v]" (is "regex_match ?r _ = _")
  proof -
    have "derives ?r (k @ CHR ''='' # v, Map.empty) ([], c) \<longleftrightarrow>
        (\<exists>k' v'. k' \<noteq> [] \<and> CHR ''='' \<notin> set k' \<and> list_all (\<lambda>x. \<not> line_terminator x) v' \<and>
           k @ CHR ''='' # v = k' @ CHR ''='' # v' \<and> c = [1 \<mapsto> k', 2 \<mapsto> ''='', 3 \<mapsto> v'])" for c
      unfolding derives_Seq split_paired_Ex derives_Grp_Plus_Cls derives_Grp_Cls
        derives_Grp_Star_Cls list_all_iff
      by auto
    then show ?thesis
      using assms append_sep_eq [OF assms(2)] by (intro regex_match_unique) auto
  qed
  then show ?thesis by (simp add: extension_re_def regex_match_Alt)
qed

text \<open>The first value of a key is kept, also against the entries that are there before.\<close>

lemma map_add_insert: "map_of kvs ++ map_insert k v m = map_of ((k, v) # kvs) ++ m"
  by (auto simp: map_insert_def map_add_def fun_eq_iff split: option.splits)

lemma parse_extensions_values:
  "list_all (\<lambda>(k, v). k \<noteq> [] \<and> CHR ''='' \<notin> set k \<and> list_all (\<lambda>x. \<not> line_terminator x) v) kvs \<Longrightarrow>
     parse_extensions (map (\<lambda>(k, v). k @ CHR ''='' # v) kvs) m = (True, map_of kvs ++ m)"
proof (induction kvs arbitrary: m)
  case (Cons kv kvs)
  obtain k v where kv: "kv = (k, v)" by force
  then have "regex_match extension_re (k @ CHR ''='' # v) = Some [1 \<mapsto> k, 2 \<mapsto> ''='', 3 \<mapsto> v]"
    using Cons.prems extension_with_value by simp
  with Cons have "parse_extensions (map (\<lambda>(k, v). k @ CHR ''='' # v) (kv # kvs)) m =
      (True, map_of kvs ++ map_insert k v m)"
    by (simp add: kv submatch_def)
  then show ?case by (simp only: kv map_add_insert)
qed simp

lemma blank_is_no_mode: "CharToChannelMode CHR '' '' = CHANNELMODE_INVALID"
  by (simp add: CharToChannelMode_def)

lemma changed_modes:
  "(M - (M \<union> S)) \<union> ((M \<union> S) - M) = S - M" "(M - (M - S)) \<union> ((M - S) - M) = S \<inter> M"
  by auto

section \<open>Properties\<close>

text \<open>The command of a message determines its text again: for a command given by a known name
  it is a value from 1000 on whose text is that name, for a known numeric reply it is the
  numeric below 1000 whose text is the name of the reply, so the two kinds never clash.\<close>

lemma message_command_text:
  "(named_command (CommandToType s) \<longrightarrow>
      (\<exists>v. message_command True (r\<lparr>command := Command_STRING (Some s)\<rparr>) = Inr v \<and> 1000 \<le> v \<and>
         CommandTypeToString v = s)) \<and>
   ((n, name) \<in> set numerics \<longrightarrow>
      message_command True (r\<lparr>command := Command_NUMERIC n\<rparr>) = Inr n \<and> n < 1000 \<and>
        CommandTypeToString n = name)"
proof (rule conjI; rule impI)
  assume "named_command (CommandToType s)"
  then show "\<exists>v. message_command True (r\<lparr>command := Command_STRING (Some s)\<rparr>) = Inr v \<and> 1000 \<le> v \<and>
         CommandTypeToString v = s"
    using command_value_bounds
    by (simp add: message_command_def named_command_value CommandToString_CommandToType)
next
  assume n: "(n, name) \<in> set numerics"
  then have "n < 1000" using numerics_range by fastforce
  with n show "message_command True (r\<lparr>command := Command_NUMERIC n\<rparr>) = Inr n \<and> n < 1000 \<and>
        CommandTypeToString n = name"
    by (simp add: message_command_def CommandTypeToString_numeric NumericToString_mem)
qed

text \<open>Every letter that stands for a command stands for one with a textual name, with one
  exception: the letter c yields the command KNOCK, whose text is empty.\<close>

lemma CharToCommand_names:
  assumes "CharToCommand c \<noteq> IRC_COMMANDTYPE_INVALID"
  shows "CommandToString (CharToCommand c) = [] \<longleftrightarrow> c = CHR ''c''"
  using assms unfolding CharToCommand_def by (simp split: if_splits)

text \<open>Merging a mode string sets, after a plus sign, or clears, otherwise, exactly the modes
  whose letters follow the first character, and returns the number of modes that changed; for
  user and for channel modes.\<close>

lemma merge_effect:
  "merge_user (c # cs) um =
     (let S = {m \<in> CharToUserMode ` set cs. is_user_mode m};
          um' = (if c = CHR ''+'' then um \<union> S else um - S)
      in Inr (card ((um - um') \<union> (um' - um)), um')) \<and>
   merge_channel (c # cs) cm =
     (let S = {m \<in> CharToChannelMode ` set cs. is_channel_mode m};
          cm' = (if c = CHR ''+'' then cm \<union> S else cm - S)
      in Inr (card ((cm - cm') \<union> (cm' - cm)), cm'))"
  by (cases "c = CHR ''+''")
     (simp_all add: merge_user_def merge_channel_def merge_modes_eq changed_modes)

text \<open>The printed user modes of a set, merged into the empty set, give the set back; of the
  channel modes the anonymous, quiet and reop flags are lost, as they are printed as blanks.\<close>

lemma modes_round_trip:
  "map_sum id snd (merge_user (dump_user_modes um) {}) = Inr {m \<in> um. is_user_mode m} \<and>
   map_sum id snd (merge_channel (dump_channel_modes cm) {}) =
     Inr {m \<in> cm. is_channel_mode m \<and>
       m \<notin> {CHANNELMODE_ANONYMOUS, CHANNELMODE_QUIET, CHANNELMODE_REOP}}"
proof -
  have "{m \<in> cm. is_channel_mode m \<and> CharToChannelMode (ChannelModeToChar m) = m} =
      {m \<in> cm. is_channel_mode m \<and> m \<notin> {CHANNELMODE_ANONYMOUS, CHANNELMODE_QUIET, CHANNELMODE_REOP}}"
    by (auto simp: channel_letters blank_is_no_mode)
  moreover have "{m \<in> um. is_user_mode m \<and> CharToUserMode (UserModeToChar m) = m} =
      {m \<in> um. is_user_mode m}" by auto
  ultimately show ?thesis
    using user.merge_dump [of um] channel.merge_dump [of cm]
    by (simp add: merge_user_def merge_channel_def dump_user_modes_def dump_channel_modes_def)
qed

text \<open>The parameters of an RPL_ISUPPORT reply that have the form key=value give the map of
  the keys to their values, where the first value of a key counts.\<close>

lemma parse_extensions_map:
  assumes "list_all (\<lambda>(k, v). k \<noteq> [] \<and> CHR ''='' \<notin> set k \<and> list_all (\<lambda>x. \<not> line_terminator x) v) kvs"
  shows "parse_extensions (map (\<lambda>(k, v). k @ CHR ''='' # v) kvs) Map.empty = (True, map_of kvs)"
  using parse_extensions_values [OF assms, of Map.empty] by simp

text \<open>Stringifying the parameters from an index joins them with single blanks; when the index is
  that of the last parameter the trailing blank of the loop is kept, and an index beyond the
  list gives the empty string.\<close>

lemma stringify_joins:
  "stringify ps (int i) =
     Inr (if i + 1 < length ps then join_words (drop i ps)
          else if i + 1 = length ps then last ps @ '' ''
          else [])"
proof (cases "i + 1 < length ps")
  case True
  then show ?thesis
    using concat_words [of "drop i ps"] by (auto simp: stringify_def)
next
  case False
  show ?thesis
  proof (cases "i + 1 = length ps")
    case True
    then have "drop i ps = [last ps]"
      by (metis add_diff_cancel_right' append_butlast_last_id append_eq_conv_conj length_butlast
          list.size(3) add_is_0 one_neq_zero)
    with True show ?thesis by (auto simp: stringify_def)
  qed (use False in \<open>auto simp: stringify_def\<close>)
qed

end
