(* ===== verification/State_Machines.thy ===== *)
theory State_Machines
  imports Net_Prelude
begin

text \<open>
  The guarded state machines of the library: the registration of an IRC client
  (\<open>irc_statemachine_registration.cpp\<close>) and the WLAN monitor
  (\<open>net_wlan_monitor_statemachine.cpp\<close>).

  Both override \<open>change\<close>: the requested state is looked up in a table of the transitions that
  the current state admits and either handed to the base class or refused. The base classes
  belong to another library, so the base class's \<open>change\<close> is the parameter \<open>base_change\<close>. The
  registration and the WLAN machine on Windows have a synchronous base class: what is used of it is
  that the machine is in the requested state afterwards. On Unix the base class of the WLAN machine
  (\<open>Common_StateMachineAsynch_T\<close>) is asynchronous: its \<open>change\<close> puts the transition into the
  message queue, and a thread of its own takes the messages out in their order and enters the states.
  Its four operations are the parameters of \<open>asynch_library\<close>, and \<open>asynch_ok\<close> states what they do.
  \<open>change\<close> of the derived class looks for the state the queue leads to. Locks are taken as acquired.
\<close>

section \<open>Guarded machines\<close>

text \<open>The states a machine visits while it is asked for a list of states.\<close>

fun visited :: "('m \<Rightarrow> 's) \<Rightarrow> ('s \<Rightarrow> 'm \<Rightarrow> bool \<times> 'm) \<Rightarrow> 's list \<Rightarrow> 'm \<Rightarrow> 's list" where
  "visited state change [] m = []"
| "visited state change (t # ts) m =
     (let (ok, m') = change t m in
      (if ok then state m' # visited state change ts m' else visited state change ts m'))"

fun path :: "('s \<Rightarrow> 's \<Rightarrow> bool) \<Rightarrow> 's \<Rightarrow> 's list \<Rightarrow> bool" where
  "path R s [] = True"
| "path R s (t # ts) = (R s t \<and> path R t ts)"

text \<open>A state that can only be entered from \<open>A\<close> or from itself is preceded by \<open>A\<close> on every path.\<close>

lemma path_before:
  assumes "\<And>s. R s t \<Longrightarrow> s \<in> A \<or> s = t" and "path R s ts" and "s \<notin> A" and "s \<noteq> t" and "t \<in> set ts"
  shows "\<exists>us vs. ts = us @ t # vs \<and> set us \<inter> A \<noteq> {}"
  using assms(2-)
proof (induction ts arbitrary: s)
  case (Cons x ts)
  then have "x \<noteq> t" using assms(1) [of s] by auto
  with Cons.prems have t: "t \<in> set ts" by simp
  have "\<exists>us vs. ts = us @ t # vs \<and> set (x # us) \<inter> A \<noteq> {}"
  proof (cases "x \<in> A")
    case True
    with t show ?thesis using split_list [of t ts] by fastforce
  next
    case False
    with Cons \<open>x \<noteq> t\<close> t show ?thesis by fastforce
  qed
  then show ?case by (metis append_Cons)
qed simp

locale guarded_machine =
  fixes state :: "'m \<Rightarrow> 's"
    and change :: "'s \<Rightarrow> 'm \<Rightarrow> bool \<times> 'm"
    and allowed :: "'s \<Rightarrow> 's \<Rightarrow> bool"
  assumes accepted: "allowed (state m) t \<Longrightarrow>
      fst (change t m) \<and> state (snd (change t m)) = t"
    and refused: "\<not> allowed (state m) t \<Longrightarrow> change t m = (False, m)"
begin

lemma change_cases:
  "(\<exists>m'. change t m = (True, m') \<and> state m' = t \<and> allowed (state m) t) \<or>
   (change t m = (False, m) \<and> \<not> allowed (state m) t)"
  using accepted [of m t] refused [of m t] by (cases "change t m") auto

lemma visited_path: "path allowed (state m) (visited state change ts m)"
proof (induction ts arbitrary: m)
  case (Cons t ts)
  then show ?case using change_cases [of t m] by auto
qed simp

lemma visited_all: "path allowed (state m) ts \<Longrightarrow> visited state change ts m = ts"
proof (induction ts arbitrary: m)
  case (Cons t ts)
  then show ?case using change_cases [of t m] by auto
qed simp

end

section \<open>IRC registration\<close>

datatype IRC_RegistrationState =
    IRC_REGISTRATION_STATE_INVALID | IRC_REGISTRATION_STATE_PASS | IRC_REGISTRATION_STATE_NICK
  | IRC_REGISTRATION_STATE_USER | IRC_REGISTRATION_STATE_FINISHED | IRC_REGISTRATION_STATE_MAX

fun registration_allowed :: "IRC_RegistrationState \<Rightarrow> IRC_RegistrationState \<Rightarrow> bool" where
  "registration_allowed IRC_REGISTRATION_STATE_PASS t =
     (t = IRC_REGISTRATION_STATE_NICK \<or> t = IRC_REGISTRATION_STATE_FINISHED)"
| "registration_allowed IRC_REGISTRATION_STATE_NICK t = (t = IRC_REGISTRATION_STATE_USER)"
| "registration_allowed IRC_REGISTRATION_STATE_USER t = (t = IRC_REGISTRATION_STATE_FINISHED)"
| "registration_allowed IRC_REGISTRATION_STATE_FINISHED t = (t = IRC_REGISTRATION_STATE_PASS)"
| "registration_allowed _ t = False"

definition registration_change ::
  "('m \<Rightarrow> IRC_RegistrationState) \<Rightarrow> (IRC_RegistrationState \<Rightarrow> 'm \<Rightarrow> 'm) \<Rightarrow> IRC_RegistrationState \<Rightarrow> 'm \<Rightarrow> bool \<times> 'm" where
  "registration_change state base_change newState m =
     (if registration_allowed (state m) newState then (True, base_change newState m) else (False, m))"

fun registration_stateToString :: "IRC_RegistrationState \<Rightarrow> string" where
  "registration_stateToString IRC_REGISTRATION_STATE_NICK = ''NICK''"
| "registration_stateToString IRC_REGISTRATION_STATE_PASS = ''PASS''"
| "registration_stateToString IRC_REGISTRATION_STATE_USER = ''USER''"
| "registration_stateToString IRC_REGISTRATION_STATE_FINISHED = ''FINISHED''"
| "registration_stateToString _ = ''INVALID''"

section \<open>WLAN monitor\<close>

text \<open>The prefix \<open>NET_WLAN_MONITOR_STATE_\<close> of the enumerators is \<open>WLAN_\<close> here.\<close>

datatype Net_WLAN_MonitorState =
    WLAN_INVALID | WLAN_IDLE | WLAN_SCAN | WLAN_AUTHENTICATE | WLAN_ASSOCIATE | WLAN_CONNECT
  | WLAN_DISCONNECT | WLAN_DISASSOCIATE | WLAN_DEAUTHENTICATE | WLAN_INITIALIZED | WLAN_SCANNED
  | WLAN_AUTHENTICATED | WLAN_ASSOCIATED | WLAN_CONNECTED | WLAN_MAX

text \<open>The platforms the preprocessor tells apart, with the option each has.\<close>

datatype wlan_platform = Win32 (WLANAPI_SUPPORT: bool) | Linux (NL80211_SUPPORT: bool) | Other_Unix

definition from_INVALID :: "Net_WLAN_MonitorState list" where
  "from_INVALID = [WLAN_INITIALIZED]"

fun from_IDLE :: "wlan_platform \<Rightarrow> Net_WLAN_MonitorState list" where
  "from_IDLE (Win32 _) =
     [WLAN_INVALID, WLAN_IDLE, WLAN_SCAN, WLAN_CONNECT, WLAN_INITIALIZED, WLAN_SCANNED, WLAN_CONNECTED]"
| "from_IDLE (Linux nl) =
     [WLAN_INVALID, WLAN_IDLE, WLAN_SCAN, WLAN_AUTHENTICATE]
     @ (if nl then [WLAN_DEAUTHENTICATE, WLAN_ASSOCIATE, WLAN_DISASSOCIATE, WLAN_CONNECT, WLAN_DISCONNECT]
        else [])
     @ [WLAN_INITIALIZED, WLAN_SCANNED, WLAN_AUTHENTICATED]
     @ (if nl then [WLAN_ASSOCIATED] else []) @ [WLAN_CONNECTED]"
| "from_IDLE Other_Unix = [WLAN_INVALID, WLAN_IDLE, WLAN_SCAN, WLAN_INITIALIZED, WLAN_SCANNED]"

fun from_SCAN :: "wlan_platform \<Rightarrow> Net_WLAN_MonitorState list" where
  "from_SCAN p =
     [WLAN_INVALID, WLAN_IDLE, WLAN_SCAN]
     @ (case p of Win32 api \<Rightarrow> if api then [WLAN_CONNECT] else []
        | Linux nl \<Rightarrow> if nl then [WLAN_ASSOCIATE] else []
        | Other_Unix \<Rightarrow> [])
     @ [WLAN_INITIALIZED, WLAN_SCANNED]"

definition from_AUTHENTICATE :: "Net_WLAN_MonitorState list" where
  "from_AUTHENTICATE =
     [WLAN_INVALID, WLAN_IDLE, WLAN_AUTHENTICATE, WLAN_DEAUTHENTICATE, WLAN_INITIALIZED,
      WLAN_SCANNED, WLAN_AUTHENTICATED]"

fun from_ASSOCIATE :: "wlan_platform \<Rightarrow> Net_WLAN_MonitorState list" where
  "from_ASSOCIATE p =
     [WLAN_INVALID, WLAN_IDLE] @ (if p = Linux True then [WLAN_SCAN] else [])
     @ [WLAN_ASSOCIATE, WLAN_DISASSOCIATE, WLAN_INITIALIZED, WLAN_SCANNED, WLAN_ASSOCIATED]"

definition from_DEAUTHENTICATE :: "Net_WLAN_MonitorState list" where
  "from_DEAUTHENTICATE = [WLAN_INVALID, WLAN_IDLE, WLAN_INITIALIZED, WLAN_SCANNED]"

definition from_DISASSOCIATE :: "Net_WLAN_MonitorState list" where
  "from_DISASSOCIATE =
     [WLAN_INVALID, WLAN_AUTHENTICATED, WLAN_IDLE, WLAN_INITIALIZED, WLAN_SCANNED]"

fun from_CONNECT :: "wlan_platform \<Rightarrow> Net_WLAN_MonitorState list" where
  "from_CONNECT (Win32 _) =
     [WLAN_INVALID, WLAN_CONNECT, WLAN_DISCONNECT, WLAN_INITIALIZED, WLAN_SCANNED, WLAN_CONNECTED]"
| "from_CONNECT p =
     [WLAN_INVALID] @ (if p = Linux True then [WLAN_IDLE] else [])
     @ [WLAN_INITIALIZED, WLAN_SCANNED, WLAN_ASSOCIATED, WLAN_CONNECTED]"

fun from_DISCONNECT :: "wlan_platform \<Rightarrow> Net_WLAN_MonitorState list" where
  "from_DISCONNECT (Win32 _) = [WLAN_INVALID, WLAN_IDLE, WLAN_INITIALIZED, WLAN_SCANNED]"
| "from_DISCONNECT _ = [WLAN_INVALID, WLAN_DISASSOCIATE, WLAN_INITIALIZED, WLAN_SCANNED]"

fun from_INITIALIZED :: "wlan_platform \<Rightarrow> Net_WLAN_MonitorState list" where
  "from_INITIALIZED (Win32 _) =
     [WLAN_INVALID, WLAN_IDLE, WLAN_INITIALIZED, WLAN_SCANNED, WLAN_CONNECTED]"
| "from_INITIALIZED _ = [WLAN_INVALID, WLAN_IDLE, WLAN_INITIALIZED, WLAN_CONNECTED]"

fun from_SCANNED :: "wlan_platform \<Rightarrow> Net_WLAN_MonitorState list" where
  "from_SCANNED (Win32 _) =
     [WLAN_INVALID, WLAN_IDLE, WLAN_SCAN, WLAN_CONNECT, WLAN_INITIALIZED, WLAN_SCANNED, WLAN_CONNECTED]"
| "from_SCANNED _ =
     [WLAN_INVALID, WLAN_IDLE, WLAN_AUTHENTICATE, WLAN_INITIALIZED, WLAN_SCANNED,
      WLAN_AUTHENTICATED, WLAN_ASSOCIATED, WLAN_CONNECTED]"

definition from_AUTHENTICATED :: "Net_WLAN_MonitorState list" where
  "from_AUTHENTICATED =
     [WLAN_INVALID, WLAN_SCAN, WLAN_ASSOCIATE, WLAN_DEAUTHENTICATE, WLAN_INITIALIZED,
      WLAN_SCANNED, WLAN_ASSOCIATED]"

fun from_ASSOCIATED :: "wlan_platform \<Rightarrow> Net_WLAN_MonitorState list" where
  "from_ASSOCIATED p =
     [WLAN_INVALID] @ (if p = Linux True then [WLAN_IDLE] else [])
     @ [WLAN_SCAN, WLAN_CONNECT, WLAN_DISASSOCIATE, WLAN_INITIALIZED, WLAN_SCANNED,
        WLAN_AUTHENTICATED, WLAN_CONNECTED]"

definition from_CONNECTED :: "Net_WLAN_MonitorState list" where
  "from_CONNECTED =
     [WLAN_INVALID, WLAN_IDLE, WLAN_SCAN, WLAN_CONNECT, WLAN_DISCONNECT, WLAN_INITIALIZED,
      WLAN_SCANNED]"

text \<open>The switch over the current state; the Unix-only states have no case on Windows.\<close>

fun wlan_successors :: "wlan_platform \<Rightarrow> Net_WLAN_MonitorState \<Rightarrow> Net_WLAN_MonitorState list" where
  "wlan_successors p WLAN_INVALID = from_INVALID"
| "wlan_successors p WLAN_IDLE = from_IDLE p"
| "wlan_successors p WLAN_SCAN = from_SCAN p"
| "wlan_successors p WLAN_AUTHENTICATE = (if is_Win32 p then [] else from_AUTHENTICATE)"
| "wlan_successors p WLAN_ASSOCIATE = (if is_Win32 p then [] else from_ASSOCIATE p)"
| "wlan_successors p WLAN_DEAUTHENTICATE = (if is_Win32 p then [] else from_DEAUTHENTICATE)"
| "wlan_successors p WLAN_DISASSOCIATE = (if is_Win32 p then [] else from_DISASSOCIATE)"
| "wlan_successors p WLAN_CONNECT = from_CONNECT p"
| "wlan_successors p WLAN_DISCONNECT = from_DISCONNECT p"
| "wlan_successors p WLAN_INITIALIZED = from_INITIALIZED p"
| "wlan_successors p WLAN_SCANNED = from_SCANNED p"
| "wlan_successors p WLAN_AUTHENTICATED = (if is_Win32 p then [] else from_AUTHENTICATED)"
| "wlan_successors p WLAN_ASSOCIATED = (if is_Win32 p then [] else from_ASSOCIATED p)"
| "wlan_successors p WLAN_CONNECTED = from_CONNECTED"
| "wlan_successors p WLAN_MAX = []"

lemmas wlan_table =
  from_INVALID_def from_AUTHENTICATE_def from_DEAUTHENTICATE_def from_DISASSOCIATE_def
  from_AUTHENTICATED_def from_CONNECTED_def

text \<open>The queue of the asynchronous machine, and the loop that looks for the state it leads to.\<close>

datatype wlan_message = MB_STOP | Transition Net_WLAN_MonitorState

record Net_WLAN_MonitorStateMachine =
  machine_state :: Net_WLAN_MonitorState
  msg_queue :: "wlan_message list"

fun queued_state :: "Net_WLAN_MonitorState \<Rightarrow> wlan_message list \<Rightarrow> Net_WLAN_MonitorState" where
  "queued_state s [] = s"
| "queued_state s [m] = s"
| "queued_state s (m # m' # ms) =
     queued_state (case m of MB_STOP \<Rightarrow> s | Transition t \<Rightarrow> t) (m' # ms)"

definition wlan_state :: "wlan_platform \<Rightarrow> Net_WLAN_MonitorStateMachine \<Rightarrow> Net_WLAN_MonitorState" where
  "wlan_state p m = (if is_Win32 p then machine_state m else queued_state (machine_state m) (msg_queue m))"

definition wlan_change ::
  "wlan_platform \<Rightarrow> (Net_WLAN_MonitorState \<Rightarrow> Net_WLAN_MonitorStateMachine \<Rightarrow> Net_WLAN_MonitorStateMachine)
   \<Rightarrow> Net_WLAN_MonitorState \<Rightarrow> Net_WLAN_MonitorStateMachine \<Rightarrow> bool \<times> Net_WLAN_MonitorStateMachine" where
  "wlan_change p base_change newState m =
     (if newState \<in> set (wlan_successors p (wlan_state p m))
      then (True, base_change newState m) else (False, m))"

definition wlan_initialize ::
  "wlan_platform \<Rightarrow> (Net_WLAN_MonitorState \<Rightarrow> Net_WLAN_MonitorStateMachine \<Rightarrow> Net_WLAN_MonitorStateMachine)
   \<Rightarrow> Net_WLAN_MonitorStateMachine \<Rightarrow> bool \<times> Net_WLAN_MonitorStateMachine" where
  "wlan_initialize p base_change m = (True, snd (wlan_change p base_change WLAN_INITIALIZED m))"

fun wlan_stateToString :: "Net_WLAN_MonitorState \<Rightarrow> string" where
  "wlan_stateToString WLAN_IDLE = ''IDLE''"
| "wlan_stateToString WLAN_SCAN = ''SCAN''"
| "wlan_stateToString WLAN_AUTHENTICATE = ''AUTHENTICATE''"
| "wlan_stateToString WLAN_ASSOCIATE = ''ASSOCIATE''"
| "wlan_stateToString WLAN_CONNECT = ''CONNECT''"
| "wlan_stateToString WLAN_DISCONNECT = ''DISCONNECT''"
| "wlan_stateToString WLAN_DISASSOCIATE = ''DISASSOCIATE''"
| "wlan_stateToString WLAN_DEAUTHENTICATE = ''DEAUTHENTICATE''"
| "wlan_stateToString WLAN_INITIALIZED = ''INITIALIZED''"
| "wlan_stateToString WLAN_SCANNED = ''SCANNED''"
| "wlan_stateToString WLAN_AUTHENTICATED = ''AUTHENTICATED''"
| "wlan_stateToString WLAN_ASSOCIATED = ''ASSOCIATED''"
| "wlan_stateToString WLAN_CONNECTED = ''CONNECTED''"
| "wlan_stateToString _ = ''INVALID''"

text \<open>
  The asynchronous base class: \<open>change\<close> and \<open>stop\<close>, and what its thread does, which dequeues a message
  and enters the state. The message queue is a FIFO; it may refuse a message, when it is full or closed.
\<close>

record asynch_library =
  asynch_change :: "Net_WLAN_MonitorState \<Rightarrow> Net_WLAN_MonitorStateMachine \<Rightarrow> Net_WLAN_MonitorStateMachine"
  asynch_stop :: "Net_WLAN_MonitorStateMachine \<Rightarrow> Net_WLAN_MonitorStateMachine"
  asynch_dequeue :: "Net_WLAN_MonitorStateMachine \<Rightarrow> Net_WLAN_MonitorState option \<times> Net_WLAN_MonitorStateMachine"
  asynch_enter :: "Net_WLAN_MonitorState \<Rightarrow> Net_WLAN_MonitorStateMachine \<Rightarrow> Net_WLAN_MonitorStateMachine"

definition asynch_ok :: "asynch_library \<Rightarrow> bool" where
  "asynch_ok lib \<longleftrightarrow>
     (\<forall>t m. asynch_change lib t m = m \<or> asynch_change lib t m = m\<lparr>msg_queue := msg_queue m @ [Transition t]\<rparr>)
     \<and> (\<forall>m. asynch_stop lib m = m\<lparr>msg_queue := msg_queue m @ [MB_STOP]\<rparr>)
     \<and> (\<forall>m. asynch_dequeue lib m =
          (case msg_queue m of
             [] \<Rightarrow> (None, m)
           | MB_STOP # q \<Rightarrow> (None, m\<lparr>msg_queue := q\<rparr>)
           | Transition t # q \<Rightarrow> (Some t, m\<lparr>msg_queue := q\<rparr>)))
     \<and> (\<forall>t m. asynch_enter lib t m = m\<lparr>machine_state := t\<rparr>)"

datatype asynch_event = Change_to Net_WLAN_MonitorState | Stop_thread | Take_message | Enter_state

abbreviation wlan_new :: Net_WLAN_MonitorStateMachine where
  "wlan_new \<equiv> \<lparr>machine_state = WLAN_INVALID, msg_queue = []\<rparr>"

section \<open>Interpretations\<close>

text \<open>Base classes whose \<open>change\<close> leaves the machine in the requested state.\<close>

locale statemachine_base =
  fixes state :: "'m \<Rightarrow> 's"
    and base_change :: "'s \<Rightarrow> 'm \<Rightarrow> 'm"
  assumes base_changes: "state (base_change t m) = t"

sublocale statemachine_base \<subseteq> guarded: guarded_machine state
  "\<lambda>t m. if allowed (state m) t then (True, base_change t m) else (False, m)" allowed
  for allowed :: "'s \<Rightarrow> 's \<Rightarrow> bool"
  by unfold_locales (simp_all add: base_changes)

context statemachine_base
begin

lemma requests_path:
  "path allowed (state m) (visited state
     (\<lambda>t m. if allowed (state m) t then (True, base_change t m) else (False, m)) ts m)"
  by (rule guarded.visited_path)

lemma requests_accepted:
  "path allowed (state m) ts \<Longrightarrow> visited state
     (\<lambda>t m. if allowed (state m) t then (True, base_change t m) else (False, m)) ts m = ts"
  by (rule guarded.visited_all)

end

lemma registration_change_eq:
  "registration_change state base_change =
     (\<lambda>t m. if registration_allowed (state m) t then (True, base_change t m) else (False, m))"
  by (simp add: registration_change_def fun_eq_iff)

abbreviation wlan_allowed :: "wlan_platform \<Rightarrow> Net_WLAN_MonitorState \<Rightarrow> Net_WLAN_MonitorState \<Rightarrow> bool" where
  "wlan_allowed p s t \<equiv> t \<in> set (wlan_successors p s)"

lemma wlan_change_eq:
  "wlan_change p base_change =
     (\<lambda>t m. if wlan_allowed p (wlan_state p m) t then (True, base_change t m) else (False, m))"
  by (simp add: wlan_change_def fun_eq_iff)

text \<open>
  The two machines on a base class that stores the state at once; for the WLAN monitor this is
  the base class of Windows. The asynchronous base class of Unix is treated below.
\<close>

definition store_state :: "Net_WLAN_MonitorState \<Rightarrow> Net_WLAN_MonitorStateMachine \<Rightarrow> Net_WLAN_MonitorStateMachine" where
  "store_state t m = m\<lparr>machine_state := t, msg_queue := []\<rparr>"

interpretation registration: statemachine_base id "\<lambda>t _. t :: IRC_RegistrationState"
  by unfold_locales simp

interpretation registration_machine: guarded_machine id "registration_change id (\<lambda>t _. t)"
    registration_allowed
  unfolding registration_change_eq by (rule registration.guarded.guarded_machine_axioms)

interpretation wlan: statemachine_base "wlan_state p" store_state for p
  by unfold_locales (simp add: store_state_def wlan_state_def)

interpretation wlan_machine: guarded_machine "wlan_state p" "wlan_change p store_state" "wlan_allowed p"
  for p
  unfolding wlan_change_eq by (rule wlan.guarded.guarded_machine_axioms)

section \<open>The transition tables\<close>

lemma registration_before:
  "registration_allowed s IRC_REGISTRATION_STATE_USER \<Longrightarrow> s = IRC_REGISTRATION_STATE_NICK"
  by (cases s) simp_all

text \<open>Without asynchronous scans, what must come before association.\<close>

lemma associate_from:
  "p \<in> {Linux False, Other_Unix} \<Longrightarrow> wlan_allowed p s WLAN_ASSOCIATE \<Longrightarrow>
   s = WLAN_AUTHENTICATED \<or> s = WLAN_ASSOCIATE"
  by (cases s) (auto simp: wlan_table)

definition has_state :: "wlan_platform \<Rightarrow> Net_WLAN_MonitorState \<Rightarrow> bool" where
  "has_state p s \<longleftrightarrow> s \<noteq> WLAN_MAX \<and> (is_Win32 p \<longrightarrow> s \<notin> {WLAN_AUTHENTICATE, WLAN_ASSOCIATE,
     WLAN_DISASSOCIATE, WLAN_DEAUTHENTICATE, WLAN_AUTHENTICATED, WLAN_ASSOCIATED})"

lemma queued_state_snoc:
  "queued_state s (q @ [x]) = foldl (\<lambda>s m. case m of MB_STOP \<Rightarrow> s | Transition t \<Rightarrow> t) s q"
proof (induction q arbitrary: s)
  case (Cons m q)
  then show ?case by (cases q) simp_all
qed simp

section \<open>Properties\<close>

text \<open>Whatever states are requested of the registration, in whatever order, the client is
  never in the state USER without having been in the state NICK before.\<close>

lemma registration_order:
  assumes "\<And>t m. state (base_change t m) = t" and "state m = IRC_REGISTRATION_STATE_PASS"
    and "IRC_REGISTRATION_STATE_USER \<in> set (visited state (registration_change state base_change) ts m)"
  shows "\<exists>us vs. visited state (registration_change state base_change) ts m =
      us @ IRC_REGISTRATION_STATE_USER # vs \<and> IRC_REGISTRATION_STATE_NICK \<in> set us"
proof -
  have base: "statemachine_base state base_change" by unfold_locales (rule assms(1))
  have "path registration_allowed (state m) (visited state (registration_change state base_change) ts m)"
    unfolding registration_change_eq
    by (rule statemachine_base.requests_path [OF base])
  from path_before [OF _ this _ _ assms(3), of "{IRC_REGISTRATION_STATE_NICK}"] registration_before
  show ?thesis by (auto simp: assms(2))
qed

text \<open>The WLAN monitor can be stopped in every state the platform has, and be reset in
  every state but the invalid one, which only initialization leaves.\<close>

lemma wlan_stop_and_reset:
  assumes "has_state p (wlan_state p m)"
  shows "wlan_change p base_change WLAN_INITIALIZED m = (True, base_change WLAN_INITIALIZED m) \<and>
    (fst (wlan_change p base_change WLAN_INVALID m) \<longleftrightarrow> wlan_state p m \<noteq> WLAN_INVALID) \<and>
    (wlan_state p m = WLAN_INVALID \<and> fst (wlan_change p base_change t m) \<longrightarrow> t = WLAN_INITIALIZED)"
  using assms
  by (cases "wlan_state p m"; cases p) (simp_all add: wlan_change_def wlan_table has_state_def)

text \<open>
  The machine of Unix at work: requests, the end of the thread, and the two steps of the thread, which
  takes a message out of the queue and then enters the state, come in any order. \<open>entered\<close> are the
  states entered, of a machine and the transition the thread holds.
\<close>

fun entered :: "wlan_platform \<Rightarrow> asynch_library \<Rightarrow> asynch_event list
    \<Rightarrow> Net_WLAN_MonitorStateMachine \<Rightarrow> Net_WLAN_MonitorState option \<Rightarrow> Net_WLAN_MonitorState list" where
  "entered p lib [] m held = []"
| "entered p lib (Change_to t # es) m held = entered p lib es (snd (wlan_change p (asynch_change lib) t m)) held"
| "entered p lib (Stop_thread # es) m held = entered p lib es (asynch_stop lib m) held"
| "entered p lib (Take_message # es) m held =
     (case held of
        None \<Rightarrow> (let (held, m) = asynch_dequeue lib m in entered p lib es m held)
      | Some t \<Rightarrow> entered p lib es m held)"
| "entered p lib (Enter_state # es) m held =
     (case held of
        None \<Rightarrow> entered p lib es m held
      | Some t \<Rightarrow> t # entered p lib es (asynch_enter lib t m) None)"

fun queued :: "wlan_message list \<Rightarrow> Net_WLAN_MonitorState list" where
  "queued [] = []"
| "queued (MB_STOP # ms) = queued ms"
| "queued (Transition t # ms) = t # queued ms"

lemma queued_append [simp]: "queued (ms @ ns) = queued ms @ queued ns"
  by (induction ms rule: queued.induct) simp_all

lemma queued_state_in: "queued_state s ms \<in> insert s (set (queued ms))"
proof (induction s ms rule: queued_state.induct)
  case (3 s m m' ms)
  then show ?case by (cases m) auto
qed simp_all

text \<open>Every association in a sequence of states comes after an authentication.\<close>

definition authenticated_before :: "Net_WLAN_MonitorState list \<Rightarrow> bool" where
  "authenticated_before ts \<longleftrightarrow>
     (\<forall>us vs. ts = us @ WLAN_ASSOCIATE # vs \<longrightarrow> WLAN_AUTHENTICATED \<in> set us)"

lemma authenticated_before_Nil [simp]: "authenticated_before []"
  by (simp add: authenticated_before_def)

lemma authenticated_before_snoc:
  assumes "authenticated_before ts" "t = WLAN_ASSOCIATE \<Longrightarrow> WLAN_AUTHENTICATED \<in> set ts"
  shows "authenticated_before (ts @ [t])"
  unfolding authenticated_before_def
proof (intro allI impI)
  fix us vs assume *: "ts @ [t] = us @ WLAN_ASSOCIATE # vs"
  show "WLAN_AUTHENTICATED \<in> set us"
  proof (cases vs rule: rev_exhaust)
    case Nil
    then show ?thesis using * assms(2) by simp
  next
    case (snoc vs' v)
    then have "ts = us @ WLAN_ASSOCIATE # vs'" using * by simp
    then show ?thesis using assms(1) by (simp add: authenticated_before_def)
  qed
qed

lemma authenticated_before_prefix: "authenticated_before (ts @ us) \<Longrightarrow> authenticated_before ts"
  by (simp add: authenticated_before_def)

lemma authenticated_before_associate:
  "authenticated_before ts \<Longrightarrow> WLAN_ASSOCIATE \<in> set ts \<Longrightarrow> WLAN_AUTHENTICATED \<in> set ts"
  by (auto simp: authenticated_before_def dest!: split_list)

text \<open>What holds of the states entered so far, the one the thread holds and those in the queue.\<close>

definition pending :: "Net_WLAN_MonitorState list \<Rightarrow> Net_WLAN_MonitorState option
    \<Rightarrow> Net_WLAN_MonitorStateMachine \<Rightarrow> Net_WLAN_MonitorState list" where
  "pending es held m = es @ (case held of None \<Rightarrow> [] | Some t \<Rightarrow> [t]) @ queued (msg_queue m)"

definition monitor_ok :: "Net_WLAN_MonitorState list \<Rightarrow> Net_WLAN_MonitorState option
    \<Rightarrow> Net_WLAN_MonitorStateMachine \<Rightarrow> bool" where
  "monitor_ok es held m \<longleftrightarrow>
     authenticated_before (pending es held m) \<and> machine_state m \<in> insert WLAN_INVALID (set es)"

lemma monitor_ok_change:
  assumes "asynch_ok lib" "p \<in> {Linux False, Other_Unix}" "monitor_ok es held m"
  shows "monitor_ok es held (snd (wlan_change p (asynch_change lib) t m))"
proof (cases "wlan_allowed p (wlan_state p m) t \<and> asynch_change lib t m \<noteq> m")
  case True
  then have change: "wlan_change p (asynch_change lib) t m = (True, m\<lparr>msg_queue := msg_queue m @ [Transition t]\<rparr>)"
    using assms(1) by (auto simp: asynch_ok_def wlan_change_def)
  have state: "wlan_state p m \<in> insert WLAN_INVALID (set (pending es held m))"
    using assms(2,3) queued_state_in [of "machine_state m" "msg_queue m"]
    by (auto simp: wlan_state_def monitor_ok_def pending_def)
  have "WLAN_AUTHENTICATED \<in> set (pending es held m)" if "t = WLAN_ASSOCIATE"
    using associate_from [of p "wlan_state p m"] True that assms(2,3) state authenticated_before_associate
    by (auto simp: monitor_ok_def)
  from authenticated_before_snoc [OF _ this] show ?thesis
    using assms(3) by (simp add: change monitor_ok_def pending_def)
next
  case False
  then show ?thesis
    using assms(3) by (auto simp: wlan_change_def)
qed

lemma entered_authenticated_before:
  assumes "asynch_ok lib" "p \<in> {Linux False, Other_Unix}"
  shows "monitor_ok es held m \<Longrightarrow> authenticated_before (es @ entered p lib evs m held)"
proof (induction evs arbitrary: es held m)
  case Nil
  then show ?case
    using authenticated_before_prefix [of es] by (auto simp: monitor_ok_def pending_def)
next
  case (Cons e evs)
  note ok = Cons.prems and base = assms(1) [unfolded asynch_ok_def]
  show ?case
  proof (cases e)
    case (Change_to t)
    then show ?thesis
      using Cons.IH [OF monitor_ok_change [OF assms ok]] by simp
  next
    case Stop_thread
    then show ?thesis
      using ok base by (simp add: Cons.IH monitor_ok_def pending_def)
  next
    case Take_message
    then show ?thesis
      using ok base
      by (cases held; cases "msg_queue m" rule: queued.cases)
         (auto intro!: Cons.IH simp: monitor_ok_def pending_def)
  next
    case Enter_state
    then show ?thesis
      using ok base Cons.IH [of "es @ [the held]" None "asynch_enter lib (the held) m"] Cons.IH [of es held m]
      by (cases held) (auto simp: monitor_ok_def pending_def)
  qed
qed

text \<open>C39: On Unix, without the asynchronous scans of NL80211, the monitor never enters the state in which it
  associates without having entered the authenticated state before, whatever states are requested of it,
  however the requests are interleaved with the thread that takes the transitions out of the queue and
  carries them out, and whether or not it is stopped in between.\<close>

theorem wlan_authenticates_first:
  assumes "asynch_ok lib" "p \<in> {Linux False, Other_Unix}"
    and "entered p lib es wlan_new None = us @ WLAN_ASSOCIATE # vs"
  shows "WLAN_AUTHENTICATED \<in> set us"
  using entered_authenticated_before [OF assms(1,2), of "[]" None wlan_new es] assms(3)
  by (simp add: monitor_ok_def pending_def authenticated_before_def)

definition queue_library :: asynch_library where
  "queue_library =
     \<lparr>asynch_change = (\<lambda>t m. m\<lparr>msg_queue := msg_queue m @ [Transition t]\<rparr>),
      asynch_stop = (\<lambda>m. m\<lparr>msg_queue := msg_queue m @ [MB_STOP]\<rparr>),
      asynch_dequeue = (\<lambda>m. case msg_queue m of
          [] \<Rightarrow> (None, m)
        | MB_STOP # q \<Rightarrow> (None, m\<lparr>msg_queue := q\<rparr>)
        | Transition t # q \<Rightarrow> (Some t, m\<lparr>msg_queue := q\<rparr>)),
      asynch_enter = (\<lambda>t m. m\<lparr>machine_state := t\<rparr>)\<rparr>"

lemma queue_library_ok: "asynch_ok queue_library"
  by (simp add: asynch_ok_def queue_library_def)

theorem wlan_authenticates_first_witness:
  "\<exists>us vs. entered (Linux False) queue_library
      [Change_to WLAN_INITIALIZED, Take_message, Enter_state, Change_to WLAN_IDLE, Change_to WLAN_ASSOCIATE,
       Take_message, Enter_state, Change_to WLAN_AUTHENTICATE, Take_message, Enter_state,
       Change_to WLAN_AUTHENTICATED, Stop_thread, Change_to WLAN_ASSOCIATE, Take_message, Enter_state,
       Take_message, Take_message, Enter_state] wlan_new None = us @ WLAN_ASSOCIATE # vs
    \<and> us = [WLAN_INITIALIZED, WLAN_IDLE, WLAN_AUTHENTICATE, WLAN_AUTHENTICATED] \<and> WLAN_AUTHENTICATED \<in> set us"
proof -
  have "entered (Linux False) queue_library
      [Change_to WLAN_INITIALIZED, Take_message, Enter_state, Change_to WLAN_IDLE, Change_to WLAN_ASSOCIATE,
       Take_message, Enter_state, Change_to WLAN_AUTHENTICATE, Take_message, Enter_state,
       Change_to WLAN_AUTHENTICATED, Stop_thread, Change_to WLAN_ASSOCIATE, Take_message, Enter_state,
       Take_message, Take_message, Enter_state] wlan_new None
     = [WLAN_INITIALIZED, WLAN_IDLE, WLAN_AUTHENTICATE, WLAN_AUTHENTICATED] @ WLAN_ASSOCIATE # []"
    by (simp add: queue_library_def wlan_change_def wlan_state_def wlan_table)
  from wlan_authenticates_first [OF queue_library_ok _ this] this show ?thesis
    by blast
qed

text \<open>The steps of a connection and of a disconnection, requested one after the other on a
  freshly constructed Linux monitor, are all accepted and lead to the states requested.\<close>

lemma wlan_connection_cycle:
  assumes "\<And>t m. wlan_state (Linux nl) (base_change t m) = t"
    and "wlan_state (Linux nl) m = WLAN_INVALID"
    and "ts = [WLAN_INITIALIZED, WLAN_IDLE, WLAN_SCAN, WLAN_SCANNED, WLAN_AUTHENTICATE,
      WLAN_AUTHENTICATED, WLAN_ASSOCIATE, WLAN_ASSOCIATED, WLAN_CONNECT, WLAN_CONNECTED,
      WLAN_DISCONNECT, WLAN_DISASSOCIATE, WLAN_AUTHENTICATED, WLAN_DEAUTHENTICATE, WLAN_IDLE]"
  shows "visited (wlan_state (Linux nl)) (wlan_change (Linux nl) base_change) ts m = ts"
proof -
  have base: "statemachine_base (wlan_state (Linux nl)) base_change"
    by unfold_locales (rule assms(1))
  show ?thesis
    unfolding wlan_change_eq
    by (rule statemachine_base.requests_accepted [OF base]) (simp add: assms(2,3) wlan_table)
qed

text \<open>The loop that looks for the state at the tail end of the queue stops before it reads the
  last message: on Unix the latest queued transition never takes part in the decision, so a
  request that follows a queued transition is judged by the state before it.\<close>

lemma wlan_ignores_last_transition:
  "wlan_state Other_Unix \<lparr>machine_state = s, msg_queue = q @ [Transition t]\<rparr> =
     wlan_state Other_Unix \<lparr>machine_state = s, msg_queue = q @ [MB_STOP]\<rparr> \<and>
   wlan_state (Linux nl) \<lparr>machine_state = s, msg_queue = [Transition t]\<rparr> = s \<and>
   fst (wlan_change (Linux nl) base_change WLAN_SCAN
      \<lparr>machine_state = WLAN_INITIALIZED, msg_queue = [Transition WLAN_IDLE]\<rparr>) = False \<and>
   wlan_allowed (Linux nl) WLAN_IDLE WLAN_SCAN"
  by (simp add: wlan_state_def queued_state_snoc wlan_change_def)

end
