(* ===== verification/Connection_Manager.thy ===== *)
theory Connection_Manager
  imports Net_Prelude
begin

text \<open>
  The registry of open connections: \<open>Net_Connection_Manager_T\<close> (\<open>net_connection_manager.inl\<close>)
  and the registration of a connection with it (\<open>Net_ConnectionBase_T\<close>,
  \<open>net_connection_base.inl\<close>).

  A connection is known by its address, of type \<open>'c\<close>; the manager's list is the
  \<open>ACE_DLList\<close> of these, head first. What lies outside these two files is held in a state
  \<open>'w\<close> that parameters act on: the reference counter (\<open>increase\<close>, \<open>decrease\<close>), the timer
  queue, the connectors and listeners that are notified, and the \<open>abort\<close> of a connection (\<open>wake\<close>),
  which shuts its socket down: the deregistration is an operation of its own, of the connection's
  handler, in this or another thread, now or later. The operations that abort connections release
  the lock in between; what the handlers and other threads do with the manager meanwhile is the
  parameter \<open>others\<close>. The flag \<open>isRegistered_\<close> of every connection is the set \<open>registered\<close>.
  Times are in microseconds. Locks are taken as acquired and exceptions as not thrown.
\<close>

record ('c, 'w) manager =
  connections :: "'c list"
  isActive :: bool
  isInitialized :: bool
  maximumNumberOfConnections :: u32
  resetTimeoutHandlerId :: int
  resetTimeoutInterval :: nat
  registered :: "'c set"
  world :: 'w

definition NET_CONNECTION_MAXIMUM_NUMBER_OF_OPEN :: u32 where
  "NET_CONNECTION_MAXIMUM_NUMBER_OF_OPEN = 10"

definition NET_STATISTIC_DEFAULT_VISIT_INTERVAL_MS :: nat where
  "NET_STATISTIC_DEFAULT_VISIT_INTERVAL_MS = 500"

definition manager_new :: "'w \<Rightarrow> ('c, 'w) manager" where
  "manager_new w =
     \<lparr>connections = [], isActive = True, isInitialized = False,
      maximumNumberOfConnections = NET_CONNECTION_MAXIMUM_NUMBER_OF_OPEN, resetTimeoutHandlerId = - 1,
      resetTimeoutInterval = NET_STATISTIC_DEFAULT_VISIT_INTERVAL_MS * 1000, registered = {}, world = w\<rparr>"

definition initialize :: "u32 \<Rightarrow> nat \<Rightarrow> ('c, 'w) manager \<Rightarrow> ('c, 'w) manager" where
  "initialize max_open interval m =
     m\<lparr>maximumNumberOfConnections := max_open, resetTimeoutInterval := interval,
       isInitialized := True\<rparr>"

text \<open>The timer is cancelled when there is one; a failure to cancel is only logged.\<close>

definition cancel_visits :: "(int \<Rightarrow> 'w \<Rightarrow> 'w) \<Rightarrow> ('c, 'w) manager \<Rightarrow> ('c, 'w) manager" where
  "cancel_visits cancel_timer m =
     (if resetTimeoutHandlerId m \<noteq> - 1
      then m\<lparr>world := cancel_timer (resetTimeoutHandlerId m) (world m), resetTimeoutHandlerId := - 1\<rparr>
      else m)"

definition start ::
  "(int \<Rightarrow> 'w \<Rightarrow> 'w) \<Rightarrow> (nat \<Rightarrow> 'w \<Rightarrow> int \<times> 'w) \<Rightarrow> ('c, 'w) manager \<Rightarrow> bool \<times> ('c, 'w) manager" where
  "start cancel_timer schedule_timer m =
     (let m1 = cancel_visits cancel_timer m;
          (id, w) = schedule_timer (resetTimeoutInterval m1) (world m1);
          m2 = m1\<lparr>resetTimeoutHandlerId := id, world := w\<rparr>
      in if id = - 1 then (False, m2) else (True, m2\<lparr>isActive := True\<rparr>))"

text \<open>\<open>wait\<close> blocks as long as there are connections; the result of \<open>stop\<close> tells whether it does.\<close>

definition wait_blocks :: "('c, 'w) manager \<Rightarrow> bool" where
  "wait_blocks m \<longleftrightarrow> connections m \<noteq> []"

definition wait_2_blocks :: "('c \<Rightarrow> 'h) \<Rightarrow> 'h \<Rightarrow> ('c, 'w) manager \<Rightarrow> bool" where
  "wait_2_blocks conn_id handle m \<longleftrightarrow> find (\<lambda>c. conn_id c = handle) (connections m) \<noteq> None"

definition stop :: "(int \<Rightarrow> 'w \<Rightarrow> 'w) \<Rightarrow> bool \<Rightarrow> ('c, 'w) manager \<Rightarrow> bool \<times> ('c, 'w) manager" where
  "stop cancel_timer waitForCompletion m =
     (let m1 = cancel_visits cancel_timer (m\<lparr>isActive := False\<rparr>)
      in (waitForCompletion \<and> wait_blocks m1, m1))"

definition connection_count :: "('c, 'w) manager \<Rightarrow> nat" where
  "connection_count m = length (connections m)"

text \<open>
  Registration at the manager. \<open>insert_ok\<close> is whether the list node can be allocated.
\<close>

definition register_ok :: "('c, 'w) manager \<Rightarrow> bool" where
  "register_ok m \<longleftrightarrow>
     isActive m \<and> length (connections m) < unat (maximumNumberOfConnections m)"

definition manager_register ::
  "('c \<Rightarrow> 'w \<Rightarrow> 'w) \<Rightarrow> ('c \<Rightarrow> 'w \<Rightarrow> 'w) \<Rightarrow> bool \<Rightarrow> 'c \<Rightarrow> ('c, 'w) manager \<Rightarrow> bool \<times> ('c, 'w) manager" where
  "manager_register increase decrease insert_ok c m =
     (if \<not> register_ok m then (False, m)
      else let m1 = m\<lparr>world := increase c (world m)\<rparr> in
        if insert_ok then (True, m1\<lparr>connections := connections m1 @ [c]\<rparr>)
        else (False, m1\<lparr>world := decrease c (world m1)\<rparr>))"

definition manager_deregister ::
  "('c \<Rightarrow> 'w \<Rightarrow> 'w) \<Rightarrow> 'c \<Rightarrow> ('c, 'w) manager \<Rightarrow> ('c, 'w) manager" where
  "manager_deregister decrease c m =
     (if c \<in> set (connections m)
      then m\<lparr>connections := remove1 c (connections m), world := decrease c (world m)\<rparr>
      else m)"

text \<open>Registration of a connection: \<open>Net_ConnectionBase_T::register_\<close> and \<open>deregister\<close>.\<close>

definition connection_register ::
  "('c \<Rightarrow> 'w \<Rightarrow> 'w) \<Rightarrow> ('c \<Rightarrow> 'w \<Rightarrow> 'w) \<Rightarrow> bool \<Rightarrow> 'c \<Rightarrow> ('c, 'w) manager \<Rightarrow>
   (bool \<times> ('c, 'w) manager) run" where
  "connection_register increase decrease insert_ok c m =
     run_bind (ace_assert (c \<notin> registered m)) (\<lambda>_.
       let (ok, m1) = manager_register increase decrease insert_ok c m
       in Inr (ok, if ok then m1\<lparr>registered := insert c (registered m1)\<rparr> else m1))"

definition connection_deregister ::
  "('c \<Rightarrow> 'w \<Rightarrow> 'w) \<Rightarrow> ('c \<Rightarrow> 'w \<Rightarrow> 'w) \<Rightarrow> 'c \<Rightarrow> ('c, 'w) manager \<Rightarrow> ('c, 'w) manager" where
  "connection_deregister decrease notify c m =
     (if c \<notin> registered m then m
      else let m1 = manager_deregister decrease c (m\<lparr>registered := registered m - {c}\<rparr>)
           in m1\<lparr>world := notify c (world m1)\<rparr>)"

section \<open>Lookup\<close>

text \<open>
  The pointer that \<open>operator[]\<close> fills is only tested after its loop. \<open>keeps\<close> is whether
  \<open>ACE_DLList_Iterator::next\<close> leaves the pointer alone when the list is exhausted.
\<close>

fun index_loop :: "bool \<Rightarrow> 'c list \<Rightarrow> nat \<Rightarrow> 'c option \<Rightarrow> 'c option" where
  "index_loop keeps [] index connection = (if keeps then connection else None)"
| "index_loop keeps (c # cs) index connection =
     (if index = 0 then Some c else index_loop keeps cs (index - 1) (Some c))"

definition take_reference ::
  "('c \<Rightarrow> 'w \<Rightarrow> 'w) \<Rightarrow> 'c option \<Rightarrow> ('c, 'w) manager \<Rightarrow> 'c option \<times> ('c, 'w) manager" where
  "take_reference increase connection m =
     (case connection of None \<Rightarrow> (None, m)
      | Some c \<Rightarrow> (Some c, m\<lparr>world := increase c (world m)\<rparr>))"

definition operator_index ::
  "('c \<Rightarrow> 'w \<Rightarrow> 'w) \<Rightarrow> bool \<Rightarrow> nat \<Rightarrow> ('c, 'w) manager \<Rightarrow> 'c option \<times> ('c, 'w) manager" where
  "operator_index increase keeps index m =
     take_reference increase (index_loop keeps (connections m) index None) m"

definition get_handle ::
  "('c \<Rightarrow> 'w \<Rightarrow> 'w) \<Rightarrow> ('c \<Rightarrow> 'h) \<Rightarrow> 'h \<Rightarrow> ('c, 'w) manager \<Rightarrow> 'c option \<times> ('c, 'w) manager" where
  "get_handle increase conn_id handle m =
     take_reference increase (find (\<lambda>c. conn_id c = handle) (connections m)) m"

definition get_address ::
  "('c \<Rightarrow> 'w \<Rightarrow> 'w) \<Rightarrow> ('c \<Rightarrow> 'a \<times> 'a) \<Rightarrow> 'a \<Rightarrow> bool \<Rightarrow> ('c, 'w) manager \<Rightarrow> 'c option \<times> ('c, 'w) manager" where
  "get_address increase info address isPeerAddress m =
     take_reference increase
       (find (\<lambda>c. let (local_address, peer_address) = info c in
          (isPeerAddress \<and> peer_address = address) \<or> (\<not> isPeerAddress \<and> local_address = address))
        (connections m)) m"

section \<open>Aborting connections\<close>

text \<open>
  The connections are gathered under the lock, with a reference each, and aborted after it is
  released. The list nodes of the temporary container are taken as allocated.
\<close>

definition gather ::
  "('c \<Rightarrow> 'w \<Rightarrow> 'w) \<Rightarrow> ('c \<Rightarrow> bool) \<Rightarrow> ('c, 'w) manager \<Rightarrow> 'c list \<times> ('c, 'w) manager" where
  "gather increase selected m =
     (let cs = filter selected (connections m)
      in (cs, m\<lparr>world := fold increase cs (world m)\<rparr>))"

definition abort_one ::
  "('c \<Rightarrow> 'w \<Rightarrow> 'w) \<Rightarrow> ('c \<Rightarrow> 'w \<Rightarrow> 'w) \<Rightarrow> ('c \<Rightarrow> ('c, 'w) manager \<Rightarrow> ('c, 'w) manager) \<Rightarrow> 'c \<Rightarrow>
   ('c, 'w) manager \<Rightarrow> ('c, 'w) manager" where
  "abort_one decrease wake others c m =
     (let m1 = others c (m\<lparr>world := wake c (world m)\<rparr>) in m1\<lparr>world := decrease c (world m1)\<rparr>)"

definition abort_pass ::
  "('c \<Rightarrow> 'w \<Rightarrow> 'w) \<Rightarrow> ('c \<Rightarrow> 'w \<Rightarrow> 'w) \<Rightarrow> ('c \<Rightarrow> 'w \<Rightarrow> 'w) \<Rightarrow> ('c \<Rightarrow> ('c, 'w) manager \<Rightarrow> ('c, 'w) manager) \<Rightarrow>
   ('c \<Rightarrow> bool) \<Rightarrow> ('c, 'w) manager \<Rightarrow> ('c, 'w) manager" where
  "abort_pass increase decrease wake others selected m =
     (let (cs, m1) = gather increase selected m in fold (abort_one decrease wake others) cs m1)"

text \<open>
  \<open>abort (true)\<close> goes back to the beginning until it finds no connection; \<open>others k\<close> is what happens
  elsewhere in the round \<open>k\<close>. The loop may run forever.
\<close>

partial_function (option) abort_all ::
  "('c \<Rightarrow> 'w \<Rightarrow> 'w) \<Rightarrow> ('c \<Rightarrow> 'w \<Rightarrow> 'w) \<Rightarrow> ('c \<Rightarrow> 'w \<Rightarrow> 'w) \<Rightarrow>
   (nat \<Rightarrow> 'c \<Rightarrow> ('c, 'w) manager \<Rightarrow> ('c, 'w) manager) \<Rightarrow> bool \<Rightarrow> nat \<Rightarrow>
   ('c, 'w) manager \<Rightarrow> ('c, 'w) manager option" where
  "abort_all increase decrease wake others waitForCompletion k m =
     (if connections m = [] then Some m
      else let m1 = abort_pass increase decrease wake (others k) (\<lambda>_. True) m in
        if waitForCompletion then abort_all increase decrease wake others waitForCompletion (Suc k) m1
        else Some m1)"

definition abort_address ::
  "('c \<Rightarrow> 'w \<Rightarrow> 'w) \<Rightarrow> ('c \<Rightarrow> 'w \<Rightarrow> 'w) \<Rightarrow> ('c \<Rightarrow> 'w \<Rightarrow> 'w) \<Rightarrow> ('c \<Rightarrow> ('c, 'w) manager \<Rightarrow> ('c, 'w) manager) \<Rightarrow>
   ('c \<Rightarrow> 'a \<times> 'a) \<Rightarrow> ('a \<Rightarrow> 'a \<Rightarrow> bool) \<Rightarrow> 'a \<Rightarrow> bool \<Rightarrow> ('c, 'w) manager \<Rightarrow> ('c, 'w) manager" where
  "abort_address increase decrease wake others info is_ip_equal address matchPort m =
     abort_pass increase decrease wake others
       (\<lambda>c. let (local_address, peer_address) = info c in
          if matchPort then peer_address = address \<or> local_address = address
          else is_ip_equal address peer_address \<or> is_ip_equal address local_address) m"

definition abortLeastRecent ::
  "('c \<Rightarrow> 'w \<Rightarrow> 'w) \<Rightarrow> ('c \<Rightarrow> 'w \<Rightarrow> 'w) \<Rightarrow> ('c \<Rightarrow> 'w \<Rightarrow> 'w) \<Rightarrow> ('c \<Rightarrow> ('c, 'w) manager \<Rightarrow> ('c, 'w) manager) \<Rightarrow>
   ('c, 'w) manager \<Rightarrow> ('c, 'w) manager" where
  "abortLeastRecent increase decrease wake others m =
     (case connections m of [] \<Rightarrow> m
      | c # _ \<Rightarrow> abort_one decrease wake others c (m\<lparr>world := increase c (world m)\<rparr>))"

definition abortMostRecent ::
  "('c \<Rightarrow> 'w \<Rightarrow> 'w) \<Rightarrow> ('c \<Rightarrow> 'w \<Rightarrow> 'w) \<Rightarrow> ('c \<Rightarrow> 'w \<Rightarrow> 'w) \<Rightarrow> ('c \<Rightarrow> ('c, 'w) manager \<Rightarrow> ('c, 'w) manager) \<Rightarrow>
   ('c, 'w) manager \<Rightarrow> ('c, 'w) manager" where
  "abortMostRecent increase decrease wake others m =
     (case rev (connections m) of [] \<Rightarrow> m
      | c # _ \<Rightarrow> abort_one decrease wake others c (m\<lparr>world := increase c (world m)\<rparr>))"

datatype Net_Connection_AbortStrategy =
  RECENT_LEAST | RECENT_MOST | ABORT_STRATEGY_MAX | ABORT_STRATEGY_INVALID

definition abort_strategy ::
  "('c \<Rightarrow> 'w \<Rightarrow> 'w) \<Rightarrow> ('c \<Rightarrow> 'w \<Rightarrow> 'w) \<Rightarrow> ('c \<Rightarrow> 'w \<Rightarrow> 'w) \<Rightarrow> ('c \<Rightarrow> ('c, 'w) manager \<Rightarrow> ('c, 'w) manager) \<Rightarrow>
   Net_Connection_AbortStrategy \<Rightarrow> ('c, 'w) manager \<Rightarrow> ('c, 'w) manager" where
  "abort_strategy increase decrease wake others strategy m =
     (case strategy of
        RECENT_LEAST \<Rightarrow> abortLeastRecent increase decrease wake others m
      | RECENT_MOST \<Rightarrow> abortMostRecent increase decrease wake others m
      | _ \<Rightarrow> m)"

section \<open>Statistics\<close>

definition collect :: "'s \<Rightarrow> ('s \<Rightarrow> 's \<Rightarrow> 's) \<Rightarrow> ('c \<Rightarrow> 's) \<Rightarrow> ('c, 'w) manager \<Rightarrow> 's" where
  "collect zero add statistic m = foldl (\<lambda>data c. add data (statistic c)) zero (connections m)"

definition manager_reset :: "(nat \<Rightarrow> 'c \<Rightarrow> 'w \<Rightarrow> 'w) \<Rightarrow> ('c, 'w) manager \<Rightarrow> ('c, 'w) manager" where
  "manager_reset update m =
     m\<lparr>world := fold (update (resetTimeoutInterval m)) (connections m) (world m)\<rparr>"

section \<open>The registry interface\<close>

text \<open>
  What the clients of the manager rely on: an entry is appended while there is room, leaving
  takes the entry away, nothing else changes the members.
\<close>

datatype 'c request = Enter 'c | Leave 'c

fun serve :: "('c \<Rightarrow> 'm \<Rightarrow> bool \<times> 'm) \<Rightarrow> ('c \<Rightarrow> 'm \<Rightarrow> 'm) \<Rightarrow> 'c request \<Rightarrow> 'm \<Rightarrow> 'm" where
  "serve enter leave (Enter c) m = snd (enter c m)"
| "serve enter leave (Leave c) m = leave c m"

locale registry =
  fixes members :: "'m \<Rightarrow> 'c list"
    and capacity :: "'m \<Rightarrow> nat"
    and enter :: "'c \<Rightarrow> 'm \<Rightarrow> bool \<times> 'm"
    and leave :: "'c \<Rightarrow> 'm \<Rightarrow> 'm"
  assumes enter_members:
      "members (snd (enter c m)) = (if fst (enter c m) then members m @ [c] else members m)"
    and enter_room: "fst (enter c m) \<Longrightarrow> length (members m) < capacity m"
    and enter_capacity: "capacity (snd (enter c m)) = capacity m"
    and leave_members: "members (leave c m) = remove1 c (members m)"
    and leave_capacity: "capacity (leave c m) = capacity m"
begin

lemma leave_enter:
  "fst (enter c m) \<Longrightarrow> c \<notin> set (members m) \<Longrightarrow> members (leave c (snd (enter c m))) = members m"
  by (simp add: leave_members enter_members remove1_append)

lemma serve_bound:
  "length (members m) \<le> capacity m \<Longrightarrow>
     length (members (serve enter leave r m)) \<le> capacity (serve enter leave r m)"
  using enter_room
  by (cases r) (auto simp: enter_members enter_capacity leave_members leave_capacity
      length_remove1 Suc_le_eq)

lemma requests_bound:
  "length (members m) \<le> capacity m \<Longrightarrow>
     length (members (fold (serve enter leave) rs m)) \<le> capacity (fold (serve enter leave) rs m)"
  by (induction rs arbitrary: m) (simp_all add: serve_bound)

lemma requests_capacity: "capacity (fold (serve enter leave) rs m) = capacity m"
proof (induction rs arbitrary: m)
  case (Cons r rs)
  then show ?case by (cases r) (simp_all add: enter_capacity leave_capacity)
qed simp

end

lemma register_cases:
  "manager_register increase decrease insert_ok c m =
     (if register_ok m \<and> insert_ok
      then (True, m\<lparr>connections := connections m @ [c], world := increase c (world m)\<rparr>)
      else (False, if register_ok m then m\<lparr>world := decrease c (increase c (world m))\<rparr> else m))"
  by (simp add: manager_register_def)

lemma deregister_connections: "connections (manager_deregister decrease c m) = remove1 c (connections m)"
  by (simp add: manager_deregister_def remove1_idem)

lemma deregister_maximum:
  "maximumNumberOfConnections (manager_deregister decrease c m) = maximumNumberOfConnections m"
  by (simp add: manager_deregister_def)

interpretation manager: registry connections "\<lambda>m. unat (maximumNumberOfConnections m)"
    "manager_register increase decrease insert_ok" "manager_deregister decrease"
  for increase decrease insert_ok
  by unfold_locales
     (auto simp: register_cases register_ok_def deregister_connections deregister_maximum
       split: if_splits)

section \<open>The manager at work\<close>

definition hold :: "'c set \<Rightarrow> ('c \<Rightarrow> nat) \<Rightarrow> 'c \<Rightarrow> nat" where
  "hold cs held = (\<lambda>c. held c + (if c \<in> cs then 1 else 0))"

lemma hold_empty [simp]: "hold {} held = held"
  by (simp add: hold_def)

lemma hold_single [simp]: "hold {c} held = held(c := held c + 1)"
  by (simp add: hold_def fun_eq_iff)

record ('c, 'w) manager_library =
  increase :: "'c \<Rightarrow> 'w \<Rightarrow> 'w"
  decrease :: "'c \<Rightarrow> 'w \<Rightarrow> 'w"
  notify :: "'c \<Rightarrow> 'w \<Rightarrow> 'w"
  wake :: "'c \<Rightarrow> 'w \<Rightarrow> 'w"
  update :: "nat \<Rightarrow> 'c \<Rightarrow> 'w \<Rightarrow> 'w"
  cancel_timer :: "int \<Rightarrow> 'w \<Rightarrow> 'w"
  schedule_timer :: "nat \<Rightarrow> 'w \<Rightarrow> int \<times> 'w"

text \<open>
  What the manager's environment promises: the counter of a connection goes up and down by
  one, and neither aborts, notifications, visits nor timers touch the counters.
\<close>

locale manager_env =
  fixes refs :: "'w \<Rightarrow> 'c \<Rightarrow> nat"
    and lib :: "('c, 'w) manager_library"
  assumes increase_refs: "refs (increase lib c w) = (refs w)(c := refs w c + 1)"
    and decrease_refs: "refs (decrease lib c w) = (refs w)(c := refs w c - 1)"
    and notify_refs: "refs (notify lib c w) = refs w"
    and wake_refs: "refs (wake lib c w) = refs w"
    and update_refs: "refs (update lib t c w) = refs w"
    and cancel_refs: "refs (cancel_timer lib i w) = refs w"
    and schedule_refs: "refs (snd (schedule_timer lib t w)) = refs w"

text \<open>
  One operation of the public interface, of a connection or of the timer. \<open>held\<close> are the references
  that others than the manager hold: those the lookups hand out and the passes of \<open>abort\<close> take, and
  those the others took themselves. A pass of \<open>abort\<close> consists of steps, since it releases the lock: it
  gathers connections, and aborts and releases each. \<open>opened\<close> is the number of connections that were
  open when the maximum was set.
\<close>

inductive manager_step ::
  "('c, 'w) manager_library \<Rightarrow> ('c, 'w) manager \<Rightarrow> ('c \<Rightarrow> nat) \<Rightarrow> nat \<Rightarrow>
   ('c, 'w) manager \<Rightarrow> ('c \<Rightarrow> nat) \<Rightarrow> nat \<Rightarrow> bool"
  for lib where
  initialize: "manager_step lib m held opened (initialize max_open interval m) held (length (connections m))"
| register: "connection_register (increase lib) (decrease lib) insert_ok c m = Inr (ok, m') \<Longrightarrow>
    manager_step lib m held opened m' held opened"
| deregister: "manager_step lib m held opened (connection_deregister (decrease lib) (notify lib) c m) held opened"
| start: "manager_step lib m held opened (snd (start (cancel_timer lib) (schedule_timer lib) m)) held opened"
| stop: "manager_step lib m held opened (snd (stop (cancel_timer lib) waitForCompletion m)) held opened"
| index: "operator_index (increase lib) keeps i m = (found, m') \<Longrightarrow>
    manager_step lib m held opened m' (hold (set_option found) held) opened"
| lookup: "take_reference (increase lib) (find selected (connections m)) m = (found, m') \<Longrightarrow>
    manager_step lib m held opened m' (hold (set_option found) held) opened"
| gather: "gather (increase lib) selected m = (cs, m') \<Longrightarrow>
    manager_step lib m held opened m' (hold (set cs) held) opened"
| abort: "manager_step lib m held opened (m\<lparr>world := wake lib c (world m)\<rparr>) held opened"
| take: "manager_step lib m held opened (m\<lparr>world := increase lib c (world m)\<rparr>) (hold {c} held) opened"
| release: "0 < held c \<Longrightarrow>
    manager_step lib m held opened (m\<lparr>world := decrease lib c (world m)\<rparr>) (held(c := held c - 1)) opened"
| visit: "manager_step lib m held opened (manager_reset (update lib) m) held opened"

text \<open>The two \<open>get\<close> are lookups, by the handle and by an address.\<close>

lemma get_handle_step:
  "get_handle (increase lib) conn_id h m = (found, m') \<Longrightarrow>
   manager_step lib m held opened m' (hold (set_option found) held) opened"
  by (rule manager_step.lookup) (simp add: get_handle_def)

lemma get_address_step:
  "get_address (increase lib) info a isPeerAddress m = (found, m') \<Longrightarrow>
   manager_step lib m held opened m' (hold (set_option found) held) opened"
  by (rule manager_step.lookup) (simp add: get_address_def)

inductive manager_reachable ::
  "('c, 'w) manager_library \<Rightarrow> ('c, 'w) manager \<Rightarrow> ('c \<Rightarrow> nat) \<Rightarrow> ('c, 'w) manager \<Rightarrow> ('c \<Rightarrow> nat) \<Rightarrow> nat \<Rightarrow> bool"
  for lib m0 held0 where
  new: "manager_reachable lib m0 held0 m0 held0 0"
| "step": "manager_reachable lib m0 held0 m held opened \<Longrightarrow>
    manager_step lib m held opened m' held' opened' \<Longrightarrow>
    manager_reachable lib m0 held0 m' held' opened'"

text \<open>The list has no duplicates and agrees with the flags of the connections; the manager holds one reference each.\<close>

definition consistent :: "('c, 'w) manager \<Rightarrow> bool" where
  "consistent m \<longleftrightarrow> distinct (connections m) \<and> set (connections m) = registered m"

definition manager_inv :: "('w \<Rightarrow> 'c \<Rightarrow> nat) \<Rightarrow> ('c, 'w) manager \<Rightarrow> ('c \<Rightarrow> nat) \<Rightarrow> nat \<Rightarrow> bool" where
  "manager_inv refs m held opened \<longleftrightarrow>
     consistent m \<and>
     length (connections m) \<le> max (unat (maximumNumberOfConnections m)) opened \<and>
     refs (world m) = (\<lambda>c. held c + (if c \<in> registered m then 1 else 0))"

context manager_env
begin

lemma register_inv:
  assumes "manager_inv refs m held opened"
    and "connection_register (increase lib) (decrease lib) insert_ok c m = Inr (ok, m')"
  shows "manager_inv refs m' held opened"
  using assms
  by (cases "register_ok m"; cases insert_ok)
     (auto simp: connection_register_def register_cases manager_inv_def consistent_def register_ok_def
        increase_refs decrease_refs fun_eq_iff)

lemma deregister_inv:
  assumes "manager_inv refs m held opened"
  shows "manager_inv refs (connection_deregister (decrease lib) (notify lib) c m) held opened"
  using assms
  by (auto simp: connection_deregister_def manager_deregister_def manager_inv_def consistent_def Let_def
      notify_refs decrease_refs fun_eq_iff length_remove1)

lemma cancel_inv:
  "manager_inv refs m held opened \<Longrightarrow> manager_inv refs (cancel_visits (cancel_timer lib) m) held opened"
  by (simp add: cancel_visits_def manager_inv_def consistent_def cancel_refs)

lemma start_inv:
  "manager_inv refs m held opened \<Longrightarrow>
   manager_inv refs (snd (start (cancel_timer lib) (schedule_timer lib) m)) held opened"
  using cancel_inv [of m held opened]
    schedule_refs [of "resetTimeoutInterval (cancel_visits (cancel_timer lib) m)"
      "world (cancel_visits (cancel_timer lib) m)"]
  by (auto simp: start_def manager_inv_def consistent_def Let_def split: prod.splits)

lemma stop_inv:
  "manager_inv refs m held opened \<Longrightarrow>
   manager_inv refs (snd (stop (cancel_timer lib) waitForCompletion m)) held opened"
  using cancel_inv [of "m\<lparr>isActive := False\<rparr>" held opened]
  by (simp add: stop_def manager_inv_def consistent_def Let_def)

lemma increase_all_refs:
  "distinct cs \<Longrightarrow> refs (fold (increase lib) cs w) = hold (set cs) (refs w)"
  by (induction cs arbitrary: w) (auto simp: increase_refs hold_def fun_eq_iff)

lemma update_all_refs: "refs (fold (update lib t) cs w) = refs w"
  by (induction cs arbitrary: w) (simp_all add: update_refs)

lemma world_inv:
  "manager_inv refs m held opened \<Longrightarrow> refs w = hold cs (refs (world m)) \<Longrightarrow>
   manager_inv refs (m\<lparr>world := w\<rparr>) (hold cs held) opened"
  by (auto simp: manager_inv_def consistent_def hold_def fun_eq_iff)

lemma take_reference_inv:
  assumes "manager_inv refs m held opened" "take_reference (increase lib) found m = (found', m')"
  shows "manager_inv refs m' (hold (set_option found') held) opened"
proof (cases found)
  case None
  then show ?thesis using assms by (simp add: take_reference_def)
next
  case (Some c)
  then have "m' = m\<lparr>world := increase lib c (world m)\<rparr>" "found' = Some c"
    using assms(2) by (auto simp: take_reference_def)
  then show ?thesis
    using world_inv [OF assms(1), of "increase lib c (world m)" "{c}"]
    by (simp add: increase_refs)
qed

lemma gather_inv:
  assumes "manager_inv refs m held opened" "gather (increase lib) selected m = (cs, m')"
  shows "manager_inv refs m' (hold (set cs) held) opened"
proof -
  have m': "m' = m\<lparr>world := fold (increase lib) cs (world m)\<rparr>" "cs = filter selected (connections m)"
    using assms(2) by (auto simp: gather_def Let_def)
  then have "distinct cs"
    using assms(1) by (simp add: manager_inv_def consistent_def)
  then show ?thesis
    using world_inv [OF assms(1)] increase_all_refs by (simp add: m'(1))
qed

lemma step_inv:
  "manager_step lib m held opened m' held' opened' \<Longrightarrow> manager_inv refs m held opened \<Longrightarrow>
   manager_inv refs m' held' opened'"
proof (induction rule: manager_step.induct)
  case (initialize m held opened max_open interval)
  then show ?case
    by (simp add: manager_inv_def consistent_def initialize_def)
next
  case (abort m held opened c)
  then show ?case
    using world_inv [of m held opened "wake lib c (world m)" "{}"] by (simp add: wake_refs)
next
  case (take m held opened c)
  then show ?case
    using world_inv [of m held opened "increase lib c (world m)" "{c}"]
    by (simp add: increase_refs) (simp add: fun_upd_def)
next
  case (release held c m opened)
  then show ?case
    by (auto simp: manager_inv_def consistent_def decrease_refs fun_eq_iff)
next
  case (visit m held opened)
  then show ?case
    using world_inv [of m held opened _ "{}"] by (simp add: manager_reset_def update_all_refs)
qed (auto intro: register_inv deregister_inv start_inv stop_inv take_reference_inv gather_inv
      simp: operator_index_def)

lemma reachable_inv:
  "manager_reachable lib m0 held0 m held opened \<Longrightarrow> manager_inv refs m0 held0 0 \<Longrightarrow>
   manager_inv refs m held opened"
  by (induction rule: manager_reachable.induct) (auto intro: step_inv)

end

text \<open>Counters held in a function, the connections being their own handles.\<close>

definition counter_library :: "('c, 'c \<Rightarrow> nat) manager_library" where
  "counter_library =
     \<lparr>increase = (\<lambda>c w. w(c := w c + 1)), decrease = (\<lambda>c w. w(c := w c - 1)), notify = (\<lambda>_ w. w),
      wake = (\<lambda>_ w. w), update = (\<lambda>_ _ w. w), cancel_timer = (\<lambda>_ w. w), schedule_timer = (\<lambda>_ w. (1, w))\<rparr>"

interpretation counters: manager_env "\<lambda>w. w" counter_library
  by unfold_locales (simp_all add: counter_library_def)

section \<open>Loops\<close>

lemma index_loop_eq:
  "index_loop keeps cs i connection =
     (if i < length cs then Some (cs ! i)
      else if keeps then (if cs = [] then connection else Some (last cs)) else None)"
  by (induction cs arbitrary: i connection) (auto simp: nth_Cons')

lemma find_unique:
  "inj_on f (set xs) \<Longrightarrow> x \<in> set xs \<Longrightarrow> find (\<lambda>y. f y = f x) xs = Some x"
  by (induction xs) (auto dest: inj_onD)

text \<open>
  Without interference the operations that abort connections are sequences of the steps above, and in
  the end all references they took are released.
\<close>

lemma reachable_abort_one:
  assumes "manager_reachable lib m0 held0 m (hold {c} held) opened"
  shows "manager_reachable lib m0 held0 (abort_one (decrease lib) (wake lib) (\<lambda>_ m. m) c m) held opened"
proof -
  have "manager_reachable lib m0 held0 (m\<lparr>world := wake lib c (world m)\<rparr>) (hold {c} held) opened"
    by (rule manager_reachable.step [OF assms manager_step.abort])
  from manager_reachable.step [OF this manager_step.release, of c]
  show ?thesis
    by (simp add: abort_one_def)
qed

lemma reachable_abort_fold:
  "distinct cs \<Longrightarrow> manager_reachable lib m0 held0 m (hold (set cs) held) opened \<Longrightarrow>
   manager_reachable lib m0 held0 (fold (abort_one (decrease lib) (wake lib) (\<lambda>_ m. m)) cs m) held opened"
proof (induction cs arbitrary: m)
  case (Cons c cs)
  have "hold (set (c # cs)) held = hold {c} (hold (set cs) held)"
    using Cons.prems(1) by (auto simp: hold_def fun_eq_iff)
  with Cons.prems(2) have "manager_reachable lib m0 held0 m (hold {c} (hold (set cs) held)) opened"
    by metis
  from Cons.IH [OF _ reachable_abort_one [OF this]] Cons.prems(1) show ?case
    by simp
qed simp

lemma reachable_abort_pass:
  assumes "manager_reachable lib m0 held0 m held opened" "distinct (connections m)"
  shows "manager_reachable lib m0 held0
    (abort_pass (increase lib) (decrease lib) (wake lib) (\<lambda>_ m. m) selected m) held opened"
proof -
  obtain cs m1 where pass: "gather (increase lib) selected m = (cs, m1)"
    by fastforce
  then have "distinct cs"
    using assms(2) by (auto simp: gather_def Let_def)
  from reachable_abort_fold [OF this manager_reachable.step [OF assms(1) manager_step.gather [OF pass]]]
  show ?thesis
    by (simp add: abort_pass_def pass)
qed

section \<open>Properties\<close>

text \<open>C24: In every state that the operations of the manager, of its connections and of its timer lead to
  from the constructor on, in whatever order, the list of open connections has no duplicates and contains
  exactly the connections whose flag says so; it is never longer than the current maximum, or than it was
  when that maximum was set; and the manager holds exactly one reference to each of the connections: the
  counters are those of the references others hold, and one more for each member.\<close>

theorem manager_invariant:
  assumes "manager_env refs lib"
    and "manager_reachable lib (manager_new w) (refs w) m held opened"
  shows "distinct (connections m) \<and> set (connections m) = registered m \<and>
     length (connections m) \<le> max (unat (maximumNumberOfConnections m)) opened \<and>
     (\<forall>c. refs (world m) c = held c + (if c \<in> set (connections m) then 1 else 0))"
proof -
  have "manager_inv refs (manager_new w) (refs w) 0"
    by (simp add: manager_inv_def consistent_def manager_new_def)
  then have "manager_inv refs m held opened"
    using manager_env.reachable_inv [OF assms] by blast
  then show ?thesis by (simp add: manager_inv_def consistent_def)
qed

definition example_manager :: "(nat, nat \<Rightarrow> nat) manager" where
  "example_manager = (manager_new (\<lambda>_. 0))\<lparr>connections := [7], registered := {7}, world := (\<lambda>_. 0)(7 := 1)\<rparr>"

lemma example_manager_reachable:
  "manager_reachable counter_library (manager_new (\<lambda>_. 0)) (\<lambda>_. 0) example_manager (\<lambda>_. 0) 0"
proof (rule manager_reachable.step [OF manager_reachable.new], rule manager_step.register)
  show "connection_register (increase counter_library) (decrease counter_library) True 7 (manager_new (\<lambda>_. 0))
      = Inr (True, example_manager)"
    by (simp add: connection_register_def register_cases register_ok_def manager_new_def example_manager_def
        counter_library_def NET_CONNECTION_MAXIMUM_NUMBER_OF_OPEN_def)
qed

text \<open>One connection registers, a lookup hands out a reference, and the maximum is set to zero.\<close>

theorem manager_invariant_witness:
  "\<exists>(m :: (nat, nat \<Rightarrow> nat) manager) (held :: nat \<Rightarrow> nat) opened.
     connections m = [7] \<and> maximumNumberOfConnections m = 0 \<and> length (connections m) \<le> opened \<and> opened = 1 \<and>
     held 7 = 1 \<and> world m 7 = 2"
proof -
  let ?m = "example_manager\<lparr>world := (\<lambda>_. 0)(7 := 2)\<rparr>" and ?held = "hold {7} (\<lambda>_ :: nat. 0 :: nat)"
  have "operator_index (increase counter_library) True 0 example_manager = (Some 7, ?m)"
    by (simp add: operator_index_def take_reference_def example_manager_def counter_library_def numeral_2_eq_2)
  from manager_reachable.step [OF example_manager_reachable manager_step.index [OF this]]
  have "manager_reachable counter_library (manager_new (\<lambda>_. 0)) (\<lambda>_. 0) ?m ?held 0"
    by simp
  from manager_reachable.step [OF this manager_step.initialize, of 0 0]
  have "manager_reachable counter_library (manager_new (\<lambda>_. 0)) (\<lambda>_. 0) (initialize 0 0 ?m) ?held 1"
    by (simp add: example_manager_def)
  from manager_invariant [OF counters.manager_env_axioms this] show ?thesis
    by (intro exI [of _ "initialize 0 0 ?m"] exI [of _ ?held] exI [of _ 1])
       (simp add: initialize_def example_manager_def)
qed

text \<open>Taken on its own, the manager never lets more connections in than its maximum, whatever
  the order of the requests.\<close>

lemma manager_never_exceeds_maximum:
  assumes "length (connections m) \<le> unat (maximumNumberOfConnections m)"
  shows "length (connections (fold (serve (manager_register increase decrease insert_ok)
      (manager_deregister decrease)) rs m)) \<le> unat (maximumNumberOfConnections m)"
  using manager.requests_bound [OF assms] by (simp add: manager.requests_capacity)

text \<open>As long as the handles of the open connections differ, looking up the handle of an open
  connection returns that connection, with one more reference, and nothing else changes.\<close>

lemma get_handle_finds:
  assumes "c \<in> set (connections m)" and "inj_on conn_id (set (connections m))"
  shows "get_handle increase conn_id (conn_id c) m =
    (Some c, m\<lparr>world := increase c (world m)\<rparr>)"
  using find_unique [OF assms(2,1)] by (simp add: get_handle_def take_reference_def)

section \<open>Waiting for the connections\<close>

text \<open>
  What other threads do while the manager stays stopped: any operation but \<open>start\<close>. No connection gets
  in, since \<open>register_\<close> refuses all of them.
\<close>

definition stopped_step :: "('c, 'w) manager_library \<Rightarrow> ('c, 'w) manager \<Rightarrow> ('c, 'w) manager \<Rightarrow> bool" where
  "stopped_step lib m m' \<longleftrightarrow>
     \<not> isActive m' \<and> (\<exists>held opened held' opened'. manager_step lib m held opened m' held' opened')"

lemma step_when_stopped:
  "manager_step lib m held opened m' held' opened' \<Longrightarrow> \<not> isActive m \<Longrightarrow> consistent m \<Longrightarrow>
   consistent m' \<and> set (connections m') \<subseteq> set (connections m)"
proof (induction rule: manager_step.induct)
  case (register insert_ok c m ok m' held opened)
  then show ?case
    by (auto simp: connection_register_def register_cases register_ok_def)
next
  case (deregister m held opened c)
  then show ?case
    by (auto simp: connection_deregister_def manager_deregister_def consistent_def Let_def)
qed (auto simp: consistent_def initialize_def start_def stop_def cancel_visits_def operator_index_def
      take_reference_def gather_def manager_reset_def Let_def split: prod.splits option.splits)

lemma stopped_steps:
  "(stopped_step lib)\<^sup>*\<^sup>* m m' \<Longrightarrow> \<not> isActive m \<Longrightarrow> consistent m \<Longrightarrow>
   \<not> isActive m' \<and> consistent m' \<and> set (connections m') \<subseteq> set (connections m)"
proof (induction rule: rtranclp_induct)
  case (step m' m'')
  then show ?case
    using step_when_stopped unfolding stopped_step_def by blast
qed simp

lemma abort_one_when_stopped:
  assumes "(stopped_step lib)\<^sup>*\<^sup>* (m\<lparr>world := wake lib c (world m)\<rparr>) (others c (m\<lparr>world := wake lib c (world m)\<rparr>))"
    and "\<not> isActive m" "consistent m"
  shows "let m' = abort_one (decrease lib) (wake lib) others c m in
    \<not> isActive m' \<and> consistent m' \<and> set (connections m') \<subseteq> set (connections m) \<and>
    connections m' = connections (others c (m\<lparr>world := wake lib c (world m)\<rparr>))"
  using stopped_steps [OF assms(1)] assms(2,3) by (auto simp: abort_one_def Let_def consistent_def)

text \<open>In the round in which the handler of a connection reacts, the connection is gone at the end.\<close>

lemma abort_fold_when_stopped:
  assumes "\<And>c m. \<not> isActive m \<Longrightarrow> consistent m \<Longrightarrow> (stopped_step lib)\<^sup>*\<^sup>* m (others c m)"
    and "\<And>c m. P c \<Longrightarrow> \<not> isActive m \<Longrightarrow> consistent m \<Longrightarrow> c \<notin> set (connections (others c m))"
  shows "\<not> isActive m \<Longrightarrow> consistent m \<Longrightarrow>
    \<not> isActive (fold (abort_one (decrease lib) (wake lib) others) cs m) \<and>
    consistent (fold (abort_one (decrease lib) (wake lib) others) cs m) \<and>
    set (connections (fold (abort_one (decrease lib) (wake lib) others) cs m))
      \<subseteq> set (connections m) - {c \<in> set cs. P c}"
proof (induction cs arbitrary: m)
  case (Cons c cs)
  let ?m = "m\<lparr>world := wake lib c (world m)\<rparr>" and ?m1 = "abort_one (decrease lib) (wake lib) others c m"
  have ready: "\<not> isActive ?m" "consistent ?m"
    using Cons.prems by (simp_all add: consistent_def)
  from abort_one_when_stopped [where others = others, OF assms(1) [OF this] Cons.prems, unfolded Let_def]
  have m1: "\<not> isActive ?m1" "consistent ?m1" "set (connections ?m1) \<subseteq> set (connections m)"
    "connections ?m1 = connections (others c ?m)"
    by blast+
  have "P c \<Longrightarrow> c \<notin> set (connections ?m1)"
    using assms(2) [OF _ ready] by (simp add: m1(4))
  then show ?case
    using Cons.IH [OF m1(1,2)] m1(3) by auto
qed simp

lemma abort_pass_when_stopped:
  assumes "\<And>c m. \<not> isActive m \<Longrightarrow> consistent m \<Longrightarrow> (stopped_step lib)\<^sup>*\<^sup>* m (others c m)"
    and "\<And>c m. P c \<Longrightarrow> \<not> isActive m \<Longrightarrow> consistent m \<Longrightarrow> c \<notin> set (connections (others c m))"
    and "\<not> isActive m" "consistent m"
  shows "let m' = abort_pass (increase lib) (decrease lib) (wake lib) others (\<lambda>_. True) m in
    \<not> isActive m' \<and> consistent m' \<and> set (connections m') \<subseteq> {c \<in> set (connections m). \<not> P c}"
proof -
  let ?m1 = "m\<lparr>world := fold (increase lib) (connections m) (world m)\<rparr>"
  have "\<not> isActive ?m1" "consistent ?m1"
    using assms(3,4) by (simp_all add: consistent_def)
  from abort_fold_when_stopped [where others = others and P = P, OF assms(1,2) this, of "connections m"]
  show ?thesis
    by (auto simp: abort_pass_def gather_def Let_def)
qed

lemma abort_all_ends:
  assumes "\<And>k c m. \<not> isActive m \<Longrightarrow> consistent m \<Longrightarrow> (stopped_step lib)\<^sup>*\<^sup>* m (others k c m)"
    and "\<And>c m. \<not> isActive m \<Longrightarrow> consistent m \<Longrightarrow> c \<notin> set (connections (others (reacts c) c m))"
  shows "\<not> isActive m \<Longrightarrow> consistent m \<Longrightarrow> \<forall>c \<in> set (connections m). k \<le> reacts c \<and> reacts c < k + n \<Longrightarrow>
    \<exists>m'. abort_all (increase lib) (decrease lib) (wake lib) others True k m = Some m' \<and> connections m' = []"
proof (induction n arbitrary: k m)
  case 0
  then have "connections m = []"
    by (cases "connections m") auto
  then show ?case
    by (simp add: abort_all.simps)
next
  case (Suc n)
  show ?case
  proof (cases "connections m = []")
    case True
    then show ?thesis by (simp add: abort_all.simps)
  next
    case False
    let ?m1 = "abort_pass (increase lib) (decrease lib) (wake lib) (others k) (\<lambda>_. True) m"
    have "\<And>c m. reacts c = k \<Longrightarrow> \<not> isActive m \<Longrightarrow> consistent m \<Longrightarrow> c \<notin> set (connections (others k c m))"
      using assms(2) by metis
    from abort_pass_when_stopped [where others = "others k" and P = "\<lambda>c. reacts c = k", OF assms(1) this Suc.prems(1,2),
        unfolded Let_def]
    have m1: "\<not> isActive ?m1" "consistent ?m1" "set (connections ?m1) \<subseteq> {c \<in> set (connections m). reacts c \<noteq> k}"
      by blast+
    have "\<forall>c \<in> set (connections ?m1). Suc k \<le> reacts c \<and> reacts c < Suc k + n"
      using Suc.prems(3) m1(3) by force
    from Suc.IH [OF m1(1,2) this] False show ?thesis
      by (simp add: abort_all.simps [of _ _ _ _ _ k m] Let_def)
  qed
qed

text \<open>C40: Once the manager is stopped, aborting all connections and waiting for completion returns, and no
  connection is left, however late the handlers of the aborted connections react and whatever other threads
  do with the manager meanwhile, other than starting it again: it is enough that for every connection there
  is a round by whose end its handler has deregistered it.\<close>

theorem abort_all_returns:
  assumes "\<And>k c m. \<not> isActive m \<Longrightarrow> consistent m \<Longrightarrow> (stopped_step lib)\<^sup>*\<^sup>* m (others k c m)"
    and "\<And>c m. \<not> isActive m \<Longrightarrow> consistent m \<Longrightarrow> c \<notin> set (connections (others (reacts c) c m))"
    and "\<not> isActive m" "consistent m"
  shows "\<exists>m'. abort_all (increase lib) (decrease lib) (wake lib) others True 0 m = Some m' \<and> connections m' = []"
proof (rule abort_all_ends [where others = others, OF assms])
  let ?n = "Suc (Max (reacts ` set (connections m)))"
  show "\<forall>c \<in> set (connections m). 0 \<le> reacts c \<and> reacts c < 0 + ?n"
    by (auto simp: less_Suc_eq_le)
qed

text \<open>Two connections whose handlers react in the rounds 1 and 3.\<close>

definition late_handlers :: "nat \<Rightarrow> nat \<Rightarrow> (nat, nat \<Rightarrow> nat) manager \<Rightarrow> (nat, nat \<Rightarrow> nat) manager" where
  "late_handlers k c m = (if k = c then connection_deregister (decrease counter_library) (notify counter_library) c m else m)"

theorem abort_all_returns_witness:
  "\<exists>m'. abort_all (increase counter_library) (decrease counter_library) (wake counter_library) late_handlers True 0
      ((manager_new (\<lambda>c. if c \<in> {1, 3} then 1 else 0))
         \<lparr>connections := [1, 3 :: nat], registered := {1, 3}, isActive := False\<rparr>) = Some m' \<and> connections m' = []"
proof (rule abort_all_returns [where others = late_handlers and reacts = id])
  fix k c and m :: "(nat, nat \<Rightarrow> nat) manager"
  assume m: "\<not> isActive m" "consistent m"
  let ?gone = "connection_deregister (decrease counter_library) (notify counter_library) c m"
  have "\<not> isActive ?gone"
    using m(1) by (simp add: connection_deregister_def manager_deregister_def Let_def)
  then have "stopped_step counter_library m ?gone"
    unfolding stopped_step_def by (blast intro: manager_step.deregister)
  then show "(stopped_step counter_library)\<^sup>*\<^sup>* m (late_handlers k c m)"
    by (simp add: late_handlers_def r_into_rtranclp)
  show "c \<notin> set (connections (late_handlers (id c) c m))"
    using m(2) by (auto simp: late_handlers_def connection_deregister_def manager_deregister_def consistent_def Let_def)
qed (auto simp: consistent_def)

text \<open>The index operator returns the connection at the index, with one more reference. For an
  index past the end it returns the null pointer only when the list iterator clears the
  pointer at the end of the list; an iterator that leaves it alone makes it return the last
  connection instead.\<close>

lemma operator_index_eq:
  "operator_index increase keeps i m =
     (if i < length (connections m)
      then (Some (connections m ! i), m\<lparr>world := increase (connections m ! i) (world m)\<rparr>)
      else if keeps \<and> connections m \<noteq> []
      then (Some (last (connections m)), m\<lparr>world := increase (last (connections m)) (world m)\<rparr>)
      else (None, m))"
  by (simp add: operator_index_def index_loop_eq take_reference_def)

end
