(* ===== verification/Ftp_Tools.thy ===== *)
theory Ftp_Tools
  imports Net_Addresses
begin

text \<open>
  The FTP component (\<open>src/protocol/ftp\<close>): the codes, commands and states with their names and
  the two textual forms of a data address, the argument of \<open>PORT\<close> and the response to \<open>PASV\<close>
  (\<open>ftp_tools.cpp\<close>). A code is its number. The host part of an \<open>ACE_INET_Addr\<close> is the text that
  \<open>get_host_addr\<close> returns.
\<close>

section \<open>Codes, commands, states\<close>

datatype FTP_Command =
    FTP_COMMAND_USER | FTP_COMMAND_PASS | FTP_COMMAND_ACCT | FTP_COMMAND_CWD
  | FTP_COMMAND_CDUP | FTP_COMMAND_SMNT | FTP_COMMAND_REIN | FTP_COMMAND_QUIT
  | FTP_COMMAND_PORT | FTP_COMMAND_PASV | FTP_COMMAND_TYPE | FTP_COMMAND_STRU
  | FTP_COMMAND_MODE | FTP_COMMAND_RETR | FTP_COMMAND_STOR | FTP_COMMAND_STOU
  | FTP_COMMAND_APPE | FTP_COMMAND_ALLO | FTP_COMMAND_REST | FTP_COMMAND_RNFR
  | FTP_COMMAND_RNTO | FTP_COMMAND_ABOR | FTP_COMMAND_DELE | FTP_COMMAND_RMD
  | FTP_COMMAND_MKD | FTP_COMMAND_PWD | FTP_COMMAND_LIST | FTP_COMMAND_NLST
  | FTP_COMMAND_SITE | FTP_COMMAND_SYST | FTP_COMMAND_STAT | FTP_COMMAND_HELP
  | FTP_COMMAND_NOOP | FTP_COMMAND_MAX | FTP_COMMAND_INVALID

definition CodeToString :: "nat \<Rightarrow> string" where
  "CodeToString code =
     (case map_of
        [(110, ''RESTART_MARKER''), (120, ''SERVICE_READY_N_MINUTES''),
         (125, ''DATA_OPEN_TRANSFER_STARTING''), (150, ''FILE_STATUS_OK_OPENING_DATA''),
         (200, ''OK''), (202, ''COMMAND_SUPERFLUOUS''), (211, ''SYSTEM_STATUS_OR_HELP''),
         (212, ''DIRECTORY_STATUS''), (213, ''FILE_STATUS''), (214, ''HELP_MESSAGE''),
         (215, ''NAME_SYSTEM_TYPE''), (220, ''SERVICE_READY_NEW_USER''),
         (221, ''SERVICE_CLOSING_CTL''), (225, ''DATA_OPEN_NO_TRANSFER''),
         (226, ''CLOSING_DATA''), (227, ''ENTERING_PASSIVE_MODE''), (230, ''USER_LOGGED_IN''),
         (250, ''FILE_ACTION_OK''), (257, ''PATH_CREATED_OK''),
         (331, ''USER_OK_NEED_PASSWORD''), (332, ''NEED_ACCOUNT_FOR_LOGIN''),
         (350, ''FILE_ACTION_PENDING_FURTHER_INFORMATION''),
         (421, ''SERVICE_NOT_AVAILABLE_CLOSING_CTL''), (425, ''CANNOT_OPEN_DATA''),
         (426, ''DATA_CLOSED_TRANSFER_ABORTED''),
         (450, ''FILE_ACTION_ABORTED_FILE_UNAVAILABLE''), (451, ''ACTION_ABORTED''),
         (452, ''FILE_ACTION_ABORTED_NO_SPACE''), (500, ''ERROR_SYNTAX_COMMAND''),
         (501, ''ERROR_SYNTAX_ARGUMENT''), (502, ''ERROR_COMMAND_NOT_IMPLEMENTED''),
         (503, ''ERROR_COMMAND_BAD_SEQUENCE''),
         (504, ''ERROR_COMMAND_ARGUMENT_NOT_IMPLEMENTED''),
         (530, ''ERROR_USER_NOT_LOGGED_IN''), (532, ''ERROR_NEED_ACCOUNT_FOR_STORING_FILES''),
         (550, ''ERROR_FILE_ACTION_ABORTED_FILE_UNAVAILABLE''),
         (551, ''ERROR_ACTION_ABORTED_PAGE_TYPE_UNKNOWN''),
         (552, ''ERROR_FILE_ACTION_ABORTED_NO_SPACE''),
         (553, ''FILE_ACTION_ABORTED_FILENAME_NOT_ALLOWED'')] code
      of Some name \<Rightarrow> name | None \<Rightarrow> ''INVALID/UNKNOWN'')"

fun FTP_CommandToString :: "FTP_Command \<Rightarrow> string" where
  "FTP_CommandToString FTP_COMMAND_USER = ''USER''"
| "FTP_CommandToString FTP_COMMAND_PASS = ''PASS''"
| "FTP_CommandToString FTP_COMMAND_ACCT = ''ACCT''"
| "FTP_CommandToString FTP_COMMAND_CWD = ''CWD''"
| "FTP_CommandToString FTP_COMMAND_CDUP = ''CDUP''"
| "FTP_CommandToString FTP_COMMAND_SMNT = ''SMNT''"
| "FTP_CommandToString FTP_COMMAND_REIN = ''REIN''"
| "FTP_CommandToString FTP_COMMAND_QUIT = ''QUIT''"
| "FTP_CommandToString FTP_COMMAND_PORT = ''PORT''"
| "FTP_CommandToString FTP_COMMAND_PASV = ''PASV''"
| "FTP_CommandToString FTP_COMMAND_TYPE = ''TYPE''"
| "FTP_CommandToString FTP_COMMAND_STRU = ''STRU''"
| "FTP_CommandToString FTP_COMMAND_MODE = ''MODE''"
| "FTP_CommandToString FTP_COMMAND_RETR = ''RETR''"
| "FTP_CommandToString FTP_COMMAND_STOR = ''STOR''"
| "FTP_CommandToString FTP_COMMAND_STOU = ''STOU''"
| "FTP_CommandToString FTP_COMMAND_APPE = ''APPE''"
| "FTP_CommandToString FTP_COMMAND_ALLO = ''ALLO''"
| "FTP_CommandToString FTP_COMMAND_REST = ''REST''"
| "FTP_CommandToString FTP_COMMAND_RNFR = ''RNFR''"
| "FTP_CommandToString FTP_COMMAND_RNTO = ''RNTO''"
| "FTP_CommandToString FTP_COMMAND_ABOR = ''ABOR''"
| "FTP_CommandToString FTP_COMMAND_DELE = ''DELE''"
| "FTP_CommandToString FTP_COMMAND_RMD = ''RMD''"
| "FTP_CommandToString FTP_COMMAND_MKD = ''MKD''"
| "FTP_CommandToString FTP_COMMAND_PWD = ''PWD''"
| "FTP_CommandToString FTP_COMMAND_LIST = ''LIST''"
| "FTP_CommandToString FTP_COMMAND_NLST = ''NLST''"
| "FTP_CommandToString FTP_COMMAND_SITE = ''SITE''"
| "FTP_CommandToString FTP_COMMAND_SYST = ''SYST''"
| "FTP_CommandToString FTP_COMMAND_STAT = ''STAT''"
| "FTP_CommandToString FTP_COMMAND_HELP = ''HELP''"
| "FTP_CommandToString FTP_COMMAND_NOOP = ''NOOP''"
| "FTP_CommandToString _ = ''INVALID/UNKNOWN''"

datatype FTP_ProtocolState =
    FTP_STATE_INITIAL | FTP_STATE_USER_SENT | FTP_STATE_PASS_SENT | FTP_STATE_READY
  | FTP_STATE_REQUEST_SENT | FTP_STATE_QUIT_SENT | FTP_STATE_MAX | FTP_STATE_INVALID

fun StateToString :: "FTP_ProtocolState \<Rightarrow> string" where
  "StateToString FTP_STATE_INITIAL = ''INITIAL''"
| "StateToString FTP_STATE_USER_SENT = ''USER_SENT''"
| "StateToString FTP_STATE_PASS_SENT = ''PASS_SENT''"
| "StateToString FTP_STATE_READY = ''READY''"
| "StateToString FTP_STATE_REQUEST_SENT = ''REQUEST_SENT''"
| "StateToString FTP_STATE_QUIT_SENT = ''QUIT_SENT''"
| "StateToString _ = ''INVALID/UNKNOWN''"

datatype FTP_ProtocolDataState =
    FTP_STATE_DATA_INITIAL | FTP_STATE_DATA_LIST_DIRECTORY | FTP_STATE_DATA_LIST_FILE
  | FTP_STATE_DATA_DATA | FTP_STATE_DATA_MAX | FTP_STATE_DATA_INVALID

fun DataStateToString :: "FTP_ProtocolDataState \<Rightarrow> string" where
  "DataStateToString FTP_STATE_DATA_INITIAL = ''INITIAL''"
| "DataStateToString FTP_STATE_DATA_LIST_DIRECTORY = ''LIST_DIRECTORY''"
| "DataStateToString FTP_STATE_DATA_LIST_FILE = ''LIST_FILE''"
| "DataStateToString FTP_STATE_DATA_DATA = ''DATA''"
| "DataStateToString _ = ''INVALID/UNKNOWN''"

text \<open>\<open>operator++\<close> and \<open>operator--\<close> of the protocol state (\<open>ftp_common.h\<close>).\<close>

fun next_state :: "FTP_ProtocolState \<Rightarrow> FTP_ProtocolState run" where
  "next_state FTP_STATE_INITIAL = Inr FTP_STATE_USER_SENT"
| "next_state FTP_STATE_USER_SENT = Inr FTP_STATE_PASS_SENT"
| "next_state FTP_STATE_PASS_SENT = Inr FTP_STATE_READY"
| "next_state FTP_STATE_READY = Inr FTP_STATE_REQUEST_SENT"
| "next_state FTP_STATE_REQUEST_SENT = Inr FTP_STATE_QUIT_SENT"
| "next_state FTP_STATE_QUIT_SENT = Inr FTP_STATE_INITIAL"
| "next_state FTP_STATE_MAX = Inl Assertion_failed"
| "next_state FTP_STATE_INVALID = Inr FTP_STATE_INITIAL"

fun previous_state :: "FTP_ProtocolState \<Rightarrow> FTP_ProtocolState run" where
  "previous_state FTP_STATE_USER_SENT = Inr FTP_STATE_INITIAL"
| "previous_state FTP_STATE_PASS_SENT = Inr FTP_STATE_USER_SENT"
| "previous_state FTP_STATE_READY = Inr FTP_STATE_PASS_SENT"
| "previous_state FTP_STATE_REQUEST_SENT = Inr FTP_STATE_READY"
| "previous_state FTP_STATE_QUIT_SENT = Inr FTP_STATE_REQUEST_SENT"
| "previous_state _ = Inl Assertion_failed"

section \<open>Records\<close>

text \<open>The response part of \<open>FTP_Record\<close>, which is what \<open>dump\<close> prints.\<close>

record FTP_Response =
  ftp_code :: nat
  ftp_text :: "string list"

definition dump_ftp :: "FTP_Response \<Rightarrow> string" where
  "dump_ftp r =
     ''code: '' @ [CHR 0x09] @ CodeToString (ftp_code r) @ '' ('' @ show_dec (ftp_code r) @ '')'' @ [CHR 0x0A]
     @ ''text: ('' @ show_dec (length (ftp_text r)) @ ''):'' @ [CHR 0x0A]
     @ concat (map (\<lambda>l. l @ [CHR 0x0A]) (ftp_text r)) @ ''text /END''"

section \<open>Data addresses\<close>

definition port_re :: re where
  "port_re =
     Seq (Grp 1 (Rng 2 Digit)) (Seq (Chr CHR ''.'')
    (Seq (Grp 2 (Rng 2 Digit)) (Seq (Chr CHR ''.'')
    (Seq (Grp 3 (Rng 2 Digit)) (Seq (Chr CHR ''.'')
    (Seq (Grp 4 (Rng 2 Digit)) (Seq (Chr CHR '':'')
         (Grp 5 (Rng 4 Digit)))))))))"

definition generatePORTArgument :: "string \<Rightarrow> u16 \<Rightarrow> string" where
  "generatePORTArgument host port =
     (case regex_match port_re (host @ '':'' @ show_dec (unat port)) of
        None \<Rightarrow> []
      | Some m \<Rightarrow>
          group_text m 1 @ '','' @ group_text m 2 @ '','' @ group_text m 3 @ '','' @ group_text m 4
          @ '','' @ show_dec (unat (drop_bit 8 port)) @ '','' @ show_dec (unat (port AND 0xFF)))"

definition pasv_re :: re where
  "pasv_re =
     Seq (Star (Not_chr CHR ''('')) (Seq (Chr CHR ''('')
    (Seq (Grp 1 (Rng 2 Digit)) (Seq (Chr CHR '','')
    (Seq (Grp 2 (Rng 2 Digit)) (Seq (Chr CHR '','')
    (Seq (Grp 3 (Rng 2 Digit)) (Seq (Chr CHR '','')
    (Seq (Grp 4 (Rng 2 Digit)) (Seq (Chr CHR '','')
    (Seq (Grp 5 (Rng 2 Digit)) (Seq (Chr CHR '','')
    (Seq (Grp 6 (Rng 2 Digit)) (Seq (Chr CHR '')'') (Star Dot))))))))))))))"

text \<open>
  Writing to a \<open>std::stringstream\<close> whose contents were set starts at the beginning of these and
  leaves what lies behind the written text.
\<close>

definition overwrite :: "string \<Rightarrow> string \<Rightarrow> string" where
  "overwrite buffer s = s @ drop (length s) buffer"

definition pasv_port :: "string \<Rightarrow> string \<Rightarrow> string" where
  "pasv_port high low =
     (let port_number = push_bit 8 (word_of_nat (extract_unsigned 16 high) :: u16)
            OR word_of_nat (extract_unsigned 16 low)
      in overwrite low (show_dec (unat port_number)))"

definition parsePASVResponse ::
  "(string \<Rightarrow> bool \<Rightarrow> 'addr option) \<Rightarrow> 'addr \<Rightarrow> string \<Rightarrow> 'addr" where
  "parsePASVResponse string_to_addr no_address line =
     (case regex_match pasv_re line of
        None \<Rightarrow> no_address
      | Some m \<Rightarrow>
          stringToIPAddress string_to_addr no_address
            (dotted (group_text m 1) (group_text m 2) (group_text m 3) (group_text m 4)
             @ '':'' @ pasv_port (group_text m 5) (group_text m 6)) 0)"

section \<open>Matching the two forms\<close>

lemma derives_number:
  assumes "list_all is_digit w" and "\<not> is_digit d"
  shows "derives (Seq (Grp n (Rng k Digit)) (Seq (Chr d) r)) (w @ d # t, c) st' \<longleftrightarrow>
    w \<noteq> [] \<and> length w \<le> Suc k \<and> derives r (t, c(n \<mapsto> w)) st'"
proof -
  have "d \<notin> set w" "list_all is_digit v \<Longrightarrow> d \<notin> set v" for v
    using assms by (auto simp: list_all_iff)
  then show ?thesis
    unfolding derives_Seq [of "Grp _ _"] derives_Seq [of "Cls _"] split_paired_Ex
      derives_Grp_Rng_Cls derives_Cls
    using assms by (auto simp: append_sep_eq Cons_eq_append_conv)
qed

lemma derives_prefix:
  assumes "d \<notin> set p"
  shows "derives (Seq (Star (Not_chr d)) (Seq (Chr d) r)) (p @ d # t, c) st' \<longleftrightarrow> derives r (t, c) st'"
proof -
  have "list_all (\<lambda>x. x \<noteq> d) v \<longleftrightarrow> d \<notin> set v" for v by (auto simp: list_all_iff)
  then show ?thesis
    unfolding derives_Seq [of "Star _"] derives_Seq [of "Cls _"] split_paired_Ex
      derives_Star_Cls derives_Cls
    using assms by (auto simp: append_sep_eq)
qed

lemma derives_last_number:
  "derives (Grp n (Rng k Digit)) (w, c) ([], c') \<longleftrightarrow>
     w \<noteq> [] \<and> length w \<le> Suc k \<and> list_all is_digit w \<and> c' = c(n \<mapsto> w)"
  unfolding derives_Grp_Rng_Cls by auto

lemma separators_no_digits: "\<not> is_digit CHR ''.''" "\<not> is_digit CHR '':''" "\<not> is_digit CHR '',''"
    "\<not> is_digit CHR '')''"
  by (simp_all add: is_digit_def char_code_def)

lemma regex_match_deriv:
  "(\<And>c. derives r (s, Map.empty) ([], c) \<longleftrightarrow> c = m) \<Longrightarrow> regex_match r s = Some m"
  by (rule regex_match_unique) simp_all

lemma length_show_byte: "n < 256 \<Longrightarrow> length (show_dec n) \<le> 3"
  using length_show_dec [of n 2] by simp

lemma length_show_port: "length (show_dec (unat (port :: u16))) \<le> 5"
proof -
  have "unat port < 2 ^ 16" by (rule order.strict_trans2 [OF unsigned_less]) simp
  then show ?thesis using length_show_dec [of "unat port" 4] by simp
qed

lemma port_match:
  assumes "a < 256" and "b < 256" and "c < 256" and "d < 256"
  shows "regex_match port_re (dotted (show_dec a) (show_dec b) (show_dec c) (show_dec d)
      @ '':'' @ show_dec (unat (port :: u16))) =
    Some [1 \<mapsto> show_dec a, 2 \<mapsto> show_dec b, 3 \<mapsto> show_dec c, 4 \<mapsto> show_dec d,
          5 \<mapsto> show_dec (unat port)]"
  unfolding port_re_def using assms length_show_port [of port]
  by (intro regex_match_deriv)
     (simp add: derives_number derives_last_number digits_show_dec separators_no_digits
       length_show_byte numeral_2_eq_2 numeral_3_eq_3 [symmetric] del: Rep_upto.simps)

lemma pasv_match:
  assumes "a < 256" and "b < 256" and "c < 256" and "d < 256" and "h < 256" and "l < 256"
    and "CHR ''('' \<notin> set prefix" and "list_all (\<lambda>x. \<not> line_terminator x) rest"
  shows "regex_match pasv_re (prefix @ ''('' @ show_dec a @ '','' @ show_dec b @ '','' @ show_dec c
      @ '','' @ show_dec d @ '','' @ show_dec h @ '','' @ show_dec l @ '')'' @ rest) =
    Some [1 \<mapsto> show_dec a, 2 \<mapsto> show_dec b, 3 \<mapsto> show_dec c, 4 \<mapsto> show_dec d,
          5 \<mapsto> show_dec h, 6 \<mapsto> show_dec l]"
  unfolding pasv_re_def using assms
  by (intro regex_match_deriv)
     (simp add: derives_number derives_prefix derives_Star_Cls digits_show_dec separators_no_digits
       length_show_byte numeral_2_eq_2 numeral_3_eq_3 [symmetric] del: Rep_upto.simps)

section \<open>Splitting and joining the port\<close>

lemma port_halves:
  fixes port :: u16
  shows "unat (drop_bit 8 port) < 256" "unat (port AND 0xFF) < 256"
    "push_bit 8 (drop_bit 8 port) OR (port AND 0xFF) = port"
    "unat (port AND 0xFF) \<le> unat port"
proof -
  have mask: "(0xFF :: u16) = mask 8" by (simp add: mask_eq_exp_minus_1)
  have "unat port < 2 ^ 16" by (rule order.strict_trans2 [OF unsigned_less]) simp
  then show "unat (drop_bit 8 port) < 256"
    by (simp add: drop_bit_eq_div unat_div less_mult_imp_div_less)
  show "unat (port AND 0xFF) < 256"
    unfolding mask by (simp add: take_bit_eq_mask [symmetric] take_bit_eq_mod unat_mod)
  show "push_bit 8 (drop_bit 8 port) OR (port AND 0xFF) = port"
    unfolding mask by (rule bit_word_eqI) (auto simp: bit_simps)
  show "unat (port AND 0xFF) \<le> unat port"
    unfolding mask by (simp add: take_bit_eq_mask [symmetric] take_bit_eq_mod unat_mod)
qed

lemma pasv_port_halves:
  "pasv_port (show_dec (unat (drop_bit 8 port))) (show_dec (unat (port AND 0xFF))) =
     show_dec (unat (port :: u16))"
proof -
  have "extract_unsigned 16 (show_dec n) = n" if "n < 256" for n
    using extract_show_dec [of n 16 "[]"] that by simp
  then have "pasv_port (show_dec (unat (drop_bit 8 port))) (show_dec (unat (port AND 0xFF))) =
      overwrite (show_dec (unat (port AND 0xFF))) (show_dec (unat port))"
    using port_halves [of port] by (simp add: pasv_port_def)
  moreover have "length (show_dec (unat (port AND 0xFF))) \<le> length (show_dec (unat port))"
    by (rule length_show_dec_mono [OF port_halves(4)])
  ultimately show ?thesis by (simp add: overwrite_def)
qed

section \<open>Properties\<close>

text \<open>C26: The argument of PORT for an IPv4 address and port, put in parentheses into the response to
  PASV, is read back as the same address and port.\<close>

theorem data_address_round_trip:
  assumes "a < 256" and "b < 256" and "c < 256" and "d < 256"
    and "CHR ''('' \<notin> set prefix" and "list_all (\<lambda>x. \<not> line_terminator x) rest"
  shows "parsePASVResponse string_to_addr no_address (prefix @ ''('' @ generatePORTArgument
      (dotted (show_dec a) (show_dec b) (show_dec c) (show_dec d)) port @ '')'' @ rest) =
    stringToIPAddress string_to_addr no_address
      (dotted (show_dec a) (show_dec b) (show_dec c) (show_dec d) @ '':'' @ show_dec (unat port)) 0"
proof -
  have "generatePORTArgument (dotted (show_dec a) (show_dec b) (show_dec c) (show_dec d)) port =
      show_dec a @ '','' @ show_dec b @ '','' @ show_dec c @ '','' @ show_dec d @ '',''
      @ show_dec (unat (drop_bit 8 port)) @ '','' @ show_dec (unat (port AND 0xFF))"
    using port_match [OF assms(1-4), of port] by (simp add: generatePORTArgument_def group_text_def)
  then show ?thesis
    using pasv_match [OF assms(1-4) port_halves(1,2) [of port] assms(5,6)] pasv_port_halves [of port]
    by (simp add: parsePASVResponse_def group_text_def)
qed

theorem data_address_round_trip_witness:
  "parsePASVResponse (\<lambda>t ipv4. Some t) [] (''227 ok '' @ ''('' @ generatePORTArgument
      (dotted (show_dec 127) (show_dec 0) (show_dec 0) (show_dec 1)) 5001 @ '')'' @ ''.'') =
    stringToIPAddress (\<lambda>t ipv4. Some t) []
      (dotted (show_dec 127) (show_dec 0) (show_dec 0) (show_dec 1) @ '':''
       @ show_dec (unat (5001 :: u16))) 0"
  by (rule data_address_round_trip) (simp_all add: line_terminator_def)

text \<open>The port of a PASV response is written over the text of its low byte in the conversion
  buffer; a low byte with leading zeros leaves digits behind: port 21 is read as 211.\<close>

lemma pasv_port_leading_zero: "pasv_port ''0'' ''021'' = ''211''"
  by (simp add: pasv_port_def extract_unsigned_def dec_value_def digit_value_def is_digit_def
      char_code_def overwrite_def show_dec.simps)

end
