(* ===== verification/Pcp_Wire.thy ===== *)
theory Pcp_Wire
  imports Net_Byte_Order
begin

text \<open>
  Port control (\<open>src/protocol/pcp\<close>), the sending side: the records of \<open>pcp_common.h\<close>, the address mapping
  of \<open>PCP_Tools\<close> (\<open>pcp_tools.cpp\<close>), the request \<open>PCP_Module_Streamer_T::handleDataMessage\<close> writes
  (\<open>pcp_module_streamer.inl\<close>) and the requests of the session (\<open>pcp_session.inl\<close>). The reference is a
  decoder of requests after RFC 6887 and RFC 7652.

  Enumerations are held in an \<open>int\<close>, so that a variable of the type keeps every value cast to it. A
  union is the datatype of its active member, and reading another member is a fault.
  \<open>pcp_library\<close> holds what other libraries supply: the byte order, the byte swapping macros, and the
  number of usable bytes \<open>new []\<close> provides for a request, if any.
\<close>

section \<open>Data\<close>

type_synonym pcp_enum = u32

abbreviation PCP_VERSION_2 :: pcp_enum where "PCP_VERSION_2 \<equiv> 2"
abbreviation PCP_VERSION_INVALID :: pcp_enum where "PCP_VERSION_INVALID \<equiv> 4"
abbreviation PCP_OPCODE_ANNOUNCE :: byte where "PCP_OPCODE_ANNOUNCE \<equiv> 0"
abbreviation PCP_OPCODE_MAP :: byte where "PCP_OPCODE_MAP \<equiv> 1"
abbreviation PCP_OPCODE_PEER :: byte where "PCP_OPCODE_PEER \<equiv> 2"
abbreviation PCP_OPCODE_AUTHENTICATION :: byte where "PCP_OPCODE_AUTHENTICATION \<equiv> 3"
abbreviation PCP_RESULTCODE_INITIATION :: pcp_enum where "PCP_RESULTCODE_INITIATION \<equiv> 14"
abbreviation PCP_RESULTCODE_INVALID :: pcp_enum where "PCP_RESULTCODE_INVALID \<equiv> 257"
abbreviation PCP_OPTION_NONCE :: pcp_enum where "PCP_OPTION_NONCE \<equiv> 4"
abbreviation PCP_OPTION_INVALID :: pcp_enum where "PCP_OPTION_INVALID \<equiv> 14"

record PCPOpcodeMapData =
  map_nonce :: u64
  map_protocol :: byte
  map_reserved :: u32
  map_internal_port :: u16
  map_external_port :: u16
  map_external_address :: "inet_addr option"

record PCPOpcodePeerData =
  peer_nonce :: u64
  peer_protocol :: byte
  peer_reserved :: u32
  peer_internal_port :: u16
  peer_external_port :: u16
  peer_external_address :: "inet_addr option"
  peer_remote_port :: u16
  peer_reserved_2 :: u16
  peer_remote_address :: "inet_addr option"

datatype pcp_opcode_data =
    Map_data PCPOpcodeMapData
  | Peer_data PCPOpcodePeerData
  | Authentication_data u32 u32
  | No_opcode_data

datatype pcp_option_data =
    Third_party "inet_addr option"
  | Port_filter byte byte u16 "inet_addr option"
  | Option_nonce u32
  | Authentication_tag u32 u32 u32 "byte list option"
  | PA_authentication_tag u32 "byte list option"
  | EAP_payload "byte list option"
  | Pseudo_random_function u32
  | MAC_algorithm u32
  | Session_lifetime u32
  | Received_PAK u32
  | Id_indicator "byte list option"
  | No_option_data

record PCPOption =
  opt_code :: pcp_enum
  opt_reserved :: byte
  opt_length :: u16
  opt_data :: pcp_option_data

definition new_PCPOption :: PCPOption where
  "new_PCPOption = \<lparr>opt_code = PCP_OPTION_INVALID, opt_reserved = 0, opt_length = 0,
                    opt_data = No_option_data\<rparr>"

record PCP_Record =
  pcp_version :: pcp_enum
  pcp_opcode :: byte
  pcp_reserved :: byte
  pcp_result_code :: pcp_enum
  pcp_lifetime :: u32
  pcp_epoch_time :: u32
  pcp_reserved_2 :: u32
  pcp_client_address :: inet_addr
  pcp_data :: pcp_opcode_data
  pcp_options :: "PCPOption list"

definition new_PCP_Record :: PCP_Record where
  "new_PCP_Record =
     \<lparr>pcp_version = PCP_VERSION_INVALID, pcp_opcode = 0, pcp_reserved = 0,
      pcp_result_code = PCP_RESULTCODE_INVALID, pcp_lifetime = 0, pcp_epoch_time = 0,
      pcp_reserved_2 = 0, pcp_client_address = any_address, pcp_data = No_opcode_data,
      pcp_options = []\<rparr>"

text \<open>
  The copy constructor initializes every member from the other record except \<open>client_address\<close>, which
  is default constructed; the assignment operator copies it too.
\<close>

definition copy_PCP_Record :: "PCP_Record \<Rightarrow> PCP_Record" where
  "copy_PCP_Record r =
     new_PCP_Record\<lparr>pcp_version := pcp_version r, pcp_opcode := pcp_opcode r,
       pcp_reserved := pcp_reserved r, pcp_result_code := pcp_result_code r,
       pcp_lifetime := pcp_lifetime r, pcp_epoch_time := pcp_epoch_time r,
       pcp_reserved_2 := pcp_reserved_2 r, pcp_options := pcp_options r,
       pcp_data := (if pcp_opcode r \<in> {PCP_OPCODE_MAP, PCP_OPCODE_PEER, PCP_OPCODE_AUTHENTICATION}
                    then pcp_data r else No_opcode_data)\<rparr>"

fun read_map :: "pcp_opcode_data \<Rightarrow> PCPOpcodeMapData run" where
  "read_map (Map_data d) = Inr d"
| "read_map _ = Inl Out_of_bounds"

fun read_peer :: "pcp_opcode_data \<Rightarrow> PCPOpcodePeerData run" where
  "read_peer (Peer_data d) = Inr d"
| "read_peer _ = Inl Out_of_bounds"

section \<open>Code of other libraries\<close>

record pcp_library = machine +
  usable_bytes :: "nat \<Rightarrow> nat option"

definition mapAddress :: "pcp_library \<Rightarrow> inet_addr \<Rightarrow> byte list" where
  "mapAddress lib address = replicate 10 0 @ [0xFF, 0xFF] @ network_32 lib (addr_ip address)"


section \<open>Writing requests\<close>

definition wrong_member :: part where
  "wrong_member space = Inl Out_of_bounds"

definition copy_data :: "byte list option \<Rightarrow> nat \<Rightarrow> part" where
  "copy_data data n space =
     (if space < n then Inr None
      else case data of
        None \<Rightarrow> (if n = 0 then Inr (Some []) else Inl Null_dereference)
      | Some bs \<Rightarrow> (if n \<le> length bs then Inr (Some (take n bs)) else Inl Out_of_bounds))"

definition copy_address :: "pcp_library \<Rightarrow> inet_addr option \<Rightarrow> part" where
  "copy_address lib address space =
     (case address of None \<Rightarrow> Inl Null_dereference | Some a \<Rightarrow> copy_bytes (mapAddress lib a) space)"

text \<open>
  \<open>&data_r.map.reserved + 1\<close> points behind the four octets of \<open>reserved\<close>: the three octets copied from
  there are the internal port and the first octet of the external port, in native byte order.
\<close>

definition behind_reserved :: "pcp_library \<Rightarrow> u16 \<Rightarrow> u16 \<Rightarrow> byte list" where
  "behind_reserved lib internal external =
     take 3 (native_octets (lsb_first lib) 2 internal
             @ native_octets (lsb_first lib) 2 external)"

definition map_parts :: "pcp_library \<Rightarrow> pcp_opcode_data \<Rightarrow> part list" where
  "map_parts lib u =
     (case u of Map_data d \<Rightarrow>
        [copy_bytes (replicate 4 0 @ network_64 lib (map_nonce d)), copy_bytes [map_protocol d],
         copy_bytes (behind_reserved lib (map_internal_port d) (map_external_port d)),
         copy_bytes (network_16 lib (map_internal_port d)),
         copy_bytes (network_16 lib (map_external_port d)), copy_address lib (map_external_address d)]
      | _ \<Rightarrow> [wrong_member])"

text \<open>The nonce of a PEER request is read as \<open>map.nonce\<close>, which both structures begin with.\<close>

definition peer_parts :: "pcp_library \<Rightarrow> pcp_opcode_data \<Rightarrow> part list" where
  "peer_parts lib u =
     (case u of Peer_data d \<Rightarrow>
        [copy_bytes (replicate 4 0 @ network_64 lib (peer_nonce d)), copy_bytes [peer_protocol d],
         copy_bytes (behind_reserved lib (peer_internal_port d) (peer_external_port d)),
         copy_bytes (network_16 lib (peer_internal_port d)),
         copy_bytes (network_16 lib (peer_external_port d)), copy_address lib (peer_external_address d),
         copy_bytes (network_16 lib (peer_remote_port d)),
         copy_bytes (native_octets (lsb_first lib) 2 (peer_reserved_2 d)),
         copy_address lib (peer_remote_address d)]
      | _ \<Rightarrow> [wrong_member])"

definition authentication_parts :: "pcp_library \<Rightarrow> pcp_opcode_data \<Rightarrow> part list" where
  "authentication_parts lib u =
     (case u of Authentication_data session_id sequence_number \<Rightarrow>
        [copy_bytes (network_32 lib session_id), copy_bytes (network_32 lib sequence_number)]
      | _ \<Rightarrow> [wrong_member])"

text \<open>The size \<open>length - n\<close> of an \<open>int\<close> converted to \<open>size_t\<close>.\<close>

definition size_minus :: "u16 \<Rightarrow> u64 \<Rightarrow> nat" where
  "size_minus len n = unat (ucast len - n :: u64)"

definition option_data_parts :: "pcp_library \<Rightarrow> PCPOption \<Rightarrow> part list" where
  "option_data_parts lib opt =
     (let code = opt_code opt; len = opt_length opt; u = opt_data opt in
      if code = 1 then (case u of Third_party a \<Rightarrow> [copy_address lib a] | _ \<Rightarrow> [wrong_member])
      else if code = 2 then []
      else if code = 3 then
        (case u of Port_filter reserved prefix_length remote_peer_port a \<Rightarrow>
           [copy_bytes [reserved], copy_bytes [prefix_length],
            copy_bytes (network_16 lib remote_peer_port), copy_address lib a]
         | _ \<Rightarrow> [wrong_member])
      else if code = 4 then
        (case u of Option_nonce v \<Rightarrow> [copy_bytes (network_32 lib v)] | _ \<Rightarrow> [wrong_member])
      else if code = 5 then
        (case u of Authentication_tag session_id sequence_number key_id data \<Rightarrow>
           [copy_bytes (network_32 lib session_id), copy_bytes (network_32 lib sequence_number),
            copy_bytes (network_32 lib key_id), copy_data data (size_minus len 12)]
         | _ \<Rightarrow> [wrong_member])
      else if code = 6 then
        (case u of PA_authentication_tag key_id data \<Rightarrow>
           [copy_bytes (network_32 lib key_id), copy_data data (size_minus len 4)]
         | _ \<Rightarrow> [wrong_member])
      else if code = 7 then
        (case u of EAP_payload data \<Rightarrow> [copy_data data (unat len)] | _ \<Rightarrow> [wrong_member])
      else if code = 8 then
        (case u of Pseudo_random_function v \<Rightarrow> [copy_bytes (network_32 lib v)] | _ \<Rightarrow> [wrong_member])
      else if code = 9 then
        (case u of MAC_algorithm v \<Rightarrow> [copy_bytes (network_32 lib v)] | _ \<Rightarrow> [wrong_member])
      else if code = 10 then
        (case u of Session_lifetime v \<Rightarrow> [copy_bytes (network_32 lib v)] | _ \<Rightarrow> [wrong_member])
      else if code = 11 then
        (case u of Received_PAK v \<Rightarrow> [copy_bytes (network_32 lib v)] | _ \<Rightarrow> [wrong_member])
      else if code = 12 then
        (case u of Id_indicator data \<Rightarrow> [copy_data data (unat len)] | _ \<Rightarrow> [wrong_member])
      else [goto_error])"

definition option_parts :: "pcp_library \<Rightarrow> PCPOption \<Rightarrow> part list" where
  "option_parts lib opt =
     [copy_bytes (first_octet lib (opt_code opt)), copy_bytes [opt_reserved opt],
      copy_bytes (network_16 lib (opt_length opt))] @ option_data_parts lib opt"

definition header_parts :: "pcp_library \<Rightarrow> PCP_Record \<Rightarrow> part list" where
  "header_parts lib r =
     [copy_bytes (first_octet lib (pcp_version r)), copy_bytes [pcp_opcode r]]
     @ (if pcp_opcode r \<in> {PCP_OPCODE_ANNOUNCE, PCP_OPCODE_MAP, PCP_OPCODE_PEER}
        then [copy_bytes [0, 0]]
        else if pcp_opcode r = PCP_OPCODE_AUTHENTICATION
        then [copy_bytes [0], copy_bytes (first_octet lib (pcp_result_code r))]
        else [goto_error])
     @ [copy_bytes (network_32 lib (pcp_lifetime r)),
        copy_bytes (mapAddress lib (pcp_client_address r))]"

definition opcode_parts :: "pcp_library \<Rightarrow> PCP_Record \<Rightarrow> part list" where
  "opcode_parts lib r =
     (if pcp_opcode r = PCP_OPCODE_ANNOUNCE then []
      else if pcp_opcode r = PCP_OPCODE_MAP then map_parts lib (pcp_data r)
      else if pcp_opcode r = PCP_OPCODE_PEER then peer_parts lib (pcp_data r)
      else if pcp_opcode r = PCP_OPCODE_AUTHENTICATION then authentication_parts lib (pcp_data r)
      else [goto_error])"

text \<open>
  \<open>handleDataMessage\<close> on a message of the given contents and capacity: the octets of the message that
  is passed on, and whether they are complete. The message is passed on in either case.
\<close>

definition pcp_handleDataMessage ::
    "pcp_library \<Rightarrow> PCP_Record \<Rightarrow> byte list \<Rightarrow> nat \<Rightarrow> (byte list \<times> bool) run" where
  "pcp_handleDataMessage lib r written capacity =
     run_bind (ace_assert (length written = 0)) (\<lambda>_.
     run_bind (ace_assert (1100 \<le> capacity)) (\<lambda>_.
       copy_all (header_parts lib r @ opcode_parts lib r @ concat (map (option_parts lib) (pcp_options r)))
         capacity []))"


section \<open>The reference: requests of RFC 6887 and RFC 7652\<close>

datatype rfc_opcode_data =
    Rfc_announce
  | Rfc_map "byte list" nat nat nat "byte list"
  | Rfc_peer "byte list" nat nat nat "byte list" nat "byte list"
  | Rfc_authentication nat nat nat

record rfc_pcp_request =
  rq_version :: nat
  rq_lifetime :: nat
  rq_client :: "byte list"
  rq_data :: rfc_opcode_data
  rq_options :: "(nat \<times> byte list) list"

text \<open>Options are padded to a multiple of four octets, which their length does not count.\<close>

definition padded :: "nat \<Rightarrow> nat" where
  "padded n = 4 * ((n + 3) div 4)"

lemma padded_ge: "n \<le> padded n"
  by (simp add: padded_def)

function (sequential) rfc_options :: "byte list \<Rightarrow> (nat \<times> byte list) list option" where
  "rfc_options [] = Some []"
| "rfc_options (c # r # l1 # l0 # rest) =
     (let n = be_value [l1, l0] in
      if length rest < padded n then None
      else map_option (Cons (unat c, take n rest)) (rfc_options (drop (padded n) rest)))"
| "rfc_options _ = None"
  by pat_completeness auto
termination
  by (relation "measure length") auto

text \<open>The octets the data of an opcode takes, and what they say; reserved octets are ignored.\<close>

definition rfc_data_length :: "nat \<Rightarrow> nat" where
  "rfc_data_length opcode = (if opcode = 1 then 36 else if opcode = 2 then 56 else if opcode = 3 then 8 else 0)"

definition rfc_data :: "nat \<Rightarrow> nat \<Rightarrow> byte list \<Rightarrow> rfc_opcode_data option" where
  "rfc_data opcode result d =
     (if length d < rfc_data_length opcode then None
      else if opcode = 0 then Some Rfc_announce
      else if opcode = 1
      then Some (Rfc_map (octets_at 0 12 d) (number 12 1 d) (number 16 2 d) (number 18 2 d) (octets_at 20 16 d))
      else if opcode = 2
      then Some (Rfc_peer (octets_at 0 12 d) (number 12 1 d) (number 16 2 d) (number 18 2 d) (octets_at 20 16 d)
                   (number 36 2 d) (octets_at 40 16 d))
      else if opcode = 3 then Some (Rfc_authentication result (number 0 4 d) (number 4 4 d))
      else None)"

definition rfc_request :: "byte list \<Rightarrow> rfc_pcp_request option" where
  "rfc_request m =
     (if length m < 24 \<or> 1100 < length m \<or> length m mod 4 \<noteq> 0 \<or> bit (m ! 1) 7 then None
      else let opcode = unat (m ! 1); d = drop 24 m in
        case rfc_data opcode (unat (m ! 3)) d of
          None \<Rightarrow> None
        | Some x \<Rightarrow>
            map_option (\<lambda>opts. \<lparr>rq_version = unat (m ! 0), rq_lifetime = number 4 4 m,
                                rq_client = octets_at 8 16 m, rq_data = x, rq_options = opts\<rparr>)
              (rfc_options (drop (rfc_data_length opcode) d)))"

text \<open>What a record asks for: IPv4 addresses are sent as IPv4-mapped IPv6 addresses.\<close>

definition v4_mapped :: "inet_addr \<Rightarrow> byte list" where
  "v4_mapped a = replicate 10 0 @ [0xFF, 0xFF] @ be_octets 4 (unat (addr_ip a))"

definition nonce_octets :: "u64 \<Rightarrow> byte list" where
  "nonce_octets v = be_octets 12 (unat v)"

fun option_octets :: "pcp_option_data \<Rightarrow> byte list" where
  "option_octets (Third_party a) = v4_mapped (the a)"
| "option_octets (Port_filter reserved prefix_length remote_peer_port a) =
     [reserved, prefix_length] @ be_octets 2 (unat remote_peer_port) @ v4_mapped (the a)"
| "option_octets (Option_nonce v) = be_octets 4 (unat v)"
| "option_octets (Authentication_tag session_id sequence_number key_id data) =
     be_octets 4 (unat session_id) @ be_octets 4 (unat sequence_number) @ be_octets 4 (unat key_id)
     @ the data"
| "option_octets (PA_authentication_tag key_id data) = be_octets 4 (unat key_id) @ the data"
| "option_octets (EAP_payload data) = the data"
| "option_octets (Pseudo_random_function v) = be_octets 4 (unat v)"
| "option_octets (MAC_algorithm v) = be_octets 4 (unat v)"
| "option_octets (Session_lifetime v) = be_octets 4 (unat v)"
| "option_octets (Received_PAK v) = be_octets 4 (unat v)"
| "option_octets (Id_indicator data) = the data"
| "option_octets No_option_data = []"

fun data_code :: "pcp_option_data \<Rightarrow> pcp_enum" where
  "data_code (Third_party a) = 1"
| "data_code (Port_filter reserved prefix_length remote_peer_port a) = 3"
| "data_code (Option_nonce v) = 4"
| "data_code (Authentication_tag session_id sequence_number key_id data) = 5"
| "data_code (PA_authentication_tag key_id data) = 6"
| "data_code (EAP_payload data) = 7"
| "data_code (Pseudo_random_function v) = 8"
| "data_code (MAC_algorithm v) = 9"
| "data_code (Session_lifetime v) = 10"
| "data_code (Received_PAK v) = 11"
| "data_code (Id_indicator data) = 12"
| "data_code No_option_data = 2"

fun data_present :: "pcp_option_data \<Rightarrow> bool" where
  "data_present (Third_party a) \<longleftrightarrow> a \<noteq> None"
| "data_present (Port_filter reserved prefix_length remote_peer_port a) \<longleftrightarrow> a \<noteq> None"
| "data_present (Authentication_tag session_id sequence_number key_id data) \<longleftrightarrow> data \<noteq> None"
| "data_present (PA_authentication_tag key_id data) \<longleftrightarrow> data \<noteq> None"
| "data_present (EAP_payload data) \<longleftrightarrow> data \<noteq> None"
| "data_present (Id_indicator data) \<longleftrightarrow> data \<noteq> None"
| "data_present _ \<longleftrightarrow> True"

text \<open>An option whose code and length belong to its data.\<close>

definition option_ok :: "PCPOption \<Rightarrow> bool" where
  "option_ok opt \<longleftrightarrow> opt_code opt = data_code (opt_data opt) \<and> data_present (opt_data opt)
     \<and> unat (opt_length opt) = length (option_octets (opt_data opt))"

fun opcode_of :: "pcp_opcode_data \<Rightarrow> byte" where
  "opcode_of (Map_data d) = PCP_OPCODE_MAP"
| "opcode_of (Peer_data d) = PCP_OPCODE_PEER"
| "opcode_of (Authentication_data session_id sequence_number) = PCP_OPCODE_AUTHENTICATION"
| "opcode_of No_opcode_data = PCP_OPCODE_ANNOUNCE"

fun addresses_present :: "pcp_opcode_data \<Rightarrow> bool" where
  "addresses_present (Map_data d) \<longleftrightarrow> map_external_address d \<noteq> None"
| "addresses_present (Peer_data d) \<longleftrightarrow> peer_external_address d \<noteq> None \<and> peer_remote_address d \<noteq> None"
| "addresses_present _ \<longleftrightarrow> True"

definition pcp_record_ok :: "PCP_Record \<Rightarrow> bool" where
  "pcp_record_ok r \<longleftrightarrow> pcp_version r < 256 \<and> pcp_opcode r = opcode_of (pcp_data r)
     \<and> (pcp_opcode r = PCP_OPCODE_AUTHENTICATION \<longrightarrow> pcp_result_code r < 256)
     \<and> addresses_present (pcp_data r) \<and> list_all option_ok (pcp_options r)"

fun meaning :: "nat \<Rightarrow> pcp_opcode_data \<Rightarrow> rfc_opcode_data" where
  "meaning result (Map_data d) =
     Rfc_map (nonce_octets (map_nonce d)) (unat (map_protocol d)) (unat (map_internal_port d))
       (unat (map_external_port d)) (v4_mapped (the (map_external_address d)))"
| "meaning result (Peer_data d) =
     Rfc_peer (nonce_octets (peer_nonce d)) (unat (peer_protocol d)) (unat (peer_internal_port d))
       (unat (peer_external_port d)) (v4_mapped (the (peer_external_address d)))
       (unat (peer_remote_port d)) (v4_mapped (the (peer_remote_address d)))"
| "meaning result (Authentication_data session_id sequence_number) =
     Rfc_authentication result (unat session_id) (unat sequence_number)"
| "meaning result No_opcode_data = Rfc_announce"

definition request_of :: "PCP_Record \<Rightarrow> rfc_pcp_request" where
  "request_of r =
     \<lparr>rq_version = unat (pcp_version r), rq_lifetime = unat (pcp_lifetime r),
      rq_client = v4_mapped (pcp_client_address r),
      rq_data = meaning (unat (pcp_result_code r)) (pcp_data r),
      rq_options = map (\<lambda>opt. (unat (opt_code opt), option_octets (opt_data opt))) (pcp_options r)\<rparr>"


section \<open>Streamed requests decode\<close>

text \<open>A part that appends the given octets wherever there is room for them.\<close>

definition writes :: "part \<Rightarrow> byte list \<Rightarrow> bool" where
  "writes p bs \<longleftrightarrow> (\<forall>space. length bs \<le> space \<longrightarrow> p space = Inr (Some bs))"

lemma writes_unique:
  assumes "writes p bs" "writes p cs"
  shows "bs = cs"
proof -
  let ?space = "length bs + length cs"
  have "p ?space = Inr (Some bs)" "p ?space = Inr (Some cs)"
    using assms unfolding writes_def by (blast intro: le_add1 le_add2)+
  then show ?thesis
    by simp
qed

inductive writes_all :: "part list \<Rightarrow> byte list \<Rightarrow> bool" where
  writes_Nil: "writes_all [] []"
| writes_Cons: "writes p bs \<Longrightarrow> writes_all ps cs \<Longrightarrow> writes_all (p # ps) (bs @ cs)"

declare writes_all.intros [intro]

inductive_simps writes_all_simps [simp]: "writes_all [] bs" "writes_all (p # ps) bs"

lemma writes_all_append [intro]: "writes_all ps bs \<Longrightarrow> writes_all qs cs \<Longrightarrow> writes_all (ps @ qs) (bs @ cs)"
  by (induction rule: writes_all.induct) (auto simp del: writes_all_simps simp: append.assoc)

lemma writes_all_concat:
  "(\<And>x. x \<in> set xs \<Longrightarrow> writes_all (f x) (g x)) \<Longrightarrow> writes_all (concat (map f xs)) (concat (map g xs))"
  by (induction xs) auto

lemma copy_all_writes:
  "writes_all ps bs \<Longrightarrow> length bs \<le> space \<Longrightarrow> copy_all ps space out = Inr (out @ bs, True)"
  by (induction arbitrary: space out rule: writes_all.induct) (auto simp: writes_def)

lemma writes_copy_bytes [simp]: "writes (copy_bytes bs) cs \<longleftrightarrow> cs = bs"
  using writes_unique [of "copy_bytes bs" bs cs] by (auto simp: writes_def copy_bytes_def)

lemma writes_copy_data [simp]:
  "n \<le> length bs \<Longrightarrow> writes (copy_data (Some bs) n) cs \<longleftrightarrow> cs = take n bs"
  using writes_unique [of "copy_data (Some bs) n" "take n bs" cs] by (auto simp: writes_def copy_data_def)

lemma writes_copy_address [simp]:
  "machine_ok lib \<Longrightarrow> writes (copy_address lib (Some a)) cs \<longleftrightarrow> cs = v4_mapped a"
  using writes_unique [of "copy_address lib (Some a)" "v4_mapped a" cs]
  by (auto simp: writes_def copy_address_def copy_bytes_def mapAddress_def v4_mapped_def network_octets)

lemma mapAddress_mapped: "machine_ok lib \<Longrightarrow> mapAddress lib a = v4_mapped a"
  by (simp add: mapAddress_def v4_mapped_def network_octets)

lemma length_v4_mapped [simp]: "length (v4_mapped a) = 16"
  by (simp add: v4_mapped_def)

lemma last_be_octet: "take 1 (rev (be_octets (Suc k) n)) = [word_of_nat n]"
  by simp

text \<open>
  What the machine sends of a value it copies the first octet of: the value where the least significant
  octet comes first, and zero on a big endian machine if the value is less than 256.
\<close>

definition sent_value :: "pcp_library \<Rightarrow> u32 \<Rightarrow> u32" where
  "sent_value lib v = (if lsb_first lib then v else 0)"

definition sent_option :: "pcp_library \<Rightarrow> PCPOption \<Rightarrow> PCPOption" where
  "sent_option lib opt = opt\<lparr>opt_code := sent_value lib (opt_code opt)\<rparr>"

definition sent_record :: "pcp_library \<Rightarrow> PCP_Record \<Rightarrow> PCP_Record" where
  "sent_record lib r =
     r\<lparr>pcp_version := sent_value lib (pcp_version r), pcp_result_code := sent_value lib (pcp_result_code r),
       pcp_options := map (sent_option lib) (pcp_options r)\<rparr>"

lemma sent_option_simps [simp]:
  "opt_data (sent_option lib opt) = opt_data opt" "opt_length (sent_option lib opt) = opt_length opt"
  "opt_reserved (sent_option lib opt) = opt_reserved opt"
  "opt_code (sent_option lib opt) = sent_value lib (opt_code opt)"
  by (simp_all add: sent_option_def)

lemma sent_record_little: "lsb_first lib \<Longrightarrow> sent_record lib r = r"
  by (simp add: sent_record_def sent_value_def sent_option_def map_idI)

lemma first_octet_sent:
  assumes "unat v < 256"
  shows "first_octet lib v = [ucast (sent_value lib v)]"
proof (cases "lsb_first lib")
  case True
  then show ?thesis
    using last_be_octet [of 3 "unat v"] by (simp add: first_octet_def native_octets_def sent_value_def)
next
  case False
  then show ?thesis
    using assms by (simp add: first_octet_def native_octets_def sent_value_def be_octets_4)
qed

definition option_wire :: "PCPOption \<Rightarrow> byte list" where
  "option_wire opt =
     [ucast (opt_code opt), opt_reserved opt] @ be_octets 2 (unat (opt_length opt))
     @ option_octets (opt_data opt)"

lemma size_minus_eq: "n \<le> unat len \<Longrightarrow> n < 2 ^ 64 \<Longrightarrow> size_minus len (word_of_nat n) = unat len - n"
proof -
  assume n: "n \<le> unat len" "n < 2 ^ 64"
  then have "unat (word_of_nat n :: u64) = n"
    by (simp add: unat_of_nat)
  moreover have "unat (ucast len :: u64) = unat len"
    by (simp add: unsigned_ucast_eq take_bit_nat_eq_self order.strict_trans2 [OF unsigned_less])
  ultimately show ?thesis
    using n by (simp add: size_minus_def unat_sub word_le_nat_alt)
qed

lemma option_data_writes:
  assumes "machine_ok lib" "option_ok opt"
  shows "writes_all (option_data_parts lib opt) (option_octets (opt_data opt))"
  using assms size_minus_eq [of 12 "opt_length opt"] size_minus_eq [of 4 "opt_length opt"]
  by (cases "opt_data opt") (auto simp: option_data_parts_def option_ok_def network_octets)

lemma unat_data_code [simp]: "unat (data_code u) < 256"
  by (cases u) simp_all

lemma option_writes:
  assumes "machine_ok lib" "option_ok opt"
  shows "writes_all (option_parts lib opt) (option_wire (sent_option lib opt))"
proof -
  have "unat (opt_code opt) < 256"
    using assms(2) by (simp add: option_ok_def)
  then show ?thesis
    using option_data_writes [OF assms] assms(1)
    by (simp add: option_parts_def option_wire_def network_octets first_octet_sent)
qed


fun opcode_wire :: "pcp_library \<Rightarrow> pcp_opcode_data \<Rightarrow> byte list" where
  "opcode_wire lib (Map_data d) =
     nonce_octets (map_nonce d) @ [map_protocol d]
     @ behind_reserved lib (map_internal_port d) (map_external_port d)
     @ be_octets 2 (unat (map_internal_port d)) @ be_octets 2 (unat (map_external_port d))
     @ v4_mapped (the (map_external_address d))"
| "opcode_wire lib (Peer_data d) =
     nonce_octets (peer_nonce d) @ [peer_protocol d]
     @ behind_reserved lib (peer_internal_port d) (peer_external_port d)
     @ be_octets 2 (unat (peer_internal_port d)) @ be_octets 2 (unat (peer_external_port d))
     @ v4_mapped (the (peer_external_address d)) @ be_octets 2 (unat (peer_remote_port d))
     @ native_octets (lsb_first lib) 2 (peer_reserved_2 d)
     @ v4_mapped (the (peer_remote_address d))"
| "opcode_wire lib (Authentication_data session_id sequence_number) =
     be_octets 4 (unat session_id) @ be_octets 4 (unat sequence_number)"
| "opcode_wire lib No_opcode_data = []"

definition header_wire :: "PCP_Record \<Rightarrow> byte list" where
  "header_wire r =
     [ucast (pcp_version r), pcp_opcode r, 0,
      if pcp_opcode r = PCP_OPCODE_AUTHENTICATION then ucast (pcp_result_code r) else 0]
     @ be_octets 4 (unat (pcp_lifetime r)) @ v4_mapped (pcp_client_address r)"

definition request_wire :: "pcp_library \<Rightarrow> PCP_Record \<Rightarrow> byte list" where
  "request_wire lib r =
     header_wire r @ opcode_wire lib (pcp_data r) @ concat (map option_wire (pcp_options r))"

lemma nonce_octets_eq: "nonce_octets v = replicate 4 0 @ be_octets 8 (unat v)"
proof -
  have "unat v < 256 ^ 8"
    using unsigned_less [of v] by simp
  then show ?thesis
    using be_octets_zeros [of "unat v" 8 4] by (simp add: nonce_octets_def)
qed

lemma header_writes:
  assumes "machine_ok lib" "pcp_record_ok r"
  shows "writes_all (header_parts lib r) (header_wire (sent_record lib r))"
  using assms
  by (cases "pcp_data r")
     (simp_all add: header_parts_def header_wire_def first_octet_sent mapAddress_mapped network_octets
        sent_record_def pcp_record_ok_def word_less_nat_alt)

lemma opcode_writes:
  assumes "machine_ok lib" "pcp_opcode r = opcode_of (pcp_data r)" "addresses_present (pcp_data r)"
  shows "writes_all (opcode_parts lib r) (opcode_wire lib (pcp_data r))"
  using assms
  by (cases "pcp_data r")
     (auto simp: opcode_parts_def map_parts_def peer_parts_def authentication_parts_def network_octets
        nonce_octets_eq)

lemma length_request_wire_sent:
  "length (request_wire lib (sent_record lib r)) = length (request_wire lib r)"
  by (simp add: request_wire_def header_wire_def sent_record_def option_wire_def length_concat comp_def)

lemma handleDataMessage_request_wire:
  assumes "machine_ok lib" "pcp_record_ok r"
    and "length (request_wire lib r) \<le> capacity" "1100 \<le> capacity"
  shows "pcp_handleDataMessage lib r [] capacity = Inr (request_wire lib (sent_record lib r), True)"
proof -
  have "writes_all (concat (map (option_parts lib) (pcp_options r)))
          (concat (map (\<lambda>opt. option_wire (sent_option lib opt)) (pcp_options r)))"
    using assms(2) by (intro writes_all_concat option_writes assms) (auto simp: pcp_record_ok_def list_all_iff)
  moreover have "writes_all (opcode_parts lib r) (opcode_wire lib (pcp_data r))"
    using assms(2) by (intro opcode_writes assms) (simp_all add: pcp_record_ok_def)
  moreover have "request_wire lib (sent_record lib r) = header_wire (sent_record lib r)
      @ opcode_wire lib (pcp_data r) @ concat (map (\<lambda>opt. option_wire (sent_option lib opt)) (pcp_options r))"
    by (simp add: request_wire_def sent_record_def comp_def)
  ultimately have "writes_all (header_parts lib r @ opcode_parts lib r
               @ concat (map (option_parts lib) (pcp_options r))) (request_wire lib (sent_record lib r))"
    using header_writes [OF assms(1,2)] by (simp add: writes_all_append)
  then show ?thesis
    using assms(3,4) by (simp add: pcp_handleDataMessage_def copy_all_writes length_request_wire_sent)
qed


lemma length_behind_reserved [simp]: "length (behind_reserved lib i e) = 3"
  by (simp add: behind_reserved_def)

lemma length_nonce_octets [simp]: "length (nonce_octets v) = 12"
  by (simp add: nonce_octets_def)

lemma rfc_data_wire:
  assumes "addresses_present u"
  shows "rfc_data (unat (opcode_of u)) result (opcode_wire lib u @ rest) = Some (meaning result u)"
    and "length (opcode_wire lib u) = rfc_data_length (unat (opcode_of u))"
  by (cases u; simp add: rfc_data_def rfc_data_length_def octets_at_def be_value_octets_word)+

definition option_aligned :: "PCPOption \<Rightarrow> bool" where
  "option_aligned opt \<longleftrightarrow> 4 dvd unat (opt_length opt)"

text \<open>What the decoder needs of a record: octets for its version, result code and codes, and the lengths.\<close>

definition option_fits :: "PCPOption \<Rightarrow> bool" where
  "option_fits opt \<longleftrightarrow> unat (opt_code opt) < 256 \<and> unat (opt_length opt) = length (option_octets (opt_data opt))"

definition record_fits :: "PCP_Record \<Rightarrow> bool" where
  "record_fits r \<longleftrightarrow> unat (pcp_version r) < 256 \<and> pcp_opcode r = opcode_of (pcp_data r)
     \<and> (pcp_opcode r = PCP_OPCODE_AUTHENTICATION \<longrightarrow> unat (pcp_result_code r) < 256)
     \<and> addresses_present (pcp_data r) \<and> list_all option_fits (pcp_options r)
     \<and> list_all option_aligned (pcp_options r)"

lemma sent_record_fits:
  assumes "pcp_record_ok r" "list_all option_aligned (pcp_options r)"
  shows "record_fits (sent_record lib r)"
  using assms
  by (auto simp: record_fits_def pcp_record_ok_def sent_record_def sent_value_def option_fits_def option_ok_def
      option_aligned_def list_all_iff word_less_nat_alt)

lemma padded_aligned: "4 dvd n \<Longrightarrow> padded n = n"
  by (auto simp: padded_def)

lemma unat_ucast_byte: "unat (v :: u32) < 256 \<Longrightarrow> unat (ucast v :: byte) = unat v"
  by (simp add: unsigned_ucast_eq take_bit_nat_eq_self)

lemma rfc_options_wire:
  assumes "list_all option_fits opts" "list_all option_aligned opts"
  shows "rfc_options (concat (map option_wire opts)) =
           Some (map (\<lambda>opt. (unat (opt_code opt), option_octets (opt_data opt))) opts)"
  using assms
proof (induction opts)
  case (Cons opt opts)
  obtain l1 l0 where l: "be_octets 2 (unat (opt_length opt)) = [l1, l0]"
    using length_be_octets [of 2 "unat (opt_length opt)"] by (auto simp: numeral_2_eq_2 length_Suc_conv)
  then have "be_value [l1, l0] = unat (opt_length opt)"
    using be_value_octets_word [of 2 "opt_length opt"] by simp
  with Cons l show ?case
    by (simp add: option_wire_def option_fits_def option_aligned_def padded_aligned unat_ucast_byte)
qed simp

lemma length_option_wire: "length (option_wire opt) = 4 + length (option_octets (opt_data opt))"
  by (simp add: option_wire_def)

lemma option_wire_length:
  assumes "list_all option_fits opts" "list_all option_aligned opts"
  shows "4 dvd length (concat (map option_wire opts))"
  using assms by (induction opts) (auto simp: length_option_wire option_fits_def option_aligned_def intro!: dvd_add)


lemma request_wire_decodes:
  assumes "record_fits r" "length (request_wire lib r) \<le> 1100"
  shows "rfc_request (request_wire lib r) = Some (request_of r)"
proof -
  let ?m = "request_wire lib r" and ?u = "pcp_data r"
  let ?rest = "concat (map option_wire (pcp_options r))"
  have ok: "pcp_opcode r = opcode_of ?u" "addresses_present ?u" "list_all option_fits (pcp_options r)"
    "list_all option_aligned (pcp_options r)" "unat (pcp_version r) < 256"
    "pcp_opcode r = PCP_OPCODE_AUTHENTICATION \<Longrightarrow> unat (pcp_result_code r) < 256"
    using assms(1) by (simp_all add: record_fits_def)
  have m: "?m = header_wire r @ opcode_wire lib ?u @ ?rest"
    by (simp add: request_wire_def)
  have header: "length (header_wire r) = 24" "\<not> length ?m < 24" "drop 24 ?m = opcode_wire lib ?u @ ?rest"
    by (simp_all add: request_wire_def header_wire_def)
  have fields: "?m ! 0 = ucast (pcp_version r)" "?m ! Suc 0 = pcp_opcode r"
    "number 4 4 ?m = unat (pcp_lifetime r)" "octets_at 8 16 ?m = v4_mapped (pcp_client_address r)"
    by (simp_all add: request_wire_def header_wire_def octets_at_def be_value_octets_word)
  have "4 dvd rfc_data_length (unat (opcode_of ?u))"
    by (simp add: rfc_data_length_def)
  then have "length ?m mod 4 = 0"
    using option_wire_length [OF ok(3,4)] header(1) rfc_data_wire(2) [OF ok(2)]
    by (auto simp: m mod_eq_0_iff_dvd intro!: dvd_add)
  moreover have "\<not> bit (opcode_of ?u) 7"
    by (cases ?u) simp_all
  moreover have "meaning (unat (?m ! 3)) ?u = meaning (unat (pcp_result_code r)) ?u"
    using ok(1,6)
    by (cases ?u) (auto simp: request_wire_def header_wire_def unat_ucast_byte)
  moreover have "unat (ucast (pcp_version r) :: byte) = unat (pcp_version r)"
    using ok(5) by (simp add: unat_ucast_byte)
  ultimately show ?thesis
    using assms(2) ok(1-3) header(1) rfc_options_wire [OF ok(3,4)]
    by (simp add: rfc_request_def request_of_def fields header rfc_data_wire Let_def)
qed

text \<open>C15: A request with the opcode's data and options whose lengths belong to their data and are multiples
  of four, of at most 1100 octets in all as RFC 6887 demands, is written completely into a message with
  room for 1100, and a decoder after RFC 6887 and RFC 7652 reads from the octets the lifetime, the opcode,
  the addresses, ports, nonces and options of the record. The version, the result code and the option
  codes arrive where the least significant octet comes first; a big endian machine sends zeros for them.
\<close>

theorem pcp_request_decodes:
  assumes "machine_ok lib" "pcp_record_ok r" "list_all option_aligned (pcp_options r)"
    and "length (request_wire lib r) \<le> 1100" "1100 \<le> capacity"
  shows "\<exists>octets. pcp_handleDataMessage lib r [] capacity = Inr (octets, True)
           \<and> rfc_request octets = Some (request_of (sent_record lib r))
           \<and> (lsb_first lib \<longrightarrow> sent_record lib r = r)"
  using handleDataMessage_request_wire [OF assms(1,2), of capacity] assms(4,5)
    request_wire_decodes [OF sent_record_fits [OF assms(2,3)], of lib lib]
  by (simp add: length_request_wire_sent sent_record_little)

definition pcp_example_library :: pcp_library where
  "pcp_example_library =
     \<lparr>lsb_first = True, swap_word = swap_octets 2, swap_long = swap_octets 4,
      swap_long_long = swap_octets 8, usable_bytes = (\<lambda>n. Some (n + 8))\<rparr>"

lemma pcp_example_library_ok: "machine_ok pcp_example_library"
  by (simp add: machine_ok_def pcp_example_library_def swaps_octets_swap)

definition pcp_example_request :: PCP_Record where
  "pcp_example_request =
     new_PCP_Record\<lparr>pcp_version := 2, pcp_opcode := 2, pcp_lifetime := 3600,
       pcp_client_address := \<lparr>addr_ip = 0xC0A80107, addr_port = 0\<rparr>,
       pcp_data := Peer_data \<lparr>peer_nonce = 0x1122334455, peer_protocol = 6, peer_reserved = 0,
         peer_internal_port = 6881, peer_external_port = 40000,
         peer_external_address = Some \<lparr>addr_ip = 0xCB007105, addr_port = 40000\<rparr>,
         peer_remote_port = 80, peer_reserved_2 = 0,
         peer_remote_address = Some \<lparr>addr_ip = 0xC6336401, addr_port = 80\<rparr>\<rparr>,
       pcp_options := [\<lparr>opt_code = 2, opt_reserved = 0, opt_length = 0, opt_data = No_option_data\<rparr>,
         \<lparr>opt_code = 7, opt_reserved = 0, opt_length = 4, opt_data = EAP_payload (Some [1, 2, 3, 4])\<rparr>]\<rparr>"

lemma pcp_example_request_ok:
  "pcp_record_ok pcp_example_request" "list_all option_aligned (pcp_options pcp_example_request)"
  "length (request_wire lib pcp_example_request) \<le> 1100"
  by (simp_all add: pcp_example_request_def pcp_record_ok_def option_ok_def option_aligned_def request_wire_def
      header_wire_def option_wire_def)

theorem pcp_request_decodes_witness:
  "\<exists>octets. pcp_handleDataMessage pcp_example_library pcp_example_request [] 1100 = Inr (octets, True)
     \<and> rfc_request octets = Some (request_of pcp_example_request)"
  using pcp_request_decodes [OF pcp_example_library_ok pcp_example_request_ok, of 1100]
  by (simp add: pcp_example_library_def) metis

end
