(* ===== verification/Net_Dump.thy ===== *)
theory Net_Dump
  imports Net_Prelude
begin

text \<open>
  What the functions share that write the text of a code or of a record (\<open>PCP_Tools\<close>, \<open>DHCP_Tools\<close>).
\<close>

definition code_name :: "(u32 \<times> string) list \<Rightarrow> u32 \<Rightarrow> string" where
  "code_name names code = (case map_of names code of Some name \<Rightarrow> name | None \<Rightarrow> ''INVALID/UNKNOWN'')"

abbreviation tab :: string where "tab \<equiv> [CHR 0x09]"
abbreviation line_end :: string where "line_end \<equiv> [CHR 0x0A]"

definition line :: "string \<Rightarrow> string \<Rightarrow> string" where
  "line label value = label @ '': '' @ tab @ value @ line_end"

definition number_text :: "'a::len word \<Rightarrow> string" where
  "number_text v = show_dec (unat v)"

definition octet_text :: "byte \<Rightarrow> string" where
  "octet_text b = [char_at (unat b)]"

fun dump_lines :: "(string \<times> string run) list \<Rightarrow> string run" where
  "dump_lines [] = Inr []"
| "dump_lines ((label, value) # rest) =
     run_bind value (\<lambda>v. run_bind (dump_lines rest) (\<lambda>s. Inr (line label v @ s)))"

end
