(* ===== verification/Pcp_Tools.thy ===== *)
theory Pcp_Tools
  imports Pcp_Wire Net_Dump
begin

text \<open>
  The remaining functions of \<open>PCP_Tools\<close> (\<open>pcp_tools.cpp\<close>): the names of the codes, the text \<open>dump\<close>
  writes of a record, and \<open>clear\<close> and \<open>free\<close>. The text of an address
  (\<open>Net_Common_Tools::IPAddressToString\<close>) is a parameter.
\<close>

section \<open>Names\<close>

definition PCP_VersionToString :: "pcp_enum \<Rightarrow> string" where
  "PCP_VersionToString = code_name [(2, ''VERSION_2'')]"

definition OpcodeToString :: "pcp_enum \<Rightarrow> string" where
  "OpcodeToString = code_name [(0, ''ANNOUNCE''), (1, ''MAP''), (2, ''PEER''), (3, ''AUTHENTICATION'')]"

definition ResultCodeToString :: "pcp_enum \<Rightarrow> string" where
  "ResultCodeToString = code_name
     [(0, ''SUCCESS''), (1, ''UNSUPP_VERSION''), (2, ''NOT_AUTHORIZED''), (3, ''MALFORMED_REQUEST''),
      (4, ''UNSUPP_OPCODE''), (5, ''UNSUPP_OPTION''), (6, ''MALFORMED_OPTION''),
      (7, ''NETWORK_FAILURE''), (8, ''NO_RESOURCES''), (9, ''UNSUPP_PROTOCOL''),
      (10, ''USER_EX_QUOTA''), (11, ''CANNOT_PROVIDE_EXTERNAL''), (12, ''ADDRESS_MISMATCH''),
      (13, ''EXCESSIVE_REMOTE_PEERS''), (14, ''INITIATION''), (15, ''AUTHENTICATION_REQUIRED''),
      (16, ''AUTHENTICATION_FAILED''), (17, ''AUTHENTICATION_SUCCEEDED''),
      (18, ''AUTHORIZATION_FAILED''), (19, ''SESSION_TERMINATED''), (20, ''UNKNOWN_SESSION_ID''),
      (21, ''DOWNGRADE_ATTACK_DETECTED''), (22, ''AUTHENTICATION_REQUEST''),
      (23, ''AUTHENTICATION_REPLY''), (24, ''STANDARDS_ACTION''), (127, ''STANDARDS_ACTION''),
      (128, ''SPECIFICATION_REQUIRED''), (191, ''SPECIFICATION_REQUIRED''), (192, ''PRIVATE_USE''),
      (254, ''PRIVATE_USE''), (255, ''STANDARDS_ACTION_RESERVED'')]"

definition OptionToString :: "pcp_enum \<Rightarrow> string" where
  "OptionToString = code_name
     [(1, ''THIRD_PARTY''), (2, ''PREFER_FAILURE''), (3, ''FILTER''), (4, ''NONCE''),
      (5, ''AUTHENTICATION_TAG''), (6, ''PA_AUTHENTICATION_TAG''), (7, ''EAP_PAYLOAD''),
      (8, ''PSEUDO_RANDOM_FUNCTION''), (9, ''MAC_ALGORITHM''), (10, ''SESSION_LIFETIME''),
      (11, ''RECEIVED_PAK''), (12, ''ID_INDICATOR'')]"

section \<open>The text of a record\<close>

definition address_text :: "(inet_addr \<Rightarrow> string) \<Rightarrow> inet_addr option \<Rightarrow> string run" where
  "address_text ip_text address =
     (case address of None \<Rightarrow> Inl Null_dereference | Some a \<Rightarrow> Inr (ip_text a))"

text \<open>The loop that appends \<open>length - n\<close> octets of an option's data, an \<open>unsigned int\<close>.\<close>

definition data_text :: "byte list option \<Rightarrow> u16 \<Rightarrow> u32 \<Rightarrow> string run" where
  "data_text data len n =
     (let count = unat (ucast len - n) in
      case data of
        None \<Rightarrow> (if count = 0 then Inr [] else Inl Null_dereference)
      | Some bs \<Rightarrow> (if count \<le> length bs then Inr (concat (map octet_text (take count bs)))
                    else Inl Out_of_bounds))"

definition dump_opcode :: "(inet_addr \<Rightarrow> string) \<Rightarrow> byte \<Rightarrow> pcp_opcode_data \<Rightarrow> string option run" where
  "dump_opcode ip_text opcode u =
     (if opcode = PCP_OPCODE_ANNOUNCE then Inr (Some [])
      else if opcode = PCP_OPCODE_MAP then
        run_bind (read_map u) (\<lambda>d. run_bind (dump_lines
          [(''nonce'', Inr (number_text (map_nonce d))), (''protocol'', Inr (number_text (map_protocol d))),
           (''reserved'', Inr (number_text (map_reserved d))),
           (''internal port'', Inr (number_text (map_internal_port d))),
           (''external port'', Inr (number_text (map_external_port d))),
           (''external address'', address_text ip_text (map_external_address d))]) (\<lambda>s. Inr (Some s)))
      else if opcode = PCP_OPCODE_PEER then
        run_bind (read_peer u) (\<lambda>d. run_bind (dump_lines
          [(''nonce'', Inr (number_text (peer_nonce d))), (''protocol'', Inr (number_text (peer_protocol d))),
           (''reserved'', Inr (number_text (peer_reserved d))),
           (''internal port'', Inr (number_text (peer_internal_port d))),
           (''external port'', Inr (number_text (peer_external_port d))),
           (''external address'', address_text ip_text (peer_external_address d)),
           (''remote peer port'', Inr (number_text (peer_remote_port d))),
           (''remote peer address'', address_text ip_text (peer_remote_address d))]) (\<lambda>s. Inr (Some s)))
      else if opcode = PCP_OPCODE_AUTHENTICATION then
        (case u of Authentication_data session_id sequence_number \<Rightarrow>
           run_bind (dump_lines [(''session id'', Inr (number_text session_id)),
             (''sequence number'', Inr (number_text sequence_number))]) (\<lambda>s. Inr (Some s))
         | _ \<Rightarrow> Inl Out_of_bounds)
      else Inr None)"

definition dump_option_data :: "(inet_addr \<Rightarrow> string) \<Rightarrow> PCPOption \<Rightarrow> string run" where
  "dump_option_data ip_text opt =
     (let code = opt_code opt; len = opt_length opt;
          quoted = (\<lambda>s. [CHR 0x22] @ s @ [CHR 0x22]); first = (\<lambda>s. '' '' @ tab @ s) in
      if code \<in> {1, 3, 4, 5, 6, 7, 8, 9, 10, 11, 12} \<and> code \<noteq> data_code (opt_data opt)
      then Inl Out_of_bounds
      else if code \<notin> {1, 3, 4, 5, 6, 7, 8, 9, 10, 11, 12} then Inr []
      else case opt_data opt of
        Third_party a \<Rightarrow> run_bind (address_text ip_text a) (\<lambda>s. Inr (first s))
      | Port_filter reserved prefix_length remote_peer_port a \<Rightarrow>
          run_bind (address_text ip_text a) (\<lambda>s.
            Inr (first (octet_text reserved) @ tab @ octet_text prefix_length @ tab
                 @ number_text remote_peer_port @ tab @ s))
      | Option_nonce v \<Rightarrow> Inr (first (number_text v))
      | Authentication_tag session_id sequence_number key_id data \<Rightarrow>
          run_bind (data_text data len 12) (\<lambda>s.
            Inr (first (number_text session_id) @ tab @ number_text sequence_number @ tab
                 @ number_text key_id @ tab @ quoted s))
      | PA_authentication_tag key_id data \<Rightarrow>
          run_bind (data_text data len 4) (\<lambda>s. Inr (first (number_text key_id) @ tab @ quoted s))
      | EAP_payload data \<Rightarrow> run_bind (data_text data len 0) (\<lambda>s. Inr (first (quoted s)))
      | Pseudo_random_function v \<Rightarrow> Inr (first (number_text v))
      | MAC_algorithm v \<Rightarrow> Inr (first (number_text v))
      | Session_lifetime v \<Rightarrow> Inr (first (number_text v))
      | Received_PAK v \<Rightarrow> Inr (first (number_text v))
      | Id_indicator data \<Rightarrow> run_bind (data_text data len 0) (\<lambda>s. Inr (first (quoted s)))
      | No_option_data \<Rightarrow> Inr [])"

definition dump_option :: "(inet_addr \<Rightarrow> string) \<Rightarrow> PCPOption \<Rightarrow> string run" where
  "dump_option ip_text opt =
     run_bind (dump_option_data ip_text opt) (\<lambda>s.
       Inr (OptionToString (opt_code opt) @ '': '' @ tab @ number_text (opt_reserved opt) @ tab
            @ number_text (opt_length opt) @ s @ line_end))"

fun run_map :: "('a \<Rightarrow> 'b run) \<Rightarrow> 'a list \<Rightarrow> 'b list run" where
  "run_map f [] = Inr []"
| "run_map f (x # xs) = run_bind (f x) (\<lambda>y. run_bind (run_map f xs) (\<lambda>ys. Inr (y # ys)))"

definition pcp_dump :: "(inet_addr \<Rightarrow> string) \<Rightarrow> PCP_Record \<Rightarrow> string run" where
  "pcp_dump ip_text r =
     (let header = line ''version'' (PCP_VersionToString (pcp_version r))
        @ line ''opcode'' (OpcodeToString (ucast (pcp_opcode r AND 0x7F)))
        @ line ''reserved'' (number_text (pcp_reserved r))
        @ line ''result code'' (ResultCodeToString (pcp_result_code r))
        @ line ''lifetime'' (number_text (pcp_lifetime r))
        @ line ''epoch time'' (number_text (pcp_epoch_time r))
        @ line ''reserved_2'' (number_text (pcp_reserved_2 r)) in
      run_bind (dump_opcode ip_text (pcp_opcode r) (pcp_data r)) (\<lambda>res. case res of
        None \<Rightarrow> Inr []
      | Some data \<Rightarrow>
          run_bind (run_map (dump_option ip_text) (pcp_options r)) (\<lambda>opts.
            Inr (header @ data @ ''options ('' @ show_dec (length (pcp_options r)) @ ''):'' @ line_end
                 @ concat opts @ ''options /END'' @ line_end))))"

text \<open>A record whose references are set is dumped without a fault.\<close>

lemma unat_ucast_minus:
  "n \<le> unat (len :: u16) \<Longrightarrow> n < 2 ^ 32 \<Longrightarrow> unat (ucast len - word_of_nat n :: u32) = unat len - n"
proof -
  assume n: "n \<le> unat len" "n < 2 ^ 32"
  then have "unat (word_of_nat n :: u32) = n"
    by (simp add: unat_of_nat)
  moreover have "unat (ucast len :: u32) = unat len"
    by (simp add: unsigned_ucast_eq take_bit_nat_eq_self order.strict_trans2 [OF unsigned_less])
  ultimately show ?thesis
    using n by (simp add: unat_sub word_le_nat_alt)
qed

lemma dump_option_ok:
  "option_ok opt \<Longrightarrow> \<exists>s. dump_option ip_text opt = Inr s"
  using unat_ucast_minus [of 12 "opt_length opt"] unat_ucast_minus [of 4 "opt_length opt"]
    unat_ucast_minus [of 0 "opt_length opt"]
  by (cases "opt_data opt")
     (auto simp: option_ok_def dump_option_def dump_option_data_def data_text_def address_text_def Let_def)

lemma dump_options_ok: "list_all option_ok opts \<Longrightarrow> \<exists>ss. run_map (dump_option ip_text) opts = Inr ss"
proof (induction opts)
  case (Cons opt opts)
  then show ?case
    using dump_option_ok [of opt ip_text] by auto
qed simp

lemma dump_opcode_ok:
  "addresses_present u \<Longrightarrow> \<exists>s. dump_opcode ip_text (opcode_of u) u = Inr (Some s)"
  by (cases u) (auto simp: dump_opcode_def address_text_def)

section \<open>Releasing a record\<close>

text \<open>
  The dynamic data a record refers to: addresses, and the data of the options of variable length.
  \<open>clear\<close> forgets the references of the union and the options, \<open>free\<close> deletes what they refer to first.
\<close>

datatype dynamic = Address inet_addr | Octets "byte list"

definition clear_opcode_data :: "byte \<Rightarrow> pcp_opcode_data \<Rightarrow> pcp_opcode_data run" where
  "clear_opcode_data opcode u =
     (if opcode = PCP_OPCODE_MAP
      then run_bind (read_map u) (\<lambda>d. Inr (Map_data (d\<lparr>map_external_address := None\<rparr>)))
      else if opcode = PCP_OPCODE_PEER
      then run_bind (read_peer u) (\<lambda>d. Inr (Peer_data (d\<lparr>peer_external_address := None, peer_remote_address := None\<rparr>)))
      else Inr u)"

definition clear_option :: "PCPOption \<Rightarrow> PCPOption run" where
  "clear_option opt =
     (let code = opt_code opt; set_data = (\<lambda>u. Inr (opt\<lparr>opt_data := u\<rparr>)) in
      if code \<notin> {1, 3, 5, 6, 7, 12} then Inr opt
      else case opt_data opt of
        Third_party a \<Rightarrow> (if code = 1 then set_data (Third_party None) else Inl Out_of_bounds)
      | Port_filter r p q a \<Rightarrow> (if code = 3 then set_data (Port_filter r p q None) else Inl Out_of_bounds)
      | Authentication_tag i n k d \<Rightarrow>
          (if code = 5 then set_data (Authentication_tag i n k None) else Inl Out_of_bounds)
      | PA_authentication_tag k d \<Rightarrow>
          (if code = 6 then set_data (PA_authentication_tag k None) else Inl Out_of_bounds)
      | EAP_payload d \<Rightarrow> (if code = 7 then set_data (EAP_payload None) else Inl Out_of_bounds)
      | Id_indicator d \<Rightarrow> (if code = 12 then set_data (Id_indicator None) else Inl Out_of_bounds)
      | _ \<Rightarrow> Inl Out_of_bounds)"

definition pcp_clear :: "PCP_Record \<Rightarrow> PCP_Record run" where
  "pcp_clear r =
     run_bind (clear_opcode_data (pcp_opcode r) (pcp_data r)) (\<lambda>u.
     run_bind (run_map clear_option (pcp_options r)) (\<lambda>opts.
       Inr (r\<lparr>pcp_data := u, pcp_options := opts\<rparr>)))"

text \<open>What \<open>delete\<close> releases through a reference; a null pointer releases nothing.\<close>

definition deleted :: "('a \<Rightarrow> dynamic) \<Rightarrow> 'a option \<Rightarrow> dynamic list" where
  "deleted f ref = (case ref of None \<Rightarrow> [] | Some x \<Rightarrow> [f x])"

fun opcode_dynamic :: "pcp_opcode_data \<Rightarrow> dynamic list" where
  "opcode_dynamic (Map_data d) = deleted Address (map_external_address d)"
| "opcode_dynamic (Peer_data d) =
     deleted Address (peer_external_address d) @ deleted Address (peer_remote_address d)"
| "opcode_dynamic _ = []"

fun option_dynamic :: "pcp_option_data \<Rightarrow> dynamic list" where
  "option_dynamic (Third_party a) = deleted Address a"
| "option_dynamic (Port_filter r p q a) = deleted Address a"
| "option_dynamic (Authentication_tag i n k d) = deleted Octets d"
| "option_dynamic (PA_authentication_tag k d) = deleted Octets d"
| "option_dynamic (EAP_payload d) = deleted Octets d"
| "option_dynamic (Id_indicator d) = deleted Octets d"
| "option_dynamic _ = []"

definition record_dynamic :: "PCP_Record \<Rightarrow> dynamic list" where
  "record_dynamic r =
     opcode_dynamic (pcp_data r) @ concat (map (option_dynamic \<circ> opt_data) (pcp_options r))"

definition free_opcode_data :: "byte \<Rightarrow> pcp_opcode_data \<Rightarrow> (dynamic list \<times> pcp_opcode_data) run" where
  "free_opcode_data opcode u =
     run_bind (clear_opcode_data opcode u) (\<lambda>v.
       Inr (if opcode \<in> {PCP_OPCODE_MAP, PCP_OPCODE_PEER} then opcode_dynamic u else [], v))"

definition free_option :: "PCPOption \<Rightarrow> (dynamic list \<times> PCPOption) run" where
  "free_option opt =
     run_bind (clear_option opt) (\<lambda>opt'.
       Inr (if opt_code opt \<in> {1, 3, 5, 6, 7, 12} then option_dynamic (opt_data opt) else [], opt'))"

definition pcp_free :: "PCP_Record \<Rightarrow> (dynamic list \<times> PCP_Record) run" where
  "pcp_free r =
     run_bind (free_opcode_data (pcp_opcode r) (pcp_data r)) (\<lambda>(ds, u).
     run_bind (run_map free_option (pcp_options r)) (\<lambda>opts.
       Inr (ds @ concat (map fst opts), r\<lparr>pcp_data := u, pcp_options := map snd opts\<rparr>)))"

text \<open>
  Every record whose union members belong to its codes is released completely: each piece of dynamic
  data is deleted once, and no reference to it remains.
\<close>

definition members_ok :: "PCP_Record \<Rightarrow> bool" where
  "members_ok r \<longleftrightarrow> pcp_opcode r = opcode_of (pcp_data r)
     \<and> list_all (\<lambda>opt. opt_code opt = data_code (opt_data opt)) (pcp_options r)"

lemma free_option_ok:
  assumes "opt_code opt = data_code (opt_data opt)"
  obtains opt' where "free_option opt = Inr (option_dynamic (opt_data opt), opt')"
    "option_dynamic (opt_data opt') = []" "opt_code opt' = data_code (opt_data opt')"
  using assms that
  by (cases "opt_data opt") (simp_all add: free_option_def clear_option_def deleted_def Let_def)

lemma run_map_free_option:
  "list_all (\<lambda>opt. opt_code opt = data_code (opt_data opt)) opts \<Longrightarrow>
     \<exists>res. run_map free_option opts = Inr res
       \<and> concat (map fst res) = concat (map (option_dynamic \<circ> opt_data) opts)
       \<and> concat (map (option_dynamic \<circ> opt_data) (map snd res)) = []"
proof (induction opts)
  case (Cons opt opts)
  then obtain opt' where "free_option opt = Inr (option_dynamic (opt_data opt), opt')"
    "option_dynamic (opt_data opt') = []"
    by (auto elim: free_option_ok)
  with Cons show ?case
    by auto
qed simp

lemma pcp_free_complete:
  assumes "members_ok r"
  shows "\<exists>r'. pcp_free r = Inr (record_dynamic r, r') \<and> record_dynamic r' = []"
proof -
  obtain res where res: "run_map free_option (pcp_options r) = Inr res"
    "concat (map fst res) = concat (map (option_dynamic \<circ> opt_data) (pcp_options r))"
    "concat (map (option_dynamic \<circ> opt_data) (map snd res)) = []"
    using assms run_map_free_option [of "pcp_options r"] by (auto simp: members_ok_def)
  have "\<exists>u. free_opcode_data (pcp_opcode r) (pcp_data r) = Inr (opcode_dynamic (pcp_data r), u)
          \<and> opcode_dynamic u = []"
    using assms
    by (cases "pcp_data r")
       (simp_all add: members_ok_def free_opcode_data_def clear_opcode_data_def deleted_def)
  with res show ?thesis
    by (auto simp: pcp_free_def record_dynamic_def)
qed

end
