(* ===== verification/Pcp_Session.thy ===== *)
theory Pcp_Session
  imports Pcp_Tools
begin

text \<open>
  The requests \<open>PCP_Session_T\<close> sends (\<open>pcp_session.inl\<close>), and its \<open>notify\<close>, which releases
  a received record with \<open>PCP_Tools::free\<close> (theory \<open>Pcp_Tools\<close>). A request hands a record to the connection, whose stream writes
  it (theory \<open>Pcp_Wire\<close>). Parameters (\<open>pcp_environment\<close>): whether the message allocator provides a
  message, the address of the interface, the random number, the time, and the indeterminate values of
  members no statement initializes.
\<close>

record PCP_SessionState =
  session_connected :: bool
  session_nonce :: u64
  session_timeStamp :: nat

record pcp_environment =
  message_allocated :: bool
  interface_address :: "inet_addr option"
  rand_r :: u32
  time_now :: nat
  stale_reserved :: u32
  stale_reserved_2 :: u16
  stale_session_id :: u32
  stale_sequence_number :: u32

definition new_PCP_SessionState :: PCP_SessionState where
  "new_PCP_SessionState = \<lparr>session_connected = False, session_nonce = 0, session_timeStamp = 0\<rparr>"

definition pcp_initialize :: "bool \<Rightarrow> PCP_SessionState \<Rightarrow> PCP_SessionState run" where
  "pcp_initialize connection_in s =
     run_bind (ace_assert connection_in) (\<lambda>_. Inr (s\<lparr>session_connected := True\<rparr>))"

definition generateNonce :: "pcp_environment \<Rightarrow> u64" where
  "generateNonce env = ucast (rand_r env)"

text \<open>
  The common beginning of the four requests: the checks, the message, the version, the opcode, the
  lifetime and the address of the client; without a message or an address nothing is sent.
\<close>

definition begin_request ::
    "pcp_environment \<Rightarrow> byte \<Rightarrow> u32 \<Rightarrow> PCP_SessionState \<Rightarrow> PCP_Record option run" where
  "begin_request env opcode lifetime s =
     run_bind (ace_assert (session_connected s)) (\<lambda>_.
       if \<not> message_allocated env then Inr None
       else case interface_address env of
         None \<Rightarrow> Inr None
       | Some address \<Rightarrow>
           Inr (Some (new_PCP_Record\<lparr>pcp_version := PCP_VERSION_2, pcp_opcode := opcode,
                  pcp_lifetime := lifetime, pcp_client_address := address\<rparr>)))"

definition announce ::
    "pcp_environment \<Rightarrow> PCP_SessionState \<Rightarrow> (PCP_SessionState \<times> PCP_Record option) run" where
  "announce env s = run_bind (begin_request env PCP_OPCODE_ANNOUNCE 0 s) (\<lambda>r. Inr (s, r))"

definition map_request :: "pcp_environment \<Rightarrow> inet_addr \<Rightarrow> inet_addr \<Rightarrow> PCP_SessionState
    \<Rightarrow> (PCP_SessionState \<times> PCP_Record option) run" where
  "map_request env externalAddress_in internalAddress_in s =
     run_bind (begin_request env PCP_OPCODE_MAP 3600 s) (\<lambda>res. case res of
       None \<Rightarrow> Inr (s, None)
     | Some r \<Rightarrow>
         Inr (s\<lparr>session_nonce := generateNonce env, session_timeStamp := time_now env\<rparr>,
              Some (r\<lparr>pcp_data := Map_data
                \<lparr>map_nonce = generateNonce env, map_protocol = 6, map_reserved = stale_reserved env,
                 map_internal_port = addr_port internalAddress_in,
                 map_external_port = addr_port externalAddress_in,
                 map_external_address = Some externalAddress_in\<rparr>\<rparr>)))"

definition peer_request :: "pcp_environment \<Rightarrow> inet_addr \<Rightarrow> inet_addr \<Rightarrow> inet_addr \<Rightarrow> PCP_SessionState
    \<Rightarrow> (PCP_SessionState \<times> PCP_Record option) run" where
  "peer_request env externalAddress_in internalAddress_in remotePeerAddress_in s =
     run_bind (begin_request env PCP_OPCODE_PEER 3600 s) (\<lambda>res. case res of
       None \<Rightarrow> Inr (s, None)
     | Some r \<Rightarrow>
         Inr (s, Some (r\<lparr>pcp_data := Peer_data
                \<lparr>peer_nonce = generateNonce env, peer_protocol = 6, peer_reserved = stale_reserved env,
                 peer_internal_port = addr_port internalAddress_in,
                 peer_external_port = addr_port externalAddress_in,
                 peer_external_address = Some externalAddress_in,
                 peer_remote_port = addr_port remotePeerAddress_in,
                 peer_reserved_2 = stale_reserved_2 env,
                 peer_remote_address = Some remotePeerAddress_in\<rparr>\<rparr>)))"

definition authenticate ::
    "pcp_environment \<Rightarrow> PCP_SessionState \<Rightarrow> (PCP_SessionState \<times> PCP_Record option) run" where
  "authenticate env s =
     run_bind (begin_request env PCP_OPCODE_AUTHENTICATION 0 s) (\<lambda>res. case res of
       None \<Rightarrow> Inr (s, None)
     | Some r \<Rightarrow>
         Inr (s, Some (r\<lparr>pcp_result_code := PCP_RESULTCODE_INITIATION,
           pcp_data := Authentication_data (stale_session_id env) (stale_sequence_number env),
           pcp_options := [new_PCPOption\<lparr>opt_code := PCP_OPTION_NONCE, opt_length := 4,
                             opt_data := Option_nonce (ucast (generateNonce env))\<rparr>]\<rparr>)))"

definition pcp_notify :: "PCP_Record option \<Rightarrow> dynamic list run" where
  "pcp_notify record_inout =
     run_bind (ace_assert (record_inout \<noteq> None)) (\<lambda>_.
     run_bind (pcp_free (the record_inout)) (\<lambda>(ds, r). Inr ds))"

section \<open>The requests of the session\<close>

datatype pcp_call =
    Announce
  | Map_port inet_addr inet_addr
  | Peer_port inet_addr inet_addr inet_addr
  | Authenticate

fun session_call ::
    "pcp_environment \<Rightarrow> pcp_call \<Rightarrow> PCP_SessionState \<Rightarrow> (PCP_SessionState \<times> PCP_Record option) run" where
  "session_call env Announce s = announce env s"
| "session_call env (Map_port external internal) s = map_request env external internal s"
| "session_call env (Peer_port external internal remote) s = peer_request env external internal remote s"
| "session_call env Authenticate s = authenticate env s"

text \<open>
  What each call asks the server for: the lifetime is one hour, the transport protocol TCP (6), the
  result code of the first authentication message INITIATION (14). Version, result code and option code
  are what the machine sends of them (\<open>sent_value\<close>).
\<close>

fun asked :: "pcp_library \<Rightarrow> pcp_environment \<Rightarrow> pcp_call \<Rightarrow> rfc_opcode_data" where
  "asked lib env Announce = Rfc_announce"
| "asked lib env (Map_port external internal) =
     Rfc_map (be_octets 12 (unat (rand_r env))) 6 (unat (addr_port internal)) (unat (addr_port external)) (v4_mapped external)"
| "asked lib env (Peer_port external internal remote) =
     Rfc_peer (be_octets 12 (unat (rand_r env))) 6 (unat (addr_port internal)) (unat (addr_port external)) (v4_mapped external)
       (unat (addr_port remote)) (v4_mapped remote)"
| "asked lib env Authenticate =
     Rfc_authentication (unat (sent_value lib 14)) (unat (stale_session_id env)) (unat (stale_sequence_number env))"

definition asked_request :: "pcp_library \<Rightarrow> pcp_environment \<Rightarrow> inet_addr \<Rightarrow> pcp_call \<Rightarrow> rfc_pcp_request" where
  "asked_request lib env client c =
     \<lparr>rq_version = unat (sent_value lib 2),
      rq_lifetime = (case c of Map_port _ _ \<Rightarrow> 3600 | Peer_port _ _ _ \<Rightarrow> 3600 | _ \<Rightarrow> 0),
      rq_client = v4_mapped client, rq_data = asked lib env c,
      rq_options = (if c = Authenticate then [(unat (sent_value lib 4), be_octets 4 (unat (rand_r env)))] else [])\<rparr>"

lemma unat_generateNonce: "unat (generateNonce env) = unat (rand_r env)"
  by (simp add: generateNonce_def unsigned_ucast_eq take_bit_nat_eq_self order.strict_trans2 [OF unsigned_less])

lemma generateNonce_u32: "ucast (generateNonce env) = rand_r env"
  by (rule bit_word_eqI) (simp add: generateNonce_def bit_simps)

lemma session_call_record:
  assumes "session_connected s" "message_allocated env" "interface_address env = Some client"
  obtains s' r where "session_call env c s = Inr (s', Some r)" "pcp_record_ok r"
    "list_all option_aligned (pcp_options r)" 
    "length (request_wire lib r) \<le> 80"
    "case c of Map_port external internal \<Rightarrow> unat (session_nonce s') = unat (rand_r env) | _ \<Rightarrow> s' = s"
    "case c of Map_port external internal \<Rightarrow> octets_at 37 3 (request_wire lib (sent_record lib r)) = behind_reserved lib (addr_port internal) (addr_port external)
       | _ \<Rightarrow> True"
    "request_of (sent_record lib r) = asked_request lib env client c"
  using assms that
  by (cases c)
     (simp_all add: announce_def map_request_def peer_request_def authenticate_def begin_request_def
        new_PCP_Record_def new_PCPOption_def pcp_record_ok_def option_ok_def option_aligned_def
        request_of_def asked_request_def nonce_octets_def unat_generateNonce generateNonce_u32
        request_wire_def header_wire_def option_wire_def octets_at_def sent_record_def)

text \<open>C16: Each of the four calls of a connected session sends exactly one message if the allocator provides
  a message and the address of the interface is known, and otherwise none, without changing its state.
  The stream writes the request completely into a message with room for 1100 octets, and a decoder after
  RFC 6887 and RFC 7652 reads from it the opcode, the requested lifetime, the client's address, TCP, the
  ports and addresses of the arguments, and the nonce, which a mapping request leaves in the state of the
  session. The version, the result code and the option code arrive where the least significant octet
  comes first; a big endian machine sends zeros for them.
\<close>

theorem pcp_session_requests_decode:
  assumes "machine_ok lib" "1100 \<le> capacity" "session_connected s"
  shows "case (message_allocated env, interface_address env) of
      (True, Some client) \<Rightarrow>
        (\<exists>s' r octets. session_call env c s = Inr (s', Some r)
           \<and> pcp_handleDataMessage lib r [] capacity = Inr (octets, True)
           \<and> rfc_request octets = Some (asked_request lib env client c)
           \<and> (case c of Map_port external internal \<Rightarrow> unat (session_nonce s') = unat (rand_r env)
              | _ \<Rightarrow> s' = s))
    | _ \<Rightarrow> session_call env c s = Inr (s, None)"
proof (cases "message_allocated env \<and> interface_address env \<noteq> None")
  case True
  then obtain client where client: "message_allocated env" "interface_address env = Some client"
    by blast
  obtain s' r where r: "session_call env c s = Inr (s', Some r)" "pcp_record_ok r"
    "list_all option_aligned (pcp_options r)" "length (request_wire lib r) \<le> 80"
    "case c of Map_port external internal \<Rightarrow> unat (session_nonce s') = unat (rand_r env) | _ \<Rightarrow> s' = s"
    "request_of (sent_record lib r) = asked_request lib env client c"
    using session_call_record [OF assms(3) client, of c lib] by blast
  have "pcp_handleDataMessage lib r [] capacity = Inr (request_wire lib (sent_record lib r), True)"
    using assms(2) r(4) by (intro handleDataMessage_request_wire assms(1) r(2)) simp_all
  moreover have "rfc_request (request_wire lib (sent_record lib r)) = Some (asked_request lib env client c)"
    using request_wire_decodes [OF sent_record_fits [OF r(2,3)], of lib lib] r(4,6)
    by (simp add: length_request_wire_sent)
  ultimately show ?thesis
    using r(1,5) client by auto
next
  case False
  then have "session_call env c s = Inr (s, None)"
    using assms(3)
    by (cases c) (auto simp: announce_def map_request_def peer_request_def authenticate_def begin_request_def
        split: option.splits)
  then show ?thesis
    using False by (cases "message_allocated env") (auto split: option.splits)
qed

definition pcp_example_environment :: pcp_environment where
  "pcp_example_environment =
     \<lparr>message_allocated = True, interface_address = Some \<lparr>addr_ip = 0xC0A80107, addr_port = 0\<rparr>,
      rand_r = 0x12345678, time_now = 10, stale_reserved = 0, stale_reserved_2 = 0,
      stale_session_id = 7, stale_sequence_number = 9\<rparr>"

definition pcp_example_external :: inet_addr where
  "pcp_example_external = \<lparr>addr_ip = 0xCB007105, addr_port = 40000\<rparr>"

definition pcp_example_internal :: inet_addr where
  "pcp_example_internal = \<lparr>addr_ip = 0xC0A80107, addr_port = 6881\<rparr>"

theorem pcp_session_requests_decode_witness:
  "\<exists>s' r octets. session_call pcp_example_environment (Map_port pcp_example_external pcp_example_internal)
       (new_PCP_SessionState\<lparr>session_connected := True\<rparr>) = Inr (s', Some r)
     \<and> pcp_handleDataMessage pcp_example_library r [] 1100 = Inr (octets, True)
     \<and> rfc_request octets =
         Some \<lparr>rq_version = 2, rq_lifetime = 3600,
               rq_client = v4_mapped \<lparr>addr_ip = 0xC0A80107, addr_port = 0\<rparr>,
               rq_data = Rfc_map (be_octets 12 0x12345678) 6 6881 40000 (v4_mapped pcp_example_external),
               rq_options = []\<rparr>"
proof -
  note pcp_session_requests_decode [OF pcp_example_library_ok, of 1100
      "new_PCP_SessionState\<lparr>session_connected := True\<rparr>" pcp_example_environment
      "Map_port pcp_example_external pcp_example_internal"]
  then show ?thesis
    by (simp add: pcp_example_environment_def asked_request_def pcp_example_external_def
        pcp_example_internal_def sent_value_def) (simp add: pcp_example_library_def, blast)
qed

lemma behind_reserved_octets:
  assumes "lsb_first lib"
  shows "behind_reserved lib i e = [ucast i, ucast (drop_bit 8 i), ucast e]"
proof -
  have two: "be_octets 2 (unat v) = [ucast (drop_bit 8 v), ucast v]" for v :: u16
  proof -
    have "unat v div 256 = unat (drop_bit 8 v)"
      by (simp add: drop_bit_eq_div unat_div)
    then show ?thesis
      by (simp add: numeral_2_eq_2)
  qed
  show ?thesis
    using assms by (simp add: behind_reserved_def native_octets_def two numeral_3_eq_3)
qed

lemma word_halves_zero: "ucast (v :: u16) = (0 :: byte) \<Longrightarrow> ucast (drop_bit 8 v) = (0 :: byte) \<Longrightarrow> v = 0"
proof (rule bit_word_eqI)
  fix n assume *: "ucast v = (0 :: byte)" "ucast (drop_bit 8 v) = (0 :: byte)" "n < LENGTH(16)"
  have "\<not> bit (ucast v :: byte) n" "\<not> bit (ucast (drop_bit 8 v) :: byte) (n - 8)"
    using * by simp_all
  with *(3) show "bit v n = bit (0 :: u16) n"
    by (cases "n < 8") (auto simp: bit_simps)
qed

text \<open>The 24 reserved bits of a mapping request, which RFC 6887 requires to be zero, carry the internal
  port in the byte order of the machine and the low octet of the external port: the streamer copies them
  from behind the member \<open>reserved\<close> instead of from its last three octets.
\<close>

lemma pcp_reserved_bits_carry_ports:
  assumes "machine_ok lib" "lsb_first lib" "1100 \<le> capacity"
    and "session_connected s" "message_allocated env" "interface_address env \<noteq> None"
    and "addr_port internal \<noteq> 0"
  shows "\<exists>s' r octets. session_call env (Map_port external internal) s = Inr (s', Some r)
           \<and> pcp_handleDataMessage lib r [] capacity = Inr (octets, True)
           \<and> octets_at 37 3 octets = [ucast (addr_port internal), ucast (drop_bit 8 (addr_port internal)),
                                   ucast (addr_port external)]
           \<and> octets_at 37 3 octets \<noteq> [0, 0, 0]"
proof -
  obtain client where "interface_address env = Some client"
    using assms(6) by blast
  then obtain s' r where r: "session_call env (Map_port external internal) s = Inr (s', Some r)"
    "pcp_record_ok r" "length (request_wire lib r) \<le> 80"
    "octets_at 37 3 (request_wire lib (sent_record lib r)) = behind_reserved lib (addr_port internal) (addr_port external)"
    using session_call_record [OF assms(4,5), of client "Map_port external internal" lib]
    unfolding pcp_call.case by blast
  moreover have "behind_reserved lib (addr_port internal) (addr_port external) \<noteq> [0, 0, 0]"
    using assms(2,7) word_halves_zero by (auto simp: behind_reserved_octets)
  ultimately show ?thesis
    using handleDataMessage_request_wire [OF assms(1) r(2) _ assms(3)] assms(2,3)
    by (simp add: behind_reserved_octets)
qed

end
