(* ===== verification/Pcp_Parser.thy ===== *)
theory Pcp_Parser
  imports Pcp_Session
begin

text \<open>
  Port control, the receiving side: the rules of the scanner (\<open>pcp_scanner.cpp\<close>, generated from
  \<open>scripts/scanner.l\<close>), the actions of the grammar (\<open>pcp_parser.cpp\<close>, generated from
  \<open>scripts/parser.y\<close>), the parser driver (\<open>pcp_parser_driver.cpp\<close>) and the parser module
  (\<open>pcp_module_parser.inl\<close>).

  The grammar generates a regular language: a state of the parser is the list of tokens the current
  production still asks for, with the place in the message behind it. Every action stands behind a token
  in a state with a default reduction, so it runs before the next token is read. The scanner leaves the
  buffer only through \<open>yyinput\<close>, which then goes on with the standard input; the model ends there with
  the fault \<open>Out_of_bounds\<close>, as it does for an octet written behind the block \<open>new []\<close> provides.
\<close>

section \<open>Tokens and states\<close>

datatype pcp_token =
    VERSION | OPCODE | RESERVED | RESULT_CODE | LIFETIME | EPOCH_TIME | RESERVED_2
  | OPTION_MAP_NONCE | OPTION_MAP_PROTOCOL | OPTION_MAP_RESERVED | OPTION_MAP_INTERNAL_PORT
  | OPTION_MAP_ASSIGNED_EXTERNAL_PORT | OPTION_MAP_ASSIGNED_EXTERNAL_IP_ADDRESS
  | OPTION_PEER_NONCE | OPTION_PEER_PROTOCOL | OPTION_PEER_RESERVED | OPTION_PEER_INTERNAL_PORT
  | OPTION_PEER_ASSIGNED_EXTERNAL_PORT | OPTION_PEER_ASSIGNED_EXTERNAL_IP_ADDRESS
  | OPTION_PEER_REMOTE_PEER_PORT | OPTION_PEER_RESERVED_2 | OPTION_PEER_REMOTE_PEER_IP_ADDRESS
  | OPTION_AUTHENTICATION_SESSION_ID | OPTION_AUTHENTICATION_SEQUENCE_NUMBER
  | OPTION_CODE | OPTION_RESERVED | OPTION_LENGTH | OPTION_THIRD_PARTY_ADDRESS
  | OPTION_FILTER_RESERVED | OPTION_FILTER_PREFIX_LENGTH | OPTION_FILTER_REMOTE_PEER_PORT
  | OPTION_FILTER_REMOTE_PEER_IP_ADDRESS | OPTION_NONCE_NONCE
  | OPTION_AUTHENTICATION_TAG_SESSION_ID | OPTION_AUTHENTICATION_TAG_SEQUENCE_NUMBER
  | OPTION_AUTHENTICATION_TAG_KEY_ID | OPTION_AUTHENTICATION_TAG_DATA
  | OPTION_PA_AUTHENTICATION_TAG_KEY_ID | OPTION_PA_AUTHENTICATION_TAG_DATA
  | OPTION_EAP_PAYLOAD_DATA | OPTION_PSEUDO_RANDOM_FUNCTION_ID | OPTION_MAC_ALGORITHM_ID
  | OPTION_SESSION_LIFETIME_LIFETIME | OPTION_RECEIVED_PAK_SEQUENCE_NUMBER
  | OPTION_ID_INDICATOR_DATA | PCP_END

datatype pcp_scan_state =
    st_INITIAL | st_version | st_opcode | st_reserved | st_result_code | st_lifetime | st_epoch_time
  | st_reserved_2 | st_map | st_map_protocol | st_map_reserved | st_map_internal_port
  | st_map_external_port | st_map_external_address | st_peer | st_peer_protocol | st_peer_reserved
  | st_peer_internal_port | st_peer_external_port | st_peer_external_address | st_peer_remote_port
  | st_peer_reserved_2 | st_peer_remote_address | st_authentication
  | st_authentication_sequence_number | st_option_code | st_option_reserved | st_option_length
  | st_third_party_address | st_filter_reserved | st_filter_prefix_length | st_filter_remote_port
  | st_filter_remote_address | st_nonce | st_tag_session_id | st_tag_sequence_number | st_tag_key_id
  | st_tag_data | st_pa_tag_key_id | st_pa_tag_data | st_eap_payload | st_pseudo_random_function
  | st_mac_algorithm | st_session_lifetime | st_received_pak | st_id_indicator | st_option_padding

text \<open>The semantic value of a token, and the variables of the scanner: \<open>yylval\<close> and \<open>padding_\<close>.\<close>

datatype pcp_yylval = Ival u64 | Aval "byte list"

record pcp_scanner =
  scan_start :: pcp_scan_state
  scan_yylval :: pcp_yylval
  scan_padding :: nat

section \<open>The rules of the scanner\<close>

text \<open>The number a rule reads through a pointer to the octets, in network byte order.\<close>

definition read_number :: "pcp_library \<Rightarrow> byte list \<Rightarrow> u64" where
  "read_number lib bs =
     (let le = lsb_first lib in
      if length bs = 1 then ucast (hd bs)
      else if length bs = 2 then ucast (let v = native_word le bs in if le then swap_word lib v else v)
      else if length bs = 4 then ucast (let v = native_word le bs in if le then swap_long lib v else v)
      else (let v = native_word le bs in if le then swap_long_long lib v else v))"

text \<open>
  The rules that only read a number: the start condition, the number of octets of the pattern, the
  position of the number in them, the next start condition and the token.
\<close>

fun number_rule :: "pcp_scan_state \<Rightarrow> (nat \<times> nat \<times> pcp_scan_state \<times> pcp_token) option" where
  "number_rule st_version = Some (1, 0, st_opcode, VERSION)"
| "number_rule st_reserved = Some (1, 0, st_result_code, RESERVED)"
| "number_rule st_result_code = Some (1, 0, st_lifetime, RESULT_CODE)"
| "number_rule st_lifetime = Some (4, 0, st_epoch_time, LIFETIME)"
| "number_rule st_epoch_time = Some (4, 0, st_reserved_2, EPOCH_TIME)"
| "number_rule st_map = Some (12, 4, st_map_protocol, OPTION_MAP_NONCE)"
| "number_rule st_map_protocol = Some (1, 0, st_map_reserved, OPTION_MAP_PROTOCOL)"
| "number_rule st_map_internal_port = Some (2, 0, st_map_external_port, OPTION_MAP_INTERNAL_PORT)"
| "number_rule st_map_external_port =
     Some (2, 0, st_map_external_address, OPTION_MAP_ASSIGNED_EXTERNAL_PORT)"
| "number_rule st_map_external_address =
     Some (16, 12, st_option_code, OPTION_MAP_ASSIGNED_EXTERNAL_IP_ADDRESS)"
| "number_rule st_peer = Some (12, 4, st_peer_protocol, OPTION_PEER_NONCE)"
| "number_rule st_peer_protocol = Some (1, 0, st_peer_reserved, OPTION_PEER_PROTOCOL)"
| "number_rule st_peer_internal_port = Some (2, 0, st_peer_external_port, OPTION_PEER_INTERNAL_PORT)"
| "number_rule st_peer_external_port =
     Some (2, 0, st_peer_external_address, OPTION_PEER_ASSIGNED_EXTERNAL_PORT)"
| "number_rule st_peer_external_address =
     Some (16, 12, st_peer_remote_port, OPTION_PEER_ASSIGNED_EXTERNAL_IP_ADDRESS)"
| "number_rule st_peer_remote_port = Some (2, 0, st_peer_reserved_2, OPTION_PEER_REMOTE_PEER_PORT)"
| "number_rule st_peer_reserved_2 = Some (2, 0, st_peer_remote_address, OPTION_PEER_RESERVED_2)"
| "number_rule st_peer_remote_address =
     Some (16, 12, st_option_code, OPTION_PEER_REMOTE_PEER_IP_ADDRESS)"
| "number_rule st_authentication =
     Some (4, 0, st_authentication_sequence_number, OPTION_AUTHENTICATION_SESSION_ID)"
| "number_rule st_authentication_sequence_number =
     Some (4, 0, st_option_code, OPTION_AUTHENTICATION_SEQUENCE_NUMBER)"
| "number_rule st_option_code = Some (1, 0, st_option_reserved, OPTION_CODE)"
| "number_rule st_option_reserved = Some (1, 0, st_option_length, OPTION_RESERVED)"
| "number_rule st_third_party_address = Some (16, 12, st_option_code, OPTION_THIRD_PARTY_ADDRESS)"
| "number_rule st_filter_reserved = Some (1, 0, st_filter_prefix_length, OPTION_FILTER_RESERVED)"
| "number_rule st_filter_prefix_length =
     Some (1, 0, st_filter_remote_port, OPTION_FILTER_PREFIX_LENGTH)"
| "number_rule st_filter_remote_port =
     Some (2, 0, st_filter_remote_address, OPTION_FILTER_REMOTE_PEER_PORT)"
| "number_rule st_filter_remote_address =
     Some (16, 12, st_option_code, OPTION_FILTER_REMOTE_PEER_IP_ADDRESS)"
| "number_rule st_nonce = Some (4, 0, st_option_code, OPTION_NONCE_NONCE)"
| "number_rule st_tag_session_id =
     Some (4, 0, st_tag_sequence_number, OPTION_AUTHENTICATION_TAG_SESSION_ID)"
| "number_rule st_tag_sequence_number =
     Some (4, 0, st_tag_key_id, OPTION_AUTHENTICATION_TAG_SEQUENCE_NUMBER)"
| "number_rule st_tag_key_id = Some (4, 0, st_tag_data, OPTION_AUTHENTICATION_TAG_KEY_ID)"
| "number_rule st_pa_tag_key_id = Some (4, 0, st_pa_tag_data, OPTION_PA_AUTHENTICATION_TAG_KEY_ID)"
| "number_rule st_pseudo_random_function =
     Some (4, 0, st_option_code, OPTION_PSEUDO_RANDOM_FUNCTION_ID)"
| "number_rule st_mac_algorithm = Some (4, 0, st_option_code, OPTION_MAC_ALGORITHM_ID)"
| "number_rule st_session_lifetime = Some (4, 0, st_option_code, OPTION_SESSION_LIFETIME_LIFETIME)"
| "number_rule st_received_pak = Some (4, 0, st_option_code, OPTION_RECEIVED_PAK_SEQUENCE_NUMBER)"
| "number_rule _ = None"

text \<open>The rules for data of variable length: the octets of the option in front of the data.\<close>

fun data_rule :: "pcp_scan_state \<Rightarrow> (u32 \<times> pcp_token) option" where
  "data_rule st_tag_data = Some (12, OPTION_AUTHENTICATION_TAG_DATA)"
| "data_rule st_pa_tag_data = Some (4, OPTION_PA_AUTHENTICATION_TAG_DATA)"
| "data_rule st_eap_payload = Some (0, OPTION_EAP_PAYLOAD_DATA)"
| "data_rule st_id_indicator = Some (0, OPTION_ID_INDICATOR_DATA)"
| "data_rule _ = None"

fun after_header :: "byte \<Rightarrow> pcp_scan_state option" where
  "after_header opcode =
     map_of [(PCP_OPCODE_MAP, st_map), (PCP_OPCODE_PEER, st_peer), (PCP_OPCODE_ANNOUNCE, st_option_code),
             (PCP_OPCODE_AUTHENTICATION, st_authentication)] opcode"

fun after_length :: "pcp_enum \<Rightarrow> pcp_scan_state option" where
  "after_length code =
     map_of [(1, st_third_party_address), (2, st_option_code), (3, st_filter_reserved), (4, st_nonce),
             (5, st_tag_session_id), (6, st_pa_tag_key_id), (7, st_eap_payload),
             (8, st_pseudo_random_function), (9, st_mac_algorithm), (10, st_session_lifetime),
             (11, st_received_pak), (12, st_id_indicator)] code"

definition options_back :: "PCP_Record \<Rightarrow> PCPOption run" where
  "options_back r = (if pcp_options r = [] then Inl Out_of_bounds else Inr (last (pcp_options r)))"

type_synonym scanned = "(pcp_token \<times> pcp_scanner \<times> byte list) run"

definition emit_number ::
    "pcp_scanner \<Rightarrow> pcp_scan_state \<Rightarrow> pcp_token \<Rightarrow> u64 \<Rightarrow> byte list \<Rightarrow> scanned" where
  "emit_number sc next token v rest =
     Inr (token, sc\<lparr>scan_start := next, scan_yylval := Ival v\<rparr>, rest)"

text \<open>
  \<open>new ACE_UINT8[bytes_to_read]\<close>, the assertion that it succeeds, the octets stored at positions 0 to
  \<open>bytes_to_read\<close>, and the padding to skip.
\<close>

definition scan_data ::
    "pcp_library \<Rightarrow> PCP_Record \<Rightarrow> pcp_scanner \<Rightarrow> u32 \<Rightarrow> pcp_token \<Rightarrow> byte list \<Rightarrow> scanned" where
  "scan_data lib r sc before token inp =
     run_bind (options_back r) (\<lambda>opt.
       let bytes_to_read = unat (ucast (opt_length opt) - before - 1 :: u32);
           padding_bytes = unat (opt_length opt) mod 4 in
       case usable_bytes lib bytes_to_read of
         None \<Rightarrow> Inl Assertion_failed
       | Some usable \<Rightarrow>
           if usable \<le> bytes_to_read \<or> length inp \<le> bytes_to_read then Inl Out_of_bounds
           else let sc = sc\<lparr>scan_yylval := Aval (take (Suc bytes_to_read) inp)\<rparr> in
             Inr (token,
               (if padding_bytes \<noteq> 0
                then sc\<lparr>scan_padding := 4 - padding_bytes, scan_start := st_option_padding\<rparr>
                else sc\<lparr>scan_start := st_option_code\<rparr>),
               drop (Suc bytes_to_read) inp))"

text \<open>
  The reserved octets of the opcode's data are combined with what \<open>yylval\<close> holds from the last token.
\<close>

definition scan_reserved ::
    "pcp_scanner \<Rightarrow> pcp_scan_state \<Rightarrow> pcp_token \<Rightarrow> byte list \<Rightarrow> scanned" where
  "scan_reserved sc next token inp =
     (if length inp < 3 then Inl Assertion_failed
      else case scan_yylval sc of
        Aval bs \<Rightarrow> Inl Out_of_bounds
      | Ival v \<Rightarrow>
          emit_number sc next token
            (v OR push_bit 16 (ucast (inp ! 0)) OR push_bit 8 (ucast (inp ! 1)) OR ucast (inp ! 2))
            (drop 3 inp))"

text \<open>
  The rule of the start condition on an input that is not empty. The rule \<open><*>{OCTET}{1}\<close>, which matches
  where the input is too short for the other, fails its assertion.
\<close>

definition scan_rule :: "pcp_library \<Rightarrow> PCP_Record \<Rightarrow> pcp_scanner \<Rightarrow> byte list \<Rightarrow> scanned" where
  "scan_rule lib r sc inp =
     (case number_rule (scan_start sc) of
        Some (n, k, next, token) \<Rightarrow>
          (if length inp < n then Inl Assertion_failed
           else emit_number sc next token (read_number lib (octets_at k (n - k) inp)) (drop n inp))
      | None \<Rightarrow> (case data_rule (scan_start sc) of
        Some (before, token) \<Rightarrow> scan_data lib r sc before token inp
      | None \<Rightarrow> (case scan_start sc of
        st_opcode \<Rightarrow>
          (let v = ucast (hd inp) :: u64 in
           run_bind (ace_assert (v AND 0x80 \<noteq> 0)) (\<lambda>_.
             emit_number sc st_reserved OPCODE (v AND 0x7F) (tl inp)))
      | st_reserved_2 \<Rightarrow>
          (if length inp < 12 then Inl Assertion_failed
           else let v = read_number lib (octets_at 4 8 inp) in
             (case after_header (pcp_opcode r) of
               None \<Rightarrow> Inr (PCP_END, sc\<lparr>scan_yylval := Ival v\<rparr>, drop 12 inp)
             | Some next \<Rightarrow> emit_number sc next RESERVED_2 v (drop 12 inp)))
      | st_map_reserved \<Rightarrow> scan_reserved sc st_map_internal_port OPTION_MAP_RESERVED inp
      | st_peer_reserved \<Rightarrow> scan_reserved sc st_peer_internal_port OPTION_PEER_RESERVED inp
      | st_option_length \<Rightarrow>
          (if length inp < 2 then Inl Assertion_failed
           else let v = read_number lib (octets_at 0 2 inp) in
             run_bind (options_back r) (\<lambda>opt. case after_length (opt_code opt) of
               None \<Rightarrow> Inr (PCP_END, sc\<lparr>scan_yylval := Ival v\<rparr>, drop 2 inp)
             | Some next \<Rightarrow> emit_number sc next OPTION_LENGTH v (drop 2 inp)))
      | _ \<Rightarrow> Inl Assertion_failed)))"

definition scan_padding_rule ::
    "pcp_library \<Rightarrow> PCP_Record \<Rightarrow> pcp_scanner \<Rightarrow> byte list \<Rightarrow> scanned" where
  "scan_padding_rule lib r sc inp =
     run_bind (ace_assert (scan_padding sc \<noteq> 0)) (\<lambda>_.
       if length inp < scan_padding sc then Inl Out_of_bounds
       else let rest = drop (scan_padding sc) inp;
                sc = sc\<lparr>scan_padding := 0, scan_start := st_option_code\<rparr> in
         if rest = [] then Inr (PCP_END, sc, []) else scan_rule lib r sc rest)"

definition pcp_yylex :: "pcp_library \<Rightarrow> PCP_Record \<Rightarrow> pcp_scanner \<Rightarrow> byte list \<Rightarrow> scanned" where
  "pcp_yylex lib r sc inp =
     (if inp = [] then Inr (PCP_END, sc, [])
      else if scan_start sc = st_INITIAL then scan_rule lib r (sc\<lparr>scan_start := st_version\<rparr>) inp
      else if scan_start sc = st_option_padding then scan_padding_rule lib r sc inp
      else scan_rule lib r sc inp)"

section \<open>The grammar\<close>

datatype pcp_place = After_header | Within_options | Within_option_data

type_synonym pcp_parser = "pcp_token list \<times> pcp_place"

definition header_tokens :: "pcp_token list" where
  "header_tokens = [VERSION, OPCODE, RESERVED, RESULT_CODE, LIFETIME, EPOCH_TIME, RESERVED_2]"

text \<open>The token that begins a production, and the tokens the production asks for behind it.\<close>

definition opcode_productions :: "(pcp_token \<times> pcp_token list) list" where
  "opcode_productions =
     [(OPTION_MAP_NONCE,
       [OPTION_MAP_PROTOCOL, OPTION_MAP_RESERVED, OPTION_MAP_INTERNAL_PORT,
        OPTION_MAP_ASSIGNED_EXTERNAL_PORT, OPTION_MAP_ASSIGNED_EXTERNAL_IP_ADDRESS]),
      (OPTION_PEER_NONCE,
       [OPTION_PEER_PROTOCOL, OPTION_PEER_RESERVED, OPTION_PEER_INTERNAL_PORT,
        OPTION_PEER_ASSIGNED_EXTERNAL_PORT, OPTION_PEER_ASSIGNED_EXTERNAL_IP_ADDRESS,
        OPTION_PEER_REMOTE_PEER_PORT, OPTION_PEER_RESERVED_2, OPTION_PEER_REMOTE_PEER_IP_ADDRESS]),
      (OPTION_AUTHENTICATION_SESSION_ID, [OPTION_AUTHENTICATION_SEQUENCE_NUMBER])]"

definition option_data_productions :: "(pcp_token \<times> pcp_token list) list" where
  "option_data_productions =
     [(OPTION_THIRD_PARTY_ADDRESS, []),
      (OPTION_FILTER_RESERVED,
       [OPTION_FILTER_PREFIX_LENGTH, OPTION_FILTER_REMOTE_PEER_PORT, OPTION_FILTER_REMOTE_PEER_IP_ADDRESS]),
      (OPTION_NONCE_NONCE, []),
      (OPTION_AUTHENTICATION_TAG_SESSION_ID,
       [OPTION_AUTHENTICATION_TAG_SEQUENCE_NUMBER, OPTION_AUTHENTICATION_TAG_KEY_ID,
        OPTION_AUTHENTICATION_TAG_DATA]),
      (OPTION_PA_AUTHENTICATION_TAG_KEY_ID, [OPTION_PA_AUTHENTICATION_TAG_DATA]),
      (OPTION_EAP_PAYLOAD_DATA, []), (OPTION_PSEUDO_RANDOM_FUNCTION_ID, []),
      (OPTION_MAC_ALGORITHM_ID, []), (OPTION_SESSION_LIFETIME_LIFETIME, []),
      (OPTION_RECEIVED_PAK_SEQUENCE_NUMBER, []), (OPTION_ID_INDICATOR_DATA, [])]"

definition production :: "pcp_place \<Rightarrow> pcp_token \<Rightarrow> pcp_parser option" where
  "production place token =
     (if token = OPTION_CODE then Some ([OPTION_RESERVED, OPTION_LENGTH], Within_option_data)
      else map_option (\<lambda>ts. (ts, Within_options))
        (map_of (case place of After_header \<Rightarrow> opcode_productions | Within_options \<Rightarrow> []
                 | Within_option_data \<Rightarrow> option_data_productions) token))"

fun pcp_shift :: "pcp_parser \<Rightarrow> pcp_token \<Rightarrow> pcp_parser option" where
  "pcp_shift ([], place) token = production place token"
| "pcp_shift (t # ts, place) token = (if token = t then Some (ts, place) else None)"


section \<open>The actions of the grammar\<close>

text \<open>
  Writing to a member of a union that is not active makes it active; what no action has written is
  indeterminate. Such a pointer is \<open>None\<close> here, so that its use is a fault; such a number is 0 and can
  reach nothing but the text of the error message.
\<close>

fun as_map :: "pcp_opcode_data \<Rightarrow> PCPOpcodeMapData" where
  "as_map (Map_data d) = d"
| "as_map _ = \<lparr>map_nonce = 0, map_protocol = 0, map_reserved = 0, map_internal_port = 0,
               map_external_port = 0, map_external_address = None\<rparr>"

fun as_peer :: "pcp_opcode_data \<Rightarrow> PCPOpcodePeerData" where
  "as_peer (Peer_data d) = d"
| "as_peer _ = \<lparr>peer_nonce = 0, peer_protocol = 0, peer_reserved = 0, peer_internal_port = 0,
                peer_external_port = 0, peer_external_address = None, peer_remote_port = 0,
                peer_reserved_2 = 0, peer_remote_address = None\<rparr>"

definition upd_map :: "(PCPOpcodeMapData \<Rightarrow> PCPOpcodeMapData) \<Rightarrow> PCP_Record \<Rightarrow> PCP_Record run" where
  "upd_map f r = Inr (r\<lparr>pcp_data := Map_data (f (as_map (pcp_data r)))\<rparr>)"

definition upd_peer :: "(PCPOpcodePeerData \<Rightarrow> PCPOpcodePeerData) \<Rightarrow> PCP_Record \<Rightarrow> PCP_Record run" where
  "upd_peer f r = Inr (r\<lparr>pcp_data := Peer_data (f (as_peer (pcp_data r)))\<rparr>)"

definition upd_back :: "(PCPOption \<Rightarrow> PCPOption) \<Rightarrow> PCP_Record \<Rightarrow> PCP_Record run" where
  "upd_back f r =
     run_bind (options_back r) (\<lambda>opt. Inr (r\<lparr>pcp_options := butlast (pcp_options r) @ [f opt]\<rparr>))"

definition upd_data :: "(pcp_option_data \<Rightarrow> pcp_option_data) \<Rightarrow> PCP_Record \<Rightarrow> PCP_Record run" where
  "upd_data f = upd_back (\<lambda>opt. opt\<lparr>opt_data := f (opt_data opt)\<rparr>)"

fun filter_members :: "pcp_option_data \<Rightarrow> byte \<times> byte \<times> u16 \<times> inet_addr option" where
  "filter_members (Port_filter reserved prefix_length port a) = (reserved, prefix_length, port, a)"
| "filter_members _ = (0, 0, 0, None)"

fun tag_members :: "pcp_option_data \<Rightarrow> u32 \<times> u32 \<times> u32" where
  "tag_members (Authentication_tag session_id sequence_number key_id data) =
     (session_id, sequence_number, key_id)"
| "tag_members _ = (0, 0, 0)"

fun pa_tag_key_id :: "pcp_option_data \<Rightarrow> u32" where
  "pa_tag_key_id (PA_authentication_tag key_id data) = key_id"
| "pa_tag_key_id _ = 0"

text \<open>\<open>ACE_INET_Addr (port, static_cast<ACE_UINT32> (value))\<close> on the heap.\<close>

definition new_address :: "u16 \<Rightarrow> u64 \<Rightarrow> inet_addr option" where
  "new_address port v = Some \<lparr>addr_ip = ucast v, addr_port = port\<rparr>"

fun number_action :: "pcp_token \<Rightarrow> u64 \<Rightarrow> PCP_Record \<Rightarrow> PCP_Record run" where
  "number_action VERSION v r = Inr (r\<lparr>pcp_version := ucast v\<rparr>)"
| "number_action OPCODE v r = Inr (r\<lparr>pcp_opcode := ucast v\<rparr>)"
| "number_action RESERVED v r = Inr (r\<lparr>pcp_reserved := ucast v\<rparr>)"
| "number_action RESULT_CODE v r = Inr (r\<lparr>pcp_result_code := ucast v\<rparr>)"
| "number_action LIFETIME v r = Inr (r\<lparr>pcp_lifetime := ucast v\<rparr>)"
| "number_action EPOCH_TIME v r = Inr (r\<lparr>pcp_epoch_time := ucast v\<rparr>)"
| "number_action RESERVED_2 v r = Inr (r\<lparr>pcp_reserved_2 := ucast v\<rparr>)"
| "number_action OPTION_MAP_NONCE v r = upd_map (\<lambda>d. d\<lparr>map_nonce := v\<rparr>) r"
| "number_action OPTION_MAP_PROTOCOL v r = upd_map (\<lambda>d. d\<lparr>map_protocol := ucast v\<rparr>) r"
| "number_action OPTION_MAP_RESERVED v r = upd_map (\<lambda>d. d\<lparr>map_reserved := ucast v\<rparr>) r"
| "number_action OPTION_MAP_INTERNAL_PORT v r = upd_map (\<lambda>d. d\<lparr>map_internal_port := ucast v\<rparr>) r"
| "number_action OPTION_MAP_ASSIGNED_EXTERNAL_PORT v r =
     upd_map (\<lambda>d. d\<lparr>map_external_port := ucast v\<rparr>) r"
| "number_action OPTION_MAP_ASSIGNED_EXTERNAL_IP_ADDRESS v r =
     upd_map (\<lambda>d. d\<lparr>map_external_address := new_address (map_external_port d) v\<rparr>) r"
| "number_action OPTION_PEER_NONCE v r = upd_peer (\<lambda>d. d\<lparr>peer_nonce := v\<rparr>) r"
| "number_action OPTION_PEER_PROTOCOL v r = upd_peer (\<lambda>d. d\<lparr>peer_protocol := ucast v\<rparr>) r"
| "number_action OPTION_PEER_RESERVED v r = upd_peer (\<lambda>d. d\<lparr>peer_reserved := ucast v\<rparr>) r"
| "number_action OPTION_PEER_INTERNAL_PORT v r =
     upd_peer (\<lambda>d. d\<lparr>peer_internal_port := ucast v\<rparr>) r"
| "number_action OPTION_PEER_ASSIGNED_EXTERNAL_PORT v r =
     upd_peer (\<lambda>d. d\<lparr>peer_external_port := ucast v\<rparr>) r"
| "number_action OPTION_PEER_ASSIGNED_EXTERNAL_IP_ADDRESS v r =
     upd_peer (\<lambda>d. d\<lparr>peer_external_address := new_address (peer_external_port d) v\<rparr>) r"
| "number_action OPTION_PEER_REMOTE_PEER_PORT v r =
     upd_peer (\<lambda>d. d\<lparr>peer_remote_port := ucast v\<rparr>) r"
| "number_action OPTION_PEER_RESERVED_2 v r = upd_peer (\<lambda>d. d\<lparr>peer_reserved_2 := ucast v\<rparr>) r"
| "number_action OPTION_PEER_REMOTE_PEER_IP_ADDRESS v r =
     upd_peer (\<lambda>d. d\<lparr>peer_remote_address := new_address (peer_remote_port d) v\<rparr>) r"
| "number_action OPTION_AUTHENTICATION_SESSION_ID v r =
     Inr (r\<lparr>pcp_data := Authentication_data (ucast v)
       (case pcp_data r of Authentication_data session_id sequence_number \<Rightarrow> sequence_number | _ \<Rightarrow> 0)\<rparr>)"
| "number_action OPTION_AUTHENTICATION_SEQUENCE_NUMBER v r =
     Inr (r\<lparr>pcp_data := Authentication_data
       (case pcp_data r of Authentication_data session_id sequence_number \<Rightarrow> session_id | _ \<Rightarrow> 0) (ucast v)\<rparr>)"
| "number_action OPTION_CODE v r =
     Inr (r\<lparr>pcp_options := pcp_options r @ [new_PCPOption\<lparr>opt_code := ucast v\<rparr>]\<rparr>)"
| "number_action OPTION_RESERVED v r = upd_back (\<lambda>opt. opt\<lparr>opt_reserved := ucast v\<rparr>) r"
| "number_action OPTION_LENGTH v r = upd_back (\<lambda>opt. opt\<lparr>opt_length := ucast v\<rparr>) r"
| "number_action OPTION_THIRD_PARTY_ADDRESS v r = upd_data (\<lambda>u. Third_party (new_address 0 v)) r"
| "number_action OPTION_FILTER_RESERVED v r =
     upd_data (\<lambda>u. case filter_members u of (res, l, p, a) \<Rightarrow> Port_filter (ucast v) l p a) r"
| "number_action OPTION_FILTER_PREFIX_LENGTH v r =
     upd_data (\<lambda>u. case filter_members u of (res, l, p, a) \<Rightarrow> Port_filter res (ucast v) p a) r"
| "number_action OPTION_FILTER_REMOTE_PEER_PORT v r =
     upd_data (\<lambda>u. case filter_members u of (res, l, p, a) \<Rightarrow> Port_filter res l (ucast v) a) r"
| "number_action OPTION_FILTER_REMOTE_PEER_IP_ADDRESS v r =
     upd_data (\<lambda>u. case filter_members u of (res, l, p, a) \<Rightarrow> Port_filter res l p (new_address p v)) r"
| "number_action OPTION_NONCE_NONCE v r = upd_data (\<lambda>u. Option_nonce (ucast v)) r"
| "number_action OPTION_AUTHENTICATION_TAG_SESSION_ID v r =
     upd_data (\<lambda>u. case tag_members u of (i, n, k) \<Rightarrow> Authentication_tag (ucast v) n k None) r"
| "number_action OPTION_AUTHENTICATION_TAG_SEQUENCE_NUMBER v r =
     upd_data (\<lambda>u. case tag_members u of (i, n, k) \<Rightarrow> Authentication_tag i (ucast v) k None) r"
| "number_action OPTION_AUTHENTICATION_TAG_KEY_ID v r =
     upd_data (\<lambda>u. case tag_members u of (i, n, k) \<Rightarrow> Authentication_tag i n (ucast v) None) r"
| "number_action OPTION_PA_AUTHENTICATION_TAG_KEY_ID v r =
     upd_data (\<lambda>u. PA_authentication_tag (ucast v) None) r"
| "number_action OPTION_PSEUDO_RANDOM_FUNCTION_ID v r =
     upd_data (\<lambda>u. Pseudo_random_function (ucast v)) r"
| "number_action OPTION_MAC_ALGORITHM_ID v r = upd_data (\<lambda>u. MAC_algorithm (ucast v)) r"
| "number_action OPTION_SESSION_LIFETIME_LIFETIME v r = upd_data (\<lambda>u. Session_lifetime (ucast v)) r"
| "number_action OPTION_RECEIVED_PAK_SEQUENCE_NUMBER v r = upd_data (\<lambda>u. Received_PAK (ucast v)) r"
| "number_action _ v r = Inl Out_of_bounds"

fun data_action :: "pcp_token \<Rightarrow> byte list \<Rightarrow> PCP_Record \<Rightarrow> PCP_Record run" where
  "data_action OPTION_AUTHENTICATION_TAG_DATA bs r =
     upd_data (\<lambda>u. case tag_members u of (i, n, k) \<Rightarrow> Authentication_tag i n k (Some bs)) r"
| "data_action OPTION_PA_AUTHENTICATION_TAG_DATA bs r =
     upd_data (\<lambda>u. PA_authentication_tag (pa_tag_key_id u) (Some bs)) r"
| "data_action OPTION_EAP_PAYLOAD_DATA bs r = upd_data (\<lambda>u. EAP_payload (Some bs)) r"
| "data_action OPTION_ID_INDICATOR_DATA bs r = upd_data (\<lambda>u. Id_indicator (Some bs)) r"
| "data_action _ bs r = Inl Out_of_bounds"

definition pcp_action :: "pcp_token \<Rightarrow> pcp_yylval \<Rightarrow> PCP_Record \<Rightarrow> PCP_Record run" where
  "pcp_action token yylval r =
     (case yylval of Ival v \<Rightarrow> number_action token v r | Aval bs \<Rightarrow> data_action token bs r)"

section \<open>The parser, its driver and the module\<close>

lemma scan_rule_shorter:
  "inp \<noteq> [] \<Longrightarrow> scan_rule lib r sc inp = Inr (token, sc', rest) \<Longrightarrow> length rest < length inp"
  by (cases "scan_start sc")
     (auto simp: scan_rule_def scan_data_def scan_reserved_def emit_number_def Let_def
        split: if_splits option.splits pcp_yylval.splits)

lemma pcp_yylex_shorter:
  assumes "pcp_yylex lib r sc inp = Inr (token, sc', rest)" "token \<noteq> PCP_END"
  shows "length rest < length inp"
  using assms scan_rule_shorter [of inp lib r]
    scan_rule_shorter [of "drop (scan_padding sc) inp" lib r "sc\<lparr>scan_padding := 0, scan_start := st_option_code\<rparr>" token sc' rest]
  by (auto simp: pcp_yylex_def scan_padding_rule_def Let_def split: if_splits)


text \<open>
  \<open>yyparse\<close>: \<open>None\<close> stands for a syntax error, which is reported with a dump of the record. The record
  holds what the actions have stored up to there.
\<close>

declare run_bind_cong [fundef_cong]

function pcp_yyparse ::
    "pcp_library \<Rightarrow> (inet_addr \<Rightarrow> string) \<Rightarrow> pcp_parser \<Rightarrow> pcp_scanner \<Rightarrow> PCP_Record \<Rightarrow> byte list
     \<Rightarrow> PCP_Record option run" where
  "pcp_yyparse lib ip_text gs sc r inp =
     run_bind (pcp_yylex lib r sc inp) (\<lambda>(token, sc', rest).
       if token = PCP_END
       then (if fst gs = [] then Inr (Some r) else run_bind (pcp_dump ip_text r) (\<lambda>_. Inr None))
       else case pcp_shift gs token of
         None \<Rightarrow> run_bind (pcp_dump ip_text r) (\<lambda>_. Inr None)
       | Some gs' \<Rightarrow>
           run_bind (pcp_action token (scan_yylval sc') r) (\<lambda>r'.
             pcp_yyparse lib ip_text gs' sc' r' rest))"
  by pat_completeness auto
termination
  by (relation "measure (\<lambda>(lib, ip_text, gs, sc, r, inp). length inp)") (auto dest: pcp_yylex_shorter)

declare pcp_yyparse.simps [simp del]

text \<open>
  \<open>PCP_ParserDriver::parse\<close> with either way to hand the buffer to the scanner. The size given to both
  functions counts the two terminating zeros behind the message: \<open>yy_scan_buffer\<close> expects them in the
  size, \<open>yy_scan_bytes\<close> takes them for data.
\<close>

definition driver_parse ::
    "pcp_library \<Rightarrow> (inet_addr \<Rightarrow> string) \<Rightarrow> bool \<Rightarrow> PCP_Record \<Rightarrow> byte list \<Rightarrow> PCP_Record option run" where
  "driver_parse lib ip_text useYYScanBuffer r message =
     pcp_yyparse lib ip_text (header_tokens, After_header)
       \<lparr>scan_start = st_INITIAL, scan_yylval = Ival 0, scan_padding = 0\<rparr> r
       (if useYYScanBuffer then message else message @ [0, 0])"

definition parser_handleDataMessage ::
    "pcp_library \<Rightarrow> (inet_addr \<Rightarrow> string) \<Rightarrow> bool \<Rightarrow> bool \<Rightarrow> PCP_Record \<Rightarrow> byte list \<Rightarrow> nat
     \<Rightarrow> PCP_Record option run" where
  "parser_handleDataMessage lib ip_text isDriverInitialized useYYScanBuffer r message capacity =
     run_bind (ace_assert (2 \<le> capacity - length message)) (\<lambda>_.
     run_bind (ace_assert isDriverInitialized) (\<lambda>_.
       driver_parse lib ip_text useYYScanBuffer r message))"

section \<open>Scanning what a server sends\<close>

text \<open>One token: what the parser does with the octets of a rule in front of other input.\<close>

definition continue ::
    "pcp_library \<Rightarrow> (inet_addr \<Rightarrow> string) \<Rightarrow> pcp_parser \<Rightarrow> pcp_scan_state \<Rightarrow> nat \<Rightarrow> PCP_Record
     \<Rightarrow> pcp_token \<Rightarrow> pcp_yylval \<Rightarrow> byte list \<Rightarrow> PCP_Record option run" where
  "continue lib ip_text gs next pad r token v rest =
     (case pcp_shift gs token of
        None \<Rightarrow> run_bind (pcp_dump ip_text r) (\<lambda>_. Inr None)
      | Some gs' \<Rightarrow> run_bind (pcp_action token v r) (\<lambda>r'.
          pcp_yyparse lib ip_text gs' \<lparr>scan_start = next, scan_yylval = v, scan_padding = pad\<rparr> r' rest))"

lemma yyparse_number:
  assumes "number_rule st = Some (n, k, next, token)" "token \<noteq> PCP_END" "length bs = n"
    "0 < n" "st \<noteq> st_INITIAL" "st \<noteq> st_option_padding"
  shows "pcp_yyparse lib ip_text gs \<lparr>scan_start = st, scan_yylval = y, scan_padding = pad\<rparr> r (bs @ rest)
           = continue lib ip_text gs next pad r token (Ival (read_number lib (octets_at k (n - k) bs))) rest"
  using assms
  by (subst pcp_yyparse.simps)
     (auto simp: pcp_yylex_def scan_rule_def emit_number_def continue_def octets_at_def drop_take
        split: option.split)


lemma yyparse_octet:
  assumes "number_rule st = Some (1, 0, next, token)" "token \<noteq> PCP_END" "st \<noteq> st_INITIAL"
    "st \<noteq> st_option_padding"
  shows "pcp_yyparse lib ip_text gs \<lparr>scan_start = st, scan_yylval = y, scan_padding = pad\<rparr> r (b # rest)
           = continue lib ip_text gs next pad r token (Ival (ucast b)) rest"
  using yyparse_number [OF assms(1,2), of "[b]"] assms(3,4)
  by (simp add: octets_at_def read_number_def)

lemma yyparse_INITIAL:
  "pcp_yyparse lib ip_text gs \<lparr>scan_start = st_INITIAL, scan_yylval = y, scan_padding = pad\<rparr> r (b # rest)
     = continue lib ip_text gs st_opcode pad r VERSION (Ival (ucast b)) rest"
  by (subst pcp_yyparse.simps)
     (auto simp: pcp_yylex_def scan_rule_def emit_number_def continue_def octets_at_def read_number_def
        split: option.split)

lemma unat_ucast_u64: "LENGTH('a::len) \<le> 64 \<Longrightarrow> unat (ucast (v :: 'a word) :: u64) = unat v"
proof -
  assume "LENGTH('a) \<le> 64"
  then have "(2 :: nat) ^ LENGTH('a) \<le> 2 ^ 64"
    by (rule power_increasing) simp
  then have "unat v < 2 ^ 64"
    using unsigned_less [of v, where 'a = nat] by linarith
  then show ?thesis
    by (simp add: unsigned_ucast_eq take_bit_nat_eq_self)
qed

lemma yyparse_opcode:
  assumes "b AND 0x80 \<noteq> 0"
  shows "pcp_yyparse lib ip_text gs \<lparr>scan_start = st_opcode, scan_yylval = y, scan_padding = pad\<rparr> r (b # rest)
     = continue lib ip_text gs st_reserved pad r OPCODE (Ival (ucast (b AND 0x7F))) rest"
proof -
  have "(ucast b :: u64) AND 0x80 = ucast (b AND 0x80)" "(ucast b :: u64) AND 0x7F = ucast (b AND 0x7F)"
    by (auto simp: bit_eq_iff bit_simps dest: bit_imp_le_length)
  moreover have "(ucast (b AND 0x80) :: u64) \<noteq> 0"
    using assms unat_ucast_u64 [of "b AND 0x80"] by (auto simp: unat_eq_0 dest: arg_cong [where f = unat])
  ultimately show ?thesis
    by (subst pcp_yyparse.simps)
       (auto simp: pcp_yylex_def scan_rule_def emit_number_def continue_def Let_def split: option.split)
qed

lemma yyparse_reserved_2:
  assumes "after_header (pcp_opcode r) = Some next" "length bs = 12"
  shows "pcp_yyparse lib ip_text gs \<lparr>scan_start = st_reserved_2, scan_yylval = y, scan_padding = pad\<rparr> r (bs @ rest)
     = continue lib ip_text gs next pad r RESERVED_2 (Ival (read_number lib (octets_at 4 8 bs))) rest"
  using assms
  by (subst pcp_yyparse.simps)
     (auto simp: pcp_yylex_def scan_rule_def emit_number_def continue_def octets_at_def Let_def
        split: option.split)

lemma yyparse_reserved:
  assumes "(st, next, token) \<in> {(st_map_reserved, st_map_internal_port, OPTION_MAP_RESERVED),
                                 (st_peer_reserved, st_peer_internal_port, OPTION_PEER_RESERVED)}"
  shows "pcp_yyparse lib ip_text gs \<lparr>scan_start = st, scan_yylval = Ival v, scan_padding = pad\<rparr> r (a # b # c # rest)
     = continue lib ip_text gs next pad r token
         (Ival (v OR push_bit 16 (ucast a) OR push_bit 8 (ucast b) OR ucast c)) rest"
  using assms
  by (subst pcp_yyparse.simps)
     (auto simp: pcp_yylex_def scan_rule_def scan_reserved_def emit_number_def continue_def
        split: option.split)

lemma yyparse_option_length:
  assumes "pcp_options r \<noteq> []" "after_length (opt_code (last (pcp_options r))) = Some next" "length bs = 2"
  shows "pcp_yyparse lib ip_text gs \<lparr>scan_start = st_option_length, scan_yylval = y, scan_padding = pad\<rparr> r (bs @ rest)
     = continue lib ip_text gs next pad r OPTION_LENGTH (Ival (read_number lib bs)) rest"
  using assms
  by (subst pcp_yyparse.simps)
     (auto simp: pcp_yylex_def scan_rule_def emit_number_def continue_def octets_at_def options_back_def Let_def
        split: option.split)


section \<open>The reference: responses of RFC 6887 and RFC 7652\<close>

definition reserved_octets :: "u32 \<Rightarrow> byte list" where
  "reserved_octets v = replicate 8 0 @ be_octets 4 (unat v)"

definition response_header :: "PCP_Record \<Rightarrow> byte list" where
  "response_header r =
     [ucast (pcp_version r), 0x80 OR pcp_opcode r, pcp_reserved r, ucast (pcp_result_code r)]
     @ be_octets 4 (unat (pcp_lifetime r)) @ be_octets 4 (unat (pcp_epoch_time r))
     @ reserved_octets (pcp_reserved_2 r)"

fun response_data :: "pcp_opcode_data \<Rightarrow> byte list" where
  "response_data (Map_data d) =
     nonce_octets (map_nonce d) @ [map_protocol d] @ be_octets 3 (unat (map_reserved d))
     @ be_octets 2 (unat (map_internal_port d)) @ be_octets 2 (unat (map_external_port d))
     @ v4_mapped (the (map_external_address d))"
| "response_data (Peer_data d) =
     nonce_octets (peer_nonce d) @ [peer_protocol d] @ be_octets 3 (unat (peer_reserved d))
     @ be_octets 2 (unat (peer_internal_port d)) @ be_octets 2 (unat (peer_external_port d))
     @ v4_mapped (the (peer_external_address d)) @ be_octets 2 (unat (peer_remote_port d))
     @ be_octets 2 (unat (peer_reserved_2 d)) @ v4_mapped (the (peer_remote_address d))"
| "response_data (Authentication_data session_id sequence_number) =
     be_octets 4 (unat session_id) @ be_octets 4 (unat sequence_number)"
| "response_data No_opcode_data = []"

definition padded_option :: "PCPOption \<Rightarrow> byte list" where
  "padded_option opt =
     option_wire opt @ replicate (padded (unat (opt_length opt)) - unat (opt_length opt)) 0"

definition response_wire :: "PCP_Record \<Rightarrow> byte list" where
  "response_wire r =
     response_header r @ response_data (pcp_data r) @ concat (map padded_option (pcp_options r))"

text \<open>What the parser stores of a response: the protocol shows in the reserved octets of the data.\<close>

fun heard_data :: "pcp_opcode_data \<Rightarrow> pcp_opcode_data" where
  "heard_data (Map_data d) = Map_data (d\<lparr>map_reserved := map_reserved d OR ucast (map_protocol d)\<rparr>)"
| "heard_data (Peer_data d) = Peer_data (d\<lparr>peer_reserved := peer_reserved d OR ucast (peer_protocol d)\<rparr>)"
| "heard_data u = u"

definition heard :: "PCP_Record \<Rightarrow> PCP_Record" where
  "heard r = r\<lparr>pcp_client_address := any_address, pcp_data := heard_data (pcp_data r)\<rparr>"

lemma read_number_value:
  assumes "machine_ok lib" "length bs \<in> {2, 4, 8}"
  shows "unat (read_number lib bs) = be_value bs"
proof -
  have "be_value bs < 256 ^ length bs"
    by (rule be_value_less)
  then have small: "length bs = 2 \<Longrightarrow> be_value bs < 2 ^ 16" "length bs = 4 \<Longrightarrow> be_value bs < 2 ^ 32"
    "length bs = 8 \<Longrightarrow> be_value bs < 2 ^ 64"
    by auto
  then show ?thesis
    using assms
    by (auto simp: read_number_def machine_ok_def swapped_word_little native_word_be Let_def
        unat_ucast_u64 unat_of_nat)
qed

lemma read_number_octets:
  assumes "machine_ok lib"
  shows "read_number lib (be_octets 2 (unat (v :: u16))) = ucast v"
    and "read_number lib (be_octets 4 (unat (w :: u32))) = ucast w"
    and "read_number lib (be_octets 8 (unat (x :: u64))) = x"
proof -
  note read = read_number_value [OF assms]
  show "read_number lib (be_octets 2 (unat v)) = ucast v"
    by (rule iffD2 [OF word_unat_eq_iff]) (simp add: read be_value_octets_word unat_ucast_u64)
  show "read_number lib (be_octets 4 (unat w)) = ucast w"
    by (rule iffD2 [OF word_unat_eq_iff]) (simp add: read be_value_octets_word unat_ucast_u64)
  show "read_number lib (be_octets 8 (unat x)) = x"
    by (rule iffD2 [OF word_unat_eq_iff]) (simp add: read be_value_octets_word)
qed

end
