(* ===== verification/Pcp_Responses.thy ===== *)
theory Pcp_Responses
  imports Pcp_Parser
begin

text \<open>
  Port control: what the scanner and the parser of theory \<open>Pcp_Parser\<close> make of the responses of a
  server. The responses are the octets RFC 6887 and RFC 7652 ask for (\<open>response_wire\<close>); the lemmas go over
  them production by production (\<open>passes\<close>), for all opcodes and all options. The properties compare what
  is stored with what was sent, in both modes of the scanner, and for allocators with and without room
  behind a block; the last one follows a truncated response to \<open>PCP_Session_T::notify\<close>.
\<close>

section \<open>Stepping over octets\<close>

lemmas octet_steps =
  number_rule.simps(2,3,7,12,21,22,24,25) [THEN yyparse_octet, simplified]

lemmas word_steps =
  number_rule.simps(4,5,6,8-11,13-20,23,26-36) [THEN yyparse_number, simplified]

lemma field_whole [simp]: "length bs = n \<Longrightarrow> octets_at 0 n bs = bs"
  by (simp add: octets_at_def)

lemma field_nonce: "octets_at 4 8 (nonce_octets v) = be_octets 8 (unat v)"
  by (simp add: octets_at_def nonce_octets_eq)

lemma field_v4_mapped: "octets_at 12 4 (v4_mapped a) = be_octets 4 (unat (addr_ip a))"
  by (simp add: octets_at_def v4_mapped_def)

lemma length_reserved_octets [simp]: "length (reserved_octets v) = 12"
  by (simp add: reserved_octets_def)

lemma read_reserved_octets:
  assumes "machine_ok lib"
  shows "read_number lib (octets_at 4 8 (reserved_octets v)) = ucast v"
proof -
  have "octets_at 4 8 (reserved_octets v) = replicate 4 0 @ be_octets 4 (unat v)"
    by (simp add: octets_at_def reserved_octets_def)
  then show ?thesis
    by (intro iffD2 [OF word_unat_eq_iff])
       (simp add: read_number_value [OF assms] be_value_zeros be_value_octets_word unat_ucast_u64)
qed

lemma ucast_up_down: "LENGTH('a::len) \<le> 64 \<Longrightarrow> ucast (ucast (v :: 'a word) :: u64) = v"
  by (rule bit_word_eqI) (auto simp: bit_simps dest: bit_imp_le_length)

text \<open>
  Going over octets: whatever follows, and whatever \<open>yylval\<close> holds, the parser gets from one state,
  start condition and record to another.
\<close>

definition passes ::
    "pcp_library \<Rightarrow> (inet_addr \<Rightarrow> string) \<Rightarrow> pcp_parser \<times> pcp_scan_state \<times> PCP_Record \<Rightarrow> byte list
     \<Rightarrow> pcp_parser \<times> pcp_scan_state \<times> PCP_Record \<Rightarrow> bool" where
  "passes lib ip_text = (\<lambda>(gs, st, r) bs (gs', st', r').
     \<forall>y rest. \<exists>y'.
       pcp_yyparse lib ip_text gs \<lparr>scan_start = st, scan_yylval = y, scan_padding = 0\<rparr> r (bs @ rest)
       = pcp_yyparse lib ip_text gs' \<lparr>scan_start = st', scan_yylval = y', scan_padding = 0\<rparr> r' rest)"

lemma passes_trans [trans]:
  assumes "passes lib ip_text a bs b" "passes lib ip_text b cs c"
  shows "passes lib ip_text a (bs @ cs) c"
  using assms unfolding passes_def by (clarsimp split: prod.splits) (metis (no_types))

lemma passes_finish:
  assumes "passes lib ip_text (gs, st_INITIAL, r) bs (([], place), st, r')"
  shows "pcp_yyparse lib ip_text gs \<lparr>scan_start = st_INITIAL, scan_yylval = y, scan_padding = 0\<rparr> r bs
           = Inr (Some r')"
proof -
  obtain y' where "pcp_yyparse lib ip_text gs \<lparr>scan_start = st_INITIAL, scan_yylval = y, scan_padding = 0\<rparr> r (bs @ [])
      = pcp_yyparse lib ip_text ([], place) \<lparr>scan_start = st, scan_yylval = y', scan_padding = 0\<rparr> r' []"
    using assms unfolding passes_def prod.case by blast
  then show ?thesis
    by (subst (asm) (2) pcp_yyparse.simps) (simp add: pcp_yylex_def)
qed

lemma opcode_bit: "opcode_of u = v \<Longrightarrow> (0x80 OR v) AND 0x80 \<noteq> 0 \<and> (0x80 OR v) AND 0x7F = v"
  by (cases u) auto

definition header_record :: "PCP_Record \<Rightarrow> PCP_Record" where
  "header_record r =
     new_PCP_Record\<lparr>pcp_version := pcp_version r, pcp_opcode := pcp_opcode r,
       pcp_reserved := pcp_reserved r, pcp_result_code := pcp_result_code r,
       pcp_lifetime := pcp_lifetime r, pcp_epoch_time := pcp_epoch_time r,
       pcp_reserved_2 := pcp_reserved_2 r\<rparr>"

definition data_state :: "pcp_opcode_data \<Rightarrow> pcp_scan_state" where
  "data_state u = the (after_header (opcode_of u))"

lemma ucast_byte:
  assumes "(v :: u32) < 256"
  shows "ucast (ucast (ucast v :: byte) :: u64) = v"
proof -
  have "take_bit 8 (unat v) = unat v"
    using assms by (simp add: take_bit_nat_eq_self word_less_nat_alt)
  then have "unat (ucast v :: byte) = unat v"
    by (simp add: unsigned_ucast_eq unsigned_take_bit_eq)
  then show ?thesis
    by (simp add: word_unat_eq_iff unat_ucast_u64 unsigned_ucast_eq unsigned_take_bit_eq take_bit_nat_eq_self)
qed

lemma header_passes:
  assumes "machine_ok lib" "pcp_opcode r = opcode_of (pcp_data r)" "pcp_version r < 256"
    "pcp_result_code r < 256"
  shows "passes lib ip_text ((header_tokens, After_header), st_INITIAL, new_PCP_Record)
     (response_header r) (([], After_header), data_state (pcp_data r), header_record r)"
proof -
  have small: "ucast (ucast (ucast (pcp_version r) :: byte) :: u64) = pcp_version r"
    "ucast (ucast (ucast (pcp_result_code r) :: byte) :: u64) = pcp_result_code r"
    using assms(3,4) by (simp_all add: ucast_byte)
  have "after_header (opcode_of (pcp_data r)) = Some (data_state (pcp_data r))"
    by (cases "pcp_data r") (simp_all add: data_state_def)
  then show ?thesis
    using assms(1,2) opcode_bit [of "pcp_data r" "pcp_opcode r"] small
    by (auto simp: passes_def response_header_def header_tokens_def yyparse_INITIAL yyparse_opcode
       octet_steps word_steps yyparse_reserved_2 continue_def pcp_action_def read_number_octets
       read_reserved_octets header_record_def new_PCP_Record_def ucast_up_down)
qed

lemma reserved_24:
  assumes "(v :: u32) < 2 ^ 24"
  shows "ucast (y OR push_bit 16 (ucast (ucast (drop_bit 16 v) :: byte)) OR push_bit 8 (ucast (ucast (drop_bit 8 v) :: byte))
           OR ucast (ucast v :: byte) :: u64) = ucast y OR v"
proof -
  have "take_bit 24 (unat v) = unat v"
    using assms by (simp add: take_bit_nat_eq_self word_less_nat_alt)
  then have "take_bit 24 v = v"
    by (simp add: word_unat_eq_iff unsigned_take_bit_eq)
  then have top: "n < 24" if "bit v n" for n
    using that by (metis bit_take_bit_iff)
  have "bit (ucast (y OR push_bit 16 (ucast (ucast (drop_bit 16 v) :: byte)) OR push_bit 8 (ucast (ucast (drop_bit 8 v) :: byte))
           OR ucast (ucast v :: byte) :: u64) :: u32) n = bit (ucast y OR v) n" if "n < 32" for n
  proof -
    consider "n < 8" | "8 \<le> n" "n < 16" | "16 \<le> n" "n < 24" | "24 \<le> n"
      by linarith
    then show ?thesis
      using \<open>n < 32\<close> top [of n] by cases (auto simp: bit_simps)
  qed
  then show ?thesis
    by (intro bit_word_eqI) simp
qed

lemma be_octets_3:
  "be_octets 3 (unat (v :: u32)) = [ucast (drop_bit 16 v), ucast (drop_bit 8 v), ucast v]"
proof -
  have "(word_of_nat (unat v div 2 ^ k) :: byte) = ucast (drop_bit k v)" for k
  proof -
    have "unat v div 2 ^ k = unat (drop_bit k v)"
      by (simp only: unat_drop_bit_eq) (simp add: drop_bit_eq_div)
    then show ?thesis
      by (simp only: of_nat_unat)
  qed
  from this [of 0] this [of 8] this [of 16] show ?thesis
    by (simp add: numeral_3_eq_3 div_mult2_eq [symmetric])
qed


text \<open>The ports of a record belong to its addresses, and 24 bits hold the reserved octets.\<close>

definition at_port :: "inet_addr option \<Rightarrow> u16 \<Rightarrow> bool" where
  "at_port address port \<longleftrightarrow> (case address of None \<Rightarrow> False | Some a \<Rightarrow> addr_port a = port)"

fun response_data_ok :: "pcp_opcode_data \<Rightarrow> bool" where
  "response_data_ok (Map_data d) \<longleftrightarrow>
     map_reserved d < 2 ^ 24 \<and> at_port (map_external_address d) (map_external_port d)"
| "response_data_ok (Peer_data d) \<longleftrightarrow>
     peer_reserved d < 2 ^ 24 \<and> at_port (peer_external_address d) (peer_external_port d)
     \<and> at_port (peer_remote_address d) (peer_remote_port d)"
| "response_data_ok _ \<longleftrightarrow> True"

lemma at_port_new [simp]:
  "at_port address port \<Longrightarrow> new_address port (ucast (addr_ip (the address))) = address"
  by (cases address) (auto simp: at_port_def new_address_def ucast_up_down)

lemmas pcp_step_simps =
  octet_steps word_steps yyparse_INITIAL yyparse_opcode yyparse_reserved_2 yyparse_reserved continue_def
  pcp_action_def production_def field_nonce field_v4_mapped read_number_octets ucast_up_down

lemma octet_up: "ucast (ucast (b :: byte) :: u64) = (ucast b :: u32)"
  by (rule bit_word_eqI) (auto simp: bit_simps dest: bit_imp_le_length)

lemma map_written:
  "(x :: PCPOpcodeMapData)\<lparr>map_nonce := map_nonce d, map_protocol := map_protocol d, map_reserved := v,
     map_internal_port := map_internal_port d, map_external_port := map_external_port d,
     map_external_address := map_external_address d\<rparr> = d\<lparr>map_reserved := v\<rparr>"
  by simp

lemma peer_written:
  "(x :: PCPOpcodePeerData)\<lparr>peer_nonce := peer_nonce d, peer_protocol := peer_protocol d, peer_reserved := v,
     peer_internal_port := peer_internal_port d, peer_external_port := peer_external_port d,
     peer_external_address := peer_external_address d, peer_remote_port := peer_remote_port d,
     peer_reserved_2 := peer_reserved_2 d, peer_remote_address := peer_remote_address d\<rparr>
   = d\<lparr>peer_reserved := v\<rparr>"
  by simp

lemma data_passes:
  assumes "machine_ok lib" "response_data_ok (pcp_data r)"
  shows "\<exists>gs. passes lib ip_text (([], After_header), data_state (pcp_data r), header_record r)
     (response_data (pcp_data r)) (([], gs), st_option_code, (header_record r)\<lparr>pcp_data := heard_data (pcp_data r)\<rparr>)"
proof (cases "pcp_data r")
  case (Map_data d)
  have "passes lib ip_text (([], After_header), data_state (pcp_data r), header_record r)
     (response_data (pcp_data r)) (([], Within_options), st_option_code, (header_record r)\<lparr>pcp_data := heard_data (pcp_data r)\<rparr>)"
    using assms Map_data reserved_24 [of "map_reserved d" "ucast (map_protocol d)"]
    by (auto simp: passes_def data_state_def pcp_step_simps be_octets_3 opcode_productions_def upd_map_def
         map_written octet_up or.commute)
  then show ?thesis ..
next
  case (Peer_data d)
  have "passes lib ip_text (([], After_header), data_state (pcp_data r), header_record r)
     (response_data (pcp_data r)) (([], Within_options), st_option_code, (header_record r)\<lparr>pcp_data := heard_data (pcp_data r)\<rparr>)"
    using assms Peer_data reserved_24 [of "peer_reserved d" "ucast (peer_protocol d)"]
    by (auto simp: passes_def data_state_def pcp_step_simps be_octets_3 opcode_productions_def upd_peer_def
         peer_written octet_up or.commute)
  then show ?thesis ..
next
  case (Authentication_data i n)
  have "passes lib ip_text (([], After_header), data_state (pcp_data r), header_record r)
     (response_data (pcp_data r)) (([], Within_options), st_option_code, (header_record r)\<lparr>pcp_data := heard_data (pcp_data r)\<rparr>)"
    using assms Authentication_data
    by (auto simp: passes_def data_state_def pcp_step_simps opcode_productions_def)
  then show ?thesis ..
next
  case No_opcode_data
  then show ?thesis
   by (auto simp: passes_def data_state_def header_record_def new_PCP_Record_def)
qed

text \<open>
  An allocator that leaves room behind every block of the size of an option, as those that round sizes
  up and add a header mostly do.
\<close>

definition spare_byte :: "pcp_library \<Rightarrow> bool" where
  "spare_byte lib \<longleftrightarrow> (\<forall>n < 2 ^ 16. \<exists>usable. usable_bytes lib n = Some usable \<and> n < usable)"

definition exact_blocks :: "pcp_library \<Rightarrow> bool" where
  "exact_blocks lib \<longleftrightarrow> (\<forall>n < 2 ^ 16. usable_bytes lib n = Some n)"

lemma data_count:
  assumes "data_rule st = Some (before, token)" "0 < m" "unat (len :: u16) = unat before + m"
  shows "unat (ucast len - before - 1 :: u32) = m - 1" "m - 1 < 2 ^ 16"
proof -
  show "unat (ucast len - before - 1 :: u32) = m - 1"
    using assms unat_ucast_minus [of 13 len] unat_ucast_minus [of 5 len] unat_ucast_minus [of 1 len]
    by (cases st) simp_all
  show "m - 1 < 2 ^ 16"
    using assms(3) unsigned_less [of len, where 'a = nat] by simp
qed

lemma data_state_rules:
  assumes "data_rule st = Some (before, token)"
  shows "number_rule st = None" "st \<noteq> st_INITIAL" "st \<noteq> st_option_padding" "token \<noteq> PCP_END"
  using assms by (cases st; simp)+

lemma yyparse_data:
  assumes "data_rule st = Some (before, token)" "spare_byte lib" "pcp_options r \<noteq> []" "bs \<noteq> []"
    and len: "unat (opt_length (last (pcp_options r))) = unat before + length bs"
  shows "pcp_yyparse lib ip_text gs \<lparr>scan_start = st, scan_yylval = y, scan_padding = 0\<rparr> r (bs @ rest)
     = (let p = (unat before + length bs) mod 4 in
        continue lib ip_text gs (if p \<noteq> 0 then st_option_padding else st_option_code)
          (if p \<noteq> 0 then 4 - p else 0) r token (Aval bs) rest)"
proof -
  have "0 < length bs"
    using assms(4) by simp
  note count = data_count [OF assms(1) this len]
  then obtain usable where "usable_bytes lib (length bs - 1) = Some usable" "length bs - 1 < usable"
    using assms(2) by (auto simp: spare_byte_def)
  moreover have "\<not> length bs + length rest \<le> length bs - Suc 0"
    using assms(4) by (cases bs) auto
  ultimately show ?thesis
    using assms(1,3,4) len data_state_rules [OF assms(1)]
    by (subst pcp_yyparse.simps)
       (auto simp: pcp_yylex_def scan_rule_def scan_data_def options_back_def continue_def count Let_def
          split: option.split)
qed

lemma yyparse_data_overrun:
  assumes "data_rule st = Some (before, token)" "exact_blocks lib" "pcp_options r \<noteq> []" "bs \<noteq> []"
    and len: "unat (opt_length (last (pcp_options r))) = unat before + length bs"
  shows "pcp_yyparse lib ip_text gs \<lparr>scan_start = st, scan_yylval = y, scan_padding = 0\<rparr> r (bs @ rest)
     = Inl Out_of_bounds"
proof -
  have "0 < length bs"
    using assms(4) by simp
  note count = data_count [OF assms(1) this len]
  then have "usable_bytes lib (length bs - 1) = Some (length bs - 1)"
    using assms(2) by (simp add: exact_blocks_def)
  then show ?thesis
    using assms(1,3,4) len data_state_rules [OF assms(1)] count
    by (subst pcp_yyparse.simps) (simp add: pcp_yylex_def scan_rule_def scan_data_def options_back_def Let_def)
qed

lemma yyparse_padding:
  assumes "0 < k"
  shows "pcp_yyparse lib ip_text gs \<lparr>scan_start = st_option_padding, scan_yylval = y, scan_padding = k\<rparr> r
           (replicate k 0 @ rest)
         = pcp_yyparse lib ip_text gs \<lparr>scan_start = st_option_code, scan_yylval = y, scan_padding = 0\<rparr> r rest"
  using assms
  by (subst (1 2) pcp_yyparse.simps) (simp add: pcp_yylex_def scan_padding_rule_def)

lemma padded_padding: "padded n - n = (if n mod 4 = 0 then 0 else 4 - n mod 4)"
  unfolding padded_def by presburger

lemma data_option_passes:
  assumes "data_rule st = Some (before, token)" "spare_byte lib" "pcp_options r \<noteq> []" "bs \<noteq> []"
    and "unat (opt_length (last (pcp_options r))) = unat before + length bs"
    and "pcp_shift gs token = Some gs'" "data_action token bs r = Inr r'"
  shows "passes lib ip_text (gs, st, r)
     (bs @ replicate (padded (unat before + length bs) - (unat before + length bs)) 0) (gs', st_option_code, r')"
  using assms(6,7)
  by (auto simp: passes_def yyparse_data [OF assms(1-5)] continue_def pcp_action_def yyparse_padding
       padded_padding Let_def)


text \<open>One option, and all options.\<close>

definition response_option_ok :: "PCPOption \<Rightarrow> bool" where
  "response_option_ok opt \<longleftrightarrow> option_ok opt
     \<and> (case opt_data opt of
           Third_party a \<Rightarrow> at_port a 0
         | Port_filter reserved prefix_length port a \<Rightarrow> at_port a port
         | Authentication_tag session_id sequence_number key_id data \<Rightarrow> data \<noteq> Some []
         | PA_authentication_tag key_id data \<Rightarrow> data \<noteq> Some []
         | EAP_payload data \<Rightarrow> data \<noteq> Some []
         | Id_indicator data \<Rightarrow> data \<noteq> Some []
         | _ \<Rightarrow> True)"

definition option_state :: "pcp_option_data \<Rightarrow> pcp_scan_state" where
  "option_state u = the (after_length (data_code u))"

lemma option_head_passes:
  assumes "machine_ok lib" "option_ok opt"
  shows "passes lib ip_text (([], place), st_option_code, r)
     ([ucast (opt_code opt), opt_reserved opt] @ be_octets 2 (unat (opt_length opt)))
     (([], Within_option_data), option_state (opt_data opt),
      r\<lparr>pcp_options := pcp_options r @ [opt\<lparr>opt_data := No_option_data\<rparr>]\<rparr>)"
proof -
  have "ucast (ucast (ucast (opt_code opt) :: byte) :: u64) = opt_code opt"
    using assms(2) by (intro ucast_byte) (cases "opt_data opt"; simp add: option_ok_def)
  moreover have "after_length (opt_code opt) = Some (option_state (opt_data opt))"
    using assms(2) by (cases "opt_data opt") (simp_all add: option_ok_def option_state_def)
  ultimately show ?thesis
    using assms(1)
    by (cases opt)
       (auto simp: passes_def pcp_step_simps yyparse_option_length new_PCPOption_def upd_back_def
          options_back_def simp del: after_length.simps)
qed

abbreviation with_option :: "PCP_Record \<Rightarrow> PCPOption \<Rightarrow> pcp_option_data \<Rightarrow> PCP_Record" where
  "with_option r opt u \<equiv> r\<lparr>pcp_options := pcp_options r @ [opt\<lparr>opt_data := u\<rparr>]\<rparr>"

abbreviation option_padding :: "PCPOption \<Rightarrow> byte list" where
  "option_padding opt \<equiv> replicate (padded (unat (opt_length opt)) - unat (opt_length opt)) 0"

lemmas option_step_simps =
  pcp_step_simps option_data_productions_def upd_data_def upd_back_def options_back_def option_state_def

lemma fixed_option_passes:
  assumes "machine_ok lib" "response_option_ok opt" "data_code (opt_data opt) \<notin> {5, 6, 7, 12}"
  shows "\<exists>place. passes lib ip_text
     (([], Within_option_data), option_state (opt_data opt), with_option r opt No_option_data)
     (option_octets (opt_data opt) @ option_padding opt) (([], place), st_option_code, with_option r opt (opt_data opt))"
proof -
  let ?place = "if data_code (opt_data opt) = 2 then Within_option_data else Within_options"
  have "passes lib ip_text
     (([], Within_option_data), option_state (opt_data opt), with_option r opt No_option_data)
     (option_octets (opt_data opt) @ option_padding opt) (([], ?place), st_option_code, with_option r opt (opt_data opt))"
    using assms
    by (cases "opt_data opt")
       (auto simp: passes_def response_option_ok_def option_ok_def option_step_simps
          padded_padding [where n = 0, simplified] padded_padding at_port_new [where port = 0, simplified])
  then show ?thesis ..
qed

text \<open>An option of variable length: the octets in front of its data, and what the data token does.\<close>

lemma variable_option_front:
  assumes "machine_ok lib" "response_option_ok opt" "data_code (opt_data opt) \<in> {5, 6, 7, 12}"
  shows "\<exists>front bs gs st before token u.
     option_octets (opt_data opt) = front @ bs \<and> bs \<noteq> []
     \<and> passes lib ip_text (([], Within_option_data), option_state (opt_data opt), with_option r opt No_option_data)
         front (gs, st, with_option r opt u)
     \<and> data_rule st = Some (before, token) \<and> unat (opt_length opt) = unat before + length bs
     \<and> pcp_shift gs token = Some ([], Within_options)
     \<and> data_action token bs (with_option r opt u) = Inr (with_option r opt (opt_data opt))"
  (is "\<exists>front bs gs st before token u. ?P front bs gs st before token u")
proof (cases "opt_data opt")
  case (Authentication_tag i n k data)
  then have "?P (be_octets 4 (unat i) @ be_octets 4 (unat n) @ be_octets 4 (unat k)) (the data)
    ([OPTION_AUTHENTICATION_TAG_DATA], Within_options) st_tag_data 12 OPTION_AUTHENTICATION_TAG_DATA
    (Authentication_tag i n k None)"
    using assms(1,2) by (auto simp: passes_def option_step_simps response_option_ok_def option_ok_def)
  then show ?thesis
    by blast
next
  case (PA_authentication_tag k data)
  then have "?P (be_octets 4 (unat k)) (the data) ([OPTION_PA_AUTHENTICATION_TAG_DATA], Within_options)
    st_pa_tag_data 4 OPTION_PA_AUTHENTICATION_TAG_DATA (PA_authentication_tag k None)"
    using assms(1,2) by (auto simp: passes_def option_step_simps response_option_ok_def option_ok_def)
  then show ?thesis
    by blast
next
  case (EAP_payload data)
  then have "?P [] (the data) ([], Within_option_data) st_eap_payload 0 OPTION_EAP_PAYLOAD_DATA No_option_data"
    using assms(2) by (auto simp: passes_def option_step_simps response_option_ok_def option_ok_def)
  then show ?thesis
    by blast
next
  case (Id_indicator data)
  then have "?P [] (the data) ([], Within_option_data) st_id_indicator 0 OPTION_ID_INDICATOR_DATA No_option_data"
    using assms(2) by (auto simp: passes_def option_step_simps response_option_ok_def option_ok_def)
  then show ?thesis
    by blast
qed (use assms(3) in simp_all)

lemma variable_option_passes:
  assumes "machine_ok lib" "spare_byte lib" "response_option_ok opt" "data_code (opt_data opt) \<in> {5, 6, 7, 12}"
  shows "passes lib ip_text
     (([], Within_option_data), option_state (opt_data opt), with_option r opt No_option_data)
     (option_octets (opt_data opt) @ option_padding opt)
     (([], Within_options), st_option_code, with_option r opt (opt_data opt))"
proof -
  obtain front bs gs st before token u where
    octets: "option_octets (opt_data opt) = front @ bs" "bs \<noteq> []"
    and front: "passes lib ip_text
      (([], Within_option_data), option_state (opt_data opt), with_option r opt No_option_data)
      front (gs, st, with_option r opt u)"
    and data: "data_rule st = Some (before, token)" "unat (opt_length opt) = unat before + length bs"
      "pcp_shift gs token = Some ([], Within_options)"
      "data_action token bs (with_option r opt u) = Inr (with_option r opt (opt_data opt))"
    using variable_option_front [OF assms(1,3,4), of ip_text r] by auto
  have "passes lib ip_text (gs, st, with_option r opt u) (bs @ option_padding opt)
     (([], Within_options), st_option_code, with_option r opt (opt_data opt))"
    using data_option_passes [OF data(1) assms(2) _ octets(2) _ data(3,4)] data(2) by simp
  from passes_trans [OF front this] octets show ?thesis
    by simp
qed

definition fixed_size :: "PCPOption \<Rightarrow> bool" where
  "fixed_size opt \<longleftrightarrow> data_code (opt_data opt) \<notin> {5, 6, 7, 12}"

lemma option_passes:
  assumes "machine_ok lib" "response_option_ok opt" "spare_byte lib \<or> fixed_size opt"
  shows "\<exists>place'. passes lib ip_text (([], place), st_option_code, r) (padded_option opt)
     (([], place'), st_option_code, r\<lparr>pcp_options := pcp_options r @ [opt]\<rparr>)"
proof -
  have whole: "opt\<lparr>opt_data := opt_data opt\<rparr> = opt"
    by simp
  have "option_ok opt"
    using assms(2) by (simp add: response_option_ok_def)
  note head = option_head_passes [OF assms(1) this, of ip_text place r]
  obtain place' where "passes lib ip_text
     (([], Within_option_data), option_state (opt_data opt), with_option r opt No_option_data)
     (option_octets (opt_data opt) @ option_padding opt) (([], place'), st_option_code, with_option r opt (opt_data opt))"
    using fixed_option_passes [OF assms(1,2), of ip_text r] variable_option_passes [OF assms(1) _ assms(2), of ip_text r]
      assms(3) unfolding fixed_size_def by blast
  from passes_trans [OF head this] show ?thesis
    by (auto simp: padded_option_def option_wire_def whole)
qed

lemma options_pass:
  assumes "machine_ok lib" "spare_byte lib \<or> list_all fixed_size opts" "list_all response_option_ok opts"
  shows "\<exists>place'. passes lib ip_text (([], place), st_option_code, r) (concat (map padded_option opts))
     (([], place'), st_option_code, r\<lparr>pcp_options := pcp_options r @ opts\<rparr>)"
  using assms(2,3)
proof (induction opts arbitrary: place r)
  case Nil
  then show ?case
    by (auto simp: passes_def)
next
  case (Cons opt opts)
  obtain p where p: "passes lib ip_text (([], place), st_option_code, r) (padded_option opt)
     (([], p), st_option_code, r\<lparr>pcp_options := pcp_options r @ [opt]\<rparr>)"
    using option_passes [OF assms(1), of opt ip_text place r] Cons.prems by auto
  obtain q where "passes lib ip_text (([], p), st_option_code, r\<lparr>pcp_options := pcp_options r @ [opt]\<rparr>)
     (concat (map padded_option opts)) (([], q), st_option_code, r\<lparr>pcp_options := pcp_options r @ opt # opts\<rparr>)"
    using Cons.IH [of p "r\<lparr>pcp_options := pcp_options r @ [opt]\<rparr>"] Cons.prems by auto
  from passes_trans [OF p this] show ?case
    by auto
qed

definition response_ok :: "PCP_Record \<Rightarrow> bool" where
  "response_ok r \<longleftrightarrow> pcp_version r < 256 \<and> pcp_result_code r < 256
     \<and> pcp_opcode r = opcode_of (pcp_data r) \<and> response_data_ok (pcp_data r)
     \<and> list_all response_option_ok (pcp_options r)"

lemma heard_record:
  "(header_record r)\<lparr>pcp_data := heard_data (pcp_data r), pcp_options := pcp_options r\<rparr> = heard r"
  by (simp add: header_record_def heard_def new_PCP_Record_def)

lemma response_passes:
  assumes "machine_ok lib" "spare_byte lib \<or> list_all fixed_size (pcp_options r)" "response_ok r"
  shows "\<exists>place. passes lib ip_text ((header_tokens, After_header), st_INITIAL, new_PCP_Record)
     (response_wire r) (([], place), st_option_code, heard r)"
proof -
  have ok: "pcp_opcode r = opcode_of (pcp_data r)" "pcp_version r < 256" "pcp_result_code r < 256"
    "response_data_ok (pcp_data r)" "list_all response_option_ok (pcp_options r)"
    using assms(3) by (simp_all add: response_ok_def)
  let ?data = "(header_record r)\<lparr>pcp_data := heard_data (pcp_data r)\<rparr>"
  note header = header_passes [OF assms(1) ok(1-3), of ip_text]
  obtain p where data: "passes lib ip_text (([], After_header), data_state (pcp_data r), header_record r)
     (response_data (pcp_data r)) (([], p), st_option_code, ?data)"
    using data_passes [OF assms(1) ok(4), of ip_text] by blast
  have "pcp_options ?data = []"
    by (simp add: header_record_def new_PCP_Record_def)
  then obtain q where opts: "passes lib ip_text (([], p), st_option_code, ?data)
     (concat (map padded_option (pcp_options r))) (([], q), st_option_code, heard r)"
    using options_pass [OF assms(1,2) ok(5), of ip_text p ?data] by (auto simp: heard_record)
  show ?thesis
    using passes_trans [OF header passes_trans [OF data opts]] by (auto simp: response_wire_def)
qed

section \<open>Responses in both modes of the scanner\<close>

lemma run_map_ok: "\<forall>x \<in> set xs. \<exists>y. f x = Inr y \<Longrightarrow> \<exists>ys. run_map f xs = Inr ys"
  by (induction xs) auto

lemma zero_option_refused:
  assumes "response_ok r"
  shows "pcp_yyparse lib ip_text ([], place) \<lparr>scan_start = st_option_code, scan_yylval = y, scan_padding = 0\<rparr>
       (heard r) [0, 0] = Inr None"
proof -
  let ?zero = "\<lparr>opt_code = 0, opt_reserved = 0, opt_length = 0, opt_data = No_option_data\<rparr>"
  let ?r = "(heard r)\<lparr>pcp_options := pcp_options r @ [?zero]\<rparr>"
  have data: "addresses_present (heard_data (pcp_data r))" "opcode_of (heard_data (pcp_data r)) = pcp_opcode r"
    using assms by (cases "pcp_data r"; auto simp: response_ok_def at_port_def split: option.splits)+
  obtain s where "dump_opcode ip_text (pcp_opcode r) (heard_data (pcp_data r)) = Inr (Some s)"
    using dump_opcode_ok [OF data(1), of ip_text] data(2) by auto
  moreover have "\<exists>t. dump_option ip_text ?zero = Inr t"
    by (simp add: dump_option_def dump_option_data_def Let_def)
  then obtain ss where "run_map (dump_option ip_text) (pcp_options r @ [?zero]) = Inr ss"
    using assms run_map_ok [of "pcp_options r @ [?zero]" "dump_option ip_text"]
    by (auto simp: response_ok_def response_option_ok_def list_all_iff dump_option_ok)
  ultimately have "\<exists>t. pcp_dump ip_text ?r = Inr t"
    by (auto simp: pcp_dump_def heard_def Let_def)
  then have "pcp_yyparse lib ip_text ([OPTION_LENGTH], Within_option_data)
      \<lparr>scan_start = st_option_length, scan_yylval = Ival 0, scan_padding = 0\<rparr> ?r [] = Inr None"
    by (subst pcp_yyparse.simps) (auto simp: pcp_yylex_def)
  then show ?thesis
    by (simp add: pcp_step_simps new_PCPOption_def upd_back_def options_back_def heard_def)
qed

lemma scan_bytes_refuses:
  assumes "response_ok r"
    and "passes lib ip_text ((header_tokens, After_header), st_INITIAL, new_PCP_Record)
      (response_wire r) (([], place), st_option_code, heard r)"
  shows "driver_parse lib ip_text False new_PCP_Record (response_wire r) = Inr None"
proof -
  obtain y where "pcp_yyparse lib ip_text (header_tokens, After_header)
       \<lparr>scan_start = st_INITIAL, scan_yylval = Ival 0, scan_padding = 0\<rparr> new_PCP_Record (response_wire r @ [0, 0])
     = pcp_yyparse lib ip_text ([], place) \<lparr>scan_start = st_option_code, scan_yylval = y, scan_padding = 0\<rparr>
       (heard r) [0, 0]"
    using assms(2) unfolding passes_def prod.case by blast
  then show ?thesis
    using zero_option_refused [OF assms(1)] by (simp add: driver_parse_def)
qed

lemma notify_complete:
  assumes "response_ok r"
  shows "pcp_notify (Some (heard r)) = Inr (record_dynamic r)"
proof -
  have "members_ok (heard r)"
    using assms by (cases "pcp_data r") (auto simp: members_ok_def response_ok_def heard_def list_all_iff
       response_option_ok_def option_ok_def)
  moreover have "record_dynamic (heard r) = record_dynamic r"
    by (cases "pcp_data r") (simp_all add: record_dynamic_def heard_def)
  ultimately show ?thesis
    using pcp_free_complete [of "heard r"] by (auto simp: pcp_notify_def)
qed

text \<open>
  A response to a mapping request, with the address of a third party and a payload of five octets, which
  takes three octets of padding.
\<close>

definition example_response :: PCP_Record where
  "example_response =
     new_PCP_Record\<lparr>pcp_version := 2, pcp_opcode := 1, pcp_result_code := 0, pcp_lifetime := 3600,
       pcp_epoch_time := 86400,
       pcp_data := Map_data \<lparr>map_nonce = 0x1122334455, map_protocol = 6, map_reserved = 0,
         map_internal_port = 6881, map_external_port = 40000,
         map_external_address = Some \<lparr>addr_ip = 0xCB007105, addr_port = 40000\<rparr>\<rparr>,
       pcp_options :=
         [\<lparr>opt_code = 1, opt_reserved = 0, opt_length = 16,
           opt_data = Third_party (Some \<lparr>addr_ip = 0xC0A80109, addr_port = 0\<rparr>)\<rparr>,
          \<lparr>opt_code = 7, opt_reserved = 0, opt_length = 5, opt_data = EAP_payload (Some [2, 1, 0, 5, 1])\<rparr>]\<rparr>"

lemma example_response_ok: "response_ok example_response"
  by (simp add: response_ok_def example_response_def response_option_ok_def option_ok_def at_port_def)

text \<open>C17: A response that follows RFC 6887 and RFC 7652, whatever its opcode, its options and their padding,
  is stored as it was sent if the scanner works on the message itself, but for the protocol, which shows
  in the reserved octets; the session then deletes exactly the addresses and data the response brought. If
  the scanner works on a copy, the parser refuses every such response: the two terminating zeros behind
  the message are taken for the beginning of an option. This holds of every response whose options have a
  fixed size; for one with an authentication tag, an EAP payload or an identity indicator it needs an
  allocator that leaves room behind each block (\<open>spare_byte\<close>), which C++ does not promise: without that
  room the same response is the fault of \<open>pcp_variable_option_overruns\<close>. The buffer has room for the two
  zeros behind the message.\<close>

theorem pcp_response_parses:
  assumes "machine_ok lib" "spare_byte lib \<or> list_all fixed_size (pcp_options r)" "response_ok r" "length (response_wire r) + 2 \<le> capacity"
  shows "parser_handleDataMessage lib ip_text True useYYScanBuffer new_PCP_Record (response_wire r) capacity
           = Inr (if useYYScanBuffer then Some (heard r) else None)
         \<and> pcp_notify (Some (heard r)) = Inr (record_dynamic r)"
proof -
  obtain place where passes: "passes lib ip_text ((header_tokens, After_header), st_INITIAL, new_PCP_Record)
     (response_wire r) (([], place), st_option_code, heard r)"
    using response_passes [OF assms(1,2,3)] by blast
  have "driver_parse lib ip_text True new_PCP_Record (response_wire r) = Inr (Some (heard r))"
    using passes_finish [OF passes] by (simp add: driver_parse_def)
  moreover note scan_bytes_refuses [OF assms(3) passes]
  ultimately show ?thesis
    using assms(4) notify_complete [OF assms(3)]
    by (cases useYYScanBuffer) (simp_all add: parser_handleDataMessage_def)
qed

theorem pcp_response_parses_witness:
  "parser_handleDataMessage pcp_example_library (\<lambda>a. []) True True new_PCP_Record
       (response_wire example_response) 1100 = Inr (Some (heard example_response))
   \<and> pcp_notify (Some (heard example_response))
       = Inr [Address \<lparr>addr_ip = 0xCB007105, addr_port = 40000\<rparr>,
              Address \<lparr>addr_ip = 0xC0A80109, addr_port = 0\<rparr>, Octets [2, 1, 0, 5, 1]]"
proof -
  have "length (response_wire example_response) = 92"
    by (simp add: response_wire_def response_header_def example_response_def padded_option_def option_wire_def
       padded_def)
  moreover have "record_dynamic example_response
      = [Address \<lparr>addr_ip = 0xCB007105, addr_port = 40000\<rparr>,
         Address \<lparr>addr_ip = 0xC0A80109, addr_port = 0\<rparr>, Octets [2, 1, 0, 5, 1]]"
    by (simp add: record_dynamic_def example_response_def deleted_def)
  moreover have "spare_byte pcp_example_library"
    by (simp add: spare_byte_def pcp_example_library_def)
  ultimately show ?thesis
    using pcp_response_parses [OF pcp_example_library_ok _ example_response_ok, of 1100 "\<lambda>a. []" True] by simp
qed

section \<open>Blocks without room behind them\<close>

lemma yyparse_option_overrun:
  assumes "machine_ok lib" "exact_blocks lib" "response_option_ok opt" "\<not> fixed_size opt"
  shows "pcp_yyparse lib ip_text ([], place) \<lparr>scan_start = st_option_code, scan_yylval = y, scan_padding = 0\<rparr> r
           (padded_option opt @ rest) = Inl Out_of_bounds"
proof -
  have "option_ok opt" and variable: "data_code (opt_data opt) \<in> {5, 6, 7, 12}"
    using assms(3,4) by (simp_all add: response_option_ok_def fixed_size_def)
  note head = option_head_passes [OF assms(1) this(1), of ip_text place r]
  obtain front bs gs st before token u where
    octets: "option_octets (opt_data opt) = front @ bs" "bs \<noteq> []"
    and front: "passes lib ip_text
      (([], Within_option_data), option_state (opt_data opt), with_option r opt No_option_data)
      front (gs, st, with_option r opt u)"
    and data: "data_rule st = Some (before, token)" "unat (opt_length opt) = unat before + length bs"
    using variable_option_front [OF assms(1,3) variable, of ip_text r] by auto
  let ?head = "[ucast (opt_code opt), opt_reserved opt] @ be_octets 2 (unat (opt_length opt))"
  obtain y' where "pcp_yyparse lib ip_text ([], place) \<lparr>scan_start = st_option_code, scan_yylval = y, scan_padding = 0\<rparr> r
      ((?head @ front) @ bs @ option_padding opt @ rest)
    = pcp_yyparse lib ip_text gs \<lparr>scan_start = st, scan_yylval = y', scan_padding = 0\<rparr> (with_option r opt u)
      (bs @ option_padding opt @ rest)"
    using passes_trans [OF head front] unfolding passes_def prod.case by blast
  moreover have "padded_option opt @ rest = (?head @ front) @ bs @ option_padding opt @ rest"
    by (simp add: padded_option_def option_wire_def octets)
  ultimately show ?thesis
    using yyparse_data_overrun [OF data(1) assms(2) _ octets(2)] data(2) by simp
qed

text \<open>C33: If \<open>new []\<close> provides exactly the octets asked for, a response with an authentication tag, an EAP
  payload or an identity indicator makes the scanner write behind the block, in both modes: it allocates
  one octet less than it stores.\<close>

theorem pcp_variable_option_overruns:
  assumes "machine_ok lib" "exact_blocks lib" "response_ok r" "\<not> list_all fixed_size (pcp_options r)"
  shows "driver_parse lib ip_text useYYScanBuffer new_PCP_Record (response_wire r) = Inl Out_of_bounds"
proof -
  obtain before opt after where opts: "pcp_options r = before @ opt # after" "\<not> fixed_size opt"
    "list_all fixed_size before"
    using assms(4) split_list_first_prop [of "pcp_options r" "Not \<circ> fixed_size"]
    by (auto simp: list_all_iff)
  let ?r = "r\<lparr>pcp_options := before\<rparr>"
  have ok: "response_ok ?r" "response_option_ok opt"
    using assms(3) opts(1) by (auto simp: response_ok_def)
  obtain place where "passes lib ip_text ((header_tokens, After_header), st_INITIAL, new_PCP_Record)
     (response_wire ?r) (([], place), st_option_code, heard ?r)"
    using response_passes [OF assms(1) _ ok(1), of ip_text] opts(3) by auto
  then have "\<exists>y. pcp_yyparse lib ip_text (header_tokens, After_header)
       \<lparr>scan_start = st_INITIAL, scan_yylval = Ival 0, scan_padding = 0\<rparr> new_PCP_Record
       (response_wire ?r @ padded_option opt @ rest)
     = pcp_yyparse lib ip_text ([], place) \<lparr>scan_start = st_option_code, scan_yylval = y, scan_padding = 0\<rparr>
       (heard ?r) (padded_option opt @ rest)" for rest
    unfolding passes_def prod.case by blast
  then have "pcp_yyparse lib ip_text (header_tokens, After_header)
       \<lparr>scan_start = st_INITIAL, scan_yylval = Ival 0, scan_padding = 0\<rparr> new_PCP_Record
       (response_wire ?r @ padded_option opt @ rest) = Inl Out_of_bounds" for rest
    using yyparse_option_overrun [OF assms(1,2) ok(2) opts(2)] by metis
  moreover have "response_wire r = response_wire ?r @ padded_option opt @ concat (map padded_option after)"
    using opts(1) by (simp add: response_wire_def response_header_def)
  ultimately show ?thesis
    by (simp add: driver_parse_def)
qed

theorem pcp_variable_option_overruns_witness:
  "driver_parse (pcp_example_library\<lparr>usable_bytes := Some\<rparr>) (\<lambda>a. []) True new_PCP_Record
     (response_wire example_response) = Inl Out_of_bounds"
proof (rule pcp_variable_option_overruns [OF _ _ example_response_ok])
  show "machine_ok (pcp_example_library\<lparr>usable_bytes := Some\<rparr>)"
    using pcp_example_library_ok by (simp add: machine_ok_def)
  show "exact_blocks (pcp_example_library\<lparr>usable_bytes := Some\<rparr>)"
    by (simp add: exact_blocks_def)
  show "\<not> list_all fixed_size (pcp_options example_response)"
    by (simp add: example_response_def fixed_size_def)
qed

section \<open>Truncated responses\<close>

text \<open>C34: A response to a MAP or PEER request that ends behind its header, as an error response cut short may,
  is accepted by the parser, and the session then deletes pointers of the union nothing has written.\<close>

theorem pcp_truncated_response_faults:
  assumes "machine_ok lib" "response_ok r" "pcp_opcode r \<in> {PCP_OPCODE_MAP, PCP_OPCODE_PEER}"
  shows "\<exists>stored. driver_parse lib ip_text True new_PCP_Record (response_header r) = Inr (Some stored)
     \<and> pcp_notify (Some stored) = Inl Out_of_bounds"
proof (intro exI conjI)
  have "pcp_opcode r = opcode_of (pcp_data r)" "pcp_version r < 256" "pcp_result_code r < 256"
    using assms(2) by (simp_all add: response_ok_def)
  note header_passes [OF assms(1) this, of ip_text]
  from passes_finish [OF this]
  show "driver_parse lib ip_text True new_PCP_Record (response_header r) = Inr (Some (header_record r))"
    by (simp add: driver_parse_def)
  show "pcp_notify (Some (header_record r)) = Inl Out_of_bounds"
    using assms(3)
    by (auto simp: pcp_notify_def pcp_free_def free_opcode_data_def clear_opcode_data_def header_record_def
       new_PCP_Record_def)
qed

theorem pcp_truncated_response_faults_witness:
  "\<exists>stored. driver_parse pcp_example_library (\<lambda>a. []) True new_PCP_Record (response_header example_response)
       = Inr (Some stored)
     \<and> pcp_notify (Some stored) = Inl Out_of_bounds"
  by (rule pcp_truncated_response_faults [OF pcp_example_library_ok example_response_ok])
     (simp add: example_response_def)

end
