(* ===== verification/Pop_Replies.thy ===== *)
theory Pop_Replies
  imports Net_Lines
begin

text \<open>
  POP3, the replies of the server: the rules of the scanner (\<open>pop_scanner.cpp\<close>, generated from
  \<open>scripts/scanner.l\<close>), the grammar (\<open>pop_parser.cpp\<close>, generated from \<open>scripts/parser.y\<close>) and the parser
  driver (\<open>pop_parser_driver.inl\<close>) on a buffer that holds everything received for a reply. The driver does
  not reset the scanner, so the start condition is an argument and a result.

  The reference are the replies of RFC 1939: a status line, behind which the lines of a multi-line reply
  follow with their leading dots doubled, up to a line that is a single dot.
\<close>

section \<open>Records\<close>

datatype POP_CommandType =
    POP_COMMAND_AUTH_USER | POP_COMMAND_AUTH_PASS | POP_COMMAND_AUTH_APOP | POP_COMMAND_AUTH_QUIT
  | POP_COMMAND_TRANS_STAT | POP_COMMAND_TRANS_LIST | POP_COMMAND_TRANS_RETR | POP_COMMAND_TRANS_DELE
  | POP_COMMAND_TRANS_NOOP | POP_COMMAND_TRANS_RSET | POP_COMMAND_TRANS_QUIT | POP_COMMAND_TRANS_TOP
  | POP_COMMAND_TRANS_UIDL | POP_COMMAND_UPDAT_QUIT | POP_COMMAND_MAX | POP_COMMAND_INVALID

record POP_Request =
  pop_command :: POP_CommandType
  pop_parameters :: "string list"

record POP_Record =
  pop_request :: POP_Request
  pop_status :: string
  pop_text :: "string list"

definition new_POP_Request :: POP_Request where
  "new_POP_Request = \<lparr>pop_command = POP_COMMAND_INVALID, pop_parameters = []\<rparr>"

definition new_POP_Record :: POP_Record where
  "new_POP_Record = \<lparr>pop_request = new_POP_Request, pop_status = [], pop_text = []\<rparr>"

section \<open>The scanner\<close>

datatype pop_token = REPLY_CODE string | REPLY_TEXT string | REPLY_TEXT_END | POP_END

datatype pop_start =
    sc_INITIAL | sc_reply_code | sc_text_begin | sc_text | sc_multiline_text_begin
  | sc_multiline_text_end | sc_multiline_text

text \<open>\<open>yytext\<close> is read as a string that ends with a zero.\<close>

definition c_str :: "string \<Rightarrow> string" where
  "c_str s = takeWhile (\<lambda>c. c \<noteq> CHR 0x00) s"

abbreviation crlf_next :: "string \<Rightarrow> bool" where
  "crlf_next s \<equiv> take 2 s = CRLF"

abbreviation no_cr :: "char \<Rightarrow> bool" where
  "no_cr c \<equiv> c \<noteq> CHR 0x0D"

text \<open>
  The rule that matches at the beginning of an input that is not empty: the token it returns, if it does,
  the next start condition, the string \<open>yylval->sval\<close> refers to, and the input behind the match. The last
  rule, which matches where no other does, reports the character and ends the input.
\<close>

definition pop_rule ::
    "bool \<Rightarrow> pop_start \<Rightarrow> string \<Rightarrow> string \<Rightarrow> pop_token option \<times> pop_start \<times> string \<times> string" where
  "pop_rule multiline st sval inp =
     (let invalid = (Some POP_END, st, sval, tl inp);
          text = takeWhile no_cr inp; behind = dropWhile no_cr inp in
      case st of
        sc_INITIAL \<Rightarrow>
          (if hd inp = CHR ''+'' \<or> hd inp = CHR ''-'' then (None, sc_reply_code, sval, inp) else invalid)
      | sc_reply_code \<Rightarrow>
          (if take 3 inp = ''+OK'' then (Some (REPLY_CODE ''+OK''), sc_text_begin, ''+OK'', drop 3 inp)
           else if take 4 inp = ''-ERR'' then (Some (REPLY_CODE ''-ERR''), sc_text_begin, ''-ERR'', drop 4 inp)
           else invalid)
      | sc_text_begin \<Rightarrow>
          (if hd inp = CHR '' ''
           then (None, if multiline then sc_multiline_text_begin else sc_text, [],
                 dropWhile (\<lambda>c. c = CHR '' '') inp)
           else if crlf_next inp
           then (if multiline then (None, sc_multiline_text_begin, sval, drop 2 inp)
                 else (Some REPLY_TEXT_END, sc_reply_code, sval, drop 2 inp))
           else invalid)
      | sc_multiline_text_begin \<Rightarrow>
          (if take 3 inp = CHR ''.'' # CRLF then (None, sc_multiline_text_end, sval, tl inp)
           else if hd inp = CHR ''.'' then (None, sc_multiline_text, [], tl inp)
           else if crlf_next inp then (None, sc_multiline_text_begin, CRLF, drop 2 inp)
           else (None, sc_multiline_text, c_str [hd inp], tl inp))
      | sc_multiline_text_end \<Rightarrow>
          (if crlf_next inp then (Some REPLY_TEXT_END, sc_reply_code, sval, drop 2 inp) else invalid)
      | sc_text \<Rightarrow>
          (if crlf_next inp then (Some REPLY_TEXT_END, sc_reply_code, sval, drop 2 inp)
           else if crlf_next behind then (Some (REPLY_TEXT (c_str text)), sc_text, c_str text, behind)
           else invalid)
      | sc_multiline_text \<Rightarrow>
          (if crlf_next inp
           then (Some (REPLY_TEXT (sval @ CRLF)), sc_multiline_text_begin, sval @ CRLF, drop 2 inp)
           else if crlf_next behind then (None, sc_multiline_text, sval @ c_str text, behind)
           else invalid))"

lemma pop_rule_shorter:
  assumes "pop_rule multiline st sval inp = (t, st', sval', rest)" "inp \<noteq> []"
  shows "length rest < length inp
         \<or> t = None \<and> st = sc_INITIAL \<and> st' = sc_reply_code \<and> rest = inp"
proof -
  have "length (dropWhile no_cr inp) < length inp" if "\<not> crlf_next inp" "crlf_next (dropWhile no_cr inp)"
    using that assms(2) by (cases inp) (auto simp: le_imp_less_Suc length_dropWhile_le split: if_splits)
  moreover have "length (dropWhile (\<lambda>c. c = CHR '' '') inp) < length inp" if "hd inp = CHR '' ''"
    using that assms(2) by (cases inp) (auto simp: le_imp_less_Suc length_dropWhile_le)
  ultimately show ?thesis
    using assms by (cases st) (auto simp: pop_rule_def Let_def split: if_splits)
qed

function pop_yylex :: "bool \<Rightarrow> pop_start \<Rightarrow> string \<Rightarrow> string \<Rightarrow> pop_token \<times> pop_start \<times> string \<times> string" where
  "pop_yylex multiline st sval inp =
     (if inp = [] then (POP_END, st, sval, [])
      else case pop_rule multiline st sval inp of
        (Some t, st', sval', rest) \<Rightarrow> (t, st', sval', rest)
      | (None, st', sval', rest) \<Rightarrow> pop_yylex multiline st' sval' rest)"
  by pat_completeness auto
termination
  by (relation "measures [\<lambda>(m, st, v, inp). length inp, \<lambda>(m, st, v, inp). if st = sc_INITIAL then 1 else 0]")
     (auto dest: pop_rule_shorter [OF sym])

declare pop_yylex.simps [simp del]

lemma pop_yylex_shorter:
  "pop_yylex multiline st sval inp = (t, st', sval', rest) \<Longrightarrow> t \<noteq> POP_END \<Longrightarrow> length rest < length inp"
proof (induction multiline st sval inp rule: pop_yylex.induct)
  case (1 multiline st sval inp)
  then show ?case
    by (subst (asm) (2) pop_yylex.simps)
       (force split: if_splits prod.splits option.splits dest: pop_rule_shorter)
qed

section \<open>The grammar and the driver\<close>

text \<open>
  The lines of text up to the end of the reply, and the start condition the scanner is left in;
  \<open>None\<close> stands for a syntax error.
\<close>

function pop_text_lines :: "bool \<Rightarrow> pop_start \<Rightarrow> string \<Rightarrow> string \<Rightarrow> string list option \<times> pop_start" where
  "pop_text_lines multiline st sval inp =
     (case pop_yylex multiline st sval inp of
        (REPLY_TEXT t, st', sval', rest) \<Rightarrow>
          (let (ts, st'') = pop_text_lines multiline st' sval' rest in (map_option (Cons t) ts, st''))
      | (REPLY_TEXT_END, st', sval', rest) \<Rightarrow> (Some [], st')
      | (_, st', sval', rest) \<Rightarrow> (None, st'))"
  by pat_completeness auto
termination
  by (relation "measure (\<lambda>(m, st, v, inp). length inp)") (auto dest: pop_yylex_shorter [OF sym])

declare pop_text_lines.simps [simp del]

definition pop_driver_parse :: "bool \<Rightarrow> pop_start \<Rightarrow> string \<Rightarrow> POP_Record option \<times> pop_start" where
  "pop_driver_parse multiline st inp =
     (case pop_yylex multiline st [] inp of
        (REPLY_CODE code, st', sval', rest) \<Rightarrow>
          (let (ts, st'') = pop_text_lines multiline st' sval' rest in
           (map_option (\<lambda>ts. new_POP_Record\<lparr>pop_status := code, pop_text := ts\<rparr>) ts, st''))
      | (_, st', sval', rest) \<Rightarrow> (None, st'))"

section \<open>Replies of RFC 1939\<close>

definition plain :: "string \<Rightarrow> bool" where
  "plain s \<longleftrightarrow> CHR 0x0D \<notin> set s \<and> CHR 0x00 \<notin> set s"

lemma plain_simps [simp]:
  "plain []"
  "plain (c # s) \<longleftrightarrow> c \<noteq> CHR 0x0D \<and> c \<noteq> CHR 0x00 \<and> plain s"
  "plain (s @ t) \<longleftrightarrow> plain s \<and> plain t"
  by (auto simp: plain_def)

definition status_indicator :: "bool \<Rightarrow> string" where
  "status_indicator ok = (if ok then ''+OK'' else ''-ERR'')"

definition status_line :: "bool \<Rightarrow> string \<Rightarrow> string" where
  "status_line ok text = status_indicator ok @ (if text = [] then [] else CHR '' '' # text) @ CRLF"

definition stuffed :: "string \<Rightarrow> string" where
  "stuffed l = (if take 1 l = ''.'' then CHR ''.'' # l else l)"

definition multiline_reply :: "string \<Rightarrow> string list \<Rightarrow> string" where
  "multiline_reply text ls =
     status_line True text @ concat (map (\<lambda>l. stuffed l @ CRLF) ls) @ CHR ''.'' # CRLF"

text \<open>A text the space in front of it can be told from, and no dot of which is taken for a doubled one.\<close>

definition status_text_ok :: "string \<Rightarrow> bool" where
  "status_text_ok text \<longleftrightarrow> plain text \<and> take 1 text \<noteq> '' '' \<and> take 1 text \<noteq> ''.''"

lemma take_no_cr: "plain s \<Longrightarrow> takeWhile no_cr (s @ CHR 0x0D # r) = s"
  by (induction s) auto

lemma drop_no_cr: "plain s \<Longrightarrow> dropWhile no_cr (s @ CHR 0x0D # r) = CHR 0x0D # r"
  by (induction s) auto

lemma c_str_plain [simp]: "plain s \<Longrightarrow> c_str s = s"
  by (induction s) (auto simp: c_str_def)

lemma yylex_reply_code:
  assumes "st \<in> {sc_INITIAL, sc_reply_code}"
  shows "pop_yylex multiline st v (status_indicator ok @ r)
           = (REPLY_CODE (status_indicator ok), sc_text_begin, status_indicator ok, r)"
  using assms
  by (auto simp: status_indicator_def pop_yylex.simps [of _ sc_INITIAL] pop_yylex.simps [of _ sc_reply_code]
     pop_rule_def)

lemma text_lines_no_text:
  "pop_text_lines False sc_text_begin v (CRLF @ r) = (Some [], sc_reply_code)"
  by (simp add: pop_text_lines.simps pop_yylex.simps pop_rule_def)

lemma text_lines_text:
  assumes "plain t" "t \<noteq> []" "take 1 t \<noteq> '' ''"
  shows "pop_text_lines False sc_text_begin v (CHR '' '' # t @ CRLF @ r) = (Some [t], sc_reply_code)"
proof -
  have "pop_yylex False sc_text_begin v (CHR '' '' # t @ CRLF @ r) = (REPLY_TEXT t, sc_text, t, CRLF @ r)"
    using assms
    by (cases t) (auto simp: pop_yylex.simps [of _ sc_text_begin] pop_yylex.simps [of _ sc_text] pop_rule_def
       take_no_cr drop_no_cr Let_def)
  moreover have "pop_text_lines False sc_text t (CRLF @ r) = (Some [], sc_reply_code)"
    by (simp add: pop_text_lines.simps pop_yylex.simps pop_rule_def)
  ultimately show ?thesis
    by (simp add: pop_text_lines.simps [of _ sc_text_begin])
qed

text \<open>In a multi-line reply: one line, and the lines up to the one with a single dot.\<close>

lemma yylex_multiline_text:
  assumes "plain s"
  shows "pop_yylex True sc_multiline_text v (s @ CRLF @ r)
           = (REPLY_TEXT (v @ s @ CRLF), sc_multiline_text_begin, v @ s @ CRLF, r)"
proof -
  have closing: "pop_yylex True sc_multiline_text w (CRLF @ r)
      = (REPLY_TEXT (w @ CRLF), sc_multiline_text_begin, w @ CRLF, r)" for w
    by (simp add: pop_yylex.simps pop_rule_def)
  show ?thesis
    using assms closing [of v] closing [of "v @ s"]
    by (cases s) (auto simp: pop_yylex.simps [of _ _ _ "(_ # _) @ _"] pop_yylex.simps [of _ _ _ "_ # (_ @ _)"]
       pop_rule_def take_no_cr drop_no_cr)
qed


lemma text_lines_line:
  assumes "plain l" "l \<noteq> []"
  shows "pop_text_lines True sc_multiline_text_begin v (stuffed l @ CRLF @ r)
           = (case pop_text_lines True sc_multiline_text_begin (l @ CRLF) r of
                (ts, st) \<Rightarrow> (map_option (Cons (l @ CRLF)) ts, st))"
proof -
  obtain c s where l: "l = c # s" and cs: "c \<noteq> CHR 0x0D" "c \<noteq> CHR 0x00" "plain s"
    using assms by (cases l) auto
  have "pop_yylex True sc_multiline_text_begin v (stuffed l @ CRLF @ r)
          = (REPLY_TEXT (l @ CRLF), sc_multiline_text_begin, l @ CRLF, r)"
    using cs yylex_multiline_text [of l "[]" r] yylex_multiline_text [of s "[c]" r] assms(1)
    by (subst pop_yylex.simps) (auto simp: l stuffed_def pop_rule_def c_str_def)
  then show ?thesis
    by (subst pop_text_lines.simps) simp
qed

lemma text_lines_empty_line:
  "pop_text_lines True sc_multiline_text_begin v (CRLF @ r) = pop_text_lines True sc_multiline_text_begin CRLF r"
  if "r \<noteq> []"
  using that
  by (subst (1 2) pop_text_lines.simps, subst pop_yylex.simps) (simp add: pop_rule_def)

lemma text_lines_end:
  "pop_text_lines True sc_multiline_text_begin v (CHR ''.'' # CRLF) = (Some [], sc_reply_code)"
  by (simp add: pop_text_lines.simps pop_yylex.simps pop_rule_def)

lemma text_lines_lines:
  assumes "list_all plain ls"
  shows "pop_text_lines True sc_multiline_text_begin v (concat (map (\<lambda>l. stuffed l @ CRLF) ls) @ CHR ''.'' # CRLF)
           = (Some (map (\<lambda>l. l @ CRLF) (filter (\<lambda>l. l \<noteq> []) ls)), sc_reply_code)"
  using assms
proof (induction ls arbitrary: v)
  case Nil
  then show ?case
    using text_lines_end by simp
next
  case (Cons l ls)
  let ?r = "concat (map (\<lambda>l. stuffed l @ CRLF) ls) @ CHR ''.'' # CRLF"
  show ?case
  proof (cases "l = []")
    case True
    then show ?thesis
      using Cons text_lines_empty_line [of ?r v] by (simp add: stuffed_def)
  next
    case False
    then show ?thesis
      using Cons text_lines_line [of l v ?r] by simp
  qed
qed

definition reply_record :: "bool \<Rightarrow> string list \<Rightarrow> POP_Record" where
  "reply_record ok ts = new_POP_Record\<lparr>pop_status := status_indicator ok, pop_text := ts\<rparr>"

lemma parse_status_line:
  assumes "st \<in> {sc_INITIAL, sc_reply_code}" "status_text_ok text"
  shows "pop_driver_parse False st (status_line ok text)
           = (Some (reply_record ok (if text = [] then [] else [text])), sc_reply_code)"
  using assms yylex_reply_code [OF assms(1), of False "[]" ok]
    text_lines_text [of "text" "status_indicator ok" "[]"] text_lines_no_text [of "status_indicator ok" "[]"]
  by (auto simp: pop_driver_parse_def status_line_def status_text_ok_def reply_record_def)

lemma multiline_status:
  assumes "status_text_ok text" "r \<noteq> []"
  shows "\<exists>w. pop_text_lines True sc_text_begin v ((if text = [] then [] else CHR '' '' # text) @ CRLF @ r)
           = pop_text_lines True sc_multiline_text_begin w ((if text = [] then [] else stuffed text @ CRLF) @ r)"
proof (cases "text")
  case Nil
  have "pop_yylex True sc_text_begin v (CRLF @ r) = pop_yylex True sc_multiline_text_begin v r"
    by (subst pop_yylex.simps) (simp add: pop_rule_def)
  then have "pop_text_lines True sc_text_begin v (CRLF @ r) = pop_text_lines True sc_multiline_text_begin v r"
    by (subst (1 2) pop_text_lines.simps) simp
  then show ?thesis
    using Nil by auto
next
  case (Cons c t)
  have "pop_yylex True sc_text_begin v (CHR '' '' # text @ CRLF @ r)
      = pop_yylex True sc_multiline_text_begin [] (text @ CRLF @ r)"
    using Cons assms(1) by (subst pop_yylex.simps) (simp add: pop_rule_def status_text_ok_def)
  then have "pop_text_lines True sc_text_begin v (CHR '' '' # text @ CRLF @ r)
      = pop_text_lines True sc_multiline_text_begin [] (text @ CRLF @ r)"
    by (subst (1 2) pop_text_lines.simps) simp
  moreover have "stuffed text = text"
    using assms(1) by (simp add: stuffed_def status_text_ok_def)
  ultimately show ?thesis
    using Cons by auto
qed

lemma parse_multiline_reply:
  assumes "st \<in> {sc_INITIAL, sc_reply_code}" "status_text_ok text" "list_all plain ls"
  shows "pop_driver_parse True st (multiline_reply text ls)
           = (Some (reply_record True (map (\<lambda>l. l @ CRLF) (filter (\<lambda>l. l \<noteq> []) (text # ls)))), sc_reply_code)"
proof -
  let ?lines = "\<lambda>ls. concat (map (\<lambda>l. stuffed l @ CRLF) ls) @ CHR ''.'' # CRLF"
  obtain w where "pop_text_lines True sc_text_begin (status_indicator True)
      ((if text = [] then [] else CHR '' '' # text) @ CRLF @ ?lines ls)
    = pop_text_lines True sc_multiline_text_begin w ((if text = [] then [] else stuffed text @ CRLF) @ ?lines ls)"
    using multiline_status [OF assms(2), of "?lines ls"] by auto
  then have "pop_text_lines True sc_text_begin (status_indicator True)
      ((if text = [] then [] else CHR '' '' # text) @ CRLF @ ?lines ls)
    = (Some (map (\<lambda>l. l @ CRLF) (filter (\<lambda>l. l \<noteq> []) (text # ls))), sc_reply_code)"
    using text_lines_lines [of ls w] text_lines_lines [of "text # ls" w] assms(2,3)
    by (auto simp: status_text_ok_def)
  then show ?thesis
    using yylex_reply_code [OF assms(1), of True "[]" True]
    by (simp add: pop_driver_parse_def multiline_reply_def status_line_def reply_record_def)
qed

lemma parse_error_multiline:
  assumes "st \<in> {sc_INITIAL, sc_reply_code}" "status_text_ok text"
  shows "pop_driver_parse True st (status_line False text) = (None, sc_multiline_text_begin)"
proof -
  have ended: "pop_text_lines True sc_multiline_text_begin w [] = (None, sc_multiline_text_begin)" for w
    by (simp add: pop_text_lines.simps pop_yylex.simps)
  have "pop_text_lines True sc_text_begin v ((if text = [] then [] else CHR '' '' # text) @ CRLF)
      = (None, sc_multiline_text_begin)" for v
  proof (cases "text = []")
    case True
    have "pop_yylex True sc_text_begin v CRLF = (POP_END, sc_multiline_text_begin, v, [])"
      by (simp add: pop_yylex.simps pop_rule_def)
    then show ?thesis
      using True by (subst pop_text_lines.simps) simp
  next
    case False
    have "pop_yylex True sc_text_begin v (CHR '' '' # text @ CRLF)
        = pop_yylex True sc_multiline_text_begin [] (text @ CRLF)"
      using False assms(2)
      by (cases "text"; subst pop_yylex.simps) (simp_all add: pop_rule_def status_text_ok_def)
    then have "pop_text_lines True sc_text_begin v (CHR '' '' # text @ CRLF)
        = pop_text_lines True sc_multiline_text_begin [] (text @ CRLF)"
      by (subst (1 2) pop_text_lines.simps) simp
    moreover have "stuffed text = text"
      using assms(2) by (simp add: stuffed_def status_text_ok_def)
    ultimately show ?thesis
      using False text_lines_line [of "text" "[]" "[]"] assms(2) ended by (simp add: status_text_ok_def)
  qed
  then show ?thesis
    using yylex_reply_code [OF assms(1), of True "[]" False]
    by (simp add: pop_driver_parse_def status_line_def)
qed

section \<open>Properties\<close>

text \<open>C18: A status line is scanned and parsed as it was sent. Of a multi-line reply the doubled dots are
  removed, but its empty lines are lost, the one between the header and the body of a mail among them,
  and the text of the status line becomes a line of it. A refusal is never parsed where a multi-line reply
  is expected: the parser waits for the line with a single dot, also across the next reply.\<close>

theorem pop_replies_parse:
  assumes "st \<in> {sc_INITIAL, sc_reply_code}" "status_text_ok status" "list_all plain ls"
  shows "pop_driver_parse False st (status_line ok status)
           = (Some (reply_record ok (if status = [] then [] else [status])), sc_reply_code)
         \<and> pop_driver_parse True st (multiline_reply status ls)
           = (Some (reply_record True (map (\<lambda>l. l @ CRLF) (filter (\<lambda>l. l \<noteq> []) (status # ls)))), sc_reply_code)
         \<and> pop_driver_parse True st (status_line False status) = (None, sc_multiline_text_begin)"
  using parse_status_line [OF assms(1,2), of ok] parse_multiline_reply [OF assms]
    parse_error_multiline [OF assms(1,2)]
  by blast

theorem pop_replies_parse_witness:
  "pop_driver_parse True sc_INITIAL
     (''+OK 3 octets'' @ CRLF @ ''Subject: a'' @ CRLF @ CRLF @ ''..'' @ CRLF @ ''.'' @ CRLF)
   = (Some (reply_record True [''3 octets'' @ CRLF, ''Subject: a'' @ CRLF, ''.'' @ CRLF]), sc_reply_code)"
proof -
  have "multiline_reply ''3 octets'' [''Subject: a'', [], ''.'']
      = ''+OK 3 octets'' @ CRLF @ ''Subject: a'' @ CRLF @ CRLF @ ''..'' @ CRLF @ ''.'' @ CRLF"
    by (simp add: multiline_reply_def status_line_def status_indicator_def stuffed_def)
  then show ?thesis
    using pop_replies_parse [of sc_INITIAL "''3 octets''" "[''Subject: a'', [], ''.'']" True]
    by (simp add: status_text_ok_def)
qed

end
