(* ===== verification/Pop_Client.thy ===== *)
theory Pop_Client
  imports Pop_Replies Std_Regex
begin

text \<open>
  The POP3 client (\<open>protocol/pop\<close>): the names of \<open>POP_Tools\<close>, the module that answers every reply of the
  server with the next command (\<open>pop_module_send.inl\<close>) and the module that writes the commands
  (\<open>pop_module_streamer.inl\<close>).

  Parameters: whether the allocations and the \<open>reply\<close> of a call succeed (\<open>pop_resources\<close>). The reference
  count of the connection is left out. A message that is passed downstream is shown as the text of its
  record.
\<close>

section \<open>States and names\<close>

datatype POP_ProtocolState =
    POP_STATE_GREETING_RECEIVED | POP_STATE_AUTH_LOGIN_USER_SENT | POP_STATE_AUTH_LOGIN_PASSWORD_SENT
  | POP_STATE_AUTH_APOP_SENT | POP_STATE_AUTH_QUIT_SENT | POP_STATE_TRANS_STAT_SENT
  | POP_STATE_TRANS_LIST_SENT | POP_STATE_TRANS_RETR_SENT | POP_STATE_TRANS_DELE_SENT
  | POP_STATE_TRANS_NOOP_SENT | POP_STATE_TRANS_RSET_SENT | POP_STATE_TRANS_QUIT_SENT
  | POP_STATE_TRANS_TOP_SENT | POP_STATE_TRANS_UIDL_SENT | POP_STATE_UPDAT_QUIT_SENT
  | POP_STATE_MAX | POP_STATE_INVALID

fun pop_increment :: "POP_ProtocolState \<Rightarrow> POP_ProtocolState run" where
  "pop_increment POP_STATE_MAX = Inl Assertion_failed"
| "pop_increment POP_STATE_INVALID = Inr POP_STATE_GREETING_RECEIVED"
| "pop_increment POP_STATE_GREETING_RECEIVED = Inr POP_STATE_AUTH_LOGIN_USER_SENT"
| "pop_increment POP_STATE_AUTH_LOGIN_USER_SENT = Inr POP_STATE_AUTH_LOGIN_PASSWORD_SENT"
| "pop_increment POP_STATE_AUTH_LOGIN_PASSWORD_SENT = Inr POP_STATE_AUTH_APOP_SENT"
| "pop_increment POP_STATE_AUTH_APOP_SENT = Inr POP_STATE_AUTH_QUIT_SENT"
| "pop_increment POP_STATE_AUTH_QUIT_SENT = Inr POP_STATE_TRANS_STAT_SENT"
| "pop_increment POP_STATE_TRANS_STAT_SENT = Inr POP_STATE_TRANS_LIST_SENT"
| "pop_increment POP_STATE_TRANS_LIST_SENT = Inr POP_STATE_TRANS_RETR_SENT"
| "pop_increment POP_STATE_TRANS_RETR_SENT = Inr POP_STATE_TRANS_DELE_SENT"
| "pop_increment POP_STATE_TRANS_DELE_SENT = Inr POP_STATE_TRANS_NOOP_SENT"
| "pop_increment POP_STATE_TRANS_NOOP_SENT = Inr POP_STATE_TRANS_RSET_SENT"
| "pop_increment POP_STATE_TRANS_RSET_SENT = Inr POP_STATE_TRANS_QUIT_SENT"
| "pop_increment POP_STATE_TRANS_QUIT_SENT = Inr POP_STATE_TRANS_TOP_SENT"
| "pop_increment POP_STATE_TRANS_TOP_SENT = Inr POP_STATE_TRANS_UIDL_SENT"
| "pop_increment POP_STATE_TRANS_UIDL_SENT = Inr POP_STATE_UPDAT_QUIT_SENT"
| "pop_increment POP_STATE_UPDAT_QUIT_SENT = Inr POP_STATE_GREETING_RECEIVED"

fun pop_decrement :: "POP_ProtocolState \<Rightarrow> POP_ProtocolState run" where
  "pop_decrement POP_STATE_GREETING_RECEIVED = Inl Assertion_failed"
| "pop_decrement POP_STATE_MAX = Inl Assertion_failed"
| "pop_decrement POP_STATE_INVALID = Inl Assertion_failed"
| "pop_decrement POP_STATE_AUTH_LOGIN_USER_SENT = Inr POP_STATE_GREETING_RECEIVED"
| "pop_decrement POP_STATE_AUTH_LOGIN_PASSWORD_SENT = Inr POP_STATE_AUTH_LOGIN_USER_SENT"
| "pop_decrement POP_STATE_AUTH_APOP_SENT = Inr POP_STATE_AUTH_LOGIN_PASSWORD_SENT"
| "pop_decrement POP_STATE_AUTH_QUIT_SENT = Inr POP_STATE_AUTH_APOP_SENT"
| "pop_decrement POP_STATE_TRANS_STAT_SENT = Inr POP_STATE_AUTH_QUIT_SENT"
| "pop_decrement POP_STATE_TRANS_LIST_SENT = Inr POP_STATE_TRANS_STAT_SENT"
| "pop_decrement POP_STATE_TRANS_RETR_SENT = Inr POP_STATE_TRANS_LIST_SENT"
| "pop_decrement POP_STATE_TRANS_DELE_SENT = Inr POP_STATE_TRANS_RETR_SENT"
| "pop_decrement POP_STATE_TRANS_NOOP_SENT = Inr POP_STATE_TRANS_DELE_SENT"
| "pop_decrement POP_STATE_TRANS_RSET_SENT = Inr POP_STATE_TRANS_NOOP_SENT"
| "pop_decrement POP_STATE_TRANS_QUIT_SENT = Inr POP_STATE_TRANS_RSET_SENT"
| "pop_decrement POP_STATE_TRANS_TOP_SENT = Inr POP_STATE_TRANS_QUIT_SENT"
| "pop_decrement POP_STATE_TRANS_UIDL_SENT = Inr POP_STATE_TRANS_TOP_SENT"
| "pop_decrement POP_STATE_UPDAT_QUIT_SENT = Inr POP_STATE_TRANS_UIDL_SENT"

definition pop_isSuccess :: "char \<Rightarrow> bool" where
  "pop_isSuccess code \<longleftrightarrow> code = CHR 0x2B"

fun pop_CommandToString :: "POP_CommandType \<Rightarrow> string" where
  "pop_CommandToString POP_COMMAND_AUTH_USER = ''USER''"
| "pop_CommandToString POP_COMMAND_AUTH_PASS = ''PASS''"
| "pop_CommandToString POP_COMMAND_AUTH_APOP = ''APOP''"
| "pop_CommandToString POP_COMMAND_AUTH_QUIT = ''QUIT''"
| "pop_CommandToString POP_COMMAND_TRANS_STAT = ''STAT''"
| "pop_CommandToString POP_COMMAND_TRANS_LIST = ''LIST''"
| "pop_CommandToString POP_COMMAND_TRANS_RETR = ''RETR''"
| "pop_CommandToString POP_COMMAND_TRANS_DELE = ''DELE''"
| "pop_CommandToString POP_COMMAND_TRANS_NOOP = ''NOOP''"
| "pop_CommandToString POP_COMMAND_TRANS_RSET = ''RSET''"
| "pop_CommandToString POP_COMMAND_TRANS_QUIT = ''QUIT''"
| "pop_CommandToString POP_COMMAND_TRANS_TOP = ''TOP''"
| "pop_CommandToString POP_COMMAND_TRANS_UIDL = ''UIDL''"
| "pop_CommandToString POP_COMMAND_UPDAT_QUIT = ''QUIT''"
| "pop_CommandToString _ = ''INVALID/UNKNOWN''"

text \<open>The state behind \<open>STAT\<close> has no name.\<close>

fun pop_StateToString :: "POP_ProtocolState \<Rightarrow> string" where
  "pop_StateToString POP_STATE_GREETING_RECEIVED = ''GREETING_RECEIVED''"
| "pop_StateToString POP_STATE_AUTH_LOGIN_USER_SENT = ''AUTH_LOGIN_USER_SENT''"
| "pop_StateToString POP_STATE_AUTH_LOGIN_PASSWORD_SENT = ''AUTH_LOGIN_PASSWORD_SENT''"
| "pop_StateToString POP_STATE_AUTH_APOP_SENT = ''AUTH_APOP_SENT''"
| "pop_StateToString POP_STATE_AUTH_QUIT_SENT = ''AUTH_QUIT_SENT''"
| "pop_StateToString POP_STATE_TRANS_LIST_SENT = ''TRANS_LIST_SENT''"
| "pop_StateToString POP_STATE_TRANS_RETR_SENT = ''TRANS_RETR_SENT''"
| "pop_StateToString POP_STATE_TRANS_DELE_SENT = ''TRANS_DELE_SENT''"
| "pop_StateToString POP_STATE_TRANS_NOOP_SENT = ''TRANS_NOOP_SENT''"
| "pop_StateToString POP_STATE_TRANS_RSET_SENT = ''TRANS_RSET_SENT''"
| "pop_StateToString POP_STATE_TRANS_QUIT_SENT = ''TRANS_QUIT_SENT''"
| "pop_StateToString POP_STATE_TRANS_TOP_SENT = ''TRANS_TOP_SENT''"
| "pop_StateToString POP_STATE_TRANS_UIDL_SENT = ''TRANS_UIDL_SENT''"
| "pop_StateToString POP_STATE_UPDAT_QUIT_SENT = ''UPDAT_QUIT_SENT''"
| "pop_StateToString _ = ''INVALID/UNKNOWN''"

definition pop_record_dump :: "POP_Record \<Rightarrow> string" where
  "pop_record_dump r =
     ''status: '' @ [CHR 0x09] @ pop_status r @ [CHR 0x0A]
     @ ''text: ('' @ show_dec (length (pop_text r)) @ ''):'' @ [CHR 0x0A]
     @ concat (map (\<lambda>l. l @ [CHR 0x0A]) (pop_text r)) @ ''text /END''"

section \<open>The send module\<close>

text \<open>
  The state of the module, of the connection, and the flag of the parser it sets: the protocol state,
  the number of messages, the number of the current message, and whether a connection is set.
\<close>

record POP_Module_Send =
  pop_protocolState :: POP_ProtocolState
  mailDropMessages :: u32
  pop_index :: u32
  pop_connection :: bool
  expectMultiline :: bool

definition new_POP_Module_Send :: POP_Module_Send where
  "new_POP_Module_Send =
     \<lparr>pop_protocolState = POP_STATE_INVALID, mailDropMessages = 0, pop_index = 0, pop_connection = False,
      expectMultiline = False\<rparr>"

record POP_ProtocolConfiguration =
  pop_username :: string
  pop_password :: string

datatype pop_session_message =
    POP_SESSION_CONNECT (pop_session_connection: bool) | POP_SESSION_END | POP_SESSION_OTHER

fun pop_handleSessionMessage :: "pop_session_message \<Rightarrow> POP_Module_Send \<Rightarrow> POP_Module_Send run" where
  "pop_handleSessionMessage (POP_SESSION_CONNECT connection) s =
     run_bind (ace_assert connection) (\<lambda>_.
     run_bind (ace_assert (\<not> pop_connection s)) (\<lambda>_. Inr (s\<lparr>pop_connection := True\<rparr>)))"
| "pop_handleSessionMessage POP_SESSION_END s = Inr (s\<lparr>pop_connection := False\<rparr>)"
| "pop_handleSessionMessage POP_SESSION_OTHER s = Inr s"

text \<open>\<open>"^([[:digit:]]+) ([[:digit:]]+)$"\<close>\<close>

definition stat_regex :: re where
  "stat_regex = Seq (Grp 1 (Plus (Cls is_digit))) (Seq (Chr CHR '' '') (Grp 2 (Plus (Cls is_digit))))"

datatype pop_action = Pop_send POP_Request | Pop_protocol_error | Pop_return

definition pop_expect ::
    "bool \<Rightarrow> POP_Module_Send \<Rightarrow> (pop_action \<times> POP_Module_Send) run \<Rightarrow> (pop_action \<times> POP_Module_Send) run" where
  "pop_expect ok s m = (if ok then m else Inr (Pop_protocol_error, s))"

definition pop_request_of :: "POP_CommandType \<Rightarrow> string list \<Rightarrow> POP_Request" where
  "pop_request_of c ps = \<lparr>pop_command = c, pop_parameters = ps\<rparr>"

definition index_text :: "POP_Module_Send \<Rightarrow> string" where
  "index_text s = show_dec (unat (pop_index s))"

definition pop_stat_reply ::
    "string list \<Rightarrow> POP_Module_Send \<Rightarrow> (pop_action \<times> POP_Module_Send) run" where
  "pop_stat_reply reply_text s =
     (case reply_text of
        [] \<Rightarrow> Inl Assertion_failed
      | t # _ \<Rightarrow> (case regex_match stat_regex t of
          None \<Rightarrow> Inr (Pop_return, s)
        | Some groups \<Rightarrow>
            let s = s\<lparr>mailDropMessages := word_of_nat (extract_unsigned 32 (the (groups 1)))\<rparr> in
            if mailDropMessages s = 0
            then Inr (Pop_send (pop_request_of POP_COMMAND_TRANS_QUIT []),
                      s\<lparr>pop_protocolState := POP_STATE_TRANS_QUIT_SENT\<rparr>)
            else let s = s\<lparr>pop_protocolState := POP_STATE_TRANS_RETR_SENT, pop_index := 1,
                           expectMultiline := True\<rparr> in
              Inr (Pop_send (pop_request_of POP_COMMAND_TRANS_RETR [index_text s]), s)))"

definition pop_retr_reply :: "POP_Module_Send \<Rightarrow> (pop_action \<times> POP_Module_Send) run" where
  "pop_retr_reply s =
     (let s = s\<lparr>pop_index := pop_index s + 1\<rparr> in
      if mailDropMessages s < pop_index s
      then let s = s\<lparr>pop_protocolState := POP_STATE_TRANS_DELE_SENT, pop_index := 1,
                     expectMultiline := False\<rparr> in
        Inr (Pop_send (pop_request_of POP_COMMAND_TRANS_DELE [index_text s]), s)
      else Inr (Pop_send (pop_request_of POP_COMMAND_TRANS_RETR [index_text s]),
                s\<lparr>pop_protocolState := POP_STATE_TRANS_RETR_SENT\<rparr>))"

text \<open>The request for the next deletion keeps the command its constructor sets.\<close>

definition pop_dele_reply :: "POP_Module_Send \<Rightarrow> (pop_action \<times> POP_Module_Send) run" where
  "pop_dele_reply s =
     (let s = s\<lparr>pop_index := pop_index s + 1\<rparr> in
      if mailDropMessages s < pop_index s
      then Inr (Pop_send (pop_request_of POP_COMMAND_TRANS_QUIT []),
                s\<lparr>pop_protocolState := POP_STATE_TRANS_QUIT_SENT\<rparr>)
      else Inr (Pop_send (new_POP_Request\<lparr>pop_parameters := [index_text s]\<rparr>),
                s\<lparr>pop_protocolState := POP_STATE_TRANS_DELE_SENT\<rparr>))"

definition pop_switch ::
    "POP_ProtocolConfiguration \<Rightarrow> POP_Record \<Rightarrow> POP_Module_Send \<Rightarrow> (pop_action \<times> POP_Module_Send) run" where
  "pop_switch conf r s =
     (let ok = (case pop_status r of [] \<Rightarrow> False | c # _ \<Rightarrow> pop_isSuccess c) in
      case pop_protocolState s of
        POP_STATE_INVALID \<Rightarrow>
          pop_expect ok s (run_bind (pop_increment POP_STATE_GREETING_RECEIVED) (\<lambda>st.
            Inr (Pop_send (pop_request_of POP_COMMAND_AUTH_USER [pop_username conf]),
                 s\<lparr>pop_protocolState := st\<rparr>)))
      | POP_STATE_AUTH_LOGIN_USER_SENT \<Rightarrow>
          pop_expect ok s (run_bind (pop_increment (pop_protocolState s)) (\<lambda>st.
            Inr (Pop_send (pop_request_of POP_COMMAND_AUTH_PASS [pop_password conf]),
                 s\<lparr>pop_protocolState := st\<rparr>)))
      | POP_STATE_AUTH_LOGIN_PASSWORD_SENT \<Rightarrow>
          pop_expect ok s (Inr (Pop_send (pop_request_of POP_COMMAND_TRANS_STAT []),
            s\<lparr>pop_protocolState := POP_STATE_TRANS_STAT_SENT\<rparr>))
      | POP_STATE_TRANS_STAT_SENT \<Rightarrow> pop_expect ok s (pop_stat_reply (pop_text r) s)
      | POP_STATE_TRANS_RETR_SENT \<Rightarrow> pop_expect ok s (pop_retr_reply s)
      | POP_STATE_TRANS_DELE_SENT \<Rightarrow> pop_expect ok s (pop_dele_reply s)
      | POP_STATE_TRANS_QUIT_SENT \<Rightarrow> pop_expect ok s (Inr (Pop_return, s))
      | POP_STATE_UPDAT_QUIT_SENT \<Rightarrow> pop_expect ok s (Inr (Pop_return, s))
      | _ \<Rightarrow> Inr (Pop_return, s))"

text \<open>A reply to \<open>RETR\<close> that succeeds is passed downstream.\<close>

definition pop_passes :: "POP_Record \<Rightarrow> POP_Module_Send \<Rightarrow> bool" where
  "pop_passes r s \<longleftrightarrow> pop_protocolState s = POP_STATE_TRANS_RETR_SENT
     \<and> (case pop_status r of [] \<Rightarrow> False | c # _ \<Rightarrow> pop_isSuccess c)"

record pop_resources =
  pop_got_record :: bool
  pop_got_message :: bool
  pop_got_container :: bool
  pop_replied :: bool

definition pop_plentiful :: pop_resources where
  "pop_plentiful = \<lparr>pop_got_record = True, pop_got_message = True, pop_got_container = True, pop_replied = True\<rparr>"

definition pop_send ::
    "pop_resources \<Rightarrow> POP_Request \<Rightarrow> POP_Module_Send \<Rightarrow> (POP_Record option \<times> POP_Module_Send) run" where
  "pop_send res d s =
     (if pop_got_message res \<and> pop_got_container res \<and> pop_replied res
      then Inr (Some (new_POP_Record\<lparr>pop_request := d\<rparr>), s)
      else run_bind (pop_decrement (pop_protocolState s)) (\<lambda>st. Inr (None, s\<lparr>pop_protocolState := st\<rparr>)))"

text \<open>The reply that is sent, if any, the next state, and the texts passed downstream.\<close>

definition pop_handleDataMessage ::
    "pop_resources \<Rightarrow> POP_ProtocolConfiguration \<Rightarrow> POP_Record \<Rightarrow> POP_Module_Send
     \<Rightarrow> (POP_Record option \<times> POP_Module_Send \<times> string list list) run" where
  "pop_handleDataMessage res conf r s =
     run_bind (ace_assert (pop_connection s)) (\<lambda>_.
       if \<not> pop_got_record res then Inr (None, s, [])
       else run_bind (pop_switch conf r s) (\<lambda>(action, s').
         let passed = (if pop_passes r s then [pop_text r] else []) in
         case action of
           Pop_send d \<Rightarrow> run_bind (pop_send res d s') (\<lambda>(m, s''). Inr (m, s'', passed))
         | _ \<Rightarrow> Inr (None, s', passed)))"

section \<open>The streamer module\<close>

definition pop_front :: "POP_Request \<Rightarrow> string run" where
  "pop_front d = (case pop_parameters d of [] \<Rightarrow> Inl Out_of_bounds | p # _ \<Rightarrow> Inr p)"

definition pop_with_argument :: "string \<Rightarrow> POP_Request \<Rightarrow> string list run" where
  "pop_with_argument keyword d = run_bind (pop_front d) (\<lambda>p. Inr [keyword, p, CRLF])"

definition pop_with_option :: "string \<Rightarrow> POP_Request \<Rightarrow> string list run" where
  "pop_with_option keyword d =
     Inr ([keyword] @ (case pop_parameters d of [] \<Rightarrow> [] | p # _ \<Rightarrow> ['' '', p]) @ [CRLF])"

definition pop_texts :: "POP_Request \<Rightarrow> string list run" where
  "pop_texts d =
     (case pop_command d of
        POP_COMMAND_AUTH_USER \<Rightarrow> pop_with_argument ''USER '' d
      | POP_COMMAND_AUTH_PASS \<Rightarrow> pop_with_argument ''PASS '' d
      | POP_COMMAND_AUTH_APOP \<Rightarrow> Inl Assertion_failed
      | POP_COMMAND_AUTH_QUIT \<Rightarrow> Inr [''QUIT'' @ CRLF]
      | POP_COMMAND_TRANS_STAT \<Rightarrow> Inr [''STAT'' @ CRLF]
      | POP_COMMAND_TRANS_LIST \<Rightarrow> pop_with_option ''LIST'' d
      | POP_COMMAND_TRANS_RETR \<Rightarrow> pop_with_argument ''RETR '' d
      | POP_COMMAND_TRANS_DELE \<Rightarrow> pop_with_argument ''DELE '' d
      | POP_COMMAND_TRANS_NOOP \<Rightarrow> Inr [''NOOP'' @ CRLF]
      | POP_COMMAND_TRANS_RSET \<Rightarrow> Inr [''RSET'' @ CRLF]
      | POP_COMMAND_TRANS_QUIT \<Rightarrow> Inr [''QUIT'' @ CRLF]
      | POP_COMMAND_TRANS_TOP \<Rightarrow>
          (case pop_parameters d of
             p # q # _ \<Rightarrow> Inr [''TOP '', p, '' '', q, CRLF]
           | _ \<Rightarrow> Inl Out_of_bounds)
      | POP_COMMAND_TRANS_UIDL \<Rightarrow> pop_with_option ''UIDL'' d
      | POP_COMMAND_UPDAT_QUIT \<Rightarrow> Inr [''QUIT'' @ CRLF]
      | _ \<Rightarrow> Inr [])"

definition pop_stream :: "nat \<Rightarrow> string \<Rightarrow> POP_Record \<Rightarrow> string run" where
  "pop_stream space block r =
     run_bind (pop_texts (pop_request r)) (\<lambda>ts. Inr (copy_texts space block ts))"

end
