(* ===== verification/Pop_Session.thy ===== *)
theory Pop_Session
  imports Pop_Client
begin

text \<open>
  The POP3 client of theory \<open>Pop_Client\<close> in dialogue with a reference server after RFC 1939: the server
  writes octets, which the scanner and the parser of theory \<open>Pop_Replies\<close> read, and reads the octets the
  streamer module writes. The texts of the server's status lines are arbitrary (\<open>psv_say\<close>).
\<close>

section \<open>A reference server\<close>

datatype pop_phase = Pop_authorization | Pop_transaction | Pop_ended

record pop_server =
  psv_say :: "string \<Rightarrow> string"
  psv_maildrop :: "string list list"
  psv_deleted :: "nat list"
  psv_phase :: pop_phase
  psv_user :: "string option"
  psv_login :: "(string \<times> string) option"
  psv_buffer :: string

definition new_pop_server :: "(string \<Rightarrow> string) \<Rightarrow> string list list \<Rightarrow> pop_server" where
  "new_pop_server say maildrop =
     \<lparr>psv_say = say, psv_maildrop = maildrop, psv_deleted = [], psv_phase = Pop_authorization,
      psv_user = None, psv_login = None, psv_buffer = []\<rparr>"

text \<open>The messages that are not marked as deleted, and the number an argument gives of one of them.\<close>

definition kept_messages :: "pop_server \<Rightarrow> string list list" where
  "kept_messages sv =
     map (\<lambda>k. psv_maildrop sv ! k)
       (filter (\<lambda>k. Suc k \<notin> set (psv_deleted sv)) [0 ..< length (psv_maildrop sv)])"

definition message_number :: "pop_server \<Rightarrow> string \<Rightarrow> nat option" where
  "message_number sv arg =
     (let n = dec_value arg in
      if arg \<noteq> [] \<and> list_all is_digit arg \<and> 1 \<le> n \<and> n \<le> length (psv_maildrop sv)
         \<and> n \<notin> set (psv_deleted sv)
      then Some n else None)"

definition drop_listing :: "pop_server \<Rightarrow> string" where
  "drop_listing sv =
     show_dec (length (kept_messages sv)) @ '' ''
     @ show_dec (sum_list (map (\<lambda>l. length l + 2) (concat (kept_messages sv))))"

definition pop_answer :: "string \<Rightarrow> pop_server \<Rightarrow> string \<times> pop_server" where
  "pop_answer l sv =
     (let accept = (\<lambda>sv'. (status_line True (psv_say sv l), sv'));
          refuse = (status_line False (psv_say sv l), sv) in
      case psv_phase sv of
        Pop_authorization \<Rightarrow>
          (if take 5 l = ''USER '' then accept (sv\<lparr>psv_user := Some (drop 5 l)\<rparr>)
           else if take 5 l = ''PASS ''
           then (case psv_user sv of
                   None \<Rightarrow> refuse
                 | Some user \<Rightarrow> accept (sv\<lparr>psv_login := Some (user, drop 5 l), psv_phase := Pop_transaction\<rparr>))
           else if l = ''QUIT'' then accept (sv\<lparr>psv_phase := Pop_ended\<rparr>)
           else refuse)
      | Pop_transaction \<Rightarrow>
          (if l = ''STAT'' then (status_line True (drop_listing sv), sv)
           else if take 5 l = ''RETR ''
           then (case message_number sv (drop 5 l) of
                   None \<Rightarrow> refuse
                 | Some n \<Rightarrow> (multiline_reply (psv_say sv l) (psv_maildrop sv ! (n - 1)), sv))
           else if take 5 l = ''DELE ''
           then (case message_number sv (drop 5 l) of
                   None \<Rightarrow> refuse
                 | Some n \<Rightarrow> accept (sv\<lparr>psv_deleted := psv_deleted sv @ [n]\<rparr>))
           else if l = ''QUIT''
           then accept (sv\<lparr>psv_maildrop := kept_messages sv, psv_deleted := [], psv_phase := Pop_ended\<rparr>)
           else refuse)
      | Pop_ended \<Rightarrow> ([], sv))"

fun pop_answers :: "string list \<Rightarrow> pop_server \<Rightarrow> string \<times> pop_server" where
  "pop_answers [] sv = ([], sv)"
| "pop_answers (l # ls) sv =
     (let (r, sv') = pop_answer l sv; (rs, sv'') = pop_answers ls sv' in (r @ rs, sv''))"

definition pop_serve :: "string \<Rightarrow> pop_server \<Rightarrow> string \<times> pop_server" where
  "pop_serve octets sv =
     (let (ls, rest) = crlf_lines (psv_buffer sv @ octets) in pop_answers ls (sv\<lparr>psv_buffer := rest\<rparr>))"

section \<open>The dialogue\<close>

text \<open>
  The octets on their way to the client, the start condition of its scanner, its module, the texts
  passed downstream, and the server. In one turn the client takes the octets; without any nothing happens.
\<close>

type_synonym pop_talk = "string \<times> pop_start \<times> POP_Module_Send \<times> string list list \<times> pop_server"

definition pop_turn :: "nat \<Rightarrow> POP_ProtocolConfiguration \<Rightarrow> pop_talk \<Rightarrow> pop_talk run" where
  "pop_turn space conf = (\<lambda>(octets, st, c, passed, sv).
     if octets = [] then Inr (octets, st, c, passed, sv)
     else case pop_driver_parse (expectMultiline c) st octets of
       (None, st') \<Rightarrow> Inr ([], st', c, passed, sv)
     | (Some r, st') \<Rightarrow>
         run_bind (pop_handleDataMessage pop_plentiful conf r c) (\<lambda>(m, c', texts). case m of
           None \<Rightarrow> Inr ([], st', c', passed @ texts, sv)
         | Some q \<Rightarrow>
             run_bind (pop_stream space [] q) (\<lambda>request.
               let (replies, sv') = pop_serve request sv in Inr (replies, st', c', passed @ texts, sv'))))"

fun pop_dialogue :: "nat \<Rightarrow> POP_ProtocolConfiguration \<Rightarrow> nat \<Rightarrow> pop_talk \<Rightarrow> pop_talk run" where
  "pop_dialogue space conf 0 t = Inr t"
| "pop_dialogue space conf (Suc n) t = run_bind (pop_turn space conf t) (pop_dialogue space conf n)"

definition pop_greeting :: "(string \<Rightarrow> string) \<Rightarrow> string list list \<Rightarrow> pop_talk" where
  "pop_greeting say maildrop =
     (status_line True (say []), sc_INITIAL, new_POP_Module_Send\<lparr>pop_connection := True\<rparr>, [],
      new_pop_server say maildrop)"

section \<open>Turns\<close>

lemma pop_serve_line:
  "one_line l \<Longrightarrow> psv_buffer sv = [] \<Longrightarrow> pop_serve (l @ CRLF) sv = pop_answer l sv"
  using crlf_lines_append [of l "[]"] by (cases sv) (simp add: pop_serve_def split: prod.splits)

lemma status_line_not_Nil [simp]: "status_line ok t \<noteq> []" "multiline_reply t ls \<noteq> []"
  by (simp_all add: status_line_def status_indicator_def multiline_reply_def)

text \<open>A command line the client writes in answer to a record, with the texts it passes downstream.\<close>

definition pop_writes ::
    "nat \<Rightarrow> POP_ProtocolConfiguration \<Rightarrow> POP_Record \<Rightarrow> POP_Module_Send \<Rightarrow> string \<Rightarrow> POP_Module_Send
     \<Rightarrow> string list list \<Rightarrow> bool" where
  "pop_writes space conf r c l c' texts \<longleftrightarrow>
     one_line l \<and> length l + 2 \<le> space
     \<and> (\<exists>q ts. pop_handleDataMessage pop_plentiful conf r c = Inr (Some q, c', texts)
               \<and> pop_texts (pop_request q) = Inr ts \<and> concat ts = l @ CRLF)"

lemma pop_turn_writes:
  assumes "pop_driver_parse (expectMultiline c) st octets = (Some r, st')" "octets \<noteq> []"
    and "pop_writes space conf r c l c' texts" "psv_buffer sv = []"
  shows "pop_turn space conf (octets, st, c, passed, sv)
           = Inr (fst (pop_answer l sv), st', c', passed @ texts, snd (pop_answer l sv))"
  using assms
  by (auto simp: pop_turn_def pop_writes_def pop_stream_def copy_texts_fit pop_serve_line split: prod.splits)


definition pop_configured :: "nat \<Rightarrow> POP_ProtocolConfiguration \<Rightarrow> bool" where
  "pop_configured space conf \<longleftrightarrow>
     one_line (pop_username conf) \<and> length (pop_username conf) + 7 \<le> space
     \<and> one_line (pop_password conf) \<and> length (pop_password conf) + 7 \<le> space \<and> 17 \<le> space"

lemmas pop_client_defs =
  pop_handleDataMessage_def pop_switch_def pop_send_def pop_plentiful_def pop_expect_def pop_passes_def
  pop_request_of_def pop_texts_def pop_with_argument_def pop_front_def reply_record_def
  new_POP_Record_def new_POP_Request_def status_indicator_def pop_isSuccess_def

lemma one_line_show_dec [simp]: "one_line (show_dec n)"
  using show_dec_digits [of "CHR 0x0D" n] by (auto simp: one_line_def is_digit_def char_code_def)

lemma length_show_u32: "length (show_dec (unat (v :: u32))) \<le> 10"
  using length_show_dec [of "unat v" 9] unsigned_less [of v, where 'a = nat] by simp

lemma writes_user:
  assumes "pop_configured space conf" "pop_connection c" "pop_protocolState c = POP_STATE_INVALID"
  shows "pop_writes space conf (reply_record True ts) c (''USER '' @ pop_username conf)
           (c\<lparr>pop_protocolState := POP_STATE_AUTH_LOGIN_USER_SENT\<rparr>) []"
  using assms by (auto simp: pop_writes_def pop_configured_def pop_client_defs)

lemma writes_pass:
  assumes "pop_configured space conf" "pop_connection c" "pop_protocolState c = POP_STATE_AUTH_LOGIN_USER_SENT"
  shows "pop_writes space conf (reply_record True ts) c (''PASS '' @ pop_password conf)
           (c\<lparr>pop_protocolState := POP_STATE_AUTH_LOGIN_PASSWORD_SENT\<rparr>) []"
  using assms by (auto simp: pop_writes_def pop_configured_def pop_client_defs)

lemma writes_stat:
  assumes "pop_configured space conf" "pop_connection c"
    "pop_protocolState c = POP_STATE_AUTH_LOGIN_PASSWORD_SENT"
  shows "pop_writes space conf (reply_record True ts) c ''STAT''
           (c\<lparr>pop_protocolState := POP_STATE_TRANS_STAT_SENT\<rparr>) []"
  using assms by (auto simp: pop_writes_def pop_configured_def pop_client_defs)

lemma writes_retr:
  assumes "pop_configured space conf" "pop_connection c" "pop_protocolState c = POP_STATE_TRANS_RETR_SENT"
    "pop_index c < mailDropMessages c"
  shows "pop_writes space conf (reply_record True ts) c (''RETR '' @ show_dec (unat (pop_index c + 1)))
           (c\<lparr>pop_index := pop_index c + 1\<rparr>) [ts]"
  using assms length_show_u32 [of "pop_index c + 1"]
  by (auto simp: pop_writes_def pop_configured_def pop_client_defs pop_retr_reply_def index_text_def not_less
     inc_le Let_def)

lemma writes_dele:
  assumes "pop_configured space conf" "pop_connection c" "pop_protocolState c = POP_STATE_TRANS_RETR_SENT"
    "mailDropMessages c < pop_index c + 1"
  shows "pop_writes space conf (reply_record True ts) c ''DELE 1''
           (c\<lparr>pop_protocolState := POP_STATE_TRANS_DELE_SENT, pop_index := 1, expectMultiline := False\<rparr>) [ts]"
  using assms
  by (auto simp: pop_writes_def pop_configured_def pop_client_defs pop_retr_reply_def index_text_def show_dec.simps
     Let_def)

lemma writes_quit:
  assumes "pop_configured space conf" "pop_connection c" "pop_protocolState c = POP_STATE_TRANS_DELE_SENT"
    "mailDropMessages c < pop_index c + 1"
  shows "pop_writes space conf (reply_record True ts) c ''QUIT''
           (c\<lparr>pop_protocolState := POP_STATE_TRANS_QUIT_SENT, pop_index := pop_index c + 1\<rparr>) []"
  using assms
  by (auto simp: pop_writes_def pop_configured_def pop_client_defs pop_dele_reply_def Let_def)

text \<open>The reply to \<open>STAT\<close>.\<close>

lemma derives_stat:
  "derives stat_regex (s, Map.empty) ([], c) \<longleftrightarrow>
     (\<exists>v w. v \<noteq> [] \<and> w \<noteq> [] \<and> list_all is_digit v \<and> list_all is_digit w \<and> s = v @ CHR '' '' # w
        \<and> c = [1 \<mapsto> v, 2 \<mapsto> w])"
  unfolding stat_regex_def derives_Seq split_paired_Ex derives_Grp_Plus_Cls derives_Cls by auto

lemma match_stat:
  "regex_match stat_regex (show_dec n @ CHR '' '' # show_dec m) = Some [1 \<mapsto> show_dec n, 2 \<mapsto> show_dec m]"
proof (rule regex_match_unique)
  have digits: "list_all is_digit (show_dec k)" for k
    by (simp add: list_all_iff show_dec_digits)
  then show "derives stat_regex (show_dec n @ CHR '' '' # show_dec m, Map.empty)
      ([], [1 \<mapsto> show_dec n, 2 \<mapsto> show_dec m])"
    unfolding derives_stat by (intro exI [of _ "show_dec n"] exI [of _ "show_dec m"]) simp
  have space: "CHR '' '' \<notin> set v" if "list_all is_digit v" for v
    using that by (auto simp: list_all_iff is_digit_def char_code_def)
  fix c assume "derives stat_regex (show_dec n @ CHR '' '' # show_dec m, Map.empty) ([], c)"
  then obtain v w where vw: "show_dec n @ CHR '' '' # show_dec m = v @ CHR '' '' # w" "list_all is_digit v"
    "c = [1 \<mapsto> v, 2 \<mapsto> w]"
    unfolding derives_stat by auto
  then have "show_dec n = v" "show_dec m = w"
    using append_sep_eq [OF space [OF digits [of n]] space [OF vw(2)]] by auto
  then show "c = [1 \<mapsto> show_dec n, 2 \<mapsto> show_dec m]"
    using vw(3) by simp
qed

lemma writes_first_retr:
  assumes "pop_configured space conf" "pop_connection c" "pop_protocolState c = POP_STATE_TRANS_STAT_SENT"
    "0 < n" "n < 2 ^ 32"
  shows "pop_writes space conf (reply_record True [show_dec n @ '' '' @ show_dec m]) c ''RETR 1''
           (c\<lparr>pop_protocolState := POP_STATE_TRANS_RETR_SENT, mailDropMessages := word_of_nat n, pop_index := 1,
              expectMultiline := True\<rparr>) []"
proof -
  have "extract_unsigned 32 (show_dec n) = n"
    using assms(5) extract_show_dec [of n 32 "[]"] by simp
  moreover have "(word_of_nat n :: u32) \<noteq> 0"
    using assms(4,5) by (auto simp: word_unat_eq_iff unat_of_nat)
  ultimately show ?thesis
    using assms(1-3) match_stat [of n m]
    by (auto simp: pop_writes_def pop_configured_def pop_client_defs pop_stat_reply_def index_text_def
       show_dec.simps [of 1] show_dec.simps [of "Suc 0"] Let_def)
qed

lemma writes_empty_quit:
  assumes "pop_configured space conf" "pop_connection c" "pop_protocolState c = POP_STATE_TRANS_STAT_SENT"
  shows "pop_writes space conf (reply_record True [show_dec 0 @ '' '' @ show_dec m]) c ''QUIT''
           (c\<lparr>pop_protocolState := POP_STATE_TRANS_QUIT_SENT, mailDropMessages := 0\<rparr>) []"
  using assms match_stat [of 0 m] extract_show_dec [of 0 32 "[]"]
  by (auto simp: pop_writes_def pop_configured_def pop_client_defs pop_stat_reply_def Let_def)

section \<open>The dialogue with a conforming server\<close>

definition pop_server_ok :: "(string \<Rightarrow> string) \<Rightarrow> string list list \<Rightarrow> bool" where
  "pop_server_ok say maildrop \<longleftrightarrow>
     (\<forall>l. status_text_ok (say l)) \<and> list_all (list_all plain) maildrop \<and> length maildrop < 2 ^ 32 - 1"

definition transaction_server ::
    "POP_ProtocolConfiguration \<Rightarrow> (string \<Rightarrow> string) \<Rightarrow> string list list \<Rightarrow> pop_server" where
  "transaction_server conf say maildrop =
     (new_pop_server say maildrop)\<lparr>psv_user := Some (pop_username conf),
       psv_login := Some (pop_username conf, pop_password conf), psv_phase := Pop_transaction\<rparr>"

definition retr_line :: "nat \<Rightarrow> string" where
  "retr_line k = ''RETR '' @ show_dec (Suc k)"

text \<open>What is passed downstream of the first \<open>k\<close> messages.\<close>

definition downloaded :: "(string \<Rightarrow> string) \<Rightarrow> string list list \<Rightarrow> nat \<Rightarrow> string list list" where
  "downloaded say maildrop k =
     map (\<lambda>i. map (\<lambda>l. l @ CRLF) (filter (\<lambda>l. l \<noteq> []) (say (retr_line i) # maildrop ! i))) [0 ..< k]"

definition retr_client :: "nat \<Rightarrow> nat \<Rightarrow> POP_Module_Send" where
  "retr_client n k =
     \<lparr>pop_protocolState = POP_STATE_TRANS_RETR_SENT, mailDropMessages = word_of_nat n,
      pop_index = word_of_nat (Suc k), pop_connection = True, expectMultiline = True\<rparr>"

definition retr_talk ::
    "POP_ProtocolConfiguration \<Rightarrow> (string \<Rightarrow> string) \<Rightarrow> string list list \<Rightarrow> nat \<Rightarrow> pop_talk" where
  "retr_talk conf say maildrop k =
     (multiline_reply (say (retr_line k)) (maildrop ! k), sc_reply_code, retr_client (length maildrop) k,
      downloaded say maildrop k, transaction_server conf say maildrop)"

definition listed_talk ::
    "POP_ProtocolConfiguration \<Rightarrow> (string \<Rightarrow> string) \<Rightarrow> string list list \<Rightarrow> pop_talk" where
  "listed_talk conf say maildrop =
     (status_line True (drop_listing (transaction_server conf say maildrop)), sc_reply_code,
      \<lparr>pop_protocolState = POP_STATE_TRANS_STAT_SENT, mailDropMessages = 0, pop_index = 0,
       pop_connection = True, expectMultiline = False\<rparr>,
      [], transaction_server conf say maildrop)"

lemma pop_turn_status_line:
  assumes "status_text_ok t" "st \<in> {sc_INITIAL, sc_reply_code}" "\<not> expectMultiline c" "psv_buffer sv = []"
    and "pop_writes space conf (reply_record True (if t = [] then [] else [t])) c l c' texts"
  shows "pop_turn space conf (status_line True t, st, c, passed, sv)
           = Inr (fst (pop_answer l sv), sc_reply_code, c', passed @ texts, snd (pop_answer l sv))"
  using assms pop_turn_writes [OF _ _ assms(5,4)] parse_status_line [OF assms(2,1), of True] by simp

lemma pop_turn_multiline:
  assumes "status_text_ok t" "list_all plain ls" "expectMultiline c" "psv_buffer sv = []"
    and "pop_writes space conf (reply_record True (map (\<lambda>l. l @ CRLF) (filter (\<lambda>l. l \<noteq> []) (t # ls)))) c l c' texts"
  shows "pop_turn space conf (multiline_reply t ls, sc_reply_code, c, passed, sv)
           = Inr (fst (pop_answer l sv), sc_reply_code, c', passed @ texts, snd (pop_answer l sv))"
  using assms pop_turn_writes [OF _ _ assms(5,4)] parse_multiline_reply [OF _ assms(1,2), of sc_reply_code]
  by simp

lemma pop_dialogue_add:
  "pop_dialogue space conf (m + n) t = run_bind (pop_dialogue space conf m t) (pop_dialogue space conf n)"
proof (induction m arbitrary: t)
  case (Suc m)
  then show ?case
    by (cases "pop_turn space conf t") simp_all
qed simp

lemma pop_login:
  assumes "pop_configured space conf" "pop_server_ok say maildrop"
  shows "pop_dialogue space conf 3 (pop_greeting say maildrop) = Inr (listed_talk conf say maildrop)"
proof -
  have say: "status_text_ok (say l)" for l
    using assms(2) by (simp add: pop_server_ok_def)
  let ?c = "\<lambda>st. new_POP_Module_Send\<lparr>pop_connection := True, pop_protocolState := st\<rparr>"
  let ?sv = "new_pop_server say maildrop"
  let ?sv' = "?sv\<lparr>psv_user := Some (pop_username conf)\<rparr>"
  have "pop_turn space conf (pop_greeting say maildrop)
      = Inr (status_line True (say (''USER '' @ pop_username conf)), sc_reply_code,
             ?c POP_STATE_AUTH_LOGIN_USER_SENT, [], ?sv')"
    using pop_turn_status_line [OF say _ _ _ writes_user [OF assms(1)], of sc_INITIAL "?c POP_STATE_INVALID" ?sv]
    by (simp add: pop_greeting_def pop_answer_def new_pop_server_def new_POP_Module_Send_def)
  moreover have "pop_turn space conf (status_line True (say (''USER '' @ pop_username conf)), sc_reply_code,
             ?c POP_STATE_AUTH_LOGIN_USER_SENT, [], ?sv')
      = Inr (status_line True (say (''PASS '' @ pop_password conf)), sc_reply_code,
             ?c POP_STATE_AUTH_LOGIN_PASSWORD_SENT, [], transaction_server conf say maildrop)"
    using pop_turn_status_line [OF say _ _ _ writes_pass [OF assms(1)], of sc_reply_code
        "?c POP_STATE_AUTH_LOGIN_USER_SENT" ?sv']
    by (simp add: pop_answer_def transaction_server_def new_pop_server_def new_POP_Module_Send_def)
  moreover have "pop_turn space conf (status_line True (say (''PASS '' @ pop_password conf)), sc_reply_code,
             ?c POP_STATE_AUTH_LOGIN_PASSWORD_SENT, [], transaction_server conf say maildrop)
      = Inr (listed_talk conf say maildrop)"
    using pop_turn_status_line [OF say _ _ _ writes_stat [OF assms(1)], of sc_reply_code
        "?c POP_STATE_AUTH_LOGIN_PASSWORD_SENT" "transaction_server conf say maildrop"]
    by (simp add: pop_answer_def transaction_server_def new_pop_server_def new_POP_Module_Send_def listed_talk_def)
  ultimately show ?thesis
    by (simp add: numeral_3_eq_3)
qed

lemma kept_all [simp]: "psv_deleted sv = [] \<Longrightarrow> kept_messages sv = psv_maildrop sv"
  by (simp add: kept_messages_def map_nth)

lemma transaction_server_simps [simp]:
  "psv_deleted (transaction_server conf say maildrop) = []"
  "psv_maildrop (transaction_server conf say maildrop) = maildrop"
  "psv_phase (transaction_server conf say maildrop) = Pop_transaction"
  "psv_buffer (transaction_server conf say maildrop) = []"
  "psv_say (transaction_server conf say maildrop) = say"
  by (simp_all add: transaction_server_def new_pop_server_def)

lemma listing_ok: "status_text_ok (show_dec n @ CHR '' '' # show_dec m)" (is "status_text_ok ?t")
proof -
  have digit: "c \<noteq> CHR 0x0D \<and> c \<noteq> CHR 0x00 \<and> c \<noteq> CHR '' '' \<and> c \<noteq> CHR ''.''" if "is_digit c" for c
    using that by (auto simp: is_digit_def char_code_def)
  then have plain: "plain (show_dec k)" for k
    using show_dec_digits [of _ k] by (auto simp: plain_def)
  moreover obtain c s where "show_dec n = c # s" "is_digit c"
    using show_dec_not_Nil [of n] show_dec_digits [of _ n] by (cases "show_dec n") auto
  ultimately show ?thesis
    using digit [of c] plain [of n] by (auto simp: status_text_ok_def)
qed

lemma answer_retr:
  assumes "k < length maildrop"
  shows "pop_answer (retr_line k) (transaction_server conf say maildrop)
    = (multiline_reply (say (retr_line k)) (maildrop ! k), transaction_server conf say maildrop)"
proof -
  have "list_all is_digit (show_dec (Suc k))"
    by (simp add: list_all_iff show_dec_digits)
  then have "message_number (transaction_server conf say maildrop) (show_dec (Suc k)) = Some (Suc k)"
    using assms by (simp add: message_number_def Let_def)
  then show ?thesis
    by (simp add: pop_answer_def retr_line_def Let_def)
qed

lemma pop_listed:
  assumes "pop_configured space conf" "pop_server_ok say maildrop" "maildrop \<noteq> []"
  shows "pop_turn space conf (listed_talk conf say maildrop) = Inr (retr_talk conf say maildrop 0)"
proof -
  let ?c = "\<lparr>pop_protocolState = POP_STATE_TRANS_STAT_SENT, mailDropMessages = 0, pop_index = 0,
       pop_connection = True, expectMultiline = False\<rparr>"
  have n: "0 < length maildrop" "length maildrop < 2 ^ 32"
    using assms(2,3) by (auto simp: pop_server_ok_def)
  obtain m where listing: "drop_listing (transaction_server conf say maildrop)
      = show_dec (length maildrop) @ CHR '' '' # show_dec m"
    by (simp add: drop_listing_def)
  have retr: "''RETR 1'' = retr_line 0"
    by (simp add: retr_line_def show_dec.simps [of "Suc 0"])
  show ?thesis
    using pop_turn_status_line [OF listing_ok _ _ _, of sc_reply_code ?c "transaction_server conf say maildrop"]
      writes_first_retr [OF assms(1) _ _ n, of ?c m] answer_retr [of 0 maildrop conf say] n
    by (simp add: listed_talk_def listing retr retr_talk_def downloaded_def retr_client_def)
qed

lemma word_of_nat_less: "m < n \<Longrightarrow> n < 2 ^ 32 \<Longrightarrow> (word_of_nat m :: u32) < word_of_nat n"
  by (simp add: word_less_nat_alt unat_of_nat)

lemma unat_of_index: "n < 2 ^ 32 \<Longrightarrow> unat (word_of_nat n :: u32) = n"
  by (simp add: unat_of_nat)

lemma downloaded_Suc:
  "downloaded say maildrop (Suc k) = downloaded say maildrop k
     @ [map (\<lambda>l. l @ CRLF) (filter (\<lambda>l. l \<noteq> []) (say (retr_line k) # maildrop ! k))]"
  by (simp add: downloaded_def)

lemma pop_server_okD:
  assumes "pop_server_ok say maildrop"
  shows "status_text_ok (say l)" and "k < length maildrop \<Longrightarrow> list_all plain (maildrop ! k)"
    and "length maildrop < 2 ^ 32 - 1"
  using assms by (auto simp: pop_server_ok_def list_all_length)

lemma pop_next_retr:
  assumes "pop_configured space conf" "pop_server_ok say maildrop" "Suc k < length maildrop"
  shows "pop_turn space conf (retr_talk conf say maildrop k) = Inr (retr_talk conf say maildrop (Suc k))"
proof -
  let ?c = "retr_client (length maildrop) k"
  note ok = pop_server_okD [OF assms(2)]
  have "(word_of_nat (Suc k) :: u32) < word_of_nat (length maildrop)"
    using assms(3) ok(3) by (intro word_of_nat_less) simp_all
  then have less: "pop_index ?c < mailDropMessages ?c"
    by (simp add: retr_client_def)
  have index: "pop_index ?c + 1 = word_of_nat (Suc (Suc k))"
    by (simp add: retr_client_def)
  have "unat (word_of_nat (Suc (Suc k)) :: u32) = Suc (Suc k)"
    using assms(3) ok(3) by (intro unat_of_index) simp
  then have line: "''RETR '' @ show_dec (unat (pop_index ?c + 1)) = retr_line (Suc k)"
    unfolding index by (simp only: retr_line_def)
  have "pop_turn space conf (multiline_reply (say (retr_line k)) (maildrop ! k), sc_reply_code, ?c,
      downloaded say maildrop k, transaction_server conf say maildrop)
    = Inr (fst (pop_answer (retr_line (Suc k)) (transaction_server conf say maildrop)), sc_reply_code,
           ?c\<lparr>pop_index := pop_index ?c + 1\<rparr>, downloaded say maildrop (Suc k),
           snd (pop_answer (retr_line (Suc k)) (transaction_server conf say maildrop)))"
    unfolding downloaded_Suc
    using assms(3) ok writes_retr [OF assms(1) _ _ less, unfolded line]
    by (intro pop_turn_multiline) (simp_all add: retr_client_def)
  then show ?thesis
    using answer_retr [OF assms(3), of conf say] by (simp add: retr_talk_def retr_client_def)
qed

definition dele_talk ::
    "POP_ProtocolConfiguration \<Rightarrow> (string \<Rightarrow> string) \<Rightarrow> string list list \<Rightarrow> pop_talk" where
  "dele_talk conf say maildrop =
     (status_line True (say ''DELE 1''), sc_reply_code,
      \<lparr>pop_protocolState = POP_STATE_TRANS_DELE_SENT, mailDropMessages = word_of_nat (length maildrop),
       pop_index = 1, pop_connection = True, expectMultiline = False\<rparr>,
      downloaded say maildrop (length maildrop),
      (transaction_server conf say maildrop)\<lparr>psv_deleted := [1]\<rparr>)"

lemma pop_last_retr:
  assumes "pop_configured space conf" "pop_server_ok say maildrop" "Suc k = length maildrop"
  shows "pop_turn space conf (retr_talk conf say maildrop k) = Inr (dele_talk conf say maildrop)"
proof -
  let ?c = "retr_client (length maildrop) k"
  note ok = pop_server_okD [OF assms(2)]
  have "(word_of_nat (Suc k) :: u32) < word_of_nat (Suc (Suc k))"
    using assms(3) ok(3) by (intro word_of_nat_less) simp_all
  then have "mailDropMessages ?c < pop_index ?c + 1"
    using assms(3) [symmetric] by (simp add: retr_client_def)
  note writes = writes_dele [OF assms(1) _ _ this]
  have "pop_turn space conf (multiline_reply (say (retr_line k)) (maildrop ! k), sc_reply_code, ?c,
      downloaded say maildrop k, transaction_server conf say maildrop)
    = Inr (fst (pop_answer ''DELE 1'' (transaction_server conf say maildrop)), sc_reply_code,
           ?c\<lparr>pop_protocolState := POP_STATE_TRANS_DELE_SENT, pop_index := 1, expectMultiline := False\<rparr>,
           downloaded say maildrop (Suc k), snd (pop_answer ''DELE 1'' (transaction_server conf say maildrop)))"
    unfolding downloaded_Suc
    using assms(3) ok writes by (intro pop_turn_multiline) (simp_all add: retr_client_def)
  moreover have "message_number (transaction_server conf say maildrop) ''1'' = Some 1"
    using assms(3) by (simp add: message_number_def is_digit_def digit_value_def dec_value_def char_code_def)
  then have "pop_answer ''DELE 1'' (transaction_server conf say maildrop)
      = (status_line True (say ''DELE 1''), (transaction_server conf say maildrop)\<lparr>psv_deleted := [1]\<rparr>)"
    by (simp add: pop_answer_def)
  ultimately show ?thesis
    using assms(3) by (simp add: retr_talk_def retr_client_def dele_talk_def)
qed

lemma pop_downloads:
  assumes "pop_configured space conf" "pop_server_ok say maildrop" "maildrop \<noteq> []"
  shows "pop_dialogue space conf (4 + length maildrop) (pop_greeting say maildrop)
           = Inr (dele_talk conf say maildrop)"
proof -
  have retrs: "pop_dialogue space conf k (retr_talk conf say maildrop 0) = Inr (retr_talk conf say maildrop k)"
    if "k < length maildrop" for k
    using that
  proof (induction k)
    case (Suc k)
    then show ?case
      using pop_dialogue_add [of space conf k 1] pop_next_retr [OF assms(1,2), of k] by simp
  qed simp
  obtain k where k: "length maildrop = Suc k"
    using assms(3) by (cases maildrop) auto
  then have "pop_dialogue space conf (k + 1) (retr_talk conf say maildrop 0) = Inr (dele_talk conf say maildrop)"
    using retrs [of k] pop_last_retr [OF assms(1,2), of k] pop_dialogue_add [of space conf k 1] by simp
  moreover have "pop_dialogue space conf (3 + 1) (pop_greeting say maildrop) = Inr (retr_talk conf say maildrop 0)"
    using pop_dialogue_add [of space conf 3 1] pop_login [OF assms(1,2)] pop_listed [OF assms] by simp
  ultimately show ?thesis
    using pop_dialogue_add [of space conf 4 "length maildrop" "pop_greeting say maildrop"] k by simp
qed

lemma pop_dialogue_quiet: "pop_dialogue space conf m ([], st, c, passed, sv) = Inr ([], st, c, passed, sv)"
  by (induction m) (simp_all add: pop_turn_def)

lemma pop_quit_reply:
  assumes "status_text_ok t" "pop_connection c" "pop_protocolState c = POP_STATE_TRANS_QUIT_SENT"
    "\<not> expectMultiline c"
  shows "pop_turn space conf (status_line True t, sc_reply_code, c, passed, sv)
           = Inr ([], sc_reply_code, c, passed, sv)"
  using assms parse_status_line [OF _ assms(1), of sc_reply_code True]
  by (simp add: pop_turn_def pop_client_defs)

definition ended_server :: "POP_ProtocolConfiguration \<Rightarrow> (string \<Rightarrow> string) \<Rightarrow> pop_server" where
  "ended_server conf say = (transaction_server conf say [])\<lparr>psv_phase := Pop_ended\<rparr>"

lemma pop_empty_maildrop:
  assumes "pop_configured space conf" "pop_server_ok say []"
  shows "\<exists>c. pop_dialogue space conf 5 (pop_greeting say [])
           = Inr ([], sc_reply_code, c, [], ended_server conf say)"
proof -
  let ?c = "\<lparr>pop_protocolState = POP_STATE_TRANS_STAT_SENT, mailDropMessages = 0, pop_index = 0,
       pop_connection = True, expectMultiline = False\<rparr>"
  let ?c' = "?c\<lparr>pop_protocolState := POP_STATE_TRANS_QUIT_SENT\<rparr>"
  note ok = pop_server_okD [OF assms(2)]
  obtain m where listing: "drop_listing (transaction_server conf say []) = show_dec 0 @ CHR '' '' # show_dec m"
    by (simp add: drop_listing_def)
  have "pop_answer ''QUIT'' (transaction_server conf say []) = (status_line True (say ''QUIT''), ended_server conf say)"
    by (simp add: pop_answer_def ended_server_def transaction_server_def new_pop_server_def)
  then have "pop_turn space conf (listed_talk conf say [])
      = Inr (status_line True (say ''QUIT''), sc_reply_code, ?c', [], ended_server conf say)"
    using pop_turn_status_line [OF listing_ok _ _ _, of sc_reply_code ?c "transaction_server conf say []"]
      writes_empty_quit [OF assms(1), of ?c m]
    by (simp add: listed_talk_def listing)
  moreover have "pop_turn space conf (status_line True (say ''QUIT''), sc_reply_code, ?c', [], ended_server conf say)
      = Inr ([], sc_reply_code, ?c', [], ended_server conf say)"
    using ok(1) by (intro pop_quit_reply) simp_all
  ultimately show ?thesis
    using pop_login [OF assms] pop_dialogue_add [of space conf 3 2 "pop_greeting say []"]
    by (simp add: numeral_2_eq_2)
qed

lemma pop_one_message:
  assumes "pop_configured space conf" "pop_server_ok say [msg]"
  shows "\<exists>c. pop_dialogue space conf 2 (dele_talk conf say [msg])
           = Inr ([], sc_reply_code, c, downloaded say [msg] 1, ended_server conf say)"
proof -
  let ?c = "\<lparr>pop_protocolState = POP_STATE_TRANS_DELE_SENT, mailDropMessages = 1, pop_index = 1,
       pop_connection = True, expectMultiline = False\<rparr>"
  let ?c' = "?c\<lparr>pop_protocolState := POP_STATE_TRANS_QUIT_SENT, pop_index := 2\<rparr>"
  note ok = pop_server_okD [OF assms(2)]
  have "kept_messages ((transaction_server conf say [msg])\<lparr>psv_deleted := [1]\<rparr>) = []"
    by (simp add: kept_messages_def)
  then have "pop_turn space conf (dele_talk conf say [msg])
      = Inr (status_line True (say ''QUIT''), sc_reply_code, ?c', downloaded say [msg] 1, ended_server conf say)"
    using pop_turn_status_line [OF ok(1) _ _ _ writes_quit [OF assms(1)], of sc_reply_code ?c
        "(transaction_server conf say [msg])\<lparr>psv_deleted := [1]\<rparr>"]
    by (simp add: dele_talk_def pop_answer_def ended_server_def transaction_server_def new_pop_server_def)
  moreover have "pop_turn space conf (status_line True (say ''QUIT''), sc_reply_code, ?c', downloaded say [msg] 1,
        ended_server conf say) = Inr ([], sc_reply_code, ?c', downloaded say [msg] 1, ended_server conf say)"
    using ok(1) by (intro pop_quit_reply) simp_all
  ultimately show ?thesis
    by (simp add: numeral_2_eq_2)
qed

lemma pop_invalid_deletion:
  assumes "pop_server_ok say maildrop" "2 \<le> length maildrop"
  shows "\<exists>c. pop_turn space conf (dele_talk conf say maildrop)
           = Inr ([], sc_reply_code, c, downloaded say maildrop (length maildrop),
                  (transaction_server conf say maildrop)\<lparr>psv_deleted := [1]\<rparr>)
           \<and> pop_protocolState c = POP_STATE_TRANS_DELE_SENT"
proof -
  note ok = pop_server_okD [OF assms(1)]
  have "\<not> (word_of_nat (length maildrop) :: u32) < 2"
    using assms(2) ok(3) by (simp add: word_less_nat_alt unat_of_nat)
  then show ?thesis
    using parse_status_line [OF _ ok(1), of sc_reply_code True "''DELE 1''"]
    by (simp add: dele_talk_def pop_turn_def pop_client_defs pop_dele_reply_def pop_stream_def pop_serve_def Let_def)
qed

lemma pop_comes_to_rest:
  assumes "pop_configured space conf" "pop_server_ok say maildrop"
  shows "\<exists>c. (\<forall>m. pop_dialogue space conf (length maildrop + 6 + m) (pop_greeting say maildrop)
      = Inr ([], sc_reply_code, c, downloaded say maildrop (length maildrop),
             if length maildrop \<le> 1 then ended_server conf say
             else (transaction_server conf say maildrop)\<lparr>psv_deleted := [1]\<rparr>))
      \<and> (2 \<le> length maildrop \<longrightarrow> pop_protocolState c = POP_STATE_TRANS_DELE_SENT)"
    (is "\<exists>c. (\<forall>m. _ = Inr (?talk c)) \<and> ?state c")
proof -
  have "\<exists>k c. k \<le> length maildrop + 6 \<and> pop_dialogue space conf k (pop_greeting say maildrop) = Inr (?talk c)
      \<and> ?state c"
  proof (cases "length maildrop \<le> 1")
    case True
    then consider "maildrop = []" | msg where "maildrop = [msg]"
      by (cases maildrop) auto
    then show ?thesis
    proof cases
      case 1
      obtain c where "pop_dialogue space conf 5 (pop_greeting say []) = Inr ([], sc_reply_code, c, [], ended_server conf say)"
        using pop_empty_maildrop [OF assms(1), of say] assms(2) 1 by auto
      then show ?thesis
        unfolding 1 by (intro exI [of _ 5] exI [of _ c]) (simp add: downloaded_def)
    next
      case 2
      obtain c where "pop_dialogue space conf 2 (dele_talk conf say [msg])
          = Inr ([], sc_reply_code, c, downloaded say [msg] 1, ended_server conf say)"
        using pop_one_message [OF assms(1), of say msg] assms(2) 2 by auto
      then have "pop_dialogue space conf (5 + 2) (pop_greeting say [msg])
          = Inr ([], sc_reply_code, c, downloaded say [msg] 1, ended_server conf say)"
        unfolding pop_dialogue_add using pop_downloads [OF assms] 2 by simp
      then show ?thesis
        unfolding 2 by (intro exI [of _ 7] exI [of _ c]) simp
    qed
  next
    case False
    then obtain c where c: "pop_turn space conf (dele_talk conf say maildrop)
        = Inr ([], sc_reply_code, c, downloaded say maildrop (length maildrop),
               (transaction_server conf say maildrop)\<lparr>psv_deleted := [1]\<rparr>)"
      "pop_protocolState c = POP_STATE_TRANS_DELE_SENT"
      using pop_invalid_deletion [OF assms(2), of space conf] by auto
    have "maildrop \<noteq> []"
      using False by auto
    note downloads = pop_downloads [OF assms this]
    have "pop_dialogue space conf (4 + length maildrop + 1) (pop_greeting say maildrop) = Inr (?talk c)"
      using c(1) False by (subst pop_dialogue_add) (simp add: downloads)
    then show ?thesis
      using c(2) by (intro exI [of _ "4 + length maildrop + 1"] exI [of _ c]) simp
  qed
  then obtain k c where k: "k \<le> length maildrop + 6"
    and rest: "pop_dialogue space conf k (pop_greeting say maildrop) = Inr (?talk c)" and state: "?state c"
    by blast
  have "pop_dialogue space conf (k + (length maildrop + 6 + m - k)) (pop_greeting say maildrop) = Inr (?talk c)" for m
    unfolding pop_dialogue_add rest by (simp add: pop_dialogue_quiet)
  then show ?thesis
    using k state by (intro exI [of _ c] conjI allI) (metis le_add_diff_inverse trans_le_add1, simp)
qed

section \<open>Properties\<close>

text \<open>C7: With a server after RFC 1939 the client logs in with the configured user and password and passes
  every message of the maildrop downstream, in order and each with the text of its status line in front
  and without its empty lines, whatever their number; the dialogue comes to rest. A maildrop of at most
  one message is empty afterwards, and the session has ended.\<close>

theorem pop_maildrop_retrieved:
  assumes "pop_configured space conf" "pop_server_ok say maildrop"
  shows "\<exists>st c sv. (\<forall>m. pop_dialogue space conf (length maildrop + 6 + m) (pop_greeting say maildrop)
             = Inr ([], st, c, downloaded say maildrop (length maildrop), sv))
           \<and> psv_login sv = Some (pop_username conf, pop_password conf)
           \<and> (length maildrop \<le> 1 \<longrightarrow> psv_phase sv = Pop_ended \<and> psv_maildrop sv = [])"
proof -
  obtain c where "pop_dialogue space conf (length maildrop + 6 + m) (pop_greeting say maildrop)
      = Inr ([], sc_reply_code, c, downloaded say maildrop (length maildrop),
             if length maildrop \<le> 1 then ended_server conf say
             else (transaction_server conf say maildrop)\<lparr>psv_deleted := [1]\<rparr>)" for m
    using pop_comes_to_rest [OF assms] by blast
  then show ?thesis
    by (intro exI conjI) (auto simp: ended_server_def transaction_server_def new_pop_server_def)
qed

definition example_pop_configuration :: POP_ProtocolConfiguration where
  "example_pop_configuration = \<lparr>pop_username = ''joe'', pop_password = ''secret''\<rparr>"

lemma example_pop_configured: "pop_configured 80 example_pop_configuration"
  by (simp add: pop_configured_def example_pop_configuration_def)

lemma example_server_ok:
  "pop_server_ok (\<lambda>l. ''ready'') [[''Subject: a'', [], ''b'']]"
  "pop_server_ok (\<lambda>l. ''ready'') [[''Subject: a'', [], ''b''], [''c'']]"
  by (simp_all add: pop_server_ok_def status_text_ok_def)

theorem pop_maildrop_retrieved_witness:
  "\<exists>st c sv. (\<forall>m. pop_dialogue 80 example_pop_configuration (7 + m)
                   (pop_greeting (\<lambda>l. ''ready'') [[''Subject: a'', [], ''b'']])
             = Inr ([], st, c, [[''ready'' @ CRLF, ''Subject: a'' @ CRLF, ''b'' @ CRLF]], sv))
     \<and> psv_phase sv = Pop_ended \<and> psv_maildrop sv = []"
  using pop_maildrop_retrieved [OF example_pop_configured example_server_ok(1)]
  by (auto simp: downloaded_def)

text \<open>C32: A maildrop of two messages or more is never emptied: the request that should delete the second
  message has no command, so nothing is written, the dialogue stops behind the first deletion, and
  without \<open>QUIT\<close> the server keeps every message.\<close>

theorem pop_second_deletion_stalls:
  assumes "pop_configured space conf" "pop_server_ok say maildrop" "2 \<le> length maildrop"
  shows "\<exists>st c sv. (\<forall>m. pop_dialogue space conf (length maildrop + 6 + m) (pop_greeting say maildrop)
             = Inr ([], st, c, downloaded say maildrop (length maildrop), sv))
           \<and> pop_protocolState c = POP_STATE_TRANS_DELE_SENT \<and> psv_phase sv = Pop_transaction
           \<and> psv_maildrop sv = maildrop \<and> psv_deleted sv = [1]"
proof -
  obtain c where "pop_dialogue space conf (length maildrop + 6 + m) (pop_greeting say maildrop)
      = Inr ([], sc_reply_code, c, downloaded say maildrop (length maildrop),
             if length maildrop \<le> 1 then ended_server conf say
             else (transaction_server conf say maildrop)\<lparr>psv_deleted := [1]\<rparr>)"
      "pop_protocolState c = POP_STATE_TRANS_DELE_SENT" for m
    using pop_comes_to_rest [OF assms(1,2)] assms(3) by blast
  then show ?thesis
    using assms(3) by (intro exI [of _ sc_reply_code] exI [of _ c] exI conjI allI) auto
qed

theorem pop_second_deletion_stalls_witness:
  "\<exists>st c sv. (\<forall>m. pop_dialogue 80 example_pop_configuration (8 + m)
                   (pop_greeting (\<lambda>l. ''ready'') [[''Subject: a'', [], ''b''], [''c'']])
             = Inr ([], st, c, [[''ready'' @ CRLF, ''Subject: a'' @ CRLF, ''b'' @ CRLF],
                                [''ready'' @ CRLF, ''c'' @ CRLF]], sv))
     \<and> psv_phase sv = Pop_transaction \<and> psv_maildrop sv = [[''Subject: a'', [], ''b''], [''c'']]"
  using pop_second_deletion_stalls [OF example_pop_configured example_server_ok(2)]
  by (auto simp: downloaded_def)

end
