(* ===== verification/Dhcp_Wire.thy ===== *)
theory Dhcp_Wire
  imports Net_Byte_Order
begin

text \<open>
  DHCP (\<open>src/protocol/dhcp\<close>), the sending side: the record of \<open>dhcp_common.h\<close> and the message
  \<open>DHCP_Module_Streamer_T::handleDataMessage\<close> writes (\<open>dhcp_module_streamer.inl\<close>). The reference is a
  decoder of messages after RFC 2131 and RFC 2132.

  A \<open>std::string\<close> that holds octets of a message is a list of octets, and an enumeration is held in an
  \<open>int\<close>. The map of the options is the list of its entries in the order of their keys. The three buffers
  the streamer fills on the stack have a fixed size; writing behind one is the fault \<open>Out_of_bounds\<close>.
\<close>

section \<open>Data\<close>

abbreviation DHCP_OP_REQUEST :: u32 where "DHCP_OP_REQUEST \<equiv> 1"
abbreviation DHCP_OP_REPLY :: u32 where "DHCP_OP_REPLY \<equiv> 2"
abbreviation DHCP_OP_INVALID :: u32 where "DHCP_OP_INVALID \<equiv> 4"
abbreviation DHCP_OPTION_REQUESTEDIPADDRESS :: byte where "DHCP_OPTION_REQUESTEDIPADDRESS \<equiv> 50"
abbreviation DHCP_OPTION_IPADDRESSLEASETIME :: byte where "DHCP_OPTION_IPADDRESSLEASETIME \<equiv> 51"
abbreviation DHCP_OPTION_MESSAGETYPE :: byte where "DHCP_OPTION_MESSAGETYPE \<equiv> 53"
abbreviation DHCP_OPTION_SERVERIDENTIFIER :: byte where "DHCP_OPTION_SERVERIDENTIFIER \<equiv> 54"
abbreviation DHCP_OPTION_END :: byte where "DHCP_OPTION_END \<equiv> 255"
abbreviation DHCP_MESSAGE_OFFER :: u32 where "DHCP_MESSAGE_OFFER \<equiv> 2"
abbreviation DHCP_MESSAGE_REQUEST :: byte where "DHCP_MESSAGE_REQUEST \<equiv> 3"
abbreviation DHCP_MAGIC_COOKIE :: u32 where "DHCP_MAGIC_COOKIE \<equiv> 0x63825363"
abbreviation DHCP_FLAGS_BROADCAST :: u16 where "DHCP_FLAGS_BROADCAST \<equiv> 0x8000"

type_synonym dhcp_options = "(byte \<times> byte list) list"

text \<open>\<open>std::map::insert\<close> leaves an entry that is there already.\<close>

fun options_insert :: "byte \<Rightarrow> byte list \<Rightarrow> dhcp_options \<Rightarrow> dhcp_options" where
  "options_insert k v [] = [(k, v)]"
| "options_insert k v ((k', v') # m) =
     (if k < k' then (k, v) # (k', v') # m
      else if k = k' then (k', v') # m
      else (k', v') # options_insert k v m)"

record DHCP_Record =
  dhcp_op :: u32
  dhcp_htype :: byte
  dhcp_hlen :: byte
  dhcp_hops :: byte
  dhcp_xid :: u32
  dhcp_secs :: u16
  dhcp_flags :: u16
  dhcp_ciaddr :: u32
  dhcp_yiaddr :: u32
  dhcp_siaddr :: u32
  dhcp_giaddr :: u32
  dhcp_chaddr :: "byte list"
  dhcp_sname :: "byte list"
  dhcp_file :: "byte list"
  dhcp_cookie :: u32
  dhcp_options :: dhcp_options

definition new_DHCP_Record :: DHCP_Record where
  "new_DHCP_Record =
     \<lparr>dhcp_op = DHCP_OP_INVALID, dhcp_htype = 0, dhcp_hlen = 0, dhcp_hops = 0, dhcp_xid = 0,
      dhcp_secs = 0, dhcp_flags = 0, dhcp_ciaddr = 0, dhcp_yiaddr = 0, dhcp_siaddr = 0,
      dhcp_giaddr = 0, dhcp_chaddr = replicate 16 0, dhcp_sname = [], dhcp_file = [],
      dhcp_cookie = 0, dhcp_options = []\<rparr>"

abbreviation ordered :: "dhcp_options \<Rightarrow> bool" where
  "ordered m \<equiv> sorted_wrt (<) (map fst m)"

lemma set_options_insert: "fst ` set (options_insert k v m) = insert k (fst ` set m)"
  by (induction k v m rule: options_insert.induct) auto

lemma options_insert_ordered: "ordered m \<Longrightarrow> ordered (options_insert k v m)"
proof (induction k v m rule: options_insert.induct)
  case (2 k v k' v' m)
  then show ?case
    using set_options_insert [of k v m] by (auto dest: order.strict_trans)
qed simp

lemma map_of_options_insert:
  "ordered m \<Longrightarrow>
     map_of (options_insert k v m) x = (if x = k \<and> map_of m k = None then Some v else map_of m x)"
proof (induction k v m rule: options_insert.induct)
  case (2 k v k' v' m)
  then have "k < k' \<Longrightarrow> map_of m k = None"
    by (auto simp: map_of_eq_None_iff)
  with 2 show ?case
    by auto
qed simp

lemma options_insert_last: "\<forall>x \<in> fst ` set m. x < k \<Longrightarrow> options_insert k v m = m @ [(k, v)]"
  by (induction k v m rule: options_insert.induct) auto

section \<open>Writing messages\<close>

text \<open>A buffer that is cleared and filled from its start, and one that is filled piece by piece.\<close>

definition fill_buffer :: "nat \<Rightarrow> byte list \<Rightarrow> byte list run" where
  "fill_buffer n bs =
     (if length bs \<le> n then Inr (bs @ replicate (n - length bs) 0) else Inl Out_of_bounds)"

definition put_octets :: "nat \<Rightarrow> byte list \<Rightarrow> byte list \<Rightarrow> byte list run" where
  "put_octets n bs buffer =
     (if length buffer + length bs \<le> n then Inr (buffer @ bs) else Inl Out_of_bounds)"

definition buffer_part :: "nat \<Rightarrow> byte list \<Rightarrow> part" where
  "buffer_part n bs space = run_bind (fill_buffer n bs) (\<lambda>buffer. copy_bytes buffer space)"

fun put_options :: "dhcp_options \<Rightarrow> byte list \<Rightarrow> byte list run" where
  "put_options [] buffer = put_octets 312 [DHCP_OPTION_END] buffer"
| "put_options ((tag, value) # rest) buffer =
     run_bind (put_octets 312 [tag] buffer) (\<lambda>buffer.
     run_bind (ace_assert (length value \<le> 255)) (\<lambda>_.
     run_bind (put_octets 312 [word_of_nat (length value)] buffer) (\<lambda>buffer.
     run_bind (put_octets 312 value buffer) (put_options rest))))"

definition options_part :: "'a machine_scheme \<Rightarrow> dhcp_options \<Rightarrow> part" where
  "options_part lib options space =
     run_bind (put_options options (network_32 lib DHCP_MAGIC_COOKIE)) (\<lambda>buffer.
       buffer_part 312 buffer space)"

definition dhcp_parts :: "'a machine_scheme \<Rightarrow> DHCP_Record \<Rightarrow> part list" where
  "dhcp_parts lib r =
     [copy_bytes (first_octet lib (dhcp_op r)), copy_bytes [dhcp_htype r], copy_bytes [dhcp_hlen r],
      copy_bytes [dhcp_hops r], copy_bytes (network_32 lib (dhcp_xid r)),
      copy_bytes (network_16 lib (dhcp_secs r)), copy_bytes (network_16 lib (dhcp_flags r)),
      copy_bytes (network_32 lib (dhcp_ciaddr r)), copy_bytes (network_32 lib (dhcp_yiaddr r)),
      copy_bytes (network_32 lib (dhcp_siaddr r)), copy_bytes (network_32 lib (dhcp_giaddr r)),
      copy_bytes (dhcp_chaddr r), buffer_part 64 (dhcp_sname r), buffer_part 128 (dhcp_file r),
      options_part lib (dhcp_options r)]"

text \<open>
  \<open>handleDataMessage\<close> on a message of the given contents and capacity: the octets of the message that
  is passed on, and whether they are complete.
\<close>

definition dhcp_handleDataMessage ::
    "'a machine_scheme \<Rightarrow> DHCP_Record \<Rightarrow> byte list \<Rightarrow> nat \<Rightarrow> (byte list \<times> bool) run" where
  "dhcp_handleDataMessage lib r written capacity =
     run_bind (ace_assert (length written = 0)) (\<lambda>_.
     run_bind (ace_assert (576 \<le> capacity)) (\<lambda>_.
       copy_all (dhcp_parts lib r) capacity []))"

section \<open>The reference: messages of RFC 2131 with the options of RFC 2132\<close>

record rfc_dhcp =
  rd_op :: nat
  rd_htype :: nat
  rd_hlen :: nat
  rd_hops :: nat
  rd_xid :: nat
  rd_secs :: nat
  rd_flags :: nat
  rd_ciaddr :: "byte list"
  rd_yiaddr :: "byte list"
  rd_siaddr :: "byte list"
  rd_giaddr :: "byte list"
  rd_chaddr :: "byte list"
  rd_sname :: "byte list"
  rd_file :: "byte list"
  rd_options :: "(byte \<times> byte list) list"

definition until_nul :: "byte list \<Rightarrow> byte list" where
  "until_nul = takeWhile (\<lambda>b. b \<noteq> 0)"

function rfc_dhcp_options :: "byte list \<Rightarrow> (byte \<times> byte list) list option" where
  "rfc_dhcp_options [] = None"
| "rfc_dhcp_options (tag # rest) =
     (if tag = 0 then rfc_dhcp_options rest
      else if tag = 255 then Some []
      else if rest = [] \<or> length (tl rest) < unat (hd rest) then None
      else map_option (Cons (tag, take (unat (hd rest)) (tl rest)))
             (rfc_dhcp_options (drop (unat (hd rest)) (tl rest))))"
  by pat_completeness auto
termination
  by (relation "measure length") auto

definition magic_cookie :: "byte list" where
  "magic_cookie = [99, 130, 83, 99]"

definition rfc_dhcp_message :: "byte list \<Rightarrow> rfc_dhcp option" where
  "rfc_dhcp_message m =
     (if length m < 240 \<or> octets_at 236 4 m \<noteq> magic_cookie then None
      else map_option (\<lambda>options.
        \<lparr>rd_op = number 0 1 m, rd_htype = number 1 1 m, rd_hlen = number 2 1 m, rd_hops = number 3 1 m,
         rd_xid = number 4 4 m, rd_secs = number 8 2 m, rd_flags = number 10 2 m,
         rd_ciaddr = octets_at 12 4 m, rd_yiaddr = octets_at 16 4 m, rd_siaddr = octets_at 20 4 m,
         rd_giaddr = octets_at 24 4 m, rd_chaddr = octets_at 28 16 m, rd_sname = until_nul (octets_at 44 64 m),
         rd_file = until_nul (octets_at 108 128 m), rd_options = options\<rparr>)
       (rfc_dhcp_options (drop 240 m)))"

section \<open>What is written\<close>

definition dhcp_option_wire :: "byte \<times> byte list \<Rightarrow> byte list" where
  "dhcp_option_wire opt = fst opt # word_of_nat (length (snd opt)) # snd opt"

definition options_wire :: "dhcp_options \<Rightarrow> byte list" where
  "options_wire options = concat (map dhcp_option_wire options)"

definition zero_padded :: "nat \<Rightarrow> byte list \<Rightarrow> byte list" where
  "zero_padded n bs = bs @ replicate (n - length bs) 0"

lemma length_zero_padded: "length bs \<le> n \<Longrightarrow> length (zero_padded n bs) = n"
  by (simp add: zero_padded_def)

lemma options_wire_simps [simp]:
  "options_wire [] = []"
  "options_wire (opt # options) = dhcp_option_wire opt @ options_wire options"
  by (simp_all add: options_wire_def)

lemma put_options_iff:
  "put_options options buffer = Inr b \<longleftrightarrow>
     (\<forall>(tag, value) \<in> set options. length value \<le> 255)
     \<and> length buffer + length (options_wire options) < 312
     \<and> b = buffer @ options_wire options @ [DHCP_OPTION_END]"
  by (induction options buffer rule: put_options.induct)
     (auto simp: put_octets_def dhcp_option_wire_def ace_assert_def)

lemma buffer_part_eq:
  "buffer_part n bs space =
     (if n < length bs then Inl Out_of_bounds else copy_bytes (zero_padded n bs) space)"
  by (simp add: buffer_part_def fill_buffer_def zero_padded_def)

lemma options_part_eq:
  assumes "machine_ok lib"
  shows "(\<exists>x. options_part lib options space = Inr x) \<longleftrightarrow>
           (\<forall>(tag, value) \<in> set options. length value \<le> 255) \<and> length (options_wire options) < 308"
    and "(\<forall>(tag, value) \<in> set options. length value \<le> 255) \<Longrightarrow> length (options_wire options) < 308 \<Longrightarrow>
           options_part lib options space =
             copy_bytes (zero_padded 312 (magic_cookie @ options_wire options @ [DHCP_OPTION_END])) space"
proof -
  have "length magic_cookie = 4" "be_value magic_cookie = 1669485411"
    by (simp_all add: magic_cookie_def be_value_def)
  then have cookie: "network_32 lib DHCP_MAGIC_COOKIE = magic_cookie"
    using assms be_octets_value [of magic_cookie] by (simp add: network_octets)
  show "(\<forall>(tag, value) \<in> set options. length value \<le> 255) \<Longrightarrow> length (options_wire options) < 308 \<Longrightarrow>
           options_part lib options space =
             copy_bytes (zero_padded 312 (magic_cookie @ options_wire options @ [DHCP_OPTION_END])) space"
    using put_options_iff [of options magic_cookie "magic_cookie @ options_wire options @ [DHCP_OPTION_END]"]
    by (simp add: options_part_def cookie buffer_part_eq magic_cookie_def)
  then show "(\<exists>x. options_part lib options space = Inr x) \<longleftrightarrow>
           (\<forall>(tag, value) \<in> set options. length value \<le> 255) \<and> length (options_wire options) < 308"
    using put_options_iff [of options magic_cookie]
    by (auto simp: options_part_def cookie magic_cookie_def copy_bytes_def)
qed

definition dhcp_header_wire :: "'a machine_scheme \<Rightarrow> DHCP_Record \<Rightarrow> byte list" where
  "dhcp_header_wire lib r =
     first_octet lib (dhcp_op r) @ [dhcp_htype r, dhcp_hlen r, dhcp_hops r] @ be_octets 4 (unat (dhcp_xid r))
     @ be_octets 2 (unat (dhcp_secs r)) @ be_octets 2 (unat (dhcp_flags r))
     @ be_octets 4 (unat (dhcp_ciaddr r)) @ be_octets 4 (unat (dhcp_yiaddr r))
     @ be_octets 4 (unat (dhcp_siaddr r)) @ be_octets 4 (unat (dhcp_giaddr r))
     @ dhcp_chaddr r @ zero_padded 64 (dhcp_sname r) @ zero_padded 128 (dhcp_file r)"

definition dhcp_wire :: "'a machine_scheme \<Rightarrow> DHCP_Record \<Rightarrow> byte list" where
  "dhcp_wire lib r =
     dhcp_header_wire lib r
     @ zero_padded 312 (magic_cookie @ options_wire (dhcp_options r) @ [DHCP_OPTION_END])"

definition dhcp_fits :: "DHCP_Record \<Rightarrow> bool" where
  "dhcp_fits r \<longleftrightarrow>
     length (dhcp_sname r) \<le> 64 \<and> length (dhcp_file r) \<le> 128
     \<and> (\<forall>(tag, value) \<in> set (dhcp_options r). length value \<le> 255)
     \<and> length (options_wire (dhcp_options r)) < 308"

lemma length_first_octet [simp]: "length (first_octet lib v) = 1"
  by (simp add: first_octet_def)

lemma length_dhcp_header_wire:
  "length (dhcp_chaddr r) = 16 \<Longrightarrow> dhcp_fits r \<Longrightarrow> length (dhcp_header_wire lib r) = 236"
  by (simp add: dhcp_header_wire_def dhcp_fits_def length_zero_padded)

lemma copy_dhcp_parts:
  assumes "machine_ok lib" "length (dhcp_chaddr r) = 16" "576 \<le> capacity"
    "length (dhcp_sname r) \<le> 64" "length (dhcp_file r) \<le> 128"
  shows "copy_all (dhcp_parts lib r) capacity [] =
     copy_all [options_part lib (dhcp_options r)] (capacity - 236) (dhcp_header_wire lib r)"
proof -
  obtain n where "capacity = 576 + n"
    using assms(3) le_Suc_ex by blast
  then show ?thesis
    using assms
    by (simp add: dhcp_parts_def copy_bytes_def buffer_part_eq network_octets length_zero_padded
        dhcp_header_wire_def)
qed

lemma dhcp_handleDataMessage_wire:
  assumes "machine_ok lib" "length (dhcp_chaddr r) = 16" "dhcp_fits r" "576 \<le> capacity"
  shows "dhcp_handleDataMessage lib r [] capacity = Inr (dhcp_wire lib r, True)"
proof -
  have "length (zero_padded 312 (magic_cookie @ options_wire (dhcp_options r) @ [DHCP_OPTION_END])) = 312"
    using assms(3) by (intro length_zero_padded) (simp add: dhcp_fits_def magic_cookie_def)
  then show ?thesis
    using assms copy_dhcp_parts [of lib r capacity] options_part_eq(2) [of lib "dhcp_options r" "capacity - 236"]
    by (simp add: dhcp_handleDataMessage_def dhcp_fits_def copy_bytes_def dhcp_wire_def)
qed

section \<open>What a server reads\<close>

definition dhcp_message_of :: "'a machine_scheme \<Rightarrow> DHCP_Record \<Rightarrow> rfc_dhcp" where
  "dhcp_message_of lib r =
     \<lparr>rd_op = (if lsb_first lib then unat (dhcp_op r) mod 256 else unat (dhcp_op r) div 2 ^ 24),
      rd_htype = unat (dhcp_htype r), rd_hlen = unat (dhcp_hlen r), rd_hops = unat (dhcp_hops r),
      rd_xid = unat (dhcp_xid r), rd_secs = unat (dhcp_secs r), rd_flags = unat (dhcp_flags r),
      rd_ciaddr = be_octets 4 (unat (dhcp_ciaddr r)), rd_yiaddr = be_octets 4 (unat (dhcp_yiaddr r)),
      rd_siaddr = be_octets 4 (unat (dhcp_siaddr r)), rd_giaddr = be_octets 4 (unat (dhcp_giaddr r)),
      rd_chaddr = dhcp_chaddr r, rd_sname = dhcp_sname r, rd_file = dhcp_file r,
      rd_options = dhcp_options r\<rparr>"

text \<open>Strings without a NUL, and options other than Pad and End, which have no length.\<close>

definition dhcp_plain :: "DHCP_Record \<Rightarrow> bool" where
  "dhcp_plain r \<longleftrightarrow>
     0 \<notin> set (dhcp_sname r) \<and> 0 \<notin> set (dhcp_file r)
     \<and> (\<forall>(tag, value) \<in> set (dhcp_options r). tag \<noteq> 0 \<and> tag \<noteq> 255)"

lemma field_skip [simp]: "length a \<le> k \<Longrightarrow> octets_at k n (a @ b) = octets_at (k - length a) n b"
  by (simp add: octets_at_def)

lemma field_Cons [simp]: "0 < k \<Longrightarrow> octets_at k n (x # b) = octets_at (k - 1) n b"
  by (simp add: octets_at_def drop_Cons')

lemma field_first [simp]: "octets_at 0 (Suc 0) (x # b) = [x]"
  by (simp add: octets_at_def)

lemma field_here [simp]: "length a = n \<Longrightarrow> octets_at 0 n (a @ b) = a"
  by (simp add: octets_at_def)

lemma until_nul_zero_padded: "0 \<notin> set bs \<Longrightarrow> until_nul (zero_padded n bs) = bs"
proof -
  assume "0 \<notin> set bs"
  then have "\<And>b. b \<in> set bs \<Longrightarrow> b \<noteq> 0"
    by auto
  then show ?thesis
    by (simp add: until_nul_def zero_padded_def)
qed

lemma rfc_dhcp_options_wire:
  assumes "\<forall>(tag, value) \<in> set options. tag \<noteq> 0 \<and> tag \<noteq> 255 \<and> length value \<le> 255"
  shows "rfc_dhcp_options (options_wire options @ DHCP_OPTION_END # rest) = Some options"
  using assms by (induction options) (auto simp: dhcp_option_wire_def unat_of_nat)

lemma first_octet_value:
  "be_value (first_octet lib v) = (if lsb_first lib then unat v mod 256 else unat v div 2 ^ 24)"
proof -
  have "unat v div 2 ^ 24 < 256"
    using unat_less_32 [of v] by (simp add: less_mult_imp_div_less)
  then show ?thesis
    by (simp add: first_octet_def native_octets_def be_octets_4 unat_of_nat unsigned_ucast_eq
        unsigned_take_bit_eq take_bit_eq_mod)
qed

lemma rfc_dhcp_message_wire:
  assumes "length (dhcp_chaddr r) = 16" "dhcp_fits r" "dhcp_plain r"
  shows "rfc_dhcp_message (dhcp_wire lib r) = Some (dhcp_message_of lib r)"
proof -
  let ?options = "zero_padded 312 (magic_cookie @ options_wire (dhcp_options r) @ [DHCP_OPTION_END])"
  have header: "length (dhcp_header_wire lib r) = 236"
    using assms by (simp add: length_dhcp_header_wire)
  have options: "?options = magic_cookie @ options_wire (dhcp_options r) @ DHCP_OPTION_END # replicate (307 - length (options_wire (dhcp_options r))) 0"
    by (simp add: zero_padded_def magic_cookie_def)
  have "drop 4 ?options = options_wire (dhcp_options r) @ DHCP_OPTION_END # replicate (307 - length (options_wire (dhcp_options r))) 0"
    by (simp only: options) (simp add: magic_cookie_def)
  moreover have "drop 240 (dhcp_wire lib r) = drop 4 ?options"
    using header by (simp add: dhcp_wire_def)
  moreover have "\<forall>(tag, value) \<in> set (dhcp_options r). tag \<noteq> 0 \<and> tag \<noteq> 255 \<and> length value \<le> 255"
    using assms(2,3) by (auto simp: dhcp_fits_def dhcp_plain_def)
  ultimately have "rfc_dhcp_options (drop 240 (dhcp_wire lib r)) = Some (dhcp_options r)"
    by (simp only: rfc_dhcp_options_wire)
  moreover have "take 4 ?options = magic_cookie" "240 \<le> 236 + length ?options"
    by (simp_all only: options) (simp_all add: magic_cookie_def)
  then have "octets_at 236 4 (dhcp_wire lib r) = magic_cookie" "240 \<le> length (dhcp_wire lib r)"
    using header by (simp_all add: dhcp_wire_def octets_at_def)
  moreover have "length (zero_padded 64 (dhcp_sname r)) = 64" "length (zero_padded 128 (dhcp_file r)) = 128"
    "until_nul (zero_padded 64 (dhcp_sname r)) = dhcp_sname r"
    "until_nul (zero_padded 128 (dhcp_file r)) = dhcp_file r"
    using assms by (simp_all add: dhcp_fits_def dhcp_plain_def length_zero_padded until_nul_zero_padded)
  moreover have "octets_at 1 1 (dhcp_wire lib r) = [dhcp_htype r]" "octets_at 2 1 (dhcp_wire lib r) = [dhcp_hlen r]"
    "octets_at 3 1 (dhcp_wire lib r) = [dhcp_hops r]"
    by (simp_all add: octets_at_def dhcp_wire_def dhcp_header_wire_def drop_Cons')
  ultimately show ?thesis
    using assms(1)
    by (simp add: rfc_dhcp_message_def dhcp_wire_def dhcp_header_wire_def dhcp_message_of_def
        first_octet_value be_value_octets_word)
qed

section \<open>Properties\<close>

text \<open>C30: The streamer finishes exactly if the message has room for 576 octets and the texts and the
  options fit their buffers: otherwise it fails an assertion or writes behind a buffer on the stack.\<close>

theorem dhcp_streamer_safe_iff:
  assumes "machine_ok lib" "length (dhcp_chaddr r) = 16"
  shows "(\<exists>x. dhcp_handleDataMessage lib r [] capacity = Inr x) \<longleftrightarrow> 576 \<le> capacity \<and> dhcp_fits r"
proof (cases "576 \<le> capacity \<and> length (dhcp_sname r) \<le> 64 \<and> length (dhcp_file r) \<le> 128")
  case True
  then show ?thesis
    using assms copy_dhcp_parts [of lib r capacity] options_part_eq(1) [of lib "dhcp_options r" "capacity - 236"]
    by (auto simp: dhcp_handleDataMessage_def dhcp_fits_def run_bind_def split: sum.splits option.splits)
next
  case False
  show ?thesis
  proof (cases "576 \<le> capacity")
    case True
    then obtain n where "capacity = 576 + n"
      using le_Suc_ex by blast
    then show ?thesis
      using assms False
      by (auto simp: dhcp_handleDataMessage_def dhcp_fits_def dhcp_parts_def copy_bytes_def buffer_part_eq
          network_octets length_zero_padded)
  qed (simp add: dhcp_handleDataMessage_def)
qed

text \<open>C19: The message streamed for a record is the message of RFC 2131 with the values of the record,
  its addresses taken for numbers in host byte order. On a big endian machine the octet of the
  operation is the most significant one of the enumeration, which is zero.\<close>

theorem dhcp_streamed_decodes:
  assumes "machine_ok lib" "length (dhcp_chaddr r) = 16" "dhcp_fits r" "dhcp_plain r" "576 \<le> capacity"
  shows "\<exists>octets. dhcp_handleDataMessage lib r [] capacity = Inr (octets, True)
           \<and> rfc_dhcp_message octets = Some (dhcp_message_of lib r)"
  using dhcp_handleDataMessage_wire [OF assms(1-3,5)] rfc_dhcp_message_wire [OF assms(2-4)] by simp

definition dhcp_example_machine :: machine where
  "dhcp_example_machine =
     \<lparr>lsb_first = True, swap_word = swap_octets 2, swap_long = swap_octets 4, swap_long_long = swap_octets 8\<rparr>"

lemma dhcp_example_machine_ok: "machine_ok dhcp_example_machine" "lsb_first dhcp_example_machine"
  by (simp_all add: machine_ok_def dhcp_example_machine_def swaps_octets_swap)

definition dhcp_example_discover :: DHCP_Record where
  "dhcp_example_discover =
     new_DHCP_Record\<lparr>dhcp_op := DHCP_OP_REQUEST, dhcp_htype := 1, dhcp_hlen := 6, dhcp_xid := 0x3903F326,
       dhcp_flags := DHCP_FLAGS_BROADCAST, dhcp_chaddr := [0, 5, 60, 4, 141, 89] @ replicate 10 0,
       dhcp_options := [(50, [192, 168, 1, 100]), (53, [1])]\<rparr>"

lemma dhcp_example_discover_ok:
  "length (dhcp_chaddr dhcp_example_discover) = 16" "dhcp_fits dhcp_example_discover"
  "dhcp_plain dhcp_example_discover"
  by (simp_all add: dhcp_example_discover_def new_DHCP_Record_def dhcp_fits_def dhcp_plain_def dhcp_option_wire_def)

theorem dhcp_streamer_safe_iff_witness:
  "\<exists>x. dhcp_handleDataMessage dhcp_example_machine dhcp_example_discover [] 576 = Inr x"
  using dhcp_streamer_safe_iff [OF dhcp_example_machine_ok(1) dhcp_example_discover_ok(1)]
    dhcp_example_discover_ok(2) by simp

theorem dhcp_streamed_decodes_witness:
  "\<exists>octets. dhcp_handleDataMessage dhcp_example_machine dhcp_example_discover [] 576 = Inr (octets, True)
     \<and> rfc_dhcp_message octets = Some (dhcp_message_of dhcp_example_machine dhcp_example_discover)"
  using dhcp_streamed_decodes [OF dhcp_example_machine_ok(1) dhcp_example_discover_ok] by simp

end
