(* ===== verification/Dhcp_Tools.thy ===== *)
theory Dhcp_Tools
  imports Dhcp_Wire Net_Dump Net_Addresses
begin

text \<open>
  The functions of \<open>DHCP_Tools\<close> (\<open>dhcp_tools.cpp\<close>) that do not talk to another program: the names of
  the codes, the type of a message and the text \<open>dump\<close> writes of a record. The text of an address
  (\<open>ACE_INET_Addr::addr_to_string\<close>) is a parameter.
\<close>

section \<open>Names and types\<close>

definition OpToString :: "u32 \<Rightarrow> string" where
  "OpToString = code_name [(1, ''BOOTREQUEST''), (2, ''BOOTREPLY'')]"

definition dhcp_OptionToString :: "u32 \<Rightarrow> string" where
  "dhcp_OptionToString = code_name
     [(1, ''SUBNETMASK''), (2, ''TIMEOFFSET''), (3, ''GATEWAY''), (4, ''TIMESERVER''),
      (5, ''IEN116NAMESERVER''), (6, ''DOMAINNAMESERVER''), (7, ''LOGSERVER''),
      (8, ''COOKIESERVER''), (9, ''LPRSERVER''), (10, ''IMPRESSSERVER''), (11, ''RLPSERVER''),
      (12, ''HOSTNAME''), (13, ''BOOTFILESIZE''), (14, ''MERITDUMPFILE''), (15, ''DOMAINNAME''),
      (16, ''SWAPSERVER''), (17, ''ROOTPATH''), (26, ''IP_MTU''), (28, ''IP_BROADCASTADDRESS''),
      (42, ''DHCP_NTP_SERVER''), (43, ''DHCP_VENDORSPECIFICINFORMATION''),
      (51, ''DHCP_IPADDRESSLEASETIME''), (53, ''DHCP_MESSAGETYPE''),
      (54, ''DHCP_SERVERIDENTIFIER''), (58, ''DHCP_RENEWALT1TIME''),
      (59, ''DHCP_REBINDINGT2TIME''), (60, ''DHCP_VENDORCLASSIDENTIFIER''),
      (61, ''DHCP_CLIENTIDENTIFIER''), (62, ''NETWAREIP_DOMAINNAME''),
      (63, ''NETWAREIP_INFORMATION''), (64, ''NISP_DOMAIN''), (65, ''NISP_SERVER''),
      (66, ''TFTP_SERVER''), (67, ''BOOTFILE''), (68, ''MIP_HOMEAGENT''), (69, ''SMTP_SERVER''),
      (70, ''POP3_SERVER''), (71, ''NNTP_SERVER''), (72, ''WWW_DEFAULTSERVER''),
      (73, ''FINGER_DEFAULTSERVER''), (74, ''IRC_DEFAULTSERVER''), (75, ''STREETTALK_SERVER''),
      (76, ''STREETTALK_DIRECTORYASSISTANCESERVER''), (77, ''USERCLASS''),
      (78, ''SLP_DIRECTORYAGENT''), (79, ''SLP_SERVICESCOPE''), (80, ''RAPIDCOMMIT''),
      (81, ''CLIENTFQDN''), (82, ''RELAYAGENTINFORMATION''), (83, ''ISNS_SERVER''),
      (85, ''NDS_SERVER''), (86, ''NDS_TREE''), (87, ''NDS_CONTEXT''),
      (88, ''BCMCCS_DOMAINNAMELIST''), (89, ''BCMCCS_IPADDRESS''), (90, ''AUTHENTICATION''),
      (91, ''CLIENTLASTTRANSACTIONTIME''), (92, ''CLIENTASSOCIATEDIP''),
      (93, ''IPXE_CLIENTSYSTEMARCHITECTURETYPE''), (94, ''IPXE_CLIENTNETWORKINTERFACEIDENTIFIER''),
      (97, ''IPXE_CLIENTMACHINEIDENTIFIER''), (121, ''CLASSLESSROUTE''), (123, ''GEOCONF''),
      (124, ''VENDOR_CLASS''), (125, ''VENDOR_SPECIFIC_INFORMATION''), (158, ''PCP_SERVER'')]"

definition MessageTypeToString :: "u32 \<Rightarrow> string" where
  "MessageTypeToString = code_name
     [(1, ''DISCOVER''), (2, ''OFFER''), (3, ''REQUEST''), (4, ''DECLINE''), (5, ''ACK''),
      (6, ''NAK''), (7, ''RELEASE''), (8, ''INFORM''), (9, ''FORCERENEW''), (10, ''LEASEQUERY''),
      (11, ''LEASEUNASSIGNED''), (12, ''LEASEUNKNOWN''), (13, ''LEASEACTIVE''),
      (14, ''BULKLEASEQUERY''), (15, ''LEASEQUERYDONE''), (16, ''ACTIVELEASEQUERY''),
      (17, ''LEASEQUERYSTATUS''), (18, ''TLS'')]"

text \<open>A \<open>char\<close> is signed; the byte behind a string is a NUL.\<close>

definition MessageTypeToType :: "byte list \<Rightarrow> u32 run" where
  "MessageTypeToType value =
     run_bind (ace_assert (length value = 1)) (\<lambda>_. Inr (scast (hd value)))"

datatype dhcp_field_type =
    FIELDTYPE_ADDRESS | FIELDTYPE_COMMAND | FIELDTYPE_INTEGER | FIELDTYPE_STRING
  | FIELDTYPE_ADDRESSES | FIELDTYPE_LENGTH | FIELDTYPE_INVALID

definition OptionToFieldType :: "byte \<Rightarrow> dhcp_field_type" where
  "OptionToFieldType opt =
     (if opt \<in> {1, 3, 6, 28, 42, 54} then FIELDTYPE_ADDRESS
      else if opt = 53 then FIELDTYPE_COMMAND
      else if opt \<in> {2, 26, 51, 58, 59} then FIELDTYPE_INTEGER
      else if opt \<in> {12, 15, 43} then FIELDTYPE_STRING
      else if opt = 125 then FIELDTYPE_LENGTH
      else if opt = 158 then FIELDTYPE_ADDRESSES
      else FIELDTYPE_INVALID)"

definition dhcp_isRequest :: "DHCP_Record \<Rightarrow> bool" where
  "dhcp_isRequest r \<longleftrightarrow> dhcp_op r = DHCP_OP_REQUEST"

definition first_of :: "byte list \<Rightarrow> byte" where
  "first_of value = (case value of [] \<Rightarrow> 0 | b # bs \<Rightarrow> b)"

definition dhcp_type :: "DHCP_Record \<Rightarrow> u32 run" where
  "dhcp_type r =
     (case map_of (dhcp_options r) DHCP_OPTION_MESSAGETYPE of
        None \<Rightarrow> Inl Assertion_failed | Some value \<Rightarrow> Inr (ucast (first_of value)))"

section \<open>The text of a record\<close>

type_synonym address_writer = "u16 \<Rightarrow> u32 \<Rightarrow> string option"

text \<open>Octets of a string through a pointer: those behind the terminating NUL are out of bounds.\<close>

definition read_at :: "byte list \<Rightarrow> nat \<Rightarrow> nat \<Rightarrow> byte list run" where
  "read_at value k n =
     (if k + n \<le> Suc (length value) then Inr (octets_at k n (value @ [0])) else Inl Out_of_bounds)"

definition address_at :: "'a machine_scheme \<Rightarrow> address_writer \<Rightarrow> byte list \<Rightarrow> nat \<Rightarrow> string run" where
  "address_at lib addr_to_string value k =
     run_bind (read_at value k 4) (\<lambda>bs.
       IPv4AddressToString addr_to_string 0 (native_word (lsb_first lib) bs))"

text \<open>The numbered addresses of a list, which begins at position \<open>k\<close>.\<close>

fun numbered_addresses ::
    "'a machine_scheme \<Rightarrow> address_writer \<Rightarrow> byte list \<Rightarrow> nat \<Rightarrow> nat \<Rightarrow> nat \<Rightarrow> string run" where
  "numbered_addresses lib addr_to_string value k i 0 = Inr []"
| "numbered_addresses lib addr_to_string value k i (Suc n) =
     run_bind (address_at lib addr_to_string value (k + 4 * i)) (\<lambda>s.
     run_bind (numbered_addresses lib addr_to_string value k (Suc i) n) (\<lambda>rest.
       Inr (line_end @ tab @ ''#'' @ show_dec (Suc i) @ '': '' @ s @ rest)))"

definition dump_address :: "'a machine_scheme \<Rightarrow> address_writer \<Rightarrow> byte list \<Rightarrow> string run" where
  "dump_address lib addr_to_string value =
     run_bind (ace_assert (length value mod 4 = 0)) (\<lambda>_.
     run_bind (read_at value 0 4) (\<lambda>_.
       if length value = 4 then address_at lib addr_to_string value 0
       else numbered_addresses lib addr_to_string value 0 0 (length value div 4)))"

definition dump_integer :: "'a machine_scheme \<Rightarrow> byte list \<Rightarrow> string" where
  "dump_integer lib value =
     (let le = lsb_first lib in
      if length value = 1 then show_dec (unat (hd value))
      else if length value = 2
      then number_text (let v = native_word le value in if le then swap_word lib v else v)
      else if length value = 4
      then number_text (let v = native_word le value in if le then swap_long lib v else v)
      else [])"

text \<open>
  The loop of the label \<open>next_list\<close>: the octet at the pointer is taken for the length of a list. At the
  first list the pointer is one octet behind that length.
\<close>

function next_list ::
    "'a machine_scheme \<Rightarrow> address_writer \<Rightarrow> byte list \<Rightarrow> nat \<Rightarrow> nat \<Rightarrow> string run" where
  "next_list lib addr_to_string value pointer used =
     (case read_at value pointer 1 of
        Inl e \<Rightarrow> Inl e
      | Inr bs \<Rightarrow>
          (let n = unat (hd bs) div 4 in
           run_bind (numbered_addresses lib addr_to_string value (Suc pointer) 0 n) (\<lambda>s.
             if used + 4 * n < length value
             then run_bind (next_list lib addr_to_string value (Suc pointer + 4 * n) (used + 4 * n))
                    (\<lambda>rest. Inr (s @ rest))
             else Inr s)))"
  by pat_completeness auto
termination
  by (relation "measure (\<lambda>(lib, addr_to_string, value, pointer, used). Suc (length value) - pointer)")
     (auto simp: read_at_def split: if_splits)

declare next_list.simps [simp del]

definition dump_addresses :: "'a machine_scheme \<Rightarrow> address_writer \<Rightarrow> byte list \<Rightarrow> string run" where
  "dump_addresses lib addr_to_string value =
     run_bind (ace_assert (5 \<le> length value)) (\<lambda>_.
       let n = unat (hd value) div 4 in
       run_bind (ace_assert (1 \<le> n)) (\<lambda>_.
         if n = 1 then address_at lib addr_to_string value 1
         else next_list lib addr_to_string value 1 1))"

definition octets_string :: "byte list \<Rightarrow> string" where
  "octets_string bs = concat (map octet_text bs)"

definition quoted_text :: "byte list \<Rightarrow> string" where
  "quoted_text bs = [CHR 0x22] @ octets_string bs @ [CHR 0x22]"

definition dump_value ::
    "'a machine_scheme \<Rightarrow> address_writer \<Rightarrow> byte \<Rightarrow> byte list \<Rightarrow> string run" where
  "dump_value lib addr_to_string opt value =
     (case OptionToFieldType opt of
        FIELDTYPE_ADDRESS \<Rightarrow> dump_address lib addr_to_string value
      | FIELDTYPE_COMMAND \<Rightarrow> Inr (MessageTypeToString (ucast (first_of value)))
      | FIELDTYPE_STRING \<Rightarrow> Inr (quoted_text (until_nul value))
      | FIELDTYPE_INTEGER \<Rightarrow> Inr (dump_integer lib value)
      | FIELDTYPE_ADDRESSES \<Rightarrow> dump_addresses lib addr_to_string value
      | FIELDTYPE_LENGTH \<Rightarrow> Inr []
      | FIELDTYPE_INVALID \<Rightarrow> Inr [])"

fun dump_options :: "'a machine_scheme \<Rightarrow> address_writer \<Rightarrow> dhcp_options \<Rightarrow> string run" where
  "dump_options lib addr_to_string [] = Inr []"
| "dump_options lib addr_to_string ((opt, value) # rest) =
     run_bind (dump_value lib addr_to_string opt value) (\<lambda>s.
     run_bind (dump_options lib addr_to_string rest) (\<lambda>t.
       Inr (line (dhcp_OptionToString (ucast opt) @ '' ('' @ number_text opt @ '')'') s @ t)))"

fun show_hex :: "nat \<Rightarrow> string" where
  "show_hex n = (if n < 16 then [hex_digit n] else show_hex (n div 16) @ [hex_digit (n mod 16)])"

declare show_hex.simps [simp del]

definition dhcp_dump :: "'a machine_scheme \<Rightarrow> address_writer \<Rightarrow> DHCP_Record \<Rightarrow> string run" where
  "dhcp_dump lib addr_to_string r =
     (let ip = IPv4AddressToString addr_to_string 0 in
      run_bind (dump_lines
        [(''op'', Inr (OpToString (dhcp_op r))), (''htype'', Inr (number_text (dhcp_htype r))),
         (''hlen'', Inr (number_text (dhcp_hlen r))), (''hops'', Inr (number_text (dhcp_hops r))),
         (''xid'', Inr (number_text (dhcp_xid r) @ '' (0x'' @ show_hex (unat (dhcp_xid r)) @ '')'')),
         (''secs'', Inr (number_text (dhcp_secs r))),
         (''flags'', Inr (''0x'' @ show_hex (unat (dhcp_flags r)))),
         (''ciaddr'', ip (dhcp_ciaddr r)), (''yiaddr'', ip (dhcp_yiaddr r)),
         (''siaddr'', ip (dhcp_siaddr r)), (''giaddr'', ip (dhcp_giaddr r)),
         (''chaddr'', LinkLayerAddressToString (dhcp_chaddr r) NET_LINKLAYER_802_3),
         (''sname'', Inr (quoted_text (dhcp_sname r))),
         (''file'', Inr (quoted_text (dhcp_file r)))]) (\<lambda>fields.
      run_bind (dump_options lib addr_to_string (dhcp_options r)) (\<lambda>options.
        Inr (fields @ ''options ('' @ show_dec (length (dhcp_options r)) @ ''):'' @ line_end
             @ options @ ''options /END'' @ line_end))))"

section \<open>Lists of addresses\<close>

lemma numbered_addresses_within:
  "numbered_addresses lib addr_to_string value k i n = Inr s \<Longrightarrow> n = 0 \<or> k + 4 * (i + n) \<le> Suc (length value)"
  by (induction lib addr_to_string "value" k i n arbitrary: s rule: numbered_addresses.induct)
     (fastforce simp: address_at_def read_at_def split: if_splits)+

text \<open>
  The first list of the PCP server option (RFC 7291) with two addresses: the first octet of the first
  address is taken for the length of the list, so any address from 12.0.0.0 on is read past the end.
\<close>

lemma pcp_server_option_overruns:
  assumes "length a = 4" "length b = 4" "12 \<le> hd a"
  shows "dump_value lib addr_to_string 158 (8 # a @ b) \<noteq> Inr s"
proof
  assume *: "dump_value lib addr_to_string 158 (8 # a @ b) = Inr s"
  have "OptionToFieldType 158 = FIELDTYPE_ADDRESSES"
    by (simp add: OptionToFieldType_def)
  with * have "next_list lib addr_to_string (8 # a @ b) 1 1 = Inr s"
    using assms by (simp add: dump_value_def dump_addresses_def)
  moreover have "read_at (8 # a @ b) 1 1 = Inr [hd a]"
    using assms by (cases a) (auto simp: read_at_def octets_at_def)
  ultimately obtain t where
    "numbered_addresses lib addr_to_string (8 # a @ b) (Suc 1) 0 (unat (hd a) div 4) = Inr t"
    by (subst (asm) next_list.simps) (auto simp: Let_def)
  moreover have "3 \<le> unat (hd a) div 4"
    using assms(3) by (simp add: word_le_nat_alt)
  ultimately show False
    using numbered_addresses_within [of lib addr_to_string "8 # a @ b" "Suc 1" 0 "unat (hd a) div 4" t] assms
    by auto
qed

end
