(* ===== verification/Dhcp_Parser.thy ===== *)
theory Dhcp_Parser
  imports Dhcp_Tools
begin

text \<open>
  DHCP, the receiving side: the rules of the scanner (\<open>dhcp_scanner.cpp\<close>, generated from
  \<open>scripts/scanner.l\<close>), the grammar and its actions (\<open>dhcp_parser.cpp\<close>, generated from
  \<open>scripts/parser.y\<close>), the parser driver (\<open>dhcp_parser_driver.cpp\<close>) and the parser module
  (\<open>dhcp_module_parser.inl\<close>). The property compares it with the reference decoder of theory \<open>Dhcp_Wire\<close>.

  A state of the parser says what the production asks for and holds the semantic values that are on the
  stack. Actions behind a token run before the next token is read, except for a single tag, which is
  reduced once the next token turns out not to be a value. The read pointer of the fragment moves along
  with the scanner, so the value of an option is taken from the octets that follow; if there are too few,
  the scanner reads behind the message and the model ends with the fault \<open>Out_of_bounds\<close>.
\<close>

section \<open>The rules of the scanner\<close>

datatype dhcp_token =
    OP | HTYPE | HLEN | HOPS | XID | SECS | FLAGS | CIADDR | YIADDR | SIADDR | GIADDR | CHADDR
  | SNAME | FILE | COOKIE | OPTION_TAG | OPTION_VALUE | DHCP_END

datatype dhcp_scan_state =
    sc_INITIAL | sc_header | sc_op | sc_htype | sc_hlen | sc_hops | sc_xid | sc_secs | sc_flags
  | sc_ciaddr | sc_yiaddr | sc_siaddr | sc_giaddr | sc_chaddr | sc_sname | sc_file | sc_cookie
  | sc_option_tag | sc_option_length

text \<open>The union \<open>yylval\<close>: a number, an array of octets or a string.\<close>

datatype dhcp_value = Number u32 | Octets "byte list" | Text "byte list"

text \<open>
  The rules that read a number in the byte order of the machine: the octets of the pattern, the next
  start condition, the token, and whether the rule asserts that the number is not zero.
\<close>

fun dhcp_number_rule :: "dhcp_scan_state \<Rightarrow> (nat \<times> dhcp_scan_state \<times> dhcp_token \<times> bool) option" where
  "dhcp_number_rule sc_op = Some (1, sc_htype, OP, True)"
| "dhcp_number_rule sc_htype = Some (1, sc_hlen, HTYPE, True)"
| "dhcp_number_rule sc_hlen = Some (1, sc_hops, HLEN, True)"
| "dhcp_number_rule sc_hops = Some (1, sc_xid, HOPS, False)"
| "dhcp_number_rule sc_xid = Some (4, sc_secs, XID, True)"
| "dhcp_number_rule sc_secs = Some (2, sc_flags, SECS, False)"
| "dhcp_number_rule sc_flags = Some (2, sc_ciaddr, FLAGS, False)"
| "dhcp_number_rule sc_ciaddr = Some (4, sc_yiaddr, CIADDR, False)"
| "dhcp_number_rule sc_yiaddr = Some (4, sc_siaddr, YIADDR, False)"
| "dhcp_number_rule sc_siaddr = Some (4, sc_giaddr, SIADDR, False)"
| "dhcp_number_rule sc_giaddr = Some (4, sc_chaddr, GIADDR, False)"
| "dhcp_number_rule sc_cookie = Some (4, sc_option_tag, COOKIE, True)"
| "dhcp_number_rule _ = None"

fun dhcp_octets_rule ::
    "dhcp_scan_state \<Rightarrow> (nat \<times> dhcp_scan_state \<times> dhcp_token \<times> (byte list \<Rightarrow> dhcp_value)) option" where
  "dhcp_octets_rule sc_chaddr = Some (16, sc_sname, CHADDR, Octets)"
| "dhcp_octets_rule sc_sname = Some (64, sc_file, SNAME, \<lambda>bs. Text (until_nul bs))"
| "dhcp_octets_rule sc_file = Some (128, sc_cookie, FILE, \<lambda>bs. Text (until_nul bs))"
| "dhcp_octets_rule _ = None"

type_synonym dhcp_scanned = "(dhcp_token \<times> dhcp_value \<times> dhcp_scan_state \<times> byte list) run"

definition scan_option_tag :: "byte list \<Rightarrow> dhcp_scanned" where
  "scan_option_tag inp =
     Inr (OPTION_TAG, Number (ucast (hd inp)),
          (if hd inp = 0 \<or> hd inp = 255 then sc_option_tag else sc_option_length), tl inp)"

definition scan_option_length :: "byte list \<Rightarrow> dhcp_scanned" where
  "scan_option_length inp =
     (let option_size = unat (hd inp) in
      if length (tl inp) < option_size then Inl Out_of_bounds
      else Inr (OPTION_VALUE, Text (take option_size (tl inp)), sc_option_tag,
                drop option_size (tl inp)))"

definition number_value :: "'a machine_scheme \<Rightarrow> byte list \<Rightarrow> u32" where
  "number_value lib bs =
     (if length bs = 1 then ucast (hd bs)
      else if length bs = 2 then ucast (native_word (lsb_first lib) bs :: u16)
      else native_word (lsb_first lib) bs)"

text \<open>The rule \<open><*>{OCTET}\<close>, which matches where the input is too short for the other, fails its assertion.\<close>

definition dhcp_scan_rule :: "'a machine_scheme \<Rightarrow> dhcp_scan_state \<Rightarrow> byte list \<Rightarrow> dhcp_scanned" where
  "dhcp_scan_rule lib st inp =
     (case dhcp_number_rule st of
        Some (n, next, token, nonzero) \<Rightarrow>
          (if length inp < n then Inl Assertion_failed
           else let v = number_value lib (take n inp) in
             run_bind (ace_assert (nonzero \<longrightarrow> v \<noteq> 0)) (\<lambda>_. Inr (token, Number v, next, drop n inp)))
      | None \<Rightarrow> (case dhcp_octets_rule st of
        Some (n, next, token, f) \<Rightarrow>
          (if length inp < n then Inl Assertion_failed
           else Inr (token, f (take n inp), next, drop n inp))
      | None \<Rightarrow>
          if st = sc_option_tag then scan_option_tag inp
          else if st = sc_option_length then scan_option_length inp
          else Inl Assertion_failed))"

text \<open>The first two rules change the start condition and give the octet back.\<close>

definition dhcp_yylex :: "'a machine_scheme \<Rightarrow> dhcp_scan_state \<Rightarrow> byte list \<Rightarrow> dhcp_scanned" where
  "dhcp_yylex lib st inp =
     (if inp = [] then Inr (DHCP_END, Number 0, st, [])
      else if st = sc_INITIAL \<or> st = sc_header then dhcp_scan_rule lib sc_op inp
      else dhcp_scan_rule lib st inp)"

lemma dhcp_yylex_shorter:
  "dhcp_yylex lib st inp = Inr (token, v, st', rest) \<Longrightarrow> token \<noteq> DHCP_END \<Longrightarrow> length rest < length inp"
  by (cases st)
     (auto simp: dhcp_yylex_def dhcp_scan_rule_def scan_option_tag_def scan_option_length_def Let_def
        split: if_splits)

section \<open>The grammar\<close>

datatype dhcp_parser =
    In_header "dhcp_token list" "dhcp_value list"
  | Before_cookie
  | In_options u32
  | After_tag u32 u32

definition dhcp_header_tokens :: "dhcp_token list" where
  "dhcp_header_tokens =
     [OP, HTYPE, HLEN, HOPS, XID, SECS, FLAGS, CIADDR, YIADDR, SIADDR, GIADDR, CHADDR, SNAME, FILE]"

text \<open>The members of a semantic value; a token always comes with the member of its type.\<close>

fun ival :: "dhcp_value \<Rightarrow> u32" where
  "ival (Number v) = v"
| "ival _ = 0"

fun member_octets :: "dhcp_value \<Rightarrow> byte list" where
  "member_octets (Number v) = []"
| "member_octets (Octets bs) = bs"
| "member_octets (Text bs) = bs"

text \<open>
  The action of the header. The macro \<open>ACE_SWAP_WORD\<close> has no effect on its argument, and the result of
  its two uses is dropped.
\<close>

definition header_action :: "'a machine_scheme \<Rightarrow> dhcp_value list \<Rightarrow> DHCP_Record \<Rightarrow> DHCP_Record" where
  "header_action lib vs r =
     r\<lparr>dhcp_op := ival (vs ! 0), dhcp_htype := ucast (ival (vs ! 1)), dhcp_hlen := ucast (ival (vs ! 2)),
       dhcp_hops := ucast (ival (vs ! 3)),
       dhcp_xid := (if lsb_first lib then swap_long lib (ival (vs ! 4)) else ival (vs ! 4)),
       dhcp_secs := ucast (ival (vs ! 5)), dhcp_flags := ucast (ival (vs ! 6)),
       dhcp_ciaddr := ival (vs ! 7), dhcp_yiaddr := ival (vs ! 8), dhcp_siaddr := ival (vs ! 9),
       dhcp_giaddr := ival (vs ! 10), dhcp_chaddr := member_octets (vs ! 11), dhcp_sname := member_octets (vs ! 12),
       dhcp_file := member_octets (vs ! 13)\<rparr>"

definition message_action :: "u32 \<Rightarrow> DHCP_Record \<Rightarrow> DHCP_Record run" where
  "message_action cookie r =
     run_bind (ace_assert (cookie = DHCP_MAGIC_COOKIE)) (\<lambda>_. Inr (r\<lparr>dhcp_cookie := cookie\<rparr>))"

definition option_action :: "u32 \<Rightarrow> byte list \<Rightarrow> DHCP_Record \<Rightarrow> DHCP_Record" where
  "option_action tag value r = r\<lparr>dhcp_options := options_insert (ucast tag) value (dhcp_options r)\<rparr>"

text \<open>A syntax error is reported with a dump of the record; \<open>None\<close> stands for the parse that failed.\<close>

definition syntax_error ::
    "'a machine_scheme \<Rightarrow> address_writer \<Rightarrow> DHCP_Record \<Rightarrow> DHCP_Record option run" where
  "syntax_error lib addr_to_string r = run_bind (dhcp_dump lib addr_to_string r) (\<lambda>_. Inr None)"

text \<open>
  What a token does: the parse ends, or goes on in another state. In the options any token but a tag
  completes the message first.
\<close>

definition shift_option ::
    "'a machine_scheme \<Rightarrow> address_writer \<Rightarrow> u32 \<Rightarrow> dhcp_token \<Rightarrow> dhcp_value \<Rightarrow> DHCP_Record
     \<Rightarrow> (DHCP_Record option + dhcp_parser \<times> DHCP_Record) run" where
  "shift_option lib addr_to_string cookie token v r =
     (if token = OPTION_TAG then Inr (Inr (After_tag cookie (ival v), r))
      else run_bind (message_action cookie r) (\<lambda>r.
             if token = DHCP_END then Inr (Inl (Some r))
             else run_bind (syntax_error lib addr_to_string r) (\<lambda>res. Inr (Inl res))))"

fun dhcp_shift ::
    "'a machine_scheme \<Rightarrow> address_writer \<Rightarrow> dhcp_parser \<Rightarrow> dhcp_token \<Rightarrow> dhcp_value \<Rightarrow> DHCP_Record
     \<Rightarrow> (DHCP_Record option + dhcp_parser \<times> DHCP_Record) run" where
  "dhcp_shift lib addr_to_string (In_header expected vs) token v r =
     (if expected = [] \<or> token \<noteq> hd expected
      then run_bind (syntax_error lib addr_to_string r) (\<lambda>res. Inr (Inl res))
      else if tl expected = [] then Inr (Inr (Before_cookie, header_action lib (vs @ [v]) r))
      else Inr (Inr (In_header (tl expected) (vs @ [v]), r)))"
| "dhcp_shift lib addr_to_string Before_cookie token v r =
     (if token = COOKIE then Inr (Inr (In_options (ival v), r))
      else run_bind (syntax_error lib addr_to_string r) (\<lambda>res. Inr (Inl res)))"
| "dhcp_shift lib addr_to_string (In_options cookie) token v r =
     shift_option lib addr_to_string cookie token v r"
| "dhcp_shift lib addr_to_string (After_tag cookie tag) token v r =
     (if token = OPTION_VALUE then Inr (Inr (In_options cookie, option_action tag (member_octets v) r))
      else if tag = 255 then Inr (Inl (Some r))
      else shift_option lib addr_to_string cookie token v r)"

section \<open>The parser, its driver and the module\<close>

declare run_bind_cong [fundef_cong]

text \<open>The end of the input is no token a production asks for, so it always ends the parse.\<close>

function dhcp_yyparse ::
    "'a machine_scheme \<Rightarrow> address_writer \<Rightarrow> dhcp_parser \<Rightarrow> dhcp_scan_state \<Rightarrow> DHCP_Record \<Rightarrow> byte list
     \<Rightarrow> DHCP_Record option run" where
  "dhcp_yyparse lib addr_to_string p st r inp =
     run_bind (dhcp_yylex lib st inp) (\<lambda>(token, v, st', rest).
     run_bind (dhcp_shift lib addr_to_string p token v r) (\<lambda>res.
       case res of
         Inl x \<Rightarrow> Inr x
       | Inr (p', r') \<Rightarrow>
           if token = DHCP_END then Inr None
           else dhcp_yyparse lib addr_to_string p' st' r' rest))"
  by pat_completeness auto
termination
  by (relation "measure (\<lambda>(lib, addr_to_string, p, st, r, inp). length inp)")
     (auto dest: dhcp_yylex_shorter)

declare dhcp_yyparse.simps [simp del]

text \<open>
  \<open>DHCP_ParserDriver::parse\<close>: either way to hand the buffer to the scanner, it is given the octets of the
  message. \<open>handleDataMessage\<close> of the module parses into the record of the message.
\<close>

definition dhcp_parse ::
    "'a machine_scheme \<Rightarrow> address_writer \<Rightarrow> DHCP_Record \<Rightarrow> byte list \<Rightarrow> DHCP_Record option run" where
  "dhcp_parse lib addr_to_string r message =
     dhcp_yyparse lib addr_to_string (In_header dhcp_header_tokens []) sc_INITIAL r message"

definition dhcp_parser_handleDataMessage ::
    "'a machine_scheme \<Rightarrow> address_writer \<Rightarrow> bool \<Rightarrow> DHCP_Record \<Rightarrow> byte list \<Rightarrow> nat
     \<Rightarrow> DHCP_Record option run" where
  "dhcp_parser_handleDataMessage lib addr_to_string isDriverInitialized r message capacity =
     run_bind (ace_assert (2 \<le> capacity - length message)) (\<lambda>_.
     run_bind (ace_assert isDriverInitialized) (\<lambda>_.
       dhcp_parse lib addr_to_string r message))"

section \<open>Stepping over the fields of a message\<close>

text \<open>The parse of a message from position \<open>k\<close> on.\<close>

definition parse_from ::
    "'a machine_scheme \<Rightarrow> address_writer \<Rightarrow> DHCP_Record \<Rightarrow> byte list \<Rightarrow> dhcp_parser \<Rightarrow> dhcp_scan_state
     \<Rightarrow> nat \<Rightarrow> DHCP_Record option run" where
  "parse_from lib addr_to_string r m p st k = dhcp_yyparse lib addr_to_string p st r (drop k m)"

lemma parse_from_number:
  assumes "dhcp_number_rule st = Some (n, next, token, nonzero)" "0 < n" "k + n \<le> length m"
    "nonzero \<longrightarrow> number_value lib (octets_at k n m) \<noteq> 0" "st \<noteq> sc_INITIAL" "st \<noteq> sc_header" "token \<noteq> DHCP_END"
  shows "ts \<noteq> [] \<Longrightarrow> parse_from lib w r m (In_header (token # ts) vs) st k =
      parse_from lib w r m (In_header ts (vs @ [Number (number_value lib (octets_at k n m))])) next (k + n)"
    and "token = COOKIE \<Longrightarrow> parse_from lib w r m Before_cookie st k =
      parse_from lib w r m (In_options (number_value lib (octets_at k n m))) next (k + n)"
  using assms
  by (auto simp: parse_from_def dhcp_yyparse.simps [where inp = "drop k m"] dhcp_yylex_def dhcp_scan_rule_def
      octets_at_def ace_assert_def add.commute)

lemma parse_from_octets:
  assumes "dhcp_octets_rule st = Some (n, next, token, f)" "dhcp_number_rule st = None" "0 < n"
    "k + n \<le> length m" "st \<noteq> sc_INITIAL" "st \<noteq> sc_header" "token \<noteq> DHCP_END"
  shows "parse_from lib w r m (In_header (token # ts) vs) st k =
      (if ts = [] then parse_from lib w (header_action lib (vs @ [f (octets_at k n m)]) r) m Before_cookie next (k + n)
       else parse_from lib w r m (In_header ts (vs @ [f (octets_at k n m)])) next (k + n))"
  using assms
  by (auto simp: parse_from_def dhcp_yyparse.simps [where inp = "drop k m"] dhcp_yylex_def dhcp_scan_rule_def
      octets_at_def add.commute)

lemma parse_from_start:
  "parse_from lib w r m p sc_INITIAL k = parse_from lib w r m p sc_op k"
  unfolding parse_from_def
  by (subst (1 2) dhcp_yyparse.simps) (simp add: dhcp_yylex_def)

lemmas number_steps = dhcp_number_rule.simps(1-12) [THEN parse_from_number(1), simplified]
lemmas cookie_step = dhcp_number_rule.simps(12) [THEN parse_from_number(2), simplified]
lemmas octets_steps = dhcp_octets_rule.simps(1-3) [THEN parse_from_octets, simplified]

lemma native_word_nonzero:
  assumes "length bs = 4" "be_value bs \<noteq> 0"
  shows "(native_word le bs :: u32) \<noteq> 0"
proof
  assume "(native_word le bs :: u32) = 0"
  then have "bs = native_octets le 4 (0 :: u32)"
    using native_octets_word [of bs le, where 'a = 32] assms(1) by simp
  then have "bs = replicate 4 0"
    using be_octets_zeros [of 0 0 4] by (simp add: native_octets_def)
  then show False
    using assms(2) be_value_zeros [of 4 "[]"] by simp
qed

lemma number_value_nonzero:
  assumes "length bs \<in> {1, 4}" "be_value bs \<noteq> 0"
  shows "number_value lib bs \<noteq> 0"
proof (cases "length bs = 1")
  case True
  then obtain b where "bs = [b]"
    by (cases bs) auto
  moreover have "unat (ucast b :: u32) = unat b"
    using unat_byte_less [of b] by (simp add: unsigned_ucast_eq take_bit_nat_eq_self)
  ultimately have "(ucast b :: u32) \<noteq> 0"
    using assms(2) by auto
  with \<open>bs = [b]\<close> show ?thesis
    by (simp add: number_value_def)
next
  case False
  with assms native_word_nonzero [of bs] show ?thesis
    by (simp add: number_value_def)
qed

definition header_values :: "'a machine_scheme \<Rightarrow> byte list \<Rightarrow> dhcp_value list" where
  "header_values lib m =
     map (\<lambda>(k, n). Number (number_value lib (octets_at k n m)))
       [(0, 1), (1, 1), (2, 1), (3, 1), (4, 4), (8, 2), (10, 2), (12, 4), (16, 4), (20, 4), (24, 4)]
     @ [Octets (octets_at 28 16 m), Text (until_nul (octets_at 44 64 m)), Text (until_nul (octets_at 108 128 m))]"

lemma parse_header:
  assumes "240 \<le> length m" "number 0 1 m \<noteq> 0" "number 1 1 m \<noteq> 0" "number 2 1 m \<noteq> 0" "number 4 4 m \<noteq> 0"
    "number 236 4 m \<noteq> 0"
  shows "dhcp_parse lib w r m =
     parse_from lib w (header_action lib (header_values lib m) r) m
       (In_options (number_value lib (octets_at 236 4 m))) sc_option_tag 240"
proof -
  have "number_value lib (octets_at k n m) \<noteq> 0"
    if "k + n \<le> 240" "n \<in> {1, 4}" "number k n m \<noteq> 0" for k n
    using that assms(1) by (intro number_value_nonzero) (auto simp: octets_at_def)
  then have "number_value lib (octets_at 0 1 m) \<noteq> 0" "number_value lib (octets_at 1 1 m) \<noteq> 0"
    "number_value lib (octets_at 2 1 m) \<noteq> 0" "number_value lib (octets_at 4 4 m) \<noteq> 0"
    "number_value lib (octets_at 236 4 m) \<noteq> 0"
    using assms by simp_all
  moreover have "dhcp_parse lib w r m = parse_from lib w r m (In_header dhcp_header_tokens []) sc_op 0"
    using parse_from_start [of lib w r m "In_header dhcp_header_tokens []" 0]
    by (simp add: dhcp_parse_def parse_from_def)
  ultimately show ?thesis
    using assms(1)
    by (simp add: dhcp_header_tokens_def number_steps octets_steps cookie_step header_values_def
        numeral_2_eq_2 [symmetric])
qed

section \<open>Options\<close>

definition insert_all :: "(byte \<times> byte list) list \<Rightarrow> dhcp_options \<Rightarrow> dhcp_options" where
  "insert_all opts m = fold (\<lambda>(k, v). options_insert k v) opts m"

lemma insert_all_simps [simp]:
  "insert_all [] m = m"
  "insert_all ((k, v) # opts) m = insert_all opts (options_insert k v m)"
  by (simp_all add: insert_all_def)

lemma insert_all_ordered: "ordered m \<Longrightarrow> ordered (insert_all opts m)"
  by (induction opts arbitrary: m) (auto simp: options_insert_ordered)

text \<open>The first of several options with the same tag is the one that is kept.\<close>

lemma map_of_insert_all:
  "ordered m \<Longrightarrow> map_of (insert_all opts m) k = (case map_of m k of None \<Rightarrow> map_of opts k | Some v \<Rightarrow> Some v)"
  by (induction opts arbitrary: m)
     (auto simp: options_insert_ordered map_of_options_insert split: option.splits)

lemma parse_tag_lookahead:
  "tag \<noteq> 255 \<Longrightarrow> dhcp_yyparse lib w (After_tag c tag) sc_option_tag r inp
     = dhcp_yyparse lib w (In_options c) sc_option_tag r inp"
  by (subst (1 2) dhcp_yyparse.simps)
     (simp add: dhcp_yylex_def dhcp_scan_rule_def scan_option_tag_def shift_option_def)

lemma parse_tag:
  "dhcp_yyparse lib w (In_options c) sc_option_tag r (tag # inp)
     = dhcp_yyparse lib w (After_tag c (ucast tag))
         (if tag = 0 \<or> tag = 255 then sc_option_tag else sc_option_length) r inp"
  by (subst dhcp_yyparse.simps)
     (simp add: dhcp_yylex_def dhcp_scan_rule_def scan_option_tag_def shift_option_def)

lemma parse_end: "dhcp_yyparse lib w (After_tag c 255) sc_option_tag r inp = Inr (Some r)"
  by (subst dhcp_yyparse.simps)
     (simp add: dhcp_yylex_def dhcp_scan_rule_def scan_option_tag_def)

lemma parse_value:
  assumes "unat n \<le> length inp"
  shows "dhcp_yyparse lib w (After_tag c tag) sc_option_length r (n # inp)
     = dhcp_yyparse lib w (In_options c) sc_option_tag (option_action tag (take (unat n) inp) r)
         (drop (unat n) inp)"
  using assms
  by (subst dhcp_yyparse.simps)
     (simp add: dhcp_yylex_def dhcp_scan_rule_def scan_option_length_def Let_def)

lemma ucast_byte_back: "ucast (ucast (b :: byte) :: u32) = b"
  by (rule bit_word_eqI) (auto simp: bit_simps)

lemma parse_options:
  assumes "rfc_dhcp_options inp = Some opts"
  shows "dhcp_yyparse lib w (In_options c) sc_option_tag r inp
     = Inr (Some (r\<lparr>dhcp_options := insert_all opts (dhcp_options r)\<rparr>))"
  using assms
proof (induction inp arbitrary: opts r rule: rfc_dhcp_options.induct)
  case (2 tag rest)
  consider "tag = 0" | "tag = 255" | "tag \<noteq> 0" "tag \<noteq> 255"
    by blast
  then show ?case
  proof cases
    case 1
    then show ?thesis
      using 2 by (simp add: parse_tag parse_tag_lookahead)
  next
    case 2
    then show ?thesis
      using "2.prems" by (simp add: parse_tag parse_end)
  next
    case 3
    with "2.prems" obtain n inp where rest: "rest = n # inp" "unat n \<le> length inp"
      by (cases rest) (auto split: if_splits)
    with 3 "2.prems" obtain more where more: "rfc_dhcp_options (drop (unat n) inp) = Some more"
      "opts = (tag, take (unat n) inp) # more"
      by (auto split: if_splits)
    then show ?thesis
      using 3 rest "2.IH"(2) [of more]
      by (simp add: parse_tag parse_value option_action_def ucast_byte_back)
  qed
qed simp

section \<open>What is read\<close>

text \<open>
  Numbers of a message as the parser stores them: the transaction in host byte order, everything else
  with the octets in memory as they were in the message.
\<close>

definition dhcp_record_of :: "'a machine_scheme \<Rightarrow> rfc_dhcp \<Rightarrow> DHCP_Record" where
  "dhcp_record_of lib x =
     new_DHCP_Record\<lparr>dhcp_op := word_of_nat (rd_op x), dhcp_htype := word_of_nat (rd_htype x),
       dhcp_hlen := word_of_nat (rd_hlen x), dhcp_hops := word_of_nat (rd_hops x),
       dhcp_xid := word_of_nat (rd_xid x),
       dhcp_secs := native_word (lsb_first lib) (be_octets 2 (rd_secs x)),
       dhcp_flags := native_word (lsb_first lib) (be_octets 2 (rd_flags x)),
       dhcp_ciaddr := native_word (lsb_first lib) (rd_ciaddr x),
       dhcp_yiaddr := native_word (lsb_first lib) (rd_yiaddr x),
       dhcp_siaddr := native_word (lsb_first lib) (rd_siaddr x),
       dhcp_giaddr := native_word (lsb_first lib) (rd_giaddr x),
       dhcp_chaddr := rd_chaddr x, dhcp_sname := rd_sname x, dhcp_file := rd_file x,
       dhcp_options := insert_all (rd_options x) []\<rparr>"

lemma number_value_octet:
  assumes "length bs = 1"
  shows "number_value lib bs = word_of_nat (be_value bs)" "(ucast (number_value lib bs) :: byte) = word_of_nat (be_value bs)"
proof -
  obtain b where "bs = [b]"
    using assms by (cases bs) auto
  then show "number_value lib bs = word_of_nat (be_value bs)"
    "(ucast (number_value lib bs) :: byte) = word_of_nat (be_value bs)"
    by (simp_all add: number_value_def ucast_byte_back)
qed

lemma header_action_record:
  assumes "machine_ok lib" "240 \<le> length m" "rfc_dhcp_message m = Some x"
  shows "header_action lib (header_values lib m) new_DHCP_Record\<lparr>dhcp_options := insert_all (rd_options x) []\<rparr>
           = dhcp_record_of lib x"
proof -
  have len: "length (octets_at k n m) = n" if "k + n \<le> 240" for k n
    using that assms(2) by (simp add: octets_at_def)
  have word: "(ucast (number_value lib (octets_at k 2 m)) :: u16) = native_word (lsb_first lib) (be_octets 2 (number k 2 m))"
    if "k + 2 \<le> 240" for k
  proof -
    have "ucast (ucast v :: u32) = v" for v :: u16
      by (rule bit_word_eqI) (auto simp: bit_simps)
    then show ?thesis
      using len [OF that] be_octets_value [of "octets_at k 2 m"] by (simp add: number_value_def)
  qed
  have long: "number_value lib (octets_at k 4 m) = native_word (lsb_first lib) (octets_at k 4 m)" if "k + 4 \<le> 240" for k
    using len [OF that] by (simp add: number_value_def)
  have xid: "swap_long lib (native_word True (octets_at 4 4 m)) = word_of_nat (number 4 4 m)"
    using swapped_word_little [of 4 "swap_long lib" "octets_at 4 4 m"] assms(1) len [of 4 4]
    by (simp add: machine_ok_def)
  have octet: "number_value lib (octets_at 0 1 m) = word_of_nat (number 0 1 m)"
    "k + 1 \<le> 240 \<Longrightarrow> (ucast (number_value lib (octets_at k 1 m)) :: byte) = word_of_nat (number k 1 m)" for k
    using len [of 0 1] len [of k 1] number_value_octet by simp_all
  note reads = octet [simplified One_nat_def] octet word long xid native_word_be
  from assms(3) show ?thesis
    by (cases "lsb_first lib")
       (auto simp: rfc_dhcp_message_def header_action_def header_values_def dhcp_record_of_def new_DHCP_Record_def
          reads split: if_splits)
qed

lemma dhcp_parse_stored:
  assumes "machine_ok lib" "rfc_dhcp_message m = Some x"
    "rd_op x \<noteq> 0" "rd_htype x \<noteq> 0" "rd_hlen x \<noteq> 0" "rd_xid x \<noteq> 0"
  shows "dhcp_parse lib addr_to_string new_DHCP_Record m = Inr (Some (dhcp_record_of lib x))"
proof -
  have m: "240 \<le> length m" "octets_at 236 4 m = magic_cookie" "rfc_dhcp_options (drop 240 m) = Some (rd_options x)"
    "number 0 1 m \<noteq> 0" "number 1 1 m \<noteq> 0" "number 2 1 m \<noteq> 0" "number 4 4 m \<noteq> 0"
    using assms(2-6) by (auto simp: rfc_dhcp_message_def split: if_splits)
  moreover have "number 236 4 m \<noteq> 0"
    by (simp add: m(2)) (simp add: magic_cookie_def be_value_def)
  ultimately show ?thesis
    using header_action_record [OF assms(1) m(1) assms(2)]
    by (simp add: parse_header parse_from_def parse_options)
       (simp add: header_action_def new_DHCP_Record_def)
qed

text \<open>C9: The parser agrees with the reference decoder on every octet string that is a message of
  RFC 2131 with operation, hardware type, length and transaction other than zero: it stores the
  fields of the message, the first of several options with the same tag, and no cookie. On a little
  endian machine all numbers but the transaction are stored in network byte order.\<close>

theorem dhcp_parse_agrees:
  assumes "machine_ok lib" "rfc_dhcp_message m = Some x"
    "rd_op x \<noteq> 0" "rd_htype x \<noteq> 0" "rd_hlen x \<noteq> 0" "rd_xid x \<noteq> 0"
  shows "dhcp_parse lib addr_to_string new_DHCP_Record m = Inr (Some (dhcp_record_of lib x))"
  using dhcp_parse_stored [OF assms] .

section \<open>Every record the parser fills\<close>

definition dhcp_record_wf :: "DHCP_Record \<Rightarrow> bool" where
  "dhcp_record_wf r \<longleftrightarrow>
     ordered (dhcp_options r) \<and> (\<forall>(tag, value) \<in> set (dhcp_options r). length value \<le> 255)
     \<and> length (dhcp_chaddr r) = 16 \<and> length (dhcp_sname r) \<le> 64 \<and> length (dhcp_file r) \<le> 128"

fun value_ok :: "dhcp_token \<Rightarrow> dhcp_value \<Rightarrow> bool" where
  "value_ok CHADDR v \<longleftrightarrow> length (member_octets v) = 16"
| "value_ok SNAME v \<longleftrightarrow> length (member_octets v) \<le> 64"
| "value_ok FILE v \<longleftrightarrow> length (member_octets v) \<le> 128"
| "value_ok OPTION_VALUE v \<longleftrightarrow> length (member_octets v) \<le> 255"
| "value_ok _ v \<longleftrightarrow> True"

fun parser_ok :: "dhcp_parser \<Rightarrow> bool" where
  "parser_ok (In_header expected vs) \<longleftrightarrow>
     expected = drop (length vs) dhcp_header_tokens \<and> (\<forall>i < length vs. i < 14 \<and> value_ok (dhcp_header_tokens ! i) (vs ! i))"
| "parser_ok _ \<longleftrightarrow> True"

lemma length_until_nul: "length (until_nul bs) \<le> length bs"
  by (simp add: until_nul_def length_takeWhile_le)

lemma dhcp_yylex_ok: "dhcp_yylex lib st inp = Inr (token, v, st', rest) \<Longrightarrow> value_ok token v"
  using length_until_nul [of "take 64 inp"] length_until_nul [of "take 128 inp"] unat_byte_less [of "hd inp"]
  by (cases st)
     (auto simp: dhcp_yylex_def dhcp_scan_rule_def scan_option_tag_def scan_option_length_def Let_def
        split: if_splits)

lemma options_insert_values:
  "(t, x) \<in> set (options_insert k v m) \<Longrightarrow> (t, x) = (k, v) \<or> (t, x) \<in> set m"
  by (induction k v m rule: options_insert.induct) (auto split: if_splits)

lemma header_action_wf:
  assumes "dhcp_record_wf r" "\<forall>i < 14. value_ok (dhcp_header_tokens ! i) (vs ! i)"
  shows "dhcp_record_wf (header_action lib vs r)"
proof -
  have "value_ok (dhcp_header_tokens ! 11) (vs ! 11)" "value_ok (dhcp_header_tokens ! 12) (vs ! 12)"
    "value_ok (dhcp_header_tokens ! 13) (vs ! 13)"
    using assms(2) by simp_all
  then show ?thesis
    using assms(1) by (simp add: dhcp_record_wf_def header_action_def dhcp_header_tokens_def)
qed

lemma option_action_wf:
  "dhcp_record_wf r \<Longrightarrow> length value \<le> 255 \<Longrightarrow> dhcp_record_wf (option_action tag value r)"
  using options_insert_ordered [of "dhcp_options r" "ucast tag" "value"]
  by (auto simp: dhcp_record_wf_def option_action_def dest!: options_insert_values)

lemma dhcp_shift_ok:
  assumes "parser_ok p" "dhcp_record_wf r" "value_ok token v" "dhcp_shift lib w p token v r = Inr res"
  shows "case res of Inl x \<Rightarrow> (\<forall>r'. x = Some r' \<longrightarrow> dhcp_record_wf r')
           | Inr (p', r') \<Rightarrow> parser_ok p' \<and> dhcp_record_wf r'"
proof (cases p)
  case (In_header expected vs)
  show ?thesis
  proof (cases "expected = [] \<or> token \<noteq> hd expected")
    case True
    then show ?thesis
      using assms(4) In_header by (auto simp: syntax_error_def)
  next
    case False
    have vs: "expected = drop (length vs) dhcp_header_tokens"
      "i < length vs \<Longrightarrow> value_ok (dhcp_header_tokens ! i) (vs ! i)" for i
      using assms(1) In_header by auto
    then have more: "length vs < 14" "token = dhcp_header_tokens ! length vs"
      using False by (auto simp: hd_drop_conv_nth dhcp_header_tokens_def)
    then have "value_ok (dhcp_header_tokens ! i) ((vs @ [v]) ! i)" if "i < Suc (length vs)" for i
      using that vs(2) assms(3) by (cases "i = length vs") (auto simp: nth_append)
    moreover have "tl expected = drop (Suc (length vs)) dhcp_header_tokens"
      using vs(1) by (simp add: tl_drop drop_Suc)
    moreover from this have "Suc (length vs) = 14" if "tl expected = []"
      using that more(1) by (simp add: dhcp_header_tokens_def)
    ultimately have vs': "i < Suc (length vs) \<Longrightarrow> value_ok (dhcp_header_tokens ! i) ((vs @ [v]) ! i)"
      "tl expected = drop (Suc (length vs)) dhcp_header_tokens" "tl expected = [] \<Longrightarrow> Suc (length vs) = 14" for i
      by blast+
    show ?thesis
    proof (cases "tl expected = []")
      case True
      then have "dhcp_record_wf (header_action lib (vs @ [v]) r)"
        using vs'(1,3) assms(2) by (intro header_action_wf) simp_all
      then show ?thesis
        using assms(4) In_header False True by auto
    next
      case tl: False
      then have "res = Inr (In_header (tl expected) (vs @ [v]), r)"
        using assms(4) In_header False by simp
      moreover have "\<forall>i < length (vs @ [v]). i < 14 \<and> value_ok (dhcp_header_tokens ! i) ((vs @ [v]) ! i)"
        using vs'(1) more(1) by simp
      ultimately show ?thesis
        using vs'(2) assms(2) by simp
    qed
  qed
qed (use assms option_action_wf [of r "member_octets v"] in
  \<open>auto simp: shift_option_def syntax_error_def message_action_def dhcp_record_wf_def [of "r\<lparr>dhcp_cookie := _\<rparr>"]
     dhcp_record_wf_def [of r] split: if_splits\<close>)

lemma dhcp_yyparse_wf:
  "dhcp_yyparse lib w p st r inp = Inr (Some r') \<Longrightarrow> parser_ok p \<Longrightarrow> dhcp_record_wf r \<Longrightarrow> dhcp_record_wf r'"
proof (induction lib w p st r inp rule: dhcp_yyparse.induct)
  case (1 lib w p st r inp)
  obtain token v st' rest where lex: "dhcp_yylex lib st inp = Inr (token, v, st', rest)"
    using 1(2) by (subst (asm) dhcp_yyparse.simps) auto
  then obtain res where shift: "dhcp_shift lib w p token v r = Inr res"
    using 1(2) by (subst (asm) dhcp_yyparse.simps) auto
  note ok = dhcp_shift_ok [OF 1(3,4) dhcp_yylex_ok [OF lex] shift]
  have run: "dhcp_yyparse lib w p st r inp = (case res of Inl x \<Rightarrow> Inr x | Inr (p', r') \<Rightarrow>
      if token = DHCP_END then Inr None else dhcp_yyparse lib w p' st' r' rest)"
    using lex shift by (subst dhcp_yyparse.simps) simp
  show ?case
  proof (cases res)
    case (Inl x)
    then show ?thesis
      using 1(2) run ok by simp
  next
    case (Inr y)
    then obtain p1 r1 where y: "res = Inr (p1, r1)"
      by (cases y) auto
    then have "token \<noteq> DHCP_END" "dhcp_yyparse lib w p1 st' r1 rest = Inr (Some r')"
      using 1(2) run by (auto split: if_splits)
    then show ?thesis
      using ok y 1(1) [OF lex refl refl refl shift y refl] by simp
  qed
qed

text \<open>C20: Whatever octets arrive, a record the parser has finished is well formed: the options are in
  order, each tag once, with values of at most 255 octets, the hardware address has 16 octets, and the
  names of the server and the file are no longer than their fields.\<close>

theorem dhcp_parse_well_formed:
  assumes "dhcp_parse lib addr_to_string new_DHCP_Record m = Inr (Some r)"
  shows "dhcp_record_wf r"
  using assms unfolding dhcp_parse_def
  by (rule dhcp_yyparse_wf) (simp_all add: dhcp_record_wf_def new_DHCP_Record_def)

section \<open>Malformed options\<close>

text \<open>Which flaw of the options the scanner meets first: an option whose length byte promises more
  octets than the message has left, or the end of the message without an End option.\<close>

function overruns_message :: "byte list \<Rightarrow> bool" where
  "overruns_message [] \<longleftrightarrow> False"
| "overruns_message (tag # rest) \<longleftrightarrow>
     (if tag = 0 then overruns_message rest
      else if tag = 255 \<or> rest = [] then False
      else length (tl rest) < unat (hd rest) \<or> overruns_message (drop (unat (hd rest)) (tl rest)))"
  by pat_completeness auto
termination
  by (relation "measure length") auto

lemma parse_malformed_options:
  assumes "rfc_dhcp_options inp = None" "c \<noteq> DHCP_MAGIC_COOKIE"
  shows "dhcp_yyparse lib w (In_options c) sc_option_tag r inp
    = Inl (if overruns_message inp then Out_of_bounds else Assertion_failed)"
  using assms(1)
proof (induction inp arbitrary: r rule: rfc_dhcp_options.induct)
  case 1
  then show ?case
    using assms(2)
    by (subst dhcp_yyparse.simps) (simp add: dhcp_yylex_def shift_option_def message_action_def)
next
  case (2 tag rest)
  have tag: "ucast tag \<noteq> (255 :: u32)" if "tag \<noteq> 255"
    using that ucast_byte_back [of tag] by auto
  consider "tag = 0" | "tag \<noteq> 0" "tag \<noteq> 255" "rest = []" | n inp where "tag \<noteq> 0" "tag \<noteq> 255" "rest = n # inp"
    using "2.prems" by (cases rest) (auto split: if_splits)
  then show ?case
  proof cases
    case 1
    then show ?thesis
      using 2 by (simp add: parse_tag parse_tag_lookahead)
  next
    case 2
    then show ?thesis
      using assms(2) tag
      by (simp add: parse_tag dhcp_yyparse.simps [where inp = "[]"] dhcp_yylex_def shift_option_def message_action_def)
  next
    case 3
    show ?thesis
    proof (cases "unat n \<le> length inp")
      case True
      then have "rfc_dhcp_options (drop (unat n) inp) = None"
        using 3 "2.prems" by (simp split: if_splits)
      then show ?thesis
        using 3 True "2.IH"(2) by (simp add: parse_tag parse_value)
    next
      case False
      then show ?thesis
        using 3 by (simp add: parse_tag dhcp_yyparse.simps [where inp = "n # inp"] dhcp_yylex_def dhcp_scan_rule_def
            scan_option_length_def)
    qed
  qed
qed

text \<open>C31: A message whose options do not follow RFC 2132 on a little endian machine: an option longer
  than what is left of the message is read behind it, and options without an End run into the
  assertion that compares the cookie, which is in network byte order, with a number. Whichever of the
  two the message has first decides.\<close>

theorem dhcp_malformed_options_fault:
  assumes "machine_ok lib" "lsb_first lib" "240 \<le> length m" "octets_at 236 4 m = magic_cookie"
    "number 0 1 m \<noteq> 0" "number 1 1 m \<noteq> 0" "number 2 1 m \<noteq> 0" "number 4 4 m \<noteq> 0"
    "rfc_dhcp_options (drop 240 m) = None"
  shows "dhcp_parse lib addr_to_string new_DHCP_Record m
    = Inl (if overruns_message (drop 240 m) then Out_of_bounds else Assertion_failed)"
proof -
  have "number 236 4 m \<noteq> 0"
    by (simp add: assms(4)) (simp add: magic_cookie_def be_value_def)
  moreover have "number_value lib (octets_at 236 4 m) \<noteq> DHCP_MAGIC_COOKIE"
    using assms(2) by (simp add: assms(4)) (simp add: magic_cookie_def number_value_def native_word_def)
  ultimately show ?thesis
    using assms by (simp add: parse_header parse_from_def parse_malformed_options)
qed

definition dhcp_example_offer :: DHCP_Record where
  "dhcp_example_offer =
     new_DHCP_Record\<lparr>dhcp_op := DHCP_OP_REPLY, dhcp_htype := 1, dhcp_hlen := 6, dhcp_xid := 0x3903F326,
       dhcp_yiaddr := 0xC0A80164, dhcp_siaddr := 0xC0A80101,
       dhcp_chaddr := [0, 5, 60, 4, 141, 89] @ replicate 10 0,
       dhcp_options := [(1, [255, 255, 255, 0]), (51, [0, 1, 81, 128]), (53, [2]), (54, [192, 168, 1, 1])]\<rparr>"

abbreviation example_offer_octets :: "byte list" where
  "example_offer_octets \<equiv> dhcp_wire dhcp_example_machine dhcp_example_offer"

abbreviation example_offer_message :: rfc_dhcp where
  "example_offer_message \<equiv> dhcp_message_of dhcp_example_machine dhcp_example_offer"

lemma example_offer:
  "rfc_dhcp_message example_offer_octets = Some example_offer_message" "length example_offer_octets = 548"
proof -
  have "length (dhcp_chaddr dhcp_example_offer) = 16" "dhcp_fits dhcp_example_offer" "dhcp_plain dhcp_example_offer"
    by (simp_all add: dhcp_example_offer_def new_DHCP_Record_def dhcp_fits_def dhcp_plain_def dhcp_option_wire_def)
  then show "rfc_dhcp_message example_offer_octets = Some example_offer_message" "length example_offer_octets = 548"
    using rfc_dhcp_message_wire [of dhcp_example_offer dhcp_example_machine]
      length_dhcp_header_wire [of dhcp_example_offer dhcp_example_machine]
    by (simp_all add: dhcp_wire_def zero_padded_def)
      (simp_all add: dhcp_example_offer_def magic_cookie_def dhcp_option_wire_def)
qed

lemma example_offer_fields:
  "rd_op example_offer_message = 2" "rd_htype example_offer_message = 1" "rd_hlen example_offer_message = 6"
  "rd_xid example_offer_message = 0x3903F326"
  "map_of (rd_options example_offer_message) 53 = Some [2]"
  "map_of (rd_options example_offer_message) 51 = Some [0, 1, 81, 128]"
  "map_of (rd_options example_offer_message) 54 = Some [192, 168, 1, 1]"
  using dhcp_example_machine_ok(2) by (simp_all add: dhcp_message_of_def dhcp_example_offer_def)

theorem dhcp_parse_agrees_witness:
  "dhcp_parse dhcp_example_machine (\<lambda>port ip. None) new_DHCP_Record example_offer_octets
     = Inr (Some (dhcp_record_of dhcp_example_machine example_offer_message))"
  by (rule dhcp_parse_agrees [OF dhcp_example_machine_ok(1) example_offer(1)]) (simp_all add: example_offer_fields)

theorem dhcp_parse_well_formed_witness:
  "dhcp_record_wf (dhcp_record_of dhcp_example_machine example_offer_message)"
proof (rule dhcp_parse_well_formed)
  show "dhcp_parse dhcp_example_machine (\<lambda>port ip. None) new_DHCP_Record example_offer_octets
      = Inr (Some (dhcp_record_of dhcp_example_machine example_offer_message))"
    by (rule dhcp_parse_stored [OF dhcp_example_machine_ok(1) example_offer(1)]) (simp_all add: example_offer_fields)
qed

definition malformed_offer :: "byte list \<Rightarrow> byte list" where
  "malformed_offer opts = dhcp_header_wire dhcp_example_machine dhcp_example_offer @ magic_cookie @ opts"

lemma malformed_offer_fields:
  "240 \<le> length (malformed_offer opts)" "octets_at 236 4 (malformed_offer opts) = magic_cookie"
  "drop 240 (malformed_offer opts) = opts"
  "number 0 1 (malformed_offer opts) \<noteq> 0" "number 1 1 (malformed_offer opts) \<noteq> 0"
  "number 2 1 (malformed_offer opts) \<noteq> 0" "number 4 4 (malformed_offer opts) \<noteq> 0"
proof -
  have len: "length (dhcp_header_wire dhcp_example_machine dhcp_example_offer) = 236"
    by (intro length_dhcp_header_wire)
       (simp_all add: dhcp_example_offer_def new_DHCP_Record_def dhcp_fits_def dhcp_option_wire_def)
  then show "240 \<le> length (malformed_offer opts)" "octets_at 236 4 (malformed_offer opts) = magic_cookie"
    "drop 240 (malformed_offer opts) = opts"
    by (simp_all add: malformed_offer_def magic_cookie_def octets_at_def)
  show "number 0 1 (malformed_offer opts) \<noteq> 0" "number 1 1 (malformed_offer opts) \<noteq> 0"
    "number 2 1 (malformed_offer opts) \<noteq> 0" "number 4 4 (malformed_offer opts) \<noteq> 0"
    using dhcp_example_machine_ok(2)
    by (simp_all add: malformed_offer_def dhcp_header_wire_def first_octet_value be_value_octets_word)
       (simp_all add: dhcp_example_offer_def)
qed

theorem dhcp_malformed_options_fault_witness:
  "dhcp_parse dhcp_example_machine (\<lambda>port ip. None) new_DHCP_Record (malformed_offer [53, 5, 2])
     = Inl Out_of_bounds
   \<and> dhcp_parse dhcp_example_machine (\<lambda>port ip. None) new_DHCP_Record (malformed_offer [53, 1, 2])
     = Inl Assertion_failed"
  using dhcp_malformed_options_fault [OF dhcp_example_machine_ok malformed_offer_fields(1,2,4-7), of "[53, 5, 2]"]
    dhcp_malformed_options_fault [OF dhcp_example_machine_ok malformed_offer_fields(1,2,4-7), of "[53, 1, 2]"]
  by (simp add: malformed_offer_fields(3))

end
