(* ===== verification/Dhcp_Session.thy ===== *)
theory Dhcp_Session
  imports Dhcp_Parser
begin

text \<open>
  DHCP, the client: the module \<open>DHCP_Module_Discover_T\<close> (\<open>dhcp_module_discover.inl\<close>), and what a client
  whose stream holds the parser and this module makes of a message, up to the octets of the request that
  the streamer of its connection sends.

  The session data are the address of the server and the transaction. The connection of the module is
  known by a number; \<open>Increase\<close> and \<open>Decrease\<close> are the calls that count its references. The link layer
  address of the interface and the outcome of \<open>allocateMessage\<close> are parameters.
\<close>

section \<open>The discover module\<close>

record dhcp_session =
  session_server :: inet_addr
  session_xid :: u32

record discover_module =
  disc_initialized :: bool
  disc_connection :: "nat option"
  sendRequestOnOffer :: bool

record dhcp_configuration =
  requestBroadcastReplies :: bool
  link_layer_address :: "byte list"
  message_allocated :: bool

datatype discover_call = Increase nat | Decrease nat | Notify_abort

definition new_discover_module :: discover_module where
  "new_discover_module =
     \<lparr>disc_initialized = False, disc_connection = None, sendRequestOnOffer = False\<rparr>"

definition decrease :: "nat option \<Rightarrow> discover_call list" where
  "decrease connection = (case connection of None \<Rightarrow> [] | Some c \<Rightarrow> [Decrease c])"

definition increase :: "nat option \<Rightarrow> discover_call list" where
  "increase connection = (case connection of None \<Rightarrow> [] | Some c \<Rightarrow> [Increase c])"

definition discover_initialize ::
    "nat option \<Rightarrow> bool \<Rightarrow> discover_module \<Rightarrow> discover_module \<times> discover_call list" where
  "discover_initialize connection send d =
     (d\<lparr>disc_initialized := True, disc_connection := connection, sendRequestOnOffer := send\<rparr>,
      (if disc_initialized d then decrease (disc_connection d) else []) @ increase connection)"

definition discover_session_begin ::
    "nat option \<Rightarrow> discover_module \<Rightarrow> discover_module \<times> discover_call list" where
  "discover_session_begin session_connection d =
     (case disc_connection d of
        Some c \<Rightarrow> (d, [])
      | None \<Rightarrow> (case session_connection of
          Some c \<Rightarrow> (d\<lparr>disc_connection := Some c\<rparr>, [Increase c])
        | None \<Rightarrow> (d, [Notify_abort])))"

definition discover_session_end :: "discover_module \<Rightarrow> discover_module \<times> discover_call list" where
  "discover_session_end d = (d\<lparr>disc_connection := None\<rparr>, decrease (disc_connection d))"

definition discover_destroy :: "discover_module \<Rightarrow> discover_call list" where
  "discover_destroy d = decrease (disc_connection d)"

text \<open>\<open>ACE_INET_Addr::set\<close> with the argument \<open>encode\<close> zero takes port and address in network byte order.\<close>

definition set_network :: "'a machine_scheme \<Rightarrow> u16 \<Rightarrow> u32 \<Rightarrow> inet_addr" where
  "set_network lib port ip =
     \<lparr>addr_ip = word_of_nat (be_value (native_octets (lsb_first lib) 4 ip)),
      addr_port = word_of_nat (be_value (native_octets (lsb_first lib) 2 port))\<rparr>"

definition server_address :: "'a machine_scheme \<Rightarrow> DHCP_Record \<Rightarrow> dhcp_session \<Rightarrow> dhcp_session run" where
  "server_address lib r s =
     (if addr_ip (session_server s) \<noteq> 0 then Inr s
      else case map_of (dhcp_options r) DHCP_OPTION_SERVERIDENTIFIER of
        None \<Rightarrow> Inr s
      | Some value \<Rightarrow>
          run_bind (ace_assert (length value = 4)) (\<lambda>_.
            Inr (s\<lparr>session_server :=
              set_network lib (if lsb_first lib then swap_word lib 67 else 67)
                (native_word (lsb_first lib) value)\<rparr>)))"

text \<open>The request for an offer, with the two options it copies from the offer.\<close>

definition request_for ::
    "'a machine_scheme \<Rightarrow> dhcp_configuration \<Rightarrow> DHCP_Record \<Rightarrow> byte list \<Rightarrow> byte list \<Rightarrow> DHCP_Record" where
  "request_for lib cfg r lease server =
     new_DHCP_Record\<lparr>dhcp_op := DHCP_OP_REQUEST, dhcp_htype := 1, dhcp_hlen := 6, dhcp_xid := dhcp_xid r,
       dhcp_secs := dhcp_secs r,
       dhcp_flags := (if requestBroadcastReplies cfg then DHCP_FLAGS_BROADCAST else 0),
       dhcp_chaddr := take 6 (link_layer_address cfg) @ replicate 10 0,
       dhcp_options :=
         options_insert DHCP_OPTION_SERVERIDENTIFIER server
           (options_insert DHCP_OPTION_MESSAGETYPE [DHCP_MESSAGE_REQUEST]
             (options_insert DHCP_OPTION_IPADDRESSLEASETIME lease
               (options_insert DHCP_OPTION_REQUESTEDIPADDRESS
                 (native_octets (lsb_first lib) 4 (dhcp_yiaddr r)) [])))\<rparr>"

definition assert_option :: "byte \<Rightarrow> DHCP_Record \<Rightarrow> byte list run" where
  "assert_option opt r =
     (case map_of (dhcp_options r) opt of None \<Rightarrow> Inl Assertion_failed | Some value \<Rightarrow> Inr value)"

definition answer_offer ::
    "'a machine_scheme \<Rightarrow> dhcp_configuration \<Rightarrow> DHCP_Record \<Rightarrow> DHCP_Record option run" where
  "answer_offer lib cfg r =
     (if \<not> message_allocated cfg then Inr None
      else run_bind (assert_option DHCP_OPTION_IPADDRESSLEASETIME r) (\<lambda>lease.
           run_bind (assert_option DHCP_OPTION_SERVERIDENTIFIER r) (\<lambda>server.
             Inr (Some (request_for lib cfg r lease server)))))"

definition dump_reply :: "'a machine_scheme \<Rightarrow> address_writer \<Rightarrow> DHCP_Record \<Rightarrow> unit run" where
  "dump_reply lib addr_to_string r =
     (if dhcp_op r \<noteq> DHCP_OP_REPLY then Inr ()
      else run_bind (dhcp_dump lib addr_to_string r) (\<lambda>_. Inr ()))"

text \<open>\<open>handleDataMessage\<close>: the session data, and the request that is sent, if any.\<close>

definition discover_handleDataMessage ::
    "'a machine_scheme \<Rightarrow> address_writer \<Rightarrow> dhcp_configuration \<Rightarrow> discover_module \<Rightarrow> bool \<Rightarrow> DHCP_Record
     \<Rightarrow> dhcp_session \<Rightarrow> (dhcp_session \<times> DHCP_Record option) run" where
  "discover_handleDataMessage lib addr_to_string cfg d initialized r s =
     run_bind (ace_assert initialized) (\<lambda>_.
     run_bind (ace_assert (disc_connection d \<noteq> None)) (\<lambda>_.
     run_bind (server_address lib r s) (\<lambda>s.
     run_bind (if sendRequestOnOffer d then run_bind (dhcp_type r) (\<lambda>t. Inr (t = DHCP_MESSAGE_OFFER))
               else Inr False) (\<lambda>offer.
       if \<not> offer then run_bind (dump_reply lib addr_to_string r) (\<lambda>_. Inr (s, None))
       else if dhcp_xid r \<noteq> session_xid s then Inr (s, None)
       else run_bind (answer_offer lib cfg r) (\<lambda>request. Inr (s, request))))))"

section \<open>The client\<close>

text \<open>
  A message through the parser and the discover module. Only a message the parser has finished is
  initialized. A request goes through the streamer into a message of the given capacity.
\<close>

definition dhcp_client_receive ::
    "'a machine_scheme \<Rightarrow> address_writer \<Rightarrow> dhcp_configuration \<Rightarrow> discover_module \<Rightarrow> nat \<Rightarrow> byte list
     \<Rightarrow> dhcp_session \<Rightarrow> (dhcp_session \<times> byte list option) run" where
  "dhcp_client_receive lib addr_to_string cfg d capacity message s =
     run_bind (dhcp_parser_handleDataMessage lib addr_to_string True new_DHCP_Record message capacity) (\<lambda>res.
     run_bind (ace_assert (res \<noteq> None)) (\<lambda>_.
     run_bind (discover_handleDataMessage lib addr_to_string cfg d True (the res) s) (\<lambda>(s, request).
       case request of
         None \<Rightarrow> Inr (s, None)
       | Some q \<Rightarrow> run_bind (dhcp_handleDataMessage lib q [] capacity) (\<lambda>(bs, complete).
           Inr (s, Some bs)))))"

section \<open>References to the connection\<close>

definition references :: "nat \<Rightarrow> discover_call list \<Rightarrow> int" where
  "references c calls = int (count_list calls (Increase c)) - int (count_list calls (Decrease c))"

definition held :: "nat \<Rightarrow> discover_module \<Rightarrow> int" where
  "held c d = (if disc_connection d = Some c then 1 else 0)"

lemma references_append: "references c (xs @ ys) = references c xs + references c ys"
  by (simp add: references_def)

lemma references_calls [simp]:
  "references c [] = 0"
  "references c [Increase x] = (if x = c then 1 else 0)"
  "references c [Notify_abort] = 0"
  by (simp_all add: references_def)

lemma references_increase [simp]: "references c (increase x) = (if x = Some c then 1 else 0)"
  by (auto simp: references_def increase_def split: option.splits)

lemma references_decrease [simp]: "references c (decrease x) = (if x = Some c then - 1 else 0)"
  by (auto simp: references_def decrease_def split: option.splits)

text \<open>
  The module holds one reference to its connection and gives it back; a module that has not been
  initialized must hold none when it is.
\<close>

lemma discover_references:
  "disc_initialized d \<or> disc_connection d = None \<Longrightarrow>
     discover_initialize connection send d = (d', calls) \<Longrightarrow> held c d' = held c d + references c calls"
  "discover_session_begin connection d = (d', calls) \<Longrightarrow> held c d' = held c d + references c calls"
  "discover_session_end d = (d', calls) \<Longrightarrow> held c d' = held c d + references c calls"
  "held c d + references c (discover_destroy d) = 0"
  by (auto simp: discover_initialize_def discover_session_begin_def discover_session_end_def
      discover_destroy_def held_def references_append split: option.splits)

section \<open>The answer to an offer\<close>

lemma rfc_dhcp_options_values:
  "rfc_dhcp_options inp = Some opts \<Longrightarrow> (tag, value) \<in> set opts \<Longrightarrow> length value \<le> 255"
proof (induction inp arbitrary: opts rule: rfc_dhcp_options.induct)
  case (2 tag' rest)
  then show ?case
    using unat_byte_less [of "hd rest"] by (auto split: if_splits)
qed simp

lemma rfc_dhcp_message_bounds:
  assumes "rfc_dhcp_message m = Some x"
  shows "rd_xid x < 2 ^ 32" "rd_secs x < 2 ^ 16" "rd_op x < 2 ^ 32" "length (rd_yiaddr x) = 4"
    and "map_of (rd_options x) opt = Some value \<Longrightarrow> length value \<le> 255"
proof -
  have m: "240 \<le> length m" "rfc_dhcp_options (drop 240 m) = Some (rd_options x)"
    using assms by (auto simp: rfc_dhcp_message_def split: if_splits)
  then have "length (octets_at k n m) = n" if "k + n \<le> 240" for k n
    using that by (simp add: octets_at_def)
  then have "number 4 4 m < 256 ^ 4" "number 8 2 m < 256 ^ 2" "number 0 1 m < 256 ^ 1" "length (octets_at 16 4 m) = 4"
    using be_value_less [of "octets_at 4 4 m"] be_value_less [of "octets_at 8 2 m"] be_value_less [of "octets_at 0 1 m"]
    by (simp_all only:)
  then show "rd_xid x < 2 ^ 32" "rd_secs x < 2 ^ 16" "rd_op x < 2 ^ 32" "length (rd_yiaddr x) = 4"
    using assms by (auto simp: rfc_dhcp_message_def split: if_splits)
  show "map_of (rd_options x) opt = Some value \<Longrightarrow> length value \<le> 255"
    using rfc_dhcp_options_values [OF m(2)] by (blast dest: map_of_SomeD)
qed

text \<open>The request the protocol asks for: the offered address, and the server that offers it.\<close>

definition rfc_request_for ::
    "'a machine_scheme \<Rightarrow> dhcp_configuration \<Rightarrow> rfc_dhcp \<Rightarrow> byte list \<Rightarrow> byte list \<Rightarrow> rfc_dhcp" where
  "rfc_request_for lib cfg x lease server =
     \<lparr>rd_op = (if lsb_first lib then 1 else 0), rd_htype = 1, rd_hlen = 6, rd_hops = 0, rd_xid = rd_xid x,
      rd_secs = (if lsb_first lib then be_value (rev (be_octets 2 (rd_secs x))) else rd_secs x),
      rd_flags = (if requestBroadcastReplies cfg then 0x8000 else 0),
      rd_ciaddr = replicate 4 0, rd_yiaddr = replicate 4 0, rd_siaddr = replicate 4 0,
      rd_giaddr = replicate 4 0, rd_chaddr = link_layer_address cfg @ replicate 10 0, rd_sname = [],
      rd_file = [],
      rd_options = [(DHCP_OPTION_REQUESTEDIPADDRESS, rd_yiaddr x), (DHCP_OPTION_IPADDRESSLEASETIME, lease),
        (DHCP_OPTION_MESSAGETYPE, [DHCP_MESSAGE_REQUEST]), (DHCP_OPTION_SERVERIDENTIFIER, server)]\<rparr>"

lemma unat_native_word_2:
  assumes "n < 2 ^ 16"
  shows "unat (native_word le (be_octets 2 n) :: u16) = (if le then be_value (rev (be_octets 2 n)) else n)"
proof -
  have "be_value (rev (be_octets 2 n)) < 2 ^ 16" "be_value (be_octets 2 n) = n"
    using be_value_less [of "rev (be_octets 2 n)"] assms by (simp_all add: be_value_octets)
  then show ?thesis
    using assms native_word_rev [of "rev (be_octets 2 n)", where 'a = 16]
    by (auto simp: native_word_be unat_of_nat)
qed

lemma request_for_record:
  fixes lib :: "'a machine_scheme"
  assumes "rfc_dhcp_message m = Some x" "length (link_layer_address cfg) = 6" "length lease \<le> 255"
    "length server = 4"
  defines "q \<equiv> request_for lib cfg (dhcp_record_of lib x) lease server"
  shows "length (dhcp_chaddr q) = 16" "dhcp_fits q" "dhcp_plain q"
    and "dhcp_message_of lib q = rfc_request_for lib cfg x lease server"
proof -
  have yiaddr: "native_octets (lsb_first lib) 4 (native_word (lsb_first lib) (rd_yiaddr x) :: u32) = rd_yiaddr x"
    using native_octets_word [of "rd_yiaddr x" "lsb_first lib", where 'a = 32] rfc_dhcp_message_bounds(4) [OF assms(1)]
    by simp
  have options: "dhcp_options q = rd_options (rfc_request_for lib cfg x lease server)"
    by (simp add: q_def request_for_def dhcp_record_of_def new_DHCP_Record_def rfc_request_for_def yiaddr)
  have "be_octets 4 0 = replicate 4 0"
    using be_octets_zeros [of 0 0 4] by simp
  then show "dhcp_message_of lib q = rfc_request_for lib cfg x lease server"
    using options rfc_dhcp_message_bounds(1) [OF assms(1)] assms(2)
    by (simp add: dhcp_message_of_def rfc_request_for_def)
       (simp add: q_def request_for_def dhcp_record_of_def new_DHCP_Record_def unat_of_nat
          unat_native_word_2 [OF rfc_dhcp_message_bounds(2) [OF assms(1)]])
  show "length (dhcp_chaddr q) = 16" "dhcp_fits q" "dhcp_plain q"
    using assms(2-4) options rfc_dhcp_message_bounds(4) [OF assms(1)]
    by (simp_all add: dhcp_fits_def dhcp_plain_def rfc_request_for_def dhcp_option_wire_def)
       (simp_all add: q_def request_for_def new_DHCP_Record_def)
qed

text \<open>The address of the first server that is heard of is the one that is kept.\<close>

definition with_server :: "byte list \<Rightarrow> dhcp_session \<Rightarrow> dhcp_session" where
  "with_server value s =
     (if addr_ip (session_server s) \<noteq> 0 then s
      else s\<lparr>session_server := \<lparr>addr_ip = word_of_nat (be_value value), addr_port = 67\<rparr>\<rparr>)"

lemma server_address_set:
  assumes "machine_ok lib" "map_of (dhcp_options r) DHCP_OPTION_SERVERIDENTIFIER = Some value" "length value = 4"
  shows "server_address lib r s = Inr (with_server value s)"
proof -
  have "native_octets (lsb_first lib) 2 (if lsb_first lib then swap_word lib 67 else 67) = be_octets 2 67"
    using network_octets(1) [OF assms(1), of 67] by (simp add: network_16_def)
  then have "be_value (native_octets (lsb_first lib) 2 (if lsb_first lib then swap_word lib 67 else 67)) = 67"
    by (simp add: be_value_octets)
  moreover have "native_octets (lsb_first lib) 4 (native_word (lsb_first lib) value :: u32) = value"
    using native_octets_word [of "value" "lsb_first lib", where 'a = 32] assms(3) by simp
  ultimately show ?thesis
    using assms by (simp add: server_address_def set_network_def with_server_def)
qed

text \<open>An offer with the options RFC 2131 requires of it, for the transaction of the session.\<close>

definition rfc_offer :: "dhcp_session \<Rightarrow> rfc_dhcp \<Rightarrow> byte list \<Rightarrow> byte list \<Rightarrow> bool" where
  "rfc_offer s x lease server \<longleftrightarrow>
     rd_op x = 2 \<and> rd_htype x \<noteq> 0 \<and> rd_hlen x \<noteq> 0 \<and> rd_xid x \<noteq> 0 \<and> rd_xid x = unat (session_xid s)
     \<and> map_of (rd_options x) DHCP_OPTION_MESSAGETYPE = Some [2]
     \<and> map_of (rd_options x) DHCP_OPTION_IPADDRESSLEASETIME = Some lease
     \<and> map_of (rd_options x) DHCP_OPTION_SERVERIDENTIFIER = Some server \<and> length server = 4"

text \<open>A client that is set up to answer offers, with room for the messages.\<close>

definition client_ready :: "dhcp_configuration \<Rightarrow> discover_module \<Rightarrow> nat \<Rightarrow> bool" where
  "client_ready cfg d capacity \<longleftrightarrow>
     disc_connection d \<noteq> None \<and> sendRequestOnOffer d \<and> message_allocated cfg
     \<and> length (link_layer_address cfg) = 6 \<and> 576 \<le> capacity"

lemma offer_answered:
  assumes "machine_ok lib" "rfc_dhcp_message m = Some x" "rfc_offer s x lease server"
    "client_ready cfg d capacity" "length m + 2 \<le> capacity"
  shows "\<exists>octets. dhcp_client_receive lib addr_to_string cfg d capacity m s =
      Inr (with_server server s, Some octets)
    \<and> rfc_dhcp_message octets = Some (rfc_request_for lib cfg x lease server)"
proof -
  let ?r = "dhcp_record_of lib x"
  let ?q = "request_for lib cfg ?r lease server"
  have "length lease \<le> 255"
    using rfc_dhcp_message_bounds(5) [OF assms(2)] assms(3) unfolding rfc_offer_def by blast
  then have q: "length (dhcp_chaddr ?q) = 16" "dhcp_fits ?q" "dhcp_plain ?q"
    "dhcp_message_of lib ?q = rfc_request_for lib cfg x lease server"
    using assms(3,4) request_for_record [OF assms(2), of cfg lease server lib]
    by (simp_all add: rfc_offer_def client_ready_def)
  have parsed: "dhcp_parser_handleDataMessage lib addr_to_string True new_DHCP_Record m capacity = Inr (Some ?r)"
    using dhcp_parse_stored [OF assms(1,2)] assms(3,5) by (simp add: dhcp_parser_handleDataMessage_def rfc_offer_def)
  have options: "map_of (dhcp_options ?r) opt = map_of (rd_options x) opt" for opt
    by (simp add: dhcp_record_of_def map_of_insert_all)
  have "discover_handleDataMessage lib addr_to_string cfg d True ?r s =
      Inr (with_server server s, Some ?q)"
    using assms(1,3,4) server_address_set [of lib ?r server s] options
    by (simp add: discover_handleDataMessage_def dhcp_type_def first_of_def answer_offer_def assert_option_def
        rfc_offer_def client_ready_def)
       (simp add: dhcp_record_of_def with_server_def)
  moreover have "dhcp_handleDataMessage lib ?q [] capacity = Inr (dhcp_wire lib ?q, True)"
    using dhcp_handleDataMessage_wire [OF assms(1) q(1,2)] assms(4) by (simp add: client_ready_def)
  ultimately show ?thesis
    using rfc_dhcp_message_wire [OF q(1-3), of lib] q(4) parsed by (simp add: dhcp_client_receive_def)
qed

section \<open>Properties\<close>

text \<open>C8: An offer of RFC 2131 for the transaction of the session is answered: the client sends the
  request for the offered address that names the server, and notes the address of the first server.
  On a little endian machine the octets of \<open>secs\<close> are swapped; on a big endian one the operation is
  sent as zero, which no server accepts.\<close>

theorem dhcp_offer_answered:
  assumes "machine_ok lib" "rfc_dhcp_message m = Some x" "rfc_offer s x lease server"
    "client_ready cfg d capacity" "length m + 2 \<le> capacity"
  shows "\<exists>octets. dhcp_client_receive lib addr_to_string cfg d capacity m s =
      Inr (with_server server s, Some octets)
    \<and> rfc_dhcp_message octets = Some (rfc_request_for lib cfg x lease server)"
  using assms by (rule offer_answered)

text \<open>
  Every offer is answered, also that of a second server: the client asks both for the address each has
  offered, while the session keeps the address of the first.
\<close>

lemma second_offer_answered:
  assumes "machine_ok lib" "client_ready cfg d capacity"
    "rfc_dhcp_message m1 = Some x1" "rfc_offer s x1 lease1 server1" "length m1 + 2 \<le> capacity"
    "rfc_dhcp_message m2 = Some x2" "rfc_offer s x2 lease2 server2" "length m2 + 2 \<le> capacity"
    "be_value server1 \<noteq> 0"
  shows "\<exists>q1 q2 s1. dhcp_client_receive lib addr_to_string cfg d capacity m1 s = Inr (s1, Some q1)
    \<and> dhcp_client_receive lib addr_to_string cfg d capacity m2 s1 = Inr (s1, Some q2)
    \<and> rfc_dhcp_message q1 = Some (rfc_request_for lib cfg x1 lease1 server1)
    \<and> rfc_dhcp_message q2 = Some (rfc_request_for lib cfg x2 lease2 server2)"
proof -
  let ?s = "with_server server1 s"
  have "be_value server1 < 256 ^ 4"
    using be_value_less [of server1] assms(4) by (simp add: rfc_offer_def)
  then have "unat (word_of_nat (be_value server1) :: u32) \<noteq> 0"
    using assms(9) by (simp add: unat_of_nat)
  then have "addr_ip (session_server ?s) \<noteq> 0"
    by (auto simp: with_server_def)
  moreover have "session_xid ?s = session_xid s"
    by (simp add: with_server_def)
  ultimately have "with_server server2 ?s = ?s" "rfc_offer ?s x2 lease2 server2"
    using assms(7) by (simp_all add: with_server_def [of server2] rfc_offer_def)
  then show ?thesis
    using offer_answered [OF assms(1,3,4,2,5)] offer_answered [OF assms(1,6) _ assms(2,8), of ?s lease2 server2]
    by metis
qed

theorem dhcp_offer_answered_witness:
  "\<exists>octets. dhcp_client_receive dhcp_example_machine (\<lambda>port ip. None)
       \<lparr>requestBroadcastReplies = True, link_layer_address = [0, 5, 60, 4, 141, 89], message_allocated = True\<rparr>
       \<lparr>disc_initialized = True, disc_connection = Some 1, sendRequestOnOffer = True\<rparr> 1024 example_offer_octets
       \<lparr>session_server = any_address, session_xid = 0x3903F326\<rparr>
     = Inr (with_server [192, 168, 1, 1] \<lparr>session_server = any_address, session_xid = 0x3903F326\<rparr>, Some octets)
     \<and> rfc_dhcp_message octets = Some (rfc_request_for dhcp_example_machine
         \<lparr>requestBroadcastReplies = True, link_layer_address = [0, 5, 60, 4, 141, 89], message_allocated = True\<rparr>
         example_offer_message [0, 1, 81, 128] [192, 168, 1, 1])"
  by (rule dhcp_offer_answered [OF dhcp_example_machine_ok(1) example_offer(1)])
     (simp_all add: rfc_offer_def client_ready_def example_offer_fields example_offer(2))

end
