(* ===== verification/Spec2Isabelle.thy ===== *)
theory Spec2Isabelle
  imports Bittorrent_Peers Web_Socket Smtp_Dialogue Irc_Tools State_Machines Connection_Manager Ftp_Tools Pcp_Responses Pop_Session
    Dhcp_Session
begin

text \<open>
  ACENetwork is a C++ library of network protocol clients and servers on top of ACE: connections
  and their manager (\<open>src/net_*\<close>), connectors and listeners (\<open>src/client_server\<close>), one directory per
  protocol (\<open>src/protocol\<close>: BitTorrent, DHCP, FTP, HTTP, IRC, PCP, POP, SMTP, SSDP, WebSocket) and
  wireless monitoring (\<open>src/wlan\<close>). This development models the parts that hold the library's own
  logic and proves what makes them correct. The theories and the code they model:

  \<^item> \<open>Net_Prelude\<close>: machine integers, faults, the operations of \<open>std::string\<close> and of the number
    stream inserters and extractors, and the interface \<open>name_codec\<close> of pairs of name tables.
  \<^item> \<open>Std_Regex\<close>: backtracking semantics of the \<open>std::regex\<close> constructs the sources use.
  \<^item> \<open>Bittorrent_Pieces\<close> (\<open>protocol/p2p/bittorrent/bittorrent_tools.cpp\<close>): which data of a piece has
    arrived, which blocks to request, merging of overlapping chunks. Requests tile what is
    missing, merging keeps content and order.
  \<^item> \<open>Bittorrent_Wire\<close> (\<open>bittorrent_module_streamer.inl\<close>, \<open>bittorrent_scanner.cpp\<close>,
    \<open>bittorrent_parser.cpp\<close>, \<open>bittorrent_module_parser.inl\<close>): the peer wire protocol. What one peer
    streams, another reads back; messages are cut off the received buffers where the scanner
    stopped.
  \<^item> \<open>Bencoding\<close> (\<open>bittorrent_bencoding_scanner.cpp\<close>, \<open>bittorrent_bencoding_parser.cpp\<close>,
    \<open>bittorrent_bencoding_parser_driver.cpp\<close>): the parser of torrent files. It builds the encoded
    value in the driver's heap and never fails on any input.
  \<^item> \<open>Bittorrent_Files\<close> (\<open>bittorrent_tools.cpp\<close>): meta information, piece files and the assembly of the
    shared files. Saved pieces are found again and put together in the right order.
  \<^item> \<open>Bittorrent_Session\<close> (\<open>bittorrent_session.inl\<close>, \<open>bittorrent_network.h\<close>, \<open>net_session_base.inl\<close>): the
    state a session keeps of its torrent, its connections and its peers, and its operations:
    connections, the messages of a peer, requests, serving of blocks. \<open>Bittorrent_Tracker\<close> adds the
    connections to trackers and their responses. \<open>Bittorrent_Download\<close> refines
    a download to the set of the blocks that have arrived: it completes in any order of blocks and other
    messages (\<open>well_behaved\<close>), requests for complete pieces aside.
    \<open>Bittorrent_Peers\<close> holds what is true whatever a peer sends: only verified pieces reach the disk,
    connections are accounted for over all histories of peers, trackers and commands
    (\<open>session_history\<close>); and what a session does not survive: requests for stored pieces
    and indexes out of range.
  \<^item> \<open>Http_Tools\<close> (\<open>protocol/http/http_tools.cpp\<close>, \<open>http_module_streamer.inl\<close>): names, URLs and their
    encoding, headers and the text of a message.
  \<^item> \<open>Web_Socket\<close> (\<open>protocol/ws\<close>): the frames the client writes, the scanner rules and the module that
    takes received frames apart, against a reference decoder of RFC 6455. Frames of one byte and
    frames with a 64-bit length are misread, and so is the first octet of the next frame when the
    scanner works in place.
  \<^item> \<open>Smtp_Dialogue\<close> (\<open>protocol/smtp\<close>: \<open>smtp_module_send.inl\<close>, \<open>smtp_module_streamer.inl\<close>,
    \<open>smtp_tools.cpp\<close>): the client that answers each reply with the next command and the text of the
    commands. Run against a reference server of RFC 5321 it delivers its mail; for any replies
    it keeps the order of a transaction. Rejected commands, failed sends and a dot in the data
    break it.
  \<^item> \<open>Irc_Numerics\<close>, \<open>Irc_Tools\<close> (\<open>protocol/irc/irc_tools.cpp\<close>, \<open>irc_record.cpp\<close>): reply codes,
    commands, modes, merging of user and channel modes, message text.
  \<^item> \<open>State_Machines\<close> (\<open>irc_statemachine_registration.cpp\<close>, \<open>wlan/net_wlan_monitor_statemachine.cpp\<close>):
    the transitions both machines allow, as guarded machines with reachability; the monitor also on a
    base that queues the transitions and enters them later.
  \<^item> \<open>Connection_Manager\<close> (\<open>net_connection_manager.inl\<close>, \<open>net_connection_base.inl\<close>): the registry of
    open connections, its invariant over all operations and the loops that abort connections, during
    which woken handlers and other threads deregister.
  \<^item> \<open>Net_Addresses\<close> (\<open>net_common_tools.cpp\<close>): recognition and conversion of addresses and URLs.
  \<^item> \<open>Net_Byte_Order\<close>: octets and numbers in network byte order, what the swapping macros amount to, and
    the steps by which a streamer module fills a message block; \<open>Net_Dump\<close>: texts of codes and records.
  \<^item> \<open>Pcp_Wire\<close> (\<open>protocol/pcp/pcp_module_streamer.inl\<close>, \<open>pcp_common.h\<close>), \<open>Pcp_Tools\<close> (\<open>pcp_tools.cpp\<close>),
    \<open>Pcp_Session\<close> (\<open>pcp_session.inl\<close>): the port control client. What it sends is read back by a
    decoder of RFC 6887 and RFC 7652, the reserved bits and what big endian machines lose apart. \<open>Pcp_Parser\<close> (\<open>pcp_scanner.cpp\<close>,
    \<open>pcp_parser.cpp\<close>, \<open>pcp_parser_driver.cpp\<close>, \<open>pcp_module_parser.inl\<close>): scanner, grammar and driver of the
    responses; \<open>Pcp_Responses\<close>: every response of a server is stored as it was sent, in which mode of the
    scanner, with which allocator, and what a truncated one leads to.
  \<^item> \<open>Pop_Replies\<close> (\<open>protocol/pop/pop_scanner.cpp\<close>, \<open>pop_parser.cpp\<close>, \<open>pop_parser_driver.inl\<close>), \<open>Pop_Client\<close>
    (\<open>pop_tools.cpp\<close>, \<open>pop_module_send.inl\<close>, \<open>pop_module_streamer.inl\<close>) and \<open>Pop_Session\<close>: the POP3 client, run
    against a server after RFC 1939. \<open>Net_Lines\<close> holds the lines of octets it shares with SMTP.
  \<^item> \<open>Dhcp_Wire\<close> (\<open>protocol/dhcp/dhcp_common.h\<close>, \<open>dhcp_module_streamer.inl\<close>), \<open>Dhcp_Tools\<close> (\<open>dhcp_tools.cpp\<close>),
    \<open>Dhcp_Parser\<close> (\<open>dhcp_scanner.cpp\<close>, \<open>dhcp_parser.cpp\<close>, \<open>dhcp_parser_driver.cpp\<close>, \<open>dhcp_module_parser.inl\<close>) and
    \<open>Dhcp_Session\<close> (\<open>dhcp_module_discover.inl\<close>): the DHCP client. It agrees with a decoder of RFC 2131
    on every message that decoder accepts, and answers an offer with the request for it; options that
    do not fit the streamer's buffers or run out of the message are faults.
  \<^item> \<open>Ftp_Tools\<close> (\<open>protocol/ftp/ftp_tools.cpp\<close>): names, protocol states and data addresses.

  Conventions. A failing \<open>ACE_ASSERT\<close>, an access outside a container or through a null pointer is a
  fault, the left summand of \<open>'a run\<close>; an error the code reports is the value it returns. Code of
  other libraries is a parameter: the byte order and \<open>ACE_SWAP_LONG\<close> (\<open>platform\<close>), the base classes
  of the state machines (\<open>base_change\<close>, \<open>asynch_library\<close>), reference counting and the callbacks of a connection
  (\<open>manager_library\<close>), comparison of header names (\<open>same_key\<close>), files
  and directories (\<open>files_env\<close>), the connections, hash functions, random numbers and configuration of
  a BitTorrent session (\<open>session_env\<close>), buffers and byte order of WebSocket (\<open>ws_library\<close>),
  addresses, Base64 and time of SMTP (\<open>smtp_env\<close>), byte order, blocks of memory and the interface of
  PCP (\<open>pcp_library\<close>, \<open>pcp_environment\<close>) and of DHCP (\<open>machine\<close>, \<open>dhcp_configuration\<close>). Loops
  are recursive functions with a termination proof; aborting all connections, which may wait for ever, and the
  dispatch of WebSocket frames, which depends on a library, are partial functions, with theorems
  that they return. Only the dialogues of the SMTP and POP3 clients
  with their reference servers count their turns; the theorems give the number that suffices.

  Not modelled: sockets, reactor and proactor, streams and message allocation, threads and locks,
  configuration files, user interfaces, operating system back ends, and the tables of the generated
  scanners and parsers, whose rules and actions are modelled instead.
\<close>

end
